(* ===== verification/Prelude.thy ===== *)
theory Prelude
  imports Main "HOL-Library.Signed_Division"
begin

text \<open>
  Shared vocabulary of the development: Go slices (where \<open>nil\<close> and the empty slice differ),
  signed 64-bit integers with wrap-around, the hexadecimal identifiers of
  \<^verbatim>\<open>common/utils/utils.go\<close>, results that carry an error, and the collections of facts the
  component theories extend.
\<close>

section \<open>Fact collections\<close>

named_theorems go_defs \<open>definitions of the small getters that proofs unfold\<close>
named_theorems mono_intros \<open>facts that an operation never lowers a counter\<close>

section \<open>Slices\<close>

text \<open>
  A Go slice: \<open>None\<close> is \<open>nil\<close>, \<open>Some xs\<close> a slice with the elements \<open>xs\<close>. The code
  distinguishes the two with \<open>== nil\<close>; \<open>len\<close>, \<open>range\<close> and \<open>bytes.Equal\<close> do not.
\<close>

type_synonym 'a slice = "'a list option"
type_synonym bytes = "char slice"

definition elems :: "'a slice \<Rightarrow> 'a list" where
  "elems s = (case s of None \<Rightarrow> [] | Some xs \<Rightarrow> xs)"

lemma elems_simps [simp]: "elems None = []" "elems (Some xs) = xs"
  by (simp_all add: elems_def)

definition bytes_Equal :: "bytes \<Rightarrow> bytes \<Rightarrow> bool" where
  "bytes_Equal a b \<longleftrightarrow> elems a = elems b"

lemma bytes_Equal_refl [simp]: "bytes_Equal a a"
  by (simp add: bytes_Equal_def)

lemma bytes_Equal_sym: "bytes_Equal a b \<Longrightarrow> bytes_Equal b a"
  by (simp add: bytes_Equal_def)

lemma bytes_Equal_trans [trans]: "bytes_Equal a b \<Longrightarrow> bytes_Equal b c \<Longrightarrow> bytes_Equal a c"
  by (simp add: bytes_Equal_def)

section \<open>Signed 64-bit integers\<close>

text \<open>
  An \<open>int64\<close> is an \<open>int\<close>; every sum or difference the code computes is passed through
  \<open>i64\<close>, which wraps it into the range as the machine does.
\<close>

definition i64 :: "int \<Rightarrow> int" where
  "i64 x = (x + 2 ^ 63) mod 2 ^ 64 - 2 ^ 63"

definition in_i64 :: "int \<Rightarrow> bool" where
  "in_i64 x \<longleftrightarrow> - (2 ^ 63) \<le> x \<and> x < 2 ^ 63"

lemma i64_id: "in_i64 x \<Longrightarrow> i64 x = x"
  by (simp add: i64_def in_i64_def)

lemma in_i64_i64 [simp, intro]: "in_i64 (i64 x)"
  by (simp add: i64_def in_i64_def)

lemma i64_small [simp]: "- 1000000000 \<le> x \<Longrightarrow> x \<le> 1000000000 \<Longrightarrow> i64 x = x"
  by (rule i64_id) (simp add: in_i64_def)

lemma i64_absorb [simp]: "i64 (i64 a + b) = i64 (a + b)" "i64 (i64 a - b) = i64 (a - b)"
  by (simp_all add: i64_def mod_simps algebra_simps)

section \<open>Hexadecimal identifiers\<close>

definition hexdigit :: "nat \<Rightarrow> char" where
  "hexdigit n = ''0123456789abcdef'' ! n"

definition unhex :: "char \<Rightarrow> nat option" where
  "unhex c = (let n = of_char c :: nat in
     if 48 \<le> n \<and> n \<le> 57 then Some (n - 48)
     else if 97 \<le> n \<and> n \<le> 102 then Some (n - 87)
     else if 65 \<le> n \<and> n \<le> 70 then Some (n - 55)
     else None)"

text \<open>\<open>utils.F\<close> prints a byte slice with \<open>%x\<close>; \<open>utils.DecodeId\<close> reads it back, \<open>nil\<close> on error.\<close>

definition F :: "bytes \<Rightarrow> string" where
  "F b = concat (map (\<lambda>c. let n = of_char c :: nat
                           in [hexdigit (n div 16), hexdigit (n mod 16)]) (elems b))"

fun hex_DecodeString :: "string \<Rightarrow> string option" where
  "hex_DecodeString [] = Some []"
| "hex_DecodeString [c] = None"
| "hex_DecodeString (a # b # cs) =
     (case (unhex a, unhex b, hex_DecodeString cs) of
        (Some x, Some y, Some r) \<Rightarrow> Some (char_of (16 * x + y) # r)
      | _ \<Rightarrow> None)"

definition DecodeId :: "string \<Rightarrow> bytes" where
  "DecodeId str = (case hex_DecodeString str of None \<Rightarrow> None | Some raw \<Rightarrow> Some raw)"

lemma unhex_hexdigit [simp]:
  assumes "n < 16"
  shows "unhex (hexdigit n) = Some n"
proof -
  have "\<forall>n \<in> set [0..<16]. unhex (hexdigit n) = Some n"
    by code_simp
  with assms show ?thesis by simp
qed

lemma DecodeId_F: "DecodeId (F b) = Some (elems b)"
proof -
  have "hex_DecodeString (concat (map (\<lambda>c. let n = of_char c :: nat
      in [hexdigit (n div 16), hexdigit (n mod 16)]) xs)) = Some xs" for xs
  proof (induction xs)
    case (Cons c xs)
    have "of_char c div 16 < (16::nat)"
      using nat_of_char_less_256 [of c] by linarith
    then show ?case using Cons.IH by (simp add: Let_def)
  qed simp
  then show ?thesis by (simp add: F_def DecodeId_def)
qed

lemma F_eq_iff [simp]: "F a = F b \<longleftrightarrow> bytes_Equal a b"
  unfolding bytes_Equal_def using DecodeId_F F_def by (metis option.inject)

section \<open>Step systems\<close>

text \<open>
  The handlers of a component are steps of a transition system. A quantity that no step
  lowers is never lower at the end of a run than at its start, and a predicate that every
  step keeps holds along every run. Both are proved once, for any step relation.
\<close>

inductive run :: "('s \<Rightarrow> 's \<Rightarrow> bool) \<Rightarrow> 's \<Rightarrow> 's \<Rightarrow> bool" for step where
  run_refl: "run step s s"
| run_step: "run step s t \<Longrightarrow> step t u \<Longrightarrow> run step s u"

lemma run_one: "step s t \<Longrightarrow> run step s t"
  by (rule run_step [OF run_refl])

lemma run_trans: "run step t u \<Longrightarrow> run step s t \<Longrightarrow> run step s u"
  by (induction rule: run.induct) (auto intro: run_step)

locale monotone_counter =
  fixes step :: "'s \<Rightarrow> 's \<Rightarrow> bool"
    and counter :: "'s \<Rightarrow> int"
  assumes step_mono: "step s t \<Longrightarrow> counter s \<le> counter t"

locale step_invariant =
  fixes step :: "'s \<Rightarrow> 's \<Rightarrow> bool"
    and inv :: "'s \<Rightarrow> bool"
  assumes step_inv: "step s t \<Longrightarrow> inv s \<Longrightarrow> inv t"
begin

lemma run_inv: "run step s t \<Longrightarrow> inv s \<Longrightarrow> inv t"
  by (induction rule: run.induct) (auto dest: step_inv)

end

text \<open>The general form: a preorder that every step respects relates the ends of every run.\<close>

locale monotone_relation =
  fixes step :: "'s \<Rightarrow> 's \<Rightarrow> bool"
    and rel :: "'s \<Rightarrow> 's \<Rightarrow> bool"
  assumes step_rel: "step s t \<Longrightarrow> rel s t"
    and rel_refl: "rel s s"
    and rel_trans: "rel s t \<Longrightarrow> rel t u \<Longrightarrow> rel s u"
begin

lemma run_rel: "run step s t \<Longrightarrow> rel s t"
  by (induction rule: run.induct) (auto intro: rel_refl dest: step_rel rel_trans)

end

sublocale monotone_counter \<subseteq> order: monotone_relation step "\<lambda>s t. counter s \<le> counter t"
  by unfold_locales (auto dest: step_mono)

end
