(* ===== verification/Quorum.thy ===== *)
theory Quorum
  imports Prelude
begin

text \<open>
  Quorum certificates, \<^verbatim>\<open>consensus/chainbft/quorum/qccert.go\<close> and \<^verbatim>\<open>qcstorage.go\<close>: what
  a certificate says, its getters, and the conversion between the certificate of the running
  state machine and the protobuf certificate that blocks store.

  JSON and protobuf texts are represented by the value they decode to: a storage argument of
  type \<open>consensus_storage option\<close> is \<open>None\<close> for a text \<open>json.Unmarshal\<close> rejects. The protobuf
  codec of the nested certificate is a parameter of the two conversions.
\<close>

section \<open>Certificates\<close>

record vote_info =
  ProposalId :: bytes
  ProposalView :: int
  ParentId :: bytes
  ParentView :: int

record ledger_commit_info =
  CommitStateId :: bytes
  VoteInfoHash :: bytes

record quorum_cert_sign =
  Address :: string
  PublicKey :: string
  Sign :: bytes

record quorum_cert =
  VoteInfo :: vote_info
  LedgerCommitInfo :: "ledger_commit_info option"
  SignInfos :: "quorum_cert_sign slice"

definition NewQuorumCert ::
    "vote_info \<Rightarrow> ledger_commit_info option \<Rightarrow> quorum_cert_sign slice \<Rightarrow> quorum_cert" where
  "NewQuorumCert v l s = \<lparr>VoteInfo = v, LedgerCommitInfo = l, SignInfos = s\<rparr>"

definition GetProposalView :: "quorum_cert \<Rightarrow> int" where
  "GetProposalView qc = ProposalView (VoteInfo qc)"

definition GetProposalId :: "quorum_cert \<Rightarrow> bytes" where
  "GetProposalId qc = ProposalId (VoteInfo qc)"

definition GetParentProposalId :: "quorum_cert \<Rightarrow> bytes" where
  "GetParentProposalId qc = ParentId (VoteInfo qc)"

definition GetParentView :: "quorum_cert \<Rightarrow> int" where
  "GetParentView qc = ParentView (VoteInfo qc)"

definition GetSignsInfo :: "quorum_cert \<Rightarrow> quorum_cert_sign slice" where
  "GetSignsInfo qc = SignInfos qc"

lemmas qc_getters [go_defs] =
  GetProposalView_def GetProposalId_def GetParentProposalId_def GetParentView_def
  GetSignsInfo_def NewQuorumCert_def

section \<open>Blocks, as consensus sees them\<close>

text \<open>The part of \<open>ledger.BlockHandle\<close> that the chained BFT code reads.\<close>

record block_handle =
  GetBlockid :: bytes
  GetHeight :: int
  GetPreHash :: bytes

section \<open>Stored certificates\<close>

record sign_info =
  si_Address :: string
  si_PublicKey :: string
  si_Sign :: bytes

record old_quorum_cert =
  old_ProposalId :: bytes
  old_ProposalMsg :: bytes
  old_ViewNumber :: int
  old_SignInfos :: "sign_info slice option"

record consensus_storage =
  Justify :: "old_quorum_cert option"
  CurTerm :: int
  CurBlockNum :: int
  TargetBits :: int

datatype storage_error = JsonError | ProtoError | InvalidJustify

definition ParseOldQCStorage :: "consensus_storage option \<Rightarrow> storage_error + consensus_storage" where
  "ParseOldQCStorage storage = (case storage of None \<Rightarrow> Inl JsonError | Some old \<Rightarrow> Inr old)"

text \<open>A loop that appends to a slice declared with \<open>var\<close> leaves it \<open>nil\<close> when nothing is appended.\<close>

definition collected :: "'a list \<Rightarrow> 'a slice" where
  "collected xs = (if xs = [] then None else Some xs)"

lemma elems_collected [simp]: "elems (collected xs) = xs"
  by (simp add: collected_def)

definition OldSignToNew :: "consensus_storage option \<Rightarrow> quorum_cert_sign slice" where
  "OldSignToNew storage =
     (case ParseOldQCStorage storage of
        Inl _ \<Rightarrow> None
      | Inr oldS \<Rightarrow>
          (case Justify oldS of
             None \<Rightarrow> None
           | Some oldQC \<Rightarrow>
               (case old_SignInfos oldQC of
                  None \<Rightarrow> None
                | Some old \<Rightarrow>
                    collected (map (\<lambda>s. \<lparr>Address = si_Address s, PublicKey = si_PublicKey s,
                                         Sign = si_Sign s\<rparr>) (elems old)))))"

definition NewSignToOld :: "quorum_cert_sign slice \<Rightarrow> sign_info slice" where
  "NewSignToOld new =
     collected (map (\<lambda>s. \<lparr>si_Address = Address s, si_PublicKey = PublicKey s,
                          si_Sign = Sign s\<rparr>) (elems new))"

definition OldQCToNew ::
    "(bytes \<Rightarrow> old_quorum_cert option) \<Rightarrow> consensus_storage option \<Rightarrow> storage_error + quorum_cert" where
  "OldQCToNew proto_Unmarshal store =
     (case ParseOldQCStorage store of
        Inl err \<Rightarrow> Inl err
      | Inr oldS \<Rightarrow>
          (case Justify oldS of
             None \<Rightarrow> Inl InvalidJustify
           | Some oldQC \<Rightarrow>
               (case proto_Unmarshal (old_ProposalMsg oldQC) of
                  None \<Rightarrow> Inl ProtoError
                | Some justifyQC \<Rightarrow>
                    Inr (NewQuorumCert
                      \<lparr>ProposalId = old_ProposalId oldQC, ProposalView = old_ViewNumber oldQC,
                       ParentId = old_ProposalId justifyQC, ParentView = old_ViewNumber justifyQC\<rparr>
                      None (OldSignToNew store)))))"

definition NewToOldQC ::
    "(old_quorum_cert \<Rightarrow> bytes option) \<Rightarrow> quorum_cert \<Rightarrow> storage_error + old_quorum_cert" where
  "NewToOldQC proto_Marshal new =
     (let oldParentQC = \<lparr>old_ProposalId = ParentId (VoteInfo new), old_ProposalMsg = None,
                         old_ViewNumber = ParentView (VoteInfo new), old_SignInfos = None\<rparr>
      in case proto_Marshal oldParentQC of
           None \<Rightarrow> Inl ProtoError
         | Some b \<Rightarrow>
             Inr \<lparr>old_ProposalId = ProposalId (VoteInfo new), old_ProposalMsg = b,
                  old_ViewNumber = ProposalView (VoteInfo new),
                  old_SignInfos = Some (NewSignToOld (GetSignsInfo new))\<rparr>)"

section \<open>A stored certificate reads back\<close>

text \<open>
  What the code relies on of the protobuf codec: a certificate that carries only an id and a
  view reads back with that view and with the same id bytes. Protobuf does not keep the
  difference between \<open>nil\<close> and empty bytes.
\<close>

definition parent_codec ::
    "(old_quorum_cert \<Rightarrow> bytes option) \<Rightarrow> (bytes \<Rightarrow> old_quorum_cert option) \<Rightarrow> bool" where
  "parent_codec proto_Marshal proto_Unmarshal \<longleftrightarrow>
     (\<forall>pid view b.
        proto_Marshal \<lparr>old_ProposalId = pid, old_ProposalMsg = None, old_ViewNumber = view,
                       old_SignInfos = None\<rparr> = Some b \<longrightarrow>
        (\<exists>q. proto_Unmarshal b = Some q \<and> bytes_Equal (old_ProposalId q) pid \<and>
             old_ViewNumber q = view))"

lemma sign_eta [simp]:
  "map (\<lambda>x. \<lparr>Address = Address x, PublicKey = PublicKey x, Sign = Sign x\<rparr>) xs = xs"
  by (induction xs) simp_all

lemma sign_conversions_inverse:
  "elems (OldSignToNew (Some (cs\<lparr>Justify := Some (oldQC\<lparr>old_SignInfos := Some (NewSignToOld ss)\<rparr>)\<rparr>)))
     = elems ss"
  by (simp add: OldSignToNew_def NewSignToOld_def ParseOldQCStorage_def comp_def)

text \<open>A codec with these properties, for the sample certificate below: the view in unary, then the id.\<close>

definition unary_Marshal :: "old_quorum_cert \<Rightarrow> bytes option" where
  "unary_Marshal q =
     Some (Some ((if old_ViewNumber q < 0 then CHR ''-'' else CHR ''+'')
                 # replicate (nat \<bar>old_ViewNumber q\<bar>) CHR ''1'' @ CHR ''|'' # elems (old_ProposalId q)))"

definition unary_Unmarshal :: "bytes \<Rightarrow> old_quorum_cert option" where
  "unary_Unmarshal b =
     (case elems b of
        [] \<Rightarrow> None
      | c # cs \<Rightarrow>
          (let n = int (length (takeWhile (\<lambda>x. x = CHR ''1'') cs))
           in Some \<lparr>old_ProposalId = Some (tl (dropWhile (\<lambda>x. x = CHR ''1'') cs)), old_ProposalMsg = None,
                    old_ViewNumber = (if c = CHR ''-'' then - n else n), old_SignInfos = None\<rparr>))"

lemma unary_codec: "parent_codec unary_Marshal unary_Unmarshal"
  by (auto simp: parent_codec_def unary_Marshal_def unary_Unmarshal_def Let_def bytes_Equal_def
      takeWhile_append dropWhile_append)

text \<open>
  A certificate written to a block with \<open>NewToOldQC\<close> and read back with \<open>OldQCToNew\<close> has the
  same id, view, parent id, parent view and signatures.
\<close>

theorem stored_qc_reads_back:
  assumes "parent_codec proto_Marshal proto_Unmarshal"
    and "NewToOldQC proto_Marshal qc = Inr oldQC"
  shows "\<exists>qc'. OldQCToNew proto_Unmarshal (Some (cs\<lparr>Justify := Some oldQC\<rparr>)) = Inr qc' \<and>
           GetProposalId qc' = GetProposalId qc \<and> GetProposalView qc' = GetProposalView qc \<and>
           bytes_Equal (GetParentProposalId qc') (GetParentProposalId qc) \<and>
           GetParentView qc' = GetParentView qc \<and>
           elems (GetSignsInfo qc') = elems (GetSignsInfo qc)"
proof -
  from assms(2) obtain b where
    b: "proto_Marshal \<lparr>old_ProposalId = ParentId (VoteInfo qc), old_ProposalMsg = None,
          old_ViewNumber = ParentView (VoteInfo qc), old_SignInfos = None\<rparr> = Some b"
    and old: "oldQC = \<lparr>old_ProposalId = ProposalId (VoteInfo qc), old_ProposalMsg = b,
          old_ViewNumber = ProposalView (VoteInfo qc),
          old_SignInfos = Some (NewSignToOld (GetSignsInfo qc))\<rparr>"
    by (auto simp: NewToOldQC_def Let_def split: option.splits)
  from assms(1) b obtain q where
    "proto_Unmarshal b = Some q" "bytes_Equal (old_ProposalId q) (ParentId (VoteInfo qc))"
    "old_ViewNumber q = ParentView (VoteInfo qc)"
    unfolding parent_codec_def by blast
  then show ?thesis
    by (simp add: OldQCToNew_def ParseOldQCStorage_def OldSignToNew_def NewSignToOld_def old
        comp_def go_defs)
qed

theorem stored_qc_reads_back_witness:
  "\<exists>qc'. OldQCToNew unary_Unmarshal (Some \<lparr>Justify = Some
       \<lparr>old_ProposalId = Some ''B4'', old_ProposalMsg = Some ''+111|B3'', old_ViewNumber = 4,
        old_SignInfos = Some (Some [\<lparr>si_Address = ''n1'', si_PublicKey = ''k1'', si_Sign = Some ''s''\<rparr>])\<rparr>,
      CurTerm = 0, CurBlockNum = 0, TargetBits = 0\<rparr>) = Inr qc' \<and>
     GetParentView qc' = 3"
  using stored_qc_reads_back [OF unary_codec,
      of "NewQuorumCert \<lparr>ProposalId = Some ''B4'', ProposalView = 4, ParentId = Some ''B3'', ParentView = 3\<rparr> None
            (Some [\<lparr>Address = ''n1'', PublicKey = ''k1'', Sign = Some ''s''\<rparr>])"
        "\<lparr>old_ProposalId = Some ''B4'', old_ProposalMsg = Some ''+111|B3'', old_ViewNumber = 4,
          old_SignInfos = Some (Some [\<lparr>si_Address = ''n1'', si_PublicKey = ''k1'', si_Sign = Some ''s''\<rparr>])\<rparr>"
        "\<lparr>Justify = None, CurTerm = 0, CurBlockNum = 0, TargetBits = 0\<rparr>"]
  by (auto simp: NewToOldQC_def unary_Marshal_def NewSignToOld_def collected_def go_defs numeral_eq_Suc)

end
