(* ===== verification/QCTree.thy ===== *)
theory QCTree
  imports Quorum "HOL-Library.Monad_Syntax"
begin

text \<open>
  The pending tree of quorum certificates, \<^verbatim>\<open>consensus/chainbft/quorum/qctree.go\<close>.

  A \<open>*ProposalNode\<close> is a value of a tree datatype. The code never reads the \<open>Sons\<close> of a node
  through \<open>genesis\<close>, \<open>highQC\<close>, \<open>genericQC\<close>, \<open>lockedQC\<close> or \<open>commitQC\<close>, and never changes a
  certificate once it is in a node, so those pointers are represented by the certificate they
  point to. Nodes of the tree and of the orphan list are reached through one pointer only: a node
  given to \<open>UpdateQCStatus\<close> is either new or already in the tree, and in the second case nothing
  is inserted. The lock and the log lines are left out.
\<close>

section \<open>Nodes and search\<close>

datatype proposal_node = ProposalNode (node_QC: quorum_cert) (node_Sons: "proposal_node list")

abbreviation node_id :: "proposal_node \<Rightarrow> bytes" where
  "node_id n \<equiv> GetProposalId (node_QC n)"

abbreviation node_parent :: "proposal_node \<Rightarrow> bytes" where
  "node_parent n \<equiv> GetParentProposalId (node_QC n)"

fun dfsQuery :: "proposal_node \<Rightarrow> bytes \<Rightarrow> proposal_node option"
  and dfsQuerySons :: "proposal_node list \<Rightarrow> bytes \<Rightarrow> proposal_node option" where
  "dfsQuery (ProposalNode qc sons) target =
     (if target = None then None
      else if bytes_Equal (GetProposalId qc) target then Some (ProposalNode qc sons)
      else dfsQuerySons sons target)"
| "dfsQuerySons [] target = None"
| "dfsQuerySons (n # ns) target =
     (case dfsQuery n target of Some m \<Rightarrow> Some m | None \<Rightarrow> dfsQuerySons ns target)"

text \<open>
  An assignment through the pointer that \<open>dfsQuery\<close> returned changes the first node, in the order
  of the search, that carries the id. \<open>modifyFirst f\<close> is that assignment; \<open>None\<close> when there is no
  such node.
\<close>

fun modifyFirst :: "(proposal_node \<Rightarrow> proposal_node) \<Rightarrow> bytes \<Rightarrow> proposal_node \<Rightarrow> proposal_node option"
  and modifySons :: "(proposal_node \<Rightarrow> proposal_node) \<Rightarrow> bytes \<Rightarrow> proposal_node list
                       \<Rightarrow> proposal_node list option" where
  "modifyFirst f target (ProposalNode qc sons) =
     (if target = None then None
      else if bytes_Equal (GetProposalId qc) target then Some (f (ProposalNode qc sons))
      else map_option (ProposalNode qc) (modifySons f target sons))"
| "modifySons f target [] = None"
| "modifySons f target (n # ns) =
     (case modifyFirst f target n of
        Some n' \<Rightarrow> Some (n' # ns)
      | None \<Rightarrow> map_option ((#) n) (modifySons f target ns))"

definition addSon :: "proposal_node \<Rightarrow> proposal_node \<Rightarrow> proposal_node" where
  "addSon son n = ProposalNode (node_QC n) (node_Sons n @ [son])"

definition clearSons :: "proposal_node \<Rightarrow> proposal_node" where
  "clearSons n = ProposalNode (node_QC n) []"

text \<open>All nodes of a tree in the order of the search.\<close>

fun nodes :: "proposal_node \<Rightarrow> proposal_node list" where
  "nodes (ProposalNode qc sons) = ProposalNode qc sons # concat (map nodes sons)"

section \<open>The pending tree\<close>

record qc_pending_tree =
  genesis :: quorum_cert
  root :: proposal_node
  highQC :: quorum_cert
  genericQC :: "quorum_cert option"
  lockedQC :: "quorum_cert option"
  commitQC :: "quorum_cert option"
  orphanList :: "proposal_node list"
  orphanMap :: "string set"

datatype qc_error = ErrNoValidQC | ErrNoValidParentId

subsection \<open>Construction from the ledger\<close>

text \<open>
  \<open>QueryBlockHeaderByHeight\<close> of the ledger is the parameter \<open>query\<close>, \<open>None\<close> for an error;
  \<open>GetTipBlock\<close> is \<open>tip\<close>.
\<close>

definition NewTreeNode :: "(int \<Rightarrow> block_handle option) \<Rightarrow> int \<Rightarrow> proposal_node option" where
  "NewTreeNode query height =
     (case query height of
        None \<Rightarrow> None
      | Some b \<Rightarrow>
          (let ledgerInfo = \<lparr>CommitStateId = GetBlockid b, VoteInfoHash = None\<rparr>
           in case query (i64 (height - 1)) of
                None \<Rightarrow>
                  Some (ProposalNode (NewQuorumCert
                    \<lparr>ProposalId = GetBlockid b, ProposalView = GetHeight b,
                     ParentId = None, ParentView = 0\<rparr> (Some ledgerInfo) None) [])
              | Some pre \<Rightarrow>
                  Some (ProposalNode (NewQuorumCert
                    \<lparr>ProposalId = GetBlockid b, ProposalView = GetHeight b,
                     ParentId = GetBlockid pre, ParentView = GetHeight pre\<rparr> (Some ledgerInfo) None) [])))"

text \<open>
  \<open>InitNil\<close>: the code returns \<open>nil\<close>. \<open>InitPanic\<close>: it dereferences a \<open>nil\<close> node. \<open>InitNilNode\<close>: it
  returns a tree whose root or \<open>highQC\<close> is \<open>nil\<close>, which the ledger of a running node never gives.
  A \<open>nil\<close> tip node is appended to \<open>Sons\<close> as such; the search skips it, so it is left out.
\<close>

datatype init_result = InitNil | InitPanic | InitNilNode | InitTree qc_pending_tree

definition newTree ::
    "quorum_cert \<Rightarrow> proposal_node \<Rightarrow> quorum_cert \<Rightarrow> quorum_cert option \<Rightarrow> qc_pending_tree" where
  "newTree g r h gen =
     \<lparr>genesis = g, root = r, highQC = h, genericQC = gen, lockedQC = None, commitQC = None,
      orphanList = [], orphanMap = {}\<rparr>"

definition withSons :: "proposal_node \<Rightarrow> proposal_node option \<Rightarrow> proposal_node" where
  "withSons n son = (case son of None \<Rightarrow> n | Some s \<Rightarrow> addSon s n)"

definition InitQCTree :: "int \<Rightarrow> (int \<Rightarrow> block_handle option) \<Rightarrow> block_handle \<Rightarrow> init_result" where
  "InitQCTree startHeight query tip =
     (case query (i64 (startHeight - 1)) of
        None \<Rightarrow> InitNil
      | Some g \<Rightarrow>
          (let gQC = NewQuorumCert
                 \<lparr>ProposalId = GetBlockid g, ProposalView = GetHeight g, ParentId = None, ParentView = 0\<rparr>
                 (Some \<lparr>CommitStateId = GetBlockid g, VoteInfoHash = None\<rparr>) None;
               gNode = ProposalNode gQC []
           in if GetHeight tip \<le> startHeight then InitTree (newTree gQC gNode gQC None)
              else
                let tipNode = NewTreeNode query (GetHeight tip)
                in if GetHeight tip < 3 then
                     (if GetHeight tip = 0 then
                        (case NewTreeNode query 0 of
                           None \<Rightarrow> InitNilNode
                         | Some r \<Rightarrow> InitTree (newTree gQC r (node_QC r) None))
                      else if GetHeight tip = 1 then
                        (case NewTreeNode query 0 of
                           None \<Rightarrow> InitPanic
                         | Some r \<Rightarrow> InitTree (newTree gQC (withSons r tipNode) (node_QC r) None))
                      else if GetHeight tip = 2 then
                        (case (NewTreeNode query 0, NewTreeNode query 1) of
                           (Some r, Some h) \<Rightarrow>
                             InitTree (newTree gQC (addSon (withSons h tipNode) r) (node_QC h) None)
                         | _ \<Rightarrow> InitPanic)
                      else InitNilNode)
                   else
                     (case (NewTreeNode query (i64 (GetHeight tip - 3)),
                            NewTreeNode query (i64 (GetHeight tip - 2)),
                            NewTreeNode query (i64 (GetHeight tip - 1))) of
                        (Some r, Some gen, Some h) \<Rightarrow>
                          InitTree (newTree gQC (addSon (addSon (withSons h tipNode) gen) r)
                                      (node_QC h) (Some (node_QC gen)))
                      | _ \<Rightarrow> InitPanic)))"

subsection \<open>Queries\<close>

definition DFSQueryNode :: "qc_pending_tree \<Rightarrow> bytes \<Rightarrow> proposal_node option" where
  "DFSQueryNode t pid = dfsQuery (root t) pid"

subsection \<open>Updating the chain of certificates\<close>

definition updateQCs :: "qc_pending_tree \<Rightarrow> quorum_cert \<Rightarrow> qc_pending_tree" where
  "updateQCs t highQCNode =
     (let t1 = t\<lparr>highQC := highQCNode, genericQC := None, lockedQC := None, commitQC := None\<rparr>
      in case dfsQuery (root t) (GetParentProposalId highQCNode) of
           None \<Rightarrow> t1
         | Some parent \<Rightarrow>
             (let t2 = t1\<lparr>genericQC := Some (node_QC parent)\<rparr>
              in case dfsQuery (root t) (node_parent parent) of
                   None \<Rightarrow> t2
                 | Some parentParent \<Rightarrow>
                     (let t3 = t2\<lparr>lockedQC := Some (node_QC parentParent)\<rparr>
                      in case dfsQuery (root t) (node_parent parentParent) of
                           None \<Rightarrow> t3
                         | Some parentParentParent \<Rightarrow>
                             t3\<lparr>commitQC := Some (node_QC parentParentParent)\<rparr>)))"

definition UpdateHighQC :: "qc_pending_tree \<Rightarrow> bytes \<Rightarrow> qc_pending_tree" where
  "UpdateHighQC t inProposalId =
     (case dfsQuery (root t) inProposalId of
        None \<Rightarrow> t
      | Some node \<Rightarrow>
          if GetProposalView (node_QC node) < GetProposalView (highQC t) then t
          else updateQCs t (node_QC node))"

definition EnforceUpdateHighQC :: "qc_pending_tree \<Rightarrow> bytes \<Rightarrow> qc_pending_tree \<times> qc_error option" where
  "EnforceUpdateHighQC t inProposalId =
     (case dfsQuery (root t) inProposalId of
        None \<Rightarrow> (t, Some ErrNoValidQC)
      | Some node \<Rightarrow> (updateQCs t (node_QC node), None))"

subsection \<open>Inserting a node\<close>

text \<open>Orphans whose parent is the new node become its sons, in list order.\<close>

fun adoptOrphans :: "proposal_node list \<Rightarrow> proposal_node \<Rightarrow> proposal_node \<times> proposal_node list" where
  "adoptOrphans [] node = (node, [])"
| "adoptOrphans (n # rest) node =
     (if bytes_Equal (node_parent n) (node_id node)
      then adoptOrphans rest (addSon n node)
      else (case adoptOrphans rest node of (node', rest') \<Rightarrow> (node', n # rest')))"

text \<open>
  The loop of \<open>insertOrphan\<close> over the list: expired heads are dropped, the first head that is a
  son of the node moves below it, the first tree that holds its parent takes it, otherwise it
  is appended.
\<close>

fun insertOrphanLoop :: "int \<Rightarrow> proposal_node \<Rightarrow> proposal_node list \<Rightarrow> proposal_node list" where
  "insertOrphanLoop rootView node [] = [node]"
| "insertOrphanLoop rootView node (n # rest) =
     (if GetProposalView (node_QC n) \<le> rootView then insertOrphanLoop rootView node rest
      else if bytes_Equal (node_parent n) (node_id node) then rest @ [addSon n node]
      else (case modifyFirst (addSon node) (node_parent node) n of
              Some n' \<Rightarrow> n' # rest
            | None \<Rightarrow> n # insertOrphanLoop rootView node rest))"

definition insertOrphan :: "qc_pending_tree \<Rightarrow> proposal_node \<Rightarrow> qc_pending_tree" where
  "insertOrphan t node =
     (if F (node_id node) \<in> orphanMap t then t
      else t\<lparr>orphanList := insertOrphanLoop (GetProposalView (node_QC (root t))) node (orphanList t),
             orphanMap := insert (F (node_id node)) (orphanMap t)\<rparr>)"

text \<open>
  The code appends the node to its parent and then moves the orphans below it; both assignments
  go through the same pointer, so the node is attached with the orphans it adopts. Its check
  that the certificate is not \<open>nil\<close> is met by the type: \<open>UpdateQCStatus\<close> has read the
  certificate before.
\<close>

definition insertTree :: "qc_pending_tree \<Rightarrow> proposal_node \<Rightarrow> qc_pending_tree \<times> qc_error option" where
  "insertTree t node =
     (if node_parent node = None then (t, Some ErrNoValidParentId)
      else (case adoptOrphans (orphanList t) node of
              (node', rest) \<Rightarrow>
                (case modifyFirst (addSon node') (node_parent node) (root t) of
                   Some r \<Rightarrow> (t\<lparr>root := r, orphanList := rest\<rparr>, None)
                 | None \<Rightarrow> (insertOrphan t node, None))))"

definition UpdateQCStatus :: "qc_pending_tree \<Rightarrow> proposal_node \<Rightarrow> qc_pending_tree \<times> qc_error option" where
  "UpdateQCStatus t node =
     (if dfsQuery (root t) (node_id node) \<noteq> None then (t, None)
      else (case insertTree t node of
              (t1, Some err) \<Rightarrow> (t1, Some err)
            | (t1, None) \<Rightarrow>
                (case dfsQuery (root t1) (node_parent node) of
                   None \<Rightarrow> (t1, None)
                 | Some parent \<Rightarrow>
                     if GetProposalView (node_QC parent) < GetProposalView (highQC t1) then (t1, None)
                     else (updateQCs t1 (node_QC parent), None))))"

subsection \<open>Committing\<close>

text \<open>
  \<open>UpdateCommit\<close> walks four parents up from the block, clears the sons of the fourth and makes
  the third the root. The assignment to the fourth node shows in the new tree only when that
  node lies below the third; \<open>below\<close> compares their positions in the order of the search.
\<close>

definition dfsIndex :: "proposal_node \<Rightarrow> bytes \<Rightarrow> nat" where
  "dfsIndex t target = length (takeWhile (\<lambda>n. \<not> bytes_Equal (node_id n) target) (nodes t))"

definition below :: "proposal_node \<Rightarrow> bytes \<Rightarrow> proposal_node \<Rightarrow> bool" where
  "below t target p \<longleftrightarrow>
     dfsIndex t (node_id p) \<le> dfsIndex t target \<and>
     dfsIndex t target < dfsIndex t (node_id p) + length (nodes p)"

text \<open>The chain of searches with its early returns: the new root, if all four parents are there.\<close>

definition commitTarget :: "proposal_node \<Rightarrow> bytes \<Rightarrow> proposal_node option" where
  "commitTarget r pid =
     do {
       node \<leftarrow> dfsQuery r pid;
       parent \<leftarrow> dfsQuery r (node_parent node);
       parentParent \<leftarrow> dfsQuery r (node_parent parent);
       parentParentParent \<leftarrow> dfsQuery r (node_parent parentParent);
       parentParentParentParent \<leftarrow> dfsQuery r (node_parent parentParentParent);
       Some parentParentParent
     }"

definition UpdateCommit :: "qc_pending_tree \<Rightarrow> bytes \<Rightarrow> qc_pending_tree" where
  "UpdateCommit t pid =
     (case commitTarget (root t) pid of
        None \<Rightarrow> t
      | Some parentParentParent \<Rightarrow>
          if below (root t) (node_parent parentParentParent) parentParentParent
          then (case modifyFirst clearSons (node_parent parentParentParent) parentParentParent of
                  Some r \<Rightarrow> t\<lparr>root := r\<rparr>
                | None \<Rightarrow> t\<lparr>root := parentParentParent\<rparr>)
          else t\<lparr>root := parentParentParent\<rparr>)"

section \<open>The search\<close>

definition carries :: "bytes \<Rightarrow> proposal_node \<Rightarrow> bool" where
  "carries target n \<longleftrightarrow> bytes_Equal (node_id n) target"

lemma find_append:
  "find P (xs @ ys) = (case find P xs of Some x \<Rightarrow> Some x | None \<Rightarrow> find P ys)"
  by (induction xs) auto

lemma dfsQuery_find_aux:
  shows "target \<noteq> None \<Longrightarrow> dfsQuery n target = find (carries target) (nodes n)"
    and "target \<noteq> None \<Longrightarrow> dfsQuerySons ns target = find (carries target) (concat (map nodes ns))"
proof (induction n target and ns target rule: dfsQuery_dfsQuerySons.induct)
  case (1 qc sons target)
  then show ?case by (cases target) (auto simp: carries_def)
next
  case (3 n ns target)
  then show ?case by (simp add: find_append split: option.splits)
qed simp

text \<open>The depth-first search is a linear search in the list of nodes.\<close>

lemma dfsQuery_find:
  "dfsQuery t target = (if target = None then None else find (carries target) (nodes t))"
proof (cases "target = None")
  case True
  then show ?thesis by (cases t) simp
next
  case False
  then show ?thesis by (cases target) (simp_all add: dfsQuery_find_aux(1))
qed

lemma dfsQuery_Some:
  assumes "dfsQuery t target = Some n"
  shows "n \<in> set (nodes t)" "bytes_Equal (node_id n) target" "target \<noteq> None"
  using assms by (auto simp: dfsQuery_find carries_def find_Some_iff split: if_splits)

lemma dfsQuery_None_iff:
  "dfsQuery t target = None \<longleftrightarrow>
     target = None \<or> (\<forall>n \<in> set (nodes t). \<not> bytes_Equal (node_id n) target)"
  by (auto simp: dfsQuery_find find_None_iff carries_def)

lemma nodes_self [simp]: "n \<in> set (nodes n)"
  by (cases n) simp

lemma nodes_nonempty [simp]: "nodes n \<noteq> []"
  by (cases n) simp

lemma modify_dfs:
  shows "modifyFirst f target n = None \<longleftrightarrow> dfsQuery n target = None"
    and "modifySons f target ns = None \<longleftrightarrow> dfsQuerySons ns target = None"
  by (induction n target and ns target rule: dfsQuery_dfsQuerySons.induct)
     (auto split: option.splits)

section \<open>The certificates of a tree\<close>

abbreviation qcs :: "proposal_node \<Rightarrow> quorum_cert list" where
  "qcs t \<equiv> map node_QC (nodes t)"

lemma node_QC_modify:
  assumes "\<And>n. node_QC (f n) = node_QC n"
  shows "modifyFirst f target n = Some n' \<Longrightarrow> node_QC n' = node_QC n"
  by (cases n) (auto simp: assms split: if_splits)

lemma nodes_addSon [simp]: "qcs (addSon s n) = qcs n @ qcs s"
  by (cases n) (simp add: addSon_def)

lemma node_QC_addSon [simp]: "node_QC (addSon s n) = node_QC n"
  by (simp add: addSon_def)

lemma node_QC_clearSons [simp]: "node_QC (clearSons n) = node_QC n"
  by (simp add: clearSons_def)

lemma set_qcs_addSon [simp]: "set (qcs (addSon s n)) = set (qcs n) \<union> set (qcs s)"
  by (simp only: nodes_addSon set_append)

lemma qcs_modify_addSon:
  shows "modifyFirst (addSon s) target n = Some n' \<Longrightarrow> set (qcs n') = set (qcs n) \<union> set (qcs s)"
    and "modifySons (addSon s) target ns = Some ns' \<Longrightarrow>
         (\<Union>m \<in> set ns'. set (qcs m)) = (\<Union>m \<in> set ns. set (qcs m)) \<union> set (qcs s)"
proof (induction "addSon s" target n and "addSon s" target ns arbitrary: n' and ns'
    rule: modifyFirst_modifySons.induct)
  case (1 target qc sons)
  show ?case
  proof (cases "bytes_Equal (GetProposalId qc) target")
    case True
    with "1.prems" have "n' = addSon s (ProposalNode qc sons)" by (auto split: if_splits)
    then show ?thesis using set_qcs_addSon by blast
  next
    case False
    with "1.prems" obtain sons' where sons': "modifySons (addSon s) target sons = Some sons'"
      and "n' = ProposalNode qc sons'" and "target \<noteq> None"
      by (auto split: if_splits)
    with "1.hyps" [OF _ False sons'] show ?thesis by (simp add: image_UN)
  qed
next
  case (3 target n ns)
  show ?case
  proof (cases "modifyFirst (addSon s) target n")
    case None
    with "3.prems" obtain ms where ms: "modifySons (addSon s) target ns = Some ms" "ns' = n # ms"
      by auto
    with "3.hyps"(2) [OF None ms(1)] show ?thesis by auto
  next
    case (Some m)
    with "3.prems" have "ns' = m # ns" by simp
    with "3.hyps"(1) [OF Some] show ?thesis by (simp add: Un_ac)
  qed
qed simp

section \<open>Links\<close>

text \<open>Every node but the first hangs below the node whose id is its parent id.\<close>

fun linked :: "proposal_node \<Rightarrow> bool" where
  "linked (ProposalNode qc sons) \<longleftrightarrow>
     (\<forall>s \<in> set sons. bytes_Equal (node_parent s) (GetProposalId qc) \<and> linked s)"

lemma linked_subtree: "linked t \<Longrightarrow> n \<in> set (nodes t) \<Longrightarrow> linked n"
  by (induction t) auto

lemma linked_addSon:
  "linked n \<Longrightarrow> linked s \<Longrightarrow> bytes_Equal (node_parent s) (node_id n) \<Longrightarrow> linked (addSon s n)"
  by (cases n) (auto simp: addSon_def)

lemma linked_clearSons [simp]: "linked (clearSons n)"
  by (simp add: clearSons_def)

lemma linked_modify:
  assumes "\<And>n. linked n \<Longrightarrow> bytes_Equal (node_id n) target \<Longrightarrow> linked (f n) \<and> node_QC (f n) = node_QC n"
  shows "modifyFirst f target n = Some n' \<Longrightarrow> linked n \<Longrightarrow> linked n' \<and> node_QC n' = node_QC n"
    and "modifySons f target ns = Some ns' \<Longrightarrow>
         \<forall>s \<in> set ns. bytes_Equal (node_parent s) pid \<and> linked s \<Longrightarrow>
         \<forall>s \<in> set ns'. bytes_Equal (node_parent s) pid \<and> linked s"
  using assms
proof (induction f target n and f target ns arbitrary: n' and ns' pid rule: modifyFirst_modifySons.induct)
  case (1 f target qc sons)
  show ?case
  proof (cases "bytes_Equal (GetProposalId qc) target")
    case True
    with 1 show ?thesis by (auto split: if_splits)
  next
    case False
    with "1.prems"(1) obtain sons' where "modifySons f target sons = Some sons'"
      and n': "n' = ProposalNode qc sons'" and "target \<noteq> None"
      by (auto split: if_splits)
    moreover have "\<forall>s \<in> set sons. bytes_Equal (node_parent s) (GetProposalId qc) \<and> linked s"
      using "1.prems"(2) by simp
    ultimately have "\<forall>s \<in> set sons'. bytes_Equal (node_parent s) (GetProposalId qc) \<and> linked s"
      using "1.IH" [OF _ False, of sons' "GetProposalId qc"] "1.prems"(3) by blast
    with n' show ?thesis by simp
  qed
next
  case (3 f target n ns)
  show ?case
  proof (cases "modifyFirst f target n")
    case None
    with "3.prems"(1) obtain ms where "modifySons f target ns = Some ms" "ns' = n # ms" by auto
    moreover have "\<forall>s \<in> set ms. bytes_Equal (node_parent s) pid \<and> linked s"
      using "3.IH"(2) [OF None \<open>modifySons f target ns = Some ms\<close>, of pid] "3.prems"(2,3) by simp
    ultimately show ?thesis using "3.prems"(2) by simp
  next
    case (Some m)
    with "3.prems" "3.IH"(1) [OF Some] have "linked m" "node_QC m = node_QC n" by auto
    with Some "3.prems" show ?thesis by auto
  qed
qed simp

section \<open>The invariant of the pending tree\<close>

text \<open>\<open>genericQC\<close>, \<open>lockedQC\<close> and \<open>commitQC\<close> are the parents of \<open>highQC\<close>, one generation each.\<close>

definition chain_ptrs :: "qc_pending_tree \<Rightarrow> bool" where
  "chain_ptrs t \<longleftrightarrow>
     (case genericQC t of
        None \<Rightarrow> lockedQC t = None \<and> commitQC t = None
      | Some g \<Rightarrow>
          bytes_Equal (GetProposalId g) (GetParentProposalId (highQC t)) \<and>
          (case lockedQC t of
             None \<Rightarrow> commitQC t = None
           | Some l \<Rightarrow>
               bytes_Equal (GetProposalId l) (GetParentProposalId g) \<and>
               (case commitQC t of
                  None \<Rightarrow> True
                | Some c \<Rightarrow> bytes_Equal (GetProposalId c) (GetParentProposalId l))))"

definition wf_tree :: "qc_pending_tree \<Rightarrow> bool" where
  "wf_tree t \<longleftrightarrow> linked (root t) \<and> (\<forall>n \<in> set (orphanList t). linked n) \<and> chain_ptrs t"

lemma chain_ptrs_cong:
  "highQC t = highQC u \<Longrightarrow> genericQC t = genericQC u \<Longrightarrow> lockedQC t = lockedQC u \<Longrightarrow>
   commitQC t = commitQC u \<Longrightarrow> chain_ptrs t = chain_ptrs u"
  by (simp add: chain_ptrs_def split: option.split)

lemma wf_tree_update:
  assumes "wf_tree t" and "linked r" and "\<forall>n \<in> set os. linked n"
  shows "wf_tree (t\<lparr>root := r, orphanList := os, orphanMap := om\<rparr>)"
  using assms
  by (simp add: wf_tree_def
      chain_ptrs_cong [of "t\<lparr>root := r, orphanList := os, orphanMap := om\<rparr>" t])

lemma updateQCs_frame [simp]:
  "root (updateQCs t q) = root t" "orphanList (updateQCs t q) = orphanList t"
  "orphanMap (updateQCs t q) = orphanMap t" "genesis (updateQCs t q) = genesis t"
  "highQC (updateQCs t q) = q"
  by (auto simp: updateQCs_def Let_def split: option.splits)

lemma chain_ptrs_updateQCs: "chain_ptrs (updateQCs t q)"
  by (auto simp: updateQCs_def chain_ptrs_def Let_def dest: dfsQuery_Some(2) split: option.split)

lemma wf_updateQCs: "wf_tree t \<Longrightarrow> wf_tree (updateQCs t q)"
  by (simp add: wf_tree_def chain_ptrs_updateQCs)

lemma wf_UpdateHighQC: "wf_tree t \<Longrightarrow> wf_tree (UpdateHighQC t pid)"
  by (auto simp: UpdateHighQC_def wf_updateQCs split: option.splits)

lemma wf_EnforceUpdateHighQC: "wf_tree t \<Longrightarrow> wf_tree (fst (EnforceUpdateHighQC t pid))"
  by (auto simp: EnforceUpdateHighQC_def wf_updateQCs split: option.splits)

lemma adoptOrphans_linked:
  assumes "adoptOrphans os node = (node', rest)"
    and "linked node" and "\<forall>n \<in> set os. linked n"
  shows "linked node' \<and> node_QC node' = node_QC node \<and> set rest \<subseteq> set os"
  using assms
proof (induction os node arbitrary: node' rest rule: adoptOrphans.induct)
  case (2 n os node)
  show ?case
  proof (cases "bytes_Equal (node_parent n) (node_id node)")
    case True
    have "linked (addSon n node)"
      using "2.prems"(2,3) True by (intro linked_addSon) auto
    then have "linked node' \<and> node_QC node' = node_QC (addSon n node) \<and> set rest \<subseteq> set os"
      using "2.IH"(1) [OF True, of node' rest] "2.prems" True by simp
    then show ?thesis by auto
  next
    case False
    then obtain rest' where "adoptOrphans os node = (node', rest')" "rest = n # rest'"
      using "2.prems"(1) by (auto split: prod.splits)
    then show ?thesis using "2.IH"(2) [OF False, of node' rest'] "2.prems" by auto
  qed
qed simp

lemma linked_modify_addSon:
  assumes "modifyFirst (addSon s) target n = Some n'"
    and "linked n" and "linked s" and "bytes_Equal (node_parent s) target"
  shows "linked n' \<and> node_QC n' = node_QC n"
proof (rule linked_modify(1) [OF _ assms(1,2)])
  fix m assume "linked m" and "bytes_Equal (node_id m) target"
  then show "linked (addSon s m) \<and> node_QC (addSon s m) = node_QC m"
    using assms(3,4) by (simp add: linked_addSon bytes_Equal_def)
qed

lemma insertOrphanLoop_linked:
  assumes "linked node" and "\<forall>n \<in> set os. linked n"
  shows "\<forall>n \<in> set (insertOrphanLoop rv node os). linked n"
  using assms
proof (induction os)
  case (Cons n os)
  then show ?case
    by (auto simp: linked_addSon dest: linked_modify_addSon split: option.splits)
qed simp

lemma wf_insertOrphan: "wf_tree t \<Longrightarrow> linked node \<Longrightarrow> wf_tree (insertOrphan t node)"
  using wf_tree_update [of t "root t"
      "insertOrphanLoop (GetProposalView (node_QC (root t))) node (orphanList t)"
      "insert (F (node_id node)) (orphanMap t)"]
    insertOrphanLoop_linked [of node "orphanList t"]
  by (simp add: insertOrphan_def wf_tree_def)

lemma wf_insertTree:
  assumes "wf_tree t" and "linked node"
  shows "wf_tree (fst (insertTree t node))"
proof -
  obtain node' rest where a: "adoptOrphans (orphanList t) node = (node', rest)"
    by (cases "adoptOrphans (orphanList t) node")
  have l: "linked node'" "node_QC node' = node_QC node" "set rest \<subseteq> set (orphanList t)"
    using adoptOrphans_linked [OF a] assms by (auto simp: wf_tree_def)
  show ?thesis
  proof (cases "modifyFirst (addSon node') (node_parent node) (root t)")
    case None
    with a assms wf_insertOrphan [OF assms] show ?thesis by (simp add: insertTree_def)
  next
    case (Some r)
    have "linked r"
      using linked_modify_addSon [OF Some] l assms(1) by (simp add: wf_tree_def)
    moreover have "\<forall>n \<in> set rest. linked n"
      using l(3) assms(1) by (auto simp: wf_tree_def)
    ultimately have "wf_tree (t\<lparr>root := r, orphanList := rest\<rparr>)"
      using wf_tree_update [OF assms(1), of r rest "orphanMap t"] by simp
    with a Some assms(1) show ?thesis by (simp add: insertTree_def)
  qed
qed

lemma wf_UpdateQCStatus:
  assumes "wf_tree t" and "linked node"
  shows "wf_tree (fst (UpdateQCStatus t node))"
proof -
  obtain t1 e where "insertTree t node = (t1, e)" by (cases "insertTree t node")
  moreover from this have "wf_tree t1" using wf_insertTree [OF assms] by simp
  ultimately show ?thesis
    using assms(1) by (auto simp: UpdateQCStatus_def wf_updateQCs split: option.splits)
qed

lemma linked_modify_clearSons:
  "modifyFirst clearSons target n = Some n' \<Longrightarrow> linked n \<Longrightarrow> linked n'"
  using linked_modify(1) [of target clearSons n n'] by simp

lemma commitTarget_node: "commitTarget r pid = Some n \<Longrightarrow> n \<in> set (nodes r)"
  by (auto simp: commitTarget_def bind_eq_Some_conv dest: dfsQuery_Some(1))

lemma UpdateCommit_cases:
  "UpdateCommit t pid = t \<or>
   (\<exists>n r. n \<in> set (nodes (root t)) \<and>
          (r = n \<or> modifyFirst clearSons (node_parent n) n = Some r) \<and>
          UpdateCommit t pid = t\<lparr>root := r\<rparr>)"
proof (cases "commitTarget (root t) pid")
  case None
  then show ?thesis by (simp add: UpdateCommit_def)
next
  case (Some n)
  from commitTarget_node [OF Some] show ?thesis
    by (cases "below (root t) (node_parent n) n";
        cases "modifyFirst clearSons (node_parent n) n") (auto simp: UpdateCommit_def Some)
qed

lemma wf_UpdateCommit:
  assumes "wf_tree t"
  shows "wf_tree (UpdateCommit t pid)"
proof (cases "UpdateCommit t pid = t")
  case False
  then obtain n r where n: "n \<in> set (nodes (root t))"
    and r: "r = n \<or> modifyFirst clearSons (node_parent n) n = Some r"
    and eq: "UpdateCommit t pid = t\<lparr>root := r\<rparr>"
    using UpdateCommit_cases [of t pid] by blast
  from n assms have "linked n"
    by (auto simp: wf_tree_def intro: linked_subtree)
  with r have "linked r" by (auto dest: linked_modify_clearSons)
  then have "wf_tree (t\<lparr>root := r\<rparr>)"
    using wf_tree_update [OF assms, of r "orphanList t" "orphanMap t"] assms
    by (simp add: wf_tree_def)
  with eq show ?thesis by simp
qed (simp add: assms)

lemma NewTreeNode_Sons: "NewTreeNode query h = Some n \<Longrightarrow> node_Sons n = []"
  by (auto simp: NewTreeNode_def Let_def split: option.splits)

lemma NewTreeNode_parent:
  assumes "NewTreeNode query h = Some n" and "NewTreeNode query h' = Some p" and "i64 (h - 1) = h'"
  shows "bytes_Equal (node_parent n) (node_id p)"
  using assms by (auto simp: NewTreeNode_def Let_def go_defs split: option.splits)

lemma linked_leaf: "node_Sons n = [] \<Longrightarrow> linked n"
  by (cases n) simp

lemma linked_withSons:
  assumes "NewTreeNode query h = Some n" and "i64 (k - 1) = h"
  shows "linked (withSons n (NewTreeNode query k))"
  using assms NewTreeNode_parent [of query k _ h n]
  by (auto simp: withSons_def linked_leaf NewTreeNode_Sons intro!: linked_addSon split: option.split)

lemma node_QC_withSons [simp]: "node_QC (withSons n s) = node_QC n"
  by (simp add: withSons_def split: option.split)

lemma wf_newTree:
  "linked r \<Longrightarrow> (\<forall>g. gen = Some g \<longrightarrow> bytes_Equal (GetProposalId g) (GetParentProposalId h)) \<Longrightarrow>
   wf_tree (newTree gq r h gen)"
  by (auto simp: wf_tree_def newTree_def chain_ptrs_def split: option.split)

lemma wf_InitQCTree_deep:
  assumes "NewTreeNode query (i64 (k - 3)) = Some r"
    and "NewTreeNode query (i64 (k - 2)) = Some gen"
    and "NewTreeNode query (i64 (k - 1)) = Some h"
  shows "wf_tree (newTree gq (addSon (addSon (withSons h (NewTreeNode query k)) gen) r)
           (node_QC h) (Some (node_QC gen)))"
proof (rule wf_newTree)
  have hg: "bytes_Equal (node_parent h) (node_id gen)"
    by (rule NewTreeNode_parent [OF assms(3,2)]) simp
  have gr: "bytes_Equal (node_parent gen) (node_id r)"
    by (rule NewTreeNode_parent [OF assms(2,1)]) simp
  have "linked (addSon (withSons h (NewTreeNode query k)) gen)"
    using hg linked_withSons [OF assms(3) refl] NewTreeNode_Sons [OF assms(2)]
    by (simp add: linked_addSon linked_leaf)
  then show "linked (addSon (addSon (withSons h (NewTreeNode query k)) gen) r)"
    using gr NewTreeNode_Sons [OF assms(1)] by (simp add: linked_addSon linked_leaf)
  show "\<forall>g. Some (node_QC gen) = Some g \<longrightarrow>
      bytes_Equal (GetProposalId g) (node_parent h)"
    using hg by (simp add: bytes_Equal_sym)
qed

lemma wf_InitQCTree:
  assumes "InitQCTree startHeight query tip = InitTree t"
  shows "wf_tree t"
proof (cases "query (i64 (startHeight - 1))")
  case None
  with assms show ?thesis by (simp add: InitQCTree_def)
next
  case (Some g)
  define gQC where "gQC = NewQuorumCert
     \<lparr>ProposalId = GetBlockid g, ProposalView = GetHeight g, ParentId = None, ParentView = 0\<rparr>
     (Some \<lparr>CommitStateId = GetBlockid g, VoteInfoHash = None\<rparr>) None"
  have two: "linked (addSon (withSons h (NewTreeNode query 2)) r)"
    if "NewTreeNode query 0 = Some r" and "NewTreeNode query 1 = Some h" for r h
    using linked_withSons [OF that(2), of 2] NewTreeNode_parent [OF that(2,1)] NewTreeNode_Sons [OF that(1)]
    by (simp add: linked_addSon linked_leaf)
  have one: "linked (withSons r (NewTreeNode query 1))" if "NewTreeNode query 0 = Some r" for r
    using linked_withSons [OF that, of 1] by simp
  consider "GetHeight tip \<le> startHeight" | "startHeight < GetHeight tip" "GetHeight tip < 3"
    | "startHeight < GetHeight tip" "3 \<le> GetHeight tip" by linarith
  then show ?thesis
  proof cases
    case 1
    with assms Some show ?thesis by (auto simp: InitQCTree_def Let_def intro!: wf_newTree)
  next
    case 2
    with assms Some show ?thesis
      by (auto simp: InitQCTree_def Let_def linked_leaf NewTreeNode_Sons one two
          intro!: wf_newTree split: option.splits if_splits)
  next
    case 3
    with assms Some show ?thesis
      by (auto simp: InitQCTree_def Let_def intro: wf_InitQCTree_deep split: option.splits)
  qed
qed

section \<open>The tree as a step system\<close>

text \<open>Every operation that changes the tree; the nodes the callers build have no sons.\<close>

inductive qctree_step :: "qc_pending_tree \<Rightarrow> qc_pending_tree \<Rightarrow> bool" where
  insert_step: "qctree_step t (fst (UpdateQCStatus t (ProposalNode qc [])))"
| high_step: "qctree_step t (UpdateHighQC t pid)"
| enforce_step: "qctree_step t (fst (EnforceUpdateHighQC t pid))"
| commit_step: "qctree_step t (UpdateCommit t pid)"

interpretation tree_inv: step_invariant qctree_step wf_tree
  by unfold_locales
     (auto elim!: qctree_step.cases
       intro: wf_UpdateQCStatus wf_UpdateHighQC wf_EnforceUpdateHighQC wf_UpdateCommit)

section \<open>Insert and lookup\<close>

lemma dfsQuerySons_append:
  "dfsQuerySons (ns @ ms) x =
     (case dfsQuerySons ns x of Some m \<Rightarrow> Some m | None \<Rightarrow> dfsQuerySons ms x)"
  by (induction ns) (auto split: option.split)

lemma dfsQuery_modify_addSon:
  shows "modifyFirst (addSon s) target n = Some n' \<Longrightarrow> x \<noteq> None \<Longrightarrow> dfsQuery n x = None \<Longrightarrow>
         dfsQuery n' x = dfsQuery s x"
    and "modifySons (addSon s) target ns = Some ns' \<Longrightarrow> x \<noteq> None \<Longrightarrow> dfsQuerySons ns x = None \<Longrightarrow>
         dfsQuerySons ns' x = dfsQuery s x"
proof (induction "addSon s" target n and "addSon s" target ns arbitrary: n' and ns'
    rule: modifyFirst_modifySons.induct)
  case (1 target qc sons)
  show ?case
  proof (cases "bytes_Equal (GetProposalId qc) target")
    case True
    with "1.prems" show ?thesis
      by (auto simp: addSon_def dfsQuerySons_append split: if_splits option.split)
  next
    case False
    with "1.prems"(1) obtain sons' where "modifySons (addSon s) target sons = Some sons'"
      "n' = ProposalNode qc sons'" "target \<noteq> None"
      by (auto split: if_splits)
    with "1.hyps" [OF _ False, of sons'] "1.prems"(2,3) show ?thesis by (auto split: if_splits)
  qed
next
  case (3 target n ns)
  then have n: "dfsQuery n x = None" and ns: "dfsQuerySons ns x = None"
    by (auto split: option.splits)
  show ?case
  proof (cases "modifyFirst (addSon s) target n")
    case None
    with "3.prems"(1) obtain ms where ms: "modifySons (addSon s) target ns = Some ms" "ns' = n # ms"
      by auto
    with "3.hyps"(2) [OF None ms(1) "3.prems"(2) ns] n show ?thesis by simp
  next
    case (Some m)
    with "3.prems"(1) have "ns' = m # ns" by simp
    with "3.hyps"(1) [OF Some "3.prems"(2) n] ns show ?thesis by (simp split: option.split)
  qed
qed simp

lemma adoptOrphans_QC: "adoptOrphans os node = (node', rest) \<Longrightarrow> node_QC node' = node_QC node"
proof -
  have "node_QC (fst (adoptOrphans os node)) = node_QC node"
    by (induction os node rule: adoptOrphans.induct) (simp_all add: case_prod_beta)
  then show "adoptOrphans os node = (node', rest) \<Longrightarrow> node_QC node' = node_QC node" by simp
qed

lemma dfsQuery_self: "x \<noteq> None \<Longrightarrow> bytes_Equal (node_id n) x \<Longrightarrow> dfsQuery n x = Some n"
  by (cases n) simp

lemma found_mono:
  assumes "modifyFirst (addSon s) target n = Some n'" and "dfsQuery n x \<noteq> None"
  shows "dfsQuery n' x \<noteq> None"
proof -
  from assms(2) obtain m where "dfsQuery n x = Some m" by auto
  note m = dfsQuery_Some [OF this]
  from m(1) have "node_QC m \<in> set (qcs n')"
    using qcs_modify_addSon(1) [OF assms(1)] by auto
  then obtain m' where "m' \<in> set (nodes n')" "node_QC m' = node_QC m" by auto
  with m show ?thesis by (metis dfsQuery_None_iff)
qed

lemma UpdateQCStatus_inserts:
  assumes new: "DFSQueryNode t (GetProposalId qc) = None" and some: "GetProposalId qc \<noteq> None"
    and parent: "DFSQueryNode t (GetParentProposalId qc) \<noteq> None"
    and upd: "UpdateQCStatus t (ProposalNode qc []) = (t', err)"
  shows "err = None" and "\<exists>n. DFSQueryNode t' (GetProposalId qc) = Some n \<and> node_QC n = qc"
    and "DFSQueryNode t x \<noteq> None \<Longrightarrow> DFSQueryNode t' x \<noteq> None"
proof -
  let ?node = "ProposalNode qc []"
  obtain node' rest where a: "adoptOrphans (orphanList t) ?node = (node', rest)"
    by (cases "adoptOrphans (orphanList t) ?node")
  have qc': "node_QC node' = qc" using adoptOrphans_QC [OF a] by simp
  from parent obtain r where r: "modifyFirst (addSon node') (GetParentProposalId qc) (root t) = Some r"
    using modify_dfs(1) [of "addSon node'" "GetParentProposalId qc" "root t"]
    by (auto simp: DFSQueryNode_def)
  have pn: "GetParentProposalId qc \<noteq> None"
    using parent dfsQuery_Some(3) by (fastforce simp: DFSQueryNode_def)
  have ins: "insertTree t ?node = (t\<lparr>root := r, orphanList := rest\<rparr>, None)"
    using a r pn by (simp add: insertTree_def)
  have root': "root t' = r" and "err = None"
    using upd new ins by (auto simp: UpdateQCStatus_def DFSQueryNode_def split: option.splits if_splits)
  then show "err = None" by simp
  have "dfsQuery r (GetProposalId qc) = Some node'"
    using dfsQuery_modify_addSon(1) [OF r some] new dfsQuery_self [OF some, of node'] qc'
    by (simp add: DFSQueryNode_def)
  with qc' root' show "\<exists>n. DFSQueryNode t' (GetProposalId qc) = Some n \<and> node_QC n = qc"
    by (simp add: DFSQueryNode_def)
  show "DFSQueryNode t' x \<noteq> None" if "DFSQueryNode t x \<noteq> None"
    using found_mono [OF r] that root' by (simp add: DFSQueryNode_def)
qed

section \<open>The view of the highest certificate\<close>

lemma highQC_insertTree [simp]: "highQC (fst (insertTree t node)) = highQC t"
  by (auto simp: insertTree_def insertOrphan_def split: prod.split option.split)

lemma UpdateQCStatus_view [mono_intros]:
  "GetProposalView (highQC t) \<le> GetProposalView (highQC (fst (UpdateQCStatus t node)))"
proof -
  obtain t1 e where "insertTree t node = (t1, e)" by (cases "insertTree t node")
  moreover from this have "highQC t1 = highQC t" using highQC_insertTree [of t node] by simp
  ultimately show ?thesis by (auto simp: UpdateQCStatus_def split: option.split)
qed

lemma UpdateHighQC_view [mono_intros]:
  "GetProposalView (highQC t) \<le> GetProposalView (highQC (UpdateHighQC t pid))"
  by (auto simp: UpdateHighQC_def split: option.split)

lemma UpdateCommit_ptrs [simp]:
  "highQC (UpdateCommit t pid) = highQC t" "genericQC (UpdateCommit t pid) = genericQC t"
  "lockedQC (UpdateCommit t pid) = lockedQC t" "commitQC (UpdateCommit t pid) = commitQC t"
  "orphanList (UpdateCommit t pid) = orphanList t" "genesis (UpdateCommit t pid) = genesis t"
  by (auto simp: UpdateCommit_def split: option.split)

section \<open>Committing\<close>

definition distinct_ids :: "proposal_node \<Rightarrow> bool" where
  "distinct_ids t \<longleftrightarrow> distinct (map (\<lambda>n. elems (node_id n)) (nodes t))"

definition rooted :: "proposal_node \<Rightarrow> bool" where
  "rooted t \<longleftrightarrow> dfsQuery t (node_parent t) = None"

lemma nodes_split: "m \<in> set (nodes t) \<Longrightarrow> \<exists>pre post. nodes t = pre @ nodes m @ post"
proof (induction t)
  case (ProposalNode qc sons)
  show ?case
  proof (cases "m = ProposalNode qc sons")
    case True
    then have "nodes (ProposalNode qc sons) = [] @ nodes m @ []" by simp
    then show ?thesis by blast
  next
    case False
    with ProposalNode.prems obtain s where s: "s \<in> set sons" "m \<in> set (nodes s)" by auto
    then obtain pre post where "nodes s = pre @ nodes m @ post"
      using ProposalNode.IH by blast
    moreover from s(1) obtain as bs where "sons = as @ s # bs" by (meson split_list)
    ultimately have "nodes (ProposalNode qc sons) =
        (ProposalNode qc sons # concat (map nodes as) @ pre) @ nodes m @ (post @ concat (map nodes bs))"
      by simp
    then show ?thesis by blast
  qed
qed

lemma nodes_parent: "m \<in> set (nodes t) \<Longrightarrow> m \<noteq> t \<Longrightarrow> \<exists>q \<in> set (nodes t). m \<in> set (node_Sons q)"
proof (induction t)
  case (ProposalNode qc sons)
  then obtain s where s: "s \<in> set sons" "m \<in> set (nodes s)" by auto
  show ?case
  proof (cases "m = s")
    case True
    with s(1) show ?thesis by force
  next
    case False
    with ProposalNode.IH [OF s] s(1) show ?thesis by auto
  qed
qed

lemma dfsQuery_unique:
  assumes "distinct_ids t" and "q \<in> set (nodes t)" and "bytes_Equal (node_id q) x" and "x \<noteq> None"
  shows "dfsQuery t x = Some q"
proof -
  obtain n where n: "dfsQuery t x = Some n"
    using assms(2-4) by (metis dfsQuery_None_iff not_None_eq)
  have "elems (node_id n) = elems (node_id q)"
    using dfsQuery_Some(2) [OF n] assms(3) by (simp add: bytes_Equal_def)
  then have "n = q"
    using assms(1,2) dfsQuery_Some(1) [OF n] by (auto simp: distinct_ids_def distinct_map inj_on_def)
  with n show ?thesis by simp
qed

text \<open>In a linked tree with distinct ids the search for the parent id finds the father.\<close>

lemma father:
  assumes "linked t" and "distinct_ids t" and "rooted t" and "m \<in> set (nodes t)"
    and "dfsQuery t (node_parent m) = Some p"
  shows "m \<in> set (node_Sons p)"
proof -
  have "m \<noteq> t" using assms(3,5) by (auto simp: rooted_def)
  then obtain q where q: "q \<in> set (nodes t)" "m \<in> set (node_Sons q)"
    using nodes_parent [OF assms(4)] by blast
  have "linked q" using assms(1) q(1) by (rule linked_subtree)
  then have "bytes_Equal (node_id q) (node_parent m)"
    using q(2) by (cases q) (auto intro: bytes_Equal_sym)
  then have "dfsQuery t (node_parent m) = Some q"
    using dfsQuery_unique [OF assms(2) q(1)] dfsQuery_Some(3) [OF assms(5)] by simp
  with assms(5) q(2) show ?thesis by simp
qed

lemma son_node: "m \<in> set (node_Sons p) \<Longrightarrow> set (nodes m) \<subseteq> set (nodes p)"
  by (cases p) auto

lemma not_below_father:
  assumes "distinct_ids t" and "p \<in> set (nodes t)" and "m \<in> set (node_Sons p)"
    and "bytes_Equal (node_id p) x"
  shows "\<not> below t x m"
proof -
  obtain pre post where t: "nodes t = pre @ nodes p @ post" using nodes_split [OF assms(2)] by blast
  from assms(3) obtain as bs where "node_Sons p = as @ m # bs" by (meson split_list)
  then have "nodes p = p # concat (map nodes as) @ nodes m @ concat (map nodes bs)"
    by (cases p) simp
  moreover obtain ms where "nodes m = m # ms" by (cases m) simp
  ultimately have "nodes t = pre @ p # concat (map nodes as) @ m # (ms @ concat (map nodes bs) @ post)"
    using t by simp
  then obtain A B where A: "nodes t = pre @ p # A @ m # B" by blast
  have "dfsIndex t x \<le> length pre"
    using assms(4) by (auto simp: dfsIndex_def A takeWhile_append length_takeWhile_le)
  moreover have "length pre < dfsIndex t (node_id m)"
  proof -
    have "\<forall>n \<in> set (pre @ p # A). \<not> bytes_Equal (node_id n) (node_id m)"
      using assms(1) unfolding distinct_ids_def A bytes_Equal_def by (auto simp: image_iff)
    then have "takeWhile (\<lambda>n. \<not> bytes_Equal (node_id n) (node_id m)) (nodes t) = pre @ p # A"
      by (simp add: A takeWhile_append)
    then show ?thesis by (simp add: dfsIndex_def)
  qed
  ultimately show ?thesis by (simp add: below_def)
qed

lemma UpdateCommit_moves:
  assumes wf: "linked (root t)" "distinct_ids (root t)" "rooted (root t)"
    and target: "commitTarget (root t) pid = Some n"
  shows "root (UpdateCommit t pid) = n"
    and "\<exists>b p pp. DFSQueryNode (UpdateCommit t pid) pid = Some b \<and> DFSQueryNode t pid = Some b \<and>
           b \<in> set (node_Sons p) \<and> p \<in> set (node_Sons pp) \<and> pp \<in> set (node_Sons n)"
proof -
  from target obtain b p pp pppp where
    b: "dfsQuery (root t) pid = Some b" and p: "dfsQuery (root t) (node_parent b) = Some p" and
    pp: "dfsQuery (root t) (node_parent p) = Some pp" and
    n: "dfsQuery (root t) (node_parent pp) = Some n" and
    pppp: "dfsQuery (root t) (node_parent n) = Some pppp"
    by (auto simp: commitTarget_def bind_eq_Some_conv)
  note f = father [OF wf dfsQuery_Some(1)]
  have sons: "b \<in> set (node_Sons p)" "p \<in> set (node_Sons pp)" "pp \<in> set (node_Sons n)"
    "n \<in> set (node_Sons pppp)"
    using f [OF b p] f [OF p pp] f [OF pp n] f [OF n pppp] by blast+
  have "\<not> below (root t) (node_parent n) n"
    using not_below_father [OF wf(2) dfsQuery_Some(1) [OF pppp] sons(4)] dfsQuery_Some(2) [OF pppp]
    by blast
  then show r: "root (UpdateCommit t pid) = n"
    by (simp add: UpdateCommit_def target)
  have "b \<in> set (nodes n)"
    using sons(1-3) son_node nodes_self by blast
  moreover have "distinct_ids n"
  proof -
    obtain pre post where "nodes (root t) = pre @ nodes n @ post"
      using nodes_split dfsQuery_Some(1) [OF n] by blast
    then show ?thesis using wf(2) by (simp add: distinct_ids_def)
  qed
  ultimately have "dfsQuery n pid = Some b"
    using dfsQuery_unique dfsQuery_Some(2,3) [OF b] by blast
  with b r sons show "\<exists>b p pp. DFSQueryNode (UpdateCommit t pid) pid = Some b \<and>
      DFSQueryNode t pid = Some b \<and>
      b \<in> set (node_Sons p) \<and> p \<in> set (node_Sons pp) \<and> pp \<in> set (node_Sons n)"
    unfolding DFSQueryNode_def by blast
qed

section \<open>Properties\<close>

text \<open>The operations a node performs without a forced rollback.\<close>

inductive forward_step :: "qc_pending_tree \<Rightarrow> qc_pending_tree \<Rightarrow> bool" where
  "forward_step t (fst (UpdateQCStatus t node))"
| "forward_step t (UpdateHighQC t pid)"
| "forward_step t (UpdateCommit t pid)"

interpretation high_view: monotone_counter forward_step "\<lambda>t. GetProposalView (highQC t)"
  by unfold_locales (auto elim!: forward_step.cases intro: mono_intros)

subsection \<open>Concrete trees for the witnesses\<close>

definition demo_qc :: "string \<Rightarrow> int \<Rightarrow> bytes \<Rightarrow> quorum_cert" where
  "demo_qc i v par = NewQuorumCert
     \<lparr>ProposalId = Some i, ProposalView = v, ParentId = par, ParentView = v - 1\<rparr> None None"

definition demo_block :: "int \<Rightarrow> block_handle option" where
  "demo_block h = (if 0 \<le> h \<and> h \<le> 5 then
     Some \<lparr>GetBlockid = Some (CHR ''b'' # replicate (nat h) CHR ''x''), GetHeight = h,
           GetPreHash = (if h = 0 then None else Some (CHR ''b'' # replicate (nat h - 1) CHR ''x''))\<rparr>
     else None)"

definition demo_tree :: qc_pending_tree where
  "demo_tree = (case InitQCTree 1 demo_block (the (demo_block 5)) of InitTree t \<Rightarrow> t)"

definition demo_new :: quorum_cert where
  "demo_new = demo_qc ''bxxxxxx'' 6 (Some ''bxxxxx'')"

text \<open>
  Whatever sequence of insertions, certificate updates, forced rollbacks and commits is
  applied to a tree built from the ledger, every node hangs below the node its parent id
  names, in the tree and in every orphan tree, and \<open>genericQC\<close>, \<open>lockedQC\<close> and
  \<open>commitQC\<close> are the parent, grandparent and great-grandparent of \<open>highQC\<close>.
\<close>

theorem qctree_run_wf:
  assumes "InitQCTree startHeight query tip = InitTree t" and "run qctree_step t t'"
  shows "wf_tree t'"
  using tree_inv.run_inv [OF assms(2) wf_InitQCTree [OF assms(1)]] .

theorem qctree_run_wf_witness:
  "InitQCTree 1 demo_block (the (demo_block 5)) = InitTree demo_tree \<and>
   run qctree_step demo_tree (fst (UpdateQCStatus demo_tree (ProposalNode demo_new []))) \<and>
   wf_tree (fst (UpdateQCStatus demo_tree (ProposalNode demo_new [])))"
proof -
  have 1: "InitQCTree 1 demo_block (the (demo_block 5)) = InitTree demo_tree"
    unfolding demo_tree_def
    by (simp add: InitQCTree_def NewTreeNode_def demo_block_def Let_def)
  have 2: "run qctree_step demo_tree (fst (UpdateQCStatus demo_tree (ProposalNode demo_new [])))"
    by (rule run_one) (rule insert_step)
  from 1 2 qctree_run_wf [OF 1 2] show ?thesis by blast
qed

text \<open>
  C16. Inserting a certificate that is not yet in the tree and whose parent is, succeeds; the
  search then finds the certificate under its id, and finds everything it found before.
\<close>

theorem UpdateQCStatus_insert_lookup:
  assumes "DFSQueryNode t (GetProposalId qc) = None" and "GetProposalId qc \<noteq> None"
    and "DFSQueryNode t (GetParentProposalId qc) \<noteq> None"
  shows "\<exists>t'. UpdateQCStatus t (ProposalNode qc []) = (t', None) \<and>
           map_option node_QC (DFSQueryNode t' (GetProposalId qc)) = Some qc \<and>
           (\<forall>x. DFSQueryNode t x \<noteq> None \<longrightarrow> DFSQueryNode t' x \<noteq> None)"
proof -
  obtain t' err where u: "UpdateQCStatus t (ProposalNode qc []) = (t', err)" by (cases "UpdateQCStatus t (ProposalNode qc [])")
  note i = UpdateQCStatus_inserts [OF assms u]
  from i(1) u i(2,3) show ?thesis by auto
qed

theorem UpdateQCStatus_insert_lookup_witness:
  "DFSQueryNode demo_tree (GetProposalId demo_new) = None \<and>
   DFSQueryNode demo_tree (GetParentProposalId demo_new) \<noteq> None \<and>
   (\<exists>t'. UpdateQCStatus demo_tree (ProposalNode demo_new []) = (t', None) \<and>
      map_option node_QC (DFSQueryNode t' (GetProposalId demo_new)) = Some demo_new \<and>
      (\<forall>x. DFSQueryNode demo_tree x \<noteq> None \<longrightarrow> DFSQueryNode t' x \<noteq> None))"
proof -
  have 1: "DFSQueryNode demo_tree (GetProposalId demo_new) = None" by code_simp
  have 2: "GetProposalId demo_new \<noteq> None" by code_simp
  have 3: "DFSQueryNode demo_tree (GetParentProposalId demo_new) \<noteq> None" by code_simp
  from 1 3 UpdateQCStatus_insert_lookup [OF 1 2 3] show ?thesis by blast
qed

text \<open>
  C17. In a linked tree without repeated ids whose root has no parent in it, \<open>UpdateCommit\<close> makes
  the great-grandparent of the block the root, and the block is still found, three generations
  below.
\<close>

theorem UpdateCommit_third_ancestor:
  assumes "linked (root t)" and "distinct_ids (root t)" and "rooted (root t)"
    and "commitTarget (root t) pid = Some n"
  shows "root (UpdateCommit t pid) = n \<and>
    (\<exists>b p pp. DFSQueryNode (UpdateCommit t pid) pid = Some b \<and> DFSQueryNode t pid = Some b \<and>
       b \<in> set (node_Sons p) \<and> p \<in> set (node_Sons pp) \<and> pp \<in> set (node_Sons n))"
  using UpdateCommit_moves [OF assms] by blast

definition demo_deep :: qc_pending_tree where
  "demo_deep = fst (UpdateQCStatus demo_tree (ProposalNode demo_new []))"

theorem UpdateCommit_third_ancestor_witness:
  "linked (root demo_deep) \<and> distinct_ids (root demo_deep) \<and> rooted (root demo_deep) \<and>
   (\<exists>n. commitTarget (root demo_deep) (Some ''bxxxxxx'') = Some n \<and>
        root (UpdateCommit demo_deep (Some ''bxxxxxx'')) = n)"
proof -
  have 1: "linked (root demo_deep)" by code_simp
  have 2: "distinct_ids (root demo_deep)" by code_simp
  have 3: "rooted (root demo_deep)" by code_simp
  have "commitTarget (root demo_deep) (Some ''bxxxxxx'') \<noteq> None" by code_simp
  then obtain n where 4: "commitTarget (root demo_deep) (Some ''bxxxxxx'') = Some n" by blast
  from 1 2 3 4 UpdateCommit_third_ancestor [OF 1 2 3 4] show ?thesis by blast
qed

text \<open>
  Without a forced rollback the view of \<open>highQC\<close> never decreases, over any run of insertions,
  updates and commits.
\<close>

theorem highQC_view_monotone:
  assumes "run forward_step t t'"
  shows "GetProposalView (highQC t) \<le> GetProposalView (highQC t')"
  using high_view.order.run_rel [OF assms] .

theorem highQC_view_monotone_witness:
  "run forward_step demo_tree (UpdateHighQC demo_tree (Some ''bxxxxx'')) \<and>
   GetProposalView (highQC demo_tree) = 4 \<and>
   GetProposalView (highQC (UpdateHighQC demo_tree (Some ''bxxxxx''))) = 5 \<and>
   GetProposalView (highQC demo_tree) \<le>
     GetProposalView (highQC (UpdateHighQC demo_tree (Some ''bxxxxx'')))"
proof -
  have 1: "run forward_step demo_tree (UpdateHighQC demo_tree (Some ''bxxxxx''))"
    by (rule run_one) (rule forward_step.intros)
  have 2: "GetProposalView (highQC demo_tree) = 4" by code_simp
  have 3: "GetProposalView (highQC (UpdateHighQC demo_tree (Some ''bxxxxx''))) = 5" by code_simp
  from 1 2 3 highQC_view_monotone [OF 1] show ?thesis by simp
qed

text \<open>
  Orphans can be lost. Four certificates arrive in an order in which two siblings are
  orphans before their parent and the parent is an orphan before its own parent: the parent and
  one sibling end up in the tree, the other sibling stays in the orphan list although its
  parent is in the tree. Had the parent's parent arrived first, both siblings would be found.
\<close>

definition arrive :: "qc_pending_tree \<Rightarrow> quorum_cert list \<Rightarrow> qc_pending_tree" where
  "arrive t qs = fold (\<lambda>q t. fst (UpdateQCStatus t (ProposalNode q []))) qs t"

theorem orphan_sibling_lost:
  "let a = demo_qc ''a'' 8 (Some ''p''); b = demo_qc ''b'' 8 (Some ''p'');
       p = demo_qc ''p'' 7 (Some ''h''); h = demo_qc ''h'' 6 (Some ''bxxxxx'');
       bad = arrive demo_tree [a, b, p, h]; good = arrive demo_tree [h, a, b, p]
   in DFSQueryNode bad (Some ''p'') \<noteq> None \<and> DFSQueryNode bad (Some ''a'') \<noteq> None \<and>
      DFSQueryNode bad (Some ''b'') = None \<and> b \<in> node_QC ` set (orphanList bad) \<and>
      DFSQueryNode good (Some ''p'') \<noteq> None \<and> DFSQueryNode good (Some ''a'') \<noteq> None \<and>
      DFSQueryNode good (Some ''b'') \<noteq> None"
  by code_simp

end
