(* ===== verification/SafetyRules.thy ===== *)
theory SafetyRules
  imports QCTree
begin

text \<open>
  Signature checks, voting rules and the pacemaker of the chained BFT state machine:
  \<^verbatim>\<open>consensus/chainbft/crypto.go\<close>, \<^verbatim>\<open>safety_rules.go\<close> and \<^verbatim>\<open>pacemaker.go\<close>.

  The interface \<open>CryptoClient\<close> is a parameter, a record of the functions the code calls. A
  function that returns \<open>(value, error)\<close> returns \<open>None\<close> for an error; \<open>VerifyECDSA\<close> returns a
  boolean and an error independently of each other, and is modelled as that pair. Lengths of
  slices are unbounded integers.
\<close>

section \<open>Errors\<close>

datatype smr_error =
    EmptyVoteSignErr | InvalidVoteAddr | InvalidVoteSign | TooLowVoteView | TooLowVParentView
  | TooLowProposalView | EmptyParentQC | NoEnoughVotes | EmptyParentNode | EmptyValidators
  | CryptoError | JsonErr | NetErr | TreeErr qc_error | ErrNilQC
  | ErrTooLowNewProposal | ErrEmptyHighQC | ErrSameProposalNotify | ErrJustifyVotesEmpty
  | ErrEmptyTarget | ErrUnmatchedTarget | ErrOutdatedLedger | ErrVoteProposal | ErrP2PInternalErr

section \<open>Signatures\<close>

record 'pk crypto_client =
  GetEcdsaPublicKeyFromJsonStr :: "string \<Rightarrow> 'pk option"
  GetAddressFromPublicKey :: "'pk \<Rightarrow> string option"
  VerifyECDSA :: "'pk \<Rightarrow> bytes \<Rightarrow> bytes \<Rightarrow> bool \<times> smr_error option"
  SignECDSA :: "bytes \<Rightarrow> bytes option"

text \<open>The node's own address and public key, \<open>address.Address\<close> without the private key.\<close>

record 'pk cbft_crypto =
  own_Address :: string
  own_PublicKeyStr :: string
  CryptoClient :: "'pk crypto_client"

definition SignVoteMsg :: "'pk cbft_crypto \<Rightarrow> bytes \<Rightarrow> quorum_cert_sign option" where
  "SignVoteMsg c msg =
     (case SignECDSA (CryptoClient c) msg of
        None \<Rightarrow> None
      | Some sig \<Rightarrow> Some \<lparr>Address = own_Address c, PublicKey = own_PublicKeyStr c, Sign = sig\<rparr>)"

definition VerifyVoteMsgSign ::
    "'pk cbft_crypto \<Rightarrow> quorum_cert_sign \<Rightarrow> bytes \<Rightarrow> bool \<times> smr_error option" where
  "VerifyVoteMsgSign c sig msg =
     (case GetEcdsaPublicKeyFromJsonStr (CryptoClient c) (PublicKey sig) of
        None \<Rightarrow> (False, Some CryptoError)
      | Some ak \<Rightarrow>
          (case GetAddressFromPublicKey (CryptoClient c) ak of
             None \<Rightarrow> (False, Some CryptoError)
           | Some addr \<Rightarrow>
               if addr \<noteq> Address sig then (False, Some CryptoError)
               else VerifyECDSA (CryptoClient c) ak (Sign sig) msg))"

section \<open>Rules\<close>

definition StrictInternal :: int where "StrictInternal = 3"
definition PermissiveInternal :: int where "PermissiveInternal = 6"

record safety_rules =
  latestRound :: int
  preferredRound :: int

fun isInSlice :: "string \<Rightarrow> string list \<Rightarrow> bool" where
  "isInSlice target [] = False"
| "isInSlice target (v # vs) = (if target = v then True else isInSlice target vs)"

text \<open>\<open>UpdatePreferredRound\<close> always returns true.\<close>

definition UpdatePreferredRound :: "safety_rules \<Rightarrow> int \<Rightarrow> safety_rules \<times> bool" where
  "UpdatePreferredRound s round =
     ((if i64 (round - 1) > preferredRound s then s\<lparr>preferredRound := i64 (round - 1)\<rparr> else s), True)"

definition increaseLatestRound :: "safety_rules \<Rightarrow> int \<Rightarrow> safety_rules" where
  "increaseLatestRound s round = (if round > latestRound s then s\<lparr>latestRound := round\<rparr> else s)"

definition VoteProposal :: "safety_rules \<Rightarrow> int \<Rightarrow> quorum_cert \<Rightarrow> safety_rules \<times> bool" where
  "VoteProposal s proposalRound parentQC =
     (if proposalRound < i64 (latestRound s - StrictInternal) then (s, False)
      else if GetProposalView parentQC < i64 (preferredRound s - StrictInternal) then (s, False)
      else (increaseLatestRound s proposalRound, True))"

text \<open>The result is the returned error, \<open>None\<close> for \<open>nil\<close>: a vote without error is accepted.\<close>

definition CheckVote ::
    "'pk cbft_crypto \<Rightarrow> safety_rules \<Rightarrow> quorum_cert \<Rightarrow> string list \<Rightarrow> smr_error option" where
  "CheckVote c s qc validators =
     (case elems (GetSignsInfo qc) of
        [] \<Rightarrow> Some EmptyVoteSignErr
      | sign0 # _ \<Rightarrow>
          if \<not> isInSlice (Address sign0) validators then Some InvalidVoteAddr
          else case VerifyVoteMsgSign c sign0 (GetProposalId qc) of
                 (False, err) \<Rightarrow> err
               | (True, _) \<Rightarrow>
                   if GetProposalView qc < i64 (latestRound s - StrictInternal) then Some TooLowVoteView
                   else if GetParentView qc < i64 (preferredRound s - StrictInternal)
                        then Some TooLowVParentView
                   else None)"

definition CalVotesThreshold :: "int \<Rightarrow> int \<Rightarrow> bool" where
  "CalVotesThreshold input sum_len =
     (let f = (sum_len - 1) sdiv 3
      in if f < 0 then False
         else if f = 0 then input + 1 \<ge> sum_len
         else input + 1 \<ge> sum_len - f)"

fun countJustifySigns ::
    "'pk cbft_crypto \<Rightarrow> string list \<Rightarrow> bytes \<Rightarrow> quorum_cert_sign list \<Rightarrow> int \<Rightarrow> smr_error + int" where
  "countJustifySigns c validators pid [] validCnt = Inr validCnt"
| "countJustifySigns c validators pid (v # vs) validCnt =
     (if \<not> isInSlice (Address v) validators then countJustifySigns c validators pid vs validCnt
      else if \<not> fst (VerifyVoteMsgSign c v pid) then Inl InvalidVoteSign
      else countJustifySigns c validators pid vs (validCnt + 1))"

definition CheckProposal ::
    "'pk cbft_crypto \<Rightarrow> safety_rules \<Rightarrow> qc_pending_tree \<Rightarrow> quorum_cert \<Rightarrow> quorum_cert \<Rightarrow>
     string slice \<Rightarrow> smr_error option" where
  "CheckProposal c s tree proposal parent justifyValidators =
     (if GetProposalView proposal < i64 (latestRound s - PermissiveInternal) then Some TooLowProposalView
      else if justifyValidators = None then Some EmptyValidators
      else if GetProposalId parent = None then Some EmptyParentQC
      else if DFSQueryNode tree (GetProposalId parent) = None \<and>
              (GetProposalView proposal \<le> GetParentView (node_QC (root tree)) \<or>
               GetProposalView proposal >
                 i64 (GetProposalView (node_QC (root tree)) + PermissiveInternal))
           then Some EmptyParentNode
      else case countJustifySigns c (elems justifyValidators) (GetProposalId parent)
                  (elems (GetSignsInfo parent)) 0 of
             Inl err \<Rightarrow> Some err
           | Inr validCnt \<Rightarrow>
               if \<not> CalVotesThreshold validCnt (int (length (elems justifyValidators)))
               then Some NoEnoughVotes else None)"

definition CheckPacemaker :: "int \<Rightarrow> int \<Rightarrow> bool" where
  "CheckPacemaker pending local = (if pending \<le> i64 (local - StrictInternal) then False else True)"

section \<open>Pacemaker\<close>

definition AdvanceView :: "int \<Rightarrow> quorum_cert option \<Rightarrow> int \<times> (smr_error + bool)" where
  "AdvanceView currentView qc =
     (case qc of
        None \<Rightarrow> (currentView, Inl ErrNilQC)
      | Some q \<Rightarrow>
          (let r = GetProposalView q
           in ((if i64 (r + 1) > currentView then i64 (r + 1) else currentView), Inr True)))"

section \<open>Facts\<close>

lemma isInSlice_set [simp]: "isInSlice a vs \<longleftrightarrow> a \<in> set vs"
  by (induction vs) auto

lemma AdvanceView_mono [mono_intros]: "v \<le> fst (AdvanceView v qc)"
  by (auto simp: AdvanceView_def Let_def split: option.split)

lemma UpdatePreferredRound_mono [mono_intros]:
  "preferredRound s \<le> preferredRound (fst (UpdatePreferredRound s r))"
  "latestRound s \<le> latestRound (fst (UpdatePreferredRound s r))"
  by (auto simp: UpdatePreferredRound_def)

lemma VoteProposal_mono [mono_intros]:
  "preferredRound s \<le> preferredRound (fst (VoteProposal s r qc))"
  "latestRound s \<le> latestRound (fst (VoteProposal s r qc))"
  by (auto simp: VoteProposal_def increaseLatestRound_def)

text \<open>
  The votes a certificate needs: the collector's own vote is implied, so \<open>n - f - 1\<close> signatures.
\<close>

definition max_faulty :: "int \<Rightarrow> int" where
  "max_faulty n = (n - 1) div 3"

lemma sdiv3: "1 \<le> n \<Longrightarrow> (n - 1) sdiv 3 = max_faulty n"
  by (simp add: signed_divide_int_def max_faulty_def sgn_if abs_if)

lemma CalVotesThreshold_iff: "1 \<le> n \<Longrightarrow> CalVotesThreshold k n \<longleftrightarrow> n - max_faulty n \<le> k + 1"
  by (auto simp: CalVotesThreshold_def sdiv3 max_faulty_def Let_def)

lemma countJustifySigns_Inr:
  assumes "countJustifySigns c vs pid ss k = Inr m"
  shows "m = k + int (length (filter (\<lambda>s. Address s \<in> set vs) ss))"
    and "\<forall>s \<in> set ss. Address s \<in> set vs \<longrightarrow> fst (VerifyVoteMsgSign c s pid)"
proof (atomize (full), use assms in \<open>induction ss arbitrary: k\<close>)
  case (Cons a ss)
  show ?case using Cons.prems Cons.IH [of k] Cons.IH [of "k + 1"] by (auto split: if_splits)
qed simp

section \<open>Quorums\<close>

text \<open>
  What a voting rule must promise: enough votes, with the collector's own, are more than two
  thirds of the validators. Two sets that both have enough votes then share more members than
  can be faulty.
\<close>

locale voting_rule =
  fixes enough :: "int \<Rightarrow> int \<Rightarrow> bool"
    and faulty :: "int \<Rightarrow> int"
  assumes enough_votes: "enough k n \<Longrightarrow> 1 \<le> n \<Longrightarrow> n - faulty n \<le> k + 1"
    and few_faulty: "1 \<le> n \<Longrightarrow> 3 * faulty n < n"
begin

lemma quorums_share_honest:
  assumes "finite V" and "V \<noteq> {}" and "A \<subseteq> V" and "B \<subseteq> V"
    and "enough (int (card A) - 1) (int (card V))" and "enough (int (card B) - 1) (int (card V))"
  shows "faulty (int (card V)) < int (card (A \<inter> B))"
proof -
  have "1 \<le> int (card V)" using assms(1,2) by (simp add: Suc_leI card_gt_0_iff)
  then have "int (card V) - faulty (int (card V)) \<le> int (card A)"
    "int (card V) - faulty (int (card V)) \<le> int (card B)"
    "3 * faulty (int (card V)) < int (card V)"
    using enough_votes [OF assms(5)] enough_votes [OF assms(6)] few_faulty by auto
  moreover have "card A + card B = card (A \<union> B) + card (A \<inter> B)"
    using assms(1,3,4) by (intro card_Un_Int) (auto intro: finite_subset)
  moreover have "card (A \<union> B) \<le> card V"
    using assms by (intro card_mono) auto
  ultimately show ?thesis by linarith
qed

lemma honest_member:
  assumes "finite V" and "V \<noteq> {}" and "A \<subseteq> V" and "B \<subseteq> V"
    and "enough (int (card A) - 1) (int (card V))" and "enough (int (card B) - 1) (int (card V))"
    and "Bad \<subseteq> V" and "int (card Bad) \<le> faulty (int (card V))"
  shows "\<exists>v \<in> A \<inter> B. v \<notin> Bad"
proof (rule ccontr)
  assume "\<not> ?thesis"
  then have "A \<inter> B \<subseteq> Bad" by blast
  then have "card (A \<inter> B) \<le> card Bad"
    using assms(1,7) by (intro card_mono) (auto intro: finite_subset)
  with quorums_share_honest [OF assms(1-6)] assms(8) show False by linarith
qed

end

interpretation bft: voting_rule CalVotesThreshold max_faulty
  by unfold_locales (auto simp: CalVotesThreshold_iff max_faulty_def)

section \<open>Certificates that pass the rules\<close>

text \<open>The validators of a list whose signature on the certified id verifies.\<close>

definition valid_signers :: "'pk cbft_crypto \<Rightarrow> string list \<Rightarrow> quorum_cert \<Rightarrow> string set" where
  "valid_signers c validators qc =
     Address ` {s \<in> set (elems (GetSignsInfo qc)).
                  Address s \<in> set validators \<and> fst (VerifyVoteMsgSign c s (GetProposalId qc))}"

lemma valid_signers_filter:
  "valid_signers c validators qc =
     set (map Address (filter (\<lambda>s. Address s \<in> set validators \<and> fst (VerifyVoteMsgSign c s (GetProposalId qc)))
                         (elems (GetSignsInfo qc))))"
  by (auto simp: valid_signers_def)

lemma CheckProposal_accepts:
  assumes "CheckProposal c s tree proposal parent (Some validators) = None"
  obtains n where
    "countJustifySigns c validators (GetProposalId parent) (elems (GetSignsInfo parent)) 0 = Inr n"
    "CalVotesThreshold n (int (length validators))"
  using assms by (auto simp: CheckProposal_def split: if_splits sum.splits)

lemma countJustifySigns_distinct:
  assumes "countJustifySigns c vs (GetProposalId qc) (elems (GetSignsInfo qc)) 0 = Inr n"
    and "distinct (map Address (elems (GetSignsInfo qc)))"
  shows "n = int (card (valid_signers c vs qc))"
proof -
  let ?ss = "elems (GetSignsInfo qc)"
  have "valid_signers c vs qc = set (map Address (filter (\<lambda>s. Address s \<in> set vs) ?ss))"
    using countJustifySigns_Inr(2) [OF assms(1)] by (auto simp: valid_signers_def)
  moreover have "distinct (map Address (filter (\<lambda>s. Address s \<in> set vs) ?ss))"
    using assms(2) by (rule distinct_map_filter)
  ultimately have "card (valid_signers c vs qc) = length (filter (\<lambda>s. Address s \<in> set vs) ?ss)"
    by (simp only: distinct_card length_map)
  then show ?thesis
    using countJustifySigns_Inr(1) [OF assms(1)] by simp
qed

section \<open>Sample values\<close>

text \<open>A signature scheme in which a signature is the signer's name followed by the message.\<close>

definition demo_client :: "string crypto_client" where
  "demo_client =
     \<lparr>GetEcdsaPublicKeyFromJsonStr = Some, GetAddressFromPublicKey = Some,
      VerifyECDSA = (\<lambda>ak sig msg. (elems sig = ak @ elems msg, None)),
      SignECDSA = (\<lambda>msg. Some (Some (''n1'' @ elems msg)))\<rparr>"

definition demo_crypto :: "string cbft_crypto" where
  "demo_crypto = \<lparr>own_Address = ''n1'', own_PublicKeyStr = ''n1'', CryptoClient = demo_client\<rparr>"

definition demo_sign :: "string \<Rightarrow> string \<Rightarrow> quorum_cert_sign" where
  "demo_sign who msg = \<lparr>Address = who, PublicKey = who, Sign = Some (who @ msg)\<rparr>"

definition signed_qc :: "string \<Rightarrow> int \<Rightarrow> string list \<Rightarrow> quorum_cert" where
  "signed_qc name view signers =
     NewQuorumCert \<lparr>ProposalId = Some name, ProposalView = view, ParentId = Some ''B2'', ParentView = 2\<rparr>
       None (Some (map (\<lambda>w. demo_sign w name) signers))"

definition demo_validators :: "string list" where
  "demo_validators = [''n1'', ''n2'', ''n3'', ''n4'']"

definition demo_rules :: safety_rules where
  "demo_rules = \<lparr>latestRound = 3, preferredRound = 2\<rparr>"

text \<open>A tree whose root \<open>B2\<close> has two sons of view 3, \<open>B3\<close> and \<open>C3\<close>.\<close>

definition fork_tree :: qc_pending_tree where
  "fork_tree =
     newTree (demo_qc ''B0'' 0 None)
       (ProposalNode (demo_qc ''B2'' 2 (Some ''B1''))
          [ProposalNode (demo_qc ''B3'' 3 (Some ''B2'')) [], ProposalNode (demo_qc ''C3'' 3 (Some ''B2'')) []])
       (demo_qc ''B2'' 2 (Some ''B1'')) None"

lemmas demo_safety_defs =
  fork_tree_def newTree_def valid_signers_filter CalVotesThreshold_def
  demo_client_def demo_crypto_def demo_sign_def signed_qc_def demo_validators_def demo_rules_def
  demo_qc_def CheckProposal_def CheckVote_def VerifyVoteMsgSign_def DFSQueryNode_def
  StrictInternal_def PermissiveInternal_def

section \<open>Properties\<close>

text \<open>
  With \<open>n = 3 f + 1\<close> validators, \<open>CalVotesThreshold\<close> holds from \<open>2 f\<close> votes on and not below:
  the collector of the votes is counted as one more voter without a signature of its own.
\<close>

lemma CalVotesThreshold_exact:
  assumes "1 \<le> f"
  shows "CalVotesThreshold votes (3 * f + 1) \<longleftrightarrow> 2 * f \<le> votes"
  using assms by (auto simp: CalVotesThreshold_iff max_faulty_def)

lemma CalVotesThreshold_exact_witness:
  "CalVotesThreshold 4 7 \<and> \<not> CalVotesThreshold 3 7"
  using CalVotesThreshold_exact [of 2 4] CalVotesThreshold_exact [of 2 3] by simp

text \<open>
  C5. Quorum intersection: take two sets of validators that each reach the threshold with their
  collector counted as a member. When at most a third of the validators is faulty, as
  \<open>max_faulty\<close> says, some validator that is not faulty is in both.
\<close>

theorem quorums_intersect_honest:
  assumes "finite V" and "V \<noteq> {}" and "A \<subseteq> V" and "B \<subseteq> V"
    and "CalVotesThreshold (int (card A) - 1) (int (card V))"
    and "CalVotesThreshold (int (card B) - 1) (int (card V))"
    and "Bad \<subseteq> V" and "int (card Bad) \<le> max_faulty (int (card V))"
  shows "\<exists>v \<in> A \<inter> B. v \<notin> Bad"
  using assms by (rule bft.honest_member)

theorem quorums_intersect_honest_witness:
  "\<exists>v \<in> {1, 2, 3} \<inter> {2, 3, 4 :: nat}. v \<notin> {3}"
  by (rule quorums_intersect_honest [of "{1, 2, 3, 4}"])
    (simp_all add: CalVotesThreshold_iff max_faulty_def)

text \<open>
  C14. A justify certificate that \<open>CheckProposal\<close> accepts, and that names no signer twice, carries
  verified signatures of at least \<open>n - f - 1\<close> different validators of the given set of \<open>n\<close>.
\<close>

theorem CheckProposal_justify_signed:
  assumes "CheckProposal c s tree proposal parent (Some validators) = None"
    and "distinct (map Address (elems (GetSignsInfo parent)))"
    and "validators \<noteq> []"
  shows "int (length validators) - max_faulty (int (length validators)) - 1
           \<le> int (card (valid_signers c validators parent))"
proof -
  obtain n where "countJustifySigns c validators (GetProposalId parent) (elems (GetSignsInfo parent)) 0 = Inr n"
    and "CalVotesThreshold n (int (length validators))"
    using CheckProposal_accepts [OF assms(1)] .
  then show ?thesis
    using assms(2,3) countJustifySigns_distinct [of c validators parent n]
    by (simp add: CalVotesThreshold_iff Suc_leI)
qed

theorem CheckProposal_justify_signed_witness:
  "2 \<le> int (card (valid_signers demo_crypto demo_validators (signed_qc ''B3'' 3 [''n1'', ''n2''])))"
  using CheckProposal_justify_signed [of demo_crypto demo_rules fork_tree "demo_qc ''B4'' 4 (Some ''B3'')"
      "signed_qc ''B3'' 3 [''n1'', ''n2'']" demo_validators]
  by (simp add: demo_safety_defs go_defs max_faulty_def)

text \<open>
  Two certificates for different proposals of the same view can both be accepted with no
  signer in common: among four validators, two signatures each are enough.
\<close>

theorem disjoint_certificates_accepted:
  "CheckProposal demo_crypto demo_rules fork_tree (demo_qc ''B4'' 4 (Some ''B3''))
     (signed_qc ''B3'' 3 [''n1'', ''n2'']) (Some demo_validators) = None \<and>
   CheckProposal demo_crypto demo_rules fork_tree (demo_qc ''C4'' 4 (Some ''C3''))
     (signed_qc ''C3'' 3 [''n3'', ''n4'']) (Some demo_validators) = None \<and>
   valid_signers demo_crypto demo_validators (signed_qc ''B3'' 3 [''n1'', ''n2'']) \<inter>
   valid_signers demo_crypto demo_validators (signed_qc ''C3'' 3 [''n3'', ''n4'']) = {}"
  by (simp add: demo_safety_defs go_defs)

text \<open>
  \<open>CheckProposal\<close> counts signatures, not signers: a certificate with the same validator's
  signature \<open>n - f - 1\<close> times over is accepted.
\<close>

lemma repeated_signature_accepted:
  "CheckProposal demo_crypto demo_rules fork_tree (demo_qc ''B4'' 4 (Some ''B3''))
     (signed_qc ''B3'' 3 [''n4'', ''n4'']) (Some demo_validators) = None \<and>
   valid_signers demo_crypto demo_validators (signed_qc ''B3'' 3 [''n4'', ''n4'']) = {''n4''}"
  by (simp add: demo_safety_defs go_defs)

text \<open>
  \<open>CheckVote\<close> lets a forged vote pass. When the public key is that of a validator and
  \<open>VerifyECDSA\<close> finds the signature wrong without an error of its own, which is how
  \<open>crypto/core/sign\<close> answers for a well-formed but wrong signature, \<open>CheckVote\<close> returns that
  missing error, that is, success, whatever the view of the vote.
\<close>

theorem CheckVote_forged_vote_accepted:
  assumes "elems (GetSignsInfo qc) = sign0 # rest"
    and "Address sign0 \<in> set validators"
    and "GetEcdsaPublicKeyFromJsonStr (CryptoClient c) (PublicKey sign0) = Some ak"
    and "GetAddressFromPublicKey (CryptoClient c) ak = Some (Address sign0)"
    and "VerifyECDSA (CryptoClient c) ak (Sign sign0) (GetProposalId qc) = (False, None)"
  shows "CheckVote c s qc validators = None"
  using assms by (simp add: CheckVote_def VerifyVoteMsgSign_def)

theorem CheckVote_forged_vote_accepted_witness:
  "CheckVote demo_crypto demo_rules
     (signed_qc ''B3'' 3 []\<lparr>SignInfos := Some [(demo_sign ''n2'' ''other'')]\<rparr>) demo_validators = None"
  by (rule CheckVote_forged_vote_accepted [where ak = "''n2''" and rest = "[]"
        and ?sign0.0 = "demo_sign ''n2'' ''other''"])
    (simp_all add: demo_safety_defs go_defs)

end
