(* ===== verification/Smr.thy ===== *)
theory Smr
  imports SafetyRules
begin

text \<open>
  The chained BFT state machine, \<^verbatim>\<open>consensus/chainbft/smr.go\<close>, and the signing of proposals
  in \<^verbatim>\<open>crypto.go\<close>.

  The state is the SMR structure with its pacemaker, safety rules and tree inlined. The two
  \<open>sync.Map\<close>s are maps, the log is left out, the mutex makes each exported operation and each
  handler one atomic step. A message given to \<open>p2p.SendMessage\<close> is appended to \<open>outbox\<close> with the
  accounts it goes to; \<open>network.NewMessage\<close> never returns \<open>nil\<close>. The election, the crypto
  client, the digest of a proposal and the current time are parameters. A JSON text inside a
  message is the value it decodes to, \<open>None\<close> when \<open>json.Unmarshal\<close> fails; a certificate on the
  wire may lack its \<open>VoteInfo\<close>, whose first use then panics.
\<close>

section \<open>Messages\<close>

record wire_qc =
  w_VoteInfo :: "vote_info option"
  w_LedgerCommitInfo :: "ledger_commit_info option"
  w_SignInfos :: "quorum_cert_sign slice"

record proposal_msg =
  pm_ProposalView :: int
  pm_ProposalId :: bytes
  pm_Timestamp :: int
  pm_JustifyQC :: "wire_qc option"
  pm_Sign :: "quorum_cert_sign option"
  pm_MsgDigest :: bytes

record vote_msg =
  vm_VoteInfo :: "vote_info option"
  vm_LedgerCommitInfo :: "ledger_commit_info option"
  vm_Signature :: "quorum_cert_sign slice"

datatype net_msg = ProposalNet proposal_msg | VoteNet vote_msg

datatype msg_type =
  CHAINED_BFT_NEW_VIEW_MSG | CHAINED_BFT_NEW_PROPOSAL_MSG | CHAINED_BFT_VOTE_MSG | OTHER_MSG

text \<open>
  \<open>network.Unmarshal\<close> of a received message into a proposal and into a vote, \<open>None\<close> for its error.
\<close>

record core_message =
  cm_Bcname :: string
  cm_Type :: msg_type
  cm_proposal :: "proposal_msg option"
  cm_vote :: "vote_msg option"

definition marshalQC :: "quorum_cert \<Rightarrow> wire_qc" where
  "marshalQC qc = \<lparr>w_VoteInfo = Some (VoteInfo qc), w_LedgerCommitInfo = LedgerCommitInfo qc,
                   w_SignInfos = SignInfos qc\<rparr>"

section \<open>State\<close>

record 'pk smr_env =
  cryptoClient :: "'pk cbft_crypto"
  GetLeader :: "int \<Rightarrow> string"
  GetValidators :: "int \<Rightarrow> string slice"
  MakeProposalMsgDigest :: "proposal_msg \<Rightarrow> bytes option"

record smr =
  bcName :: string
  smr_address :: string
  currentView :: int
  safetyRules :: safety_rules
  qcTree :: qc_pending_tree
  ledgerState :: int
  localProposal :: "string \<Rightarrow> int option"
  qcVoteMsgs :: "string \<Rightarrow> quorum_cert_sign list option"
  subscribeList :: "msg_type list"
  outbox :: "(net_msg \<times> string list) list"

text \<open>What a handler returns: \<open>nil\<close>, an error, or nothing because it panics.\<close>

datatype outcome = RetNil | RetErr smr_error | Panic

definition NewSMR :: "string \<Rightarrow> string \<Rightarrow> int \<Rightarrow> safety_rules \<Rightarrow> qc_pending_tree \<Rightarrow> smr" where
  "NewSMR bcname addr view rules tree =
     \<lparr>bcName = bcname, smr_address = addr, currentView = view, safetyRules = rules, qcTree = tree,
      ledgerState = GetProposalView (highQC tree),
      localProposal = [F (node_id (root tree)) \<mapsto> 0], qcVoteMsgs = Map.empty,
      subscribeList = [], outbox = []\<rparr>"

definition LoadVotes :: "smr \<Rightarrow> bytes \<Rightarrow> quorum_cert_sign slice \<Rightarrow> smr" where
  "LoadVotes s proposalId signs =
     (case signs of
        None \<Rightarrow> s
      | Some ss \<Rightarrow> s\<lparr>qcVoteMsgs := (qcVoteMsgs s)(F proposalId \<mapsto> ss)\<rparr>)"

text \<open>\<open>p2p.Register\<close> is the parameter \<open>register\<close>, true when it succeeds.\<close>

fun registerAll :: "(msg_type \<Rightarrow> bool) \<Rightarrow> smr \<Rightarrow> msg_type list \<Rightarrow> smr \<times> outcome" where
  "registerAll register s [] = (s, RetNil)"
| "registerAll register s (m # ms) =
     (if register m then registerAll register (s\<lparr>subscribeList := subscribeList s @ [m]\<rparr>) ms
      else (s, RetErr NetErr))"

definition RegisterToNetwork :: "(msg_type \<Rightarrow> bool) \<Rightarrow> smr \<Rightarrow> smr \<times> outcome" where
  "RegisterToNetwork register s =
     registerAll register s
       [CHAINED_BFT_NEW_VIEW_MSG, CHAINED_BFT_NEW_PROPOSAL_MSG, CHAINED_BFT_VOTE_MSG]"

text \<open>
  The loop of \<open>UnRegisterToNetwork\<close>: \<open>e\<close> is the list element the variable points to, \<open>None\<close> for
  \<open>nil\<close>; the fuel is one more than the length of the list, which bounds \<open>i\<close>.
\<close>

fun unregisterLoop ::
    "nat \<Rightarrow> (msg_type \<Rightarrow> bool) \<Rightarrow> nat \<Rightarrow> msg_type option \<Rightarrow> msg_type list \<Rightarrow> msg_type list" where
  "unregisterLoop 0 unregister i e subs = subs"
| "unregisterLoop (Suc fuel) unregister i e subs =
     (if i < length subs \<and> e \<noteq> None then
        (case subs of
           [] \<Rightarrow> subs
         | sub # rest \<Rightarrow>
             unregisterLoop fuel unregister (i + 1) (case rest of [] \<Rightarrow> None | nxt # _ \<Rightarrow> Some nxt)
               (if unregister sub then rest else subs))
      else subs)"

definition UnRegisterToNetwork :: "(msg_type \<Rightarrow> bool) \<Rightarrow> smr \<Rightarrow> smr" where
  "UnRegisterToNetwork unregister s =
     s\<lparr>subscribeList :=
         unregisterLoop (length (subscribeList s) + 1) unregister 0 None (subscribeList s)\<rparr>"

section \<open>Helpers\<close>

definition send :: "smr \<Rightarrow> net_msg \<Rightarrow> string list \<Rightarrow> smr" where
  "send s m accounts = s\<lparr>outbox := outbox s @ [(m, accounts)]\<rparr>"

definition advance :: "smr \<Rightarrow> quorum_cert option \<Rightarrow> smr" where
  "advance s qc = s\<lparr>currentView := fst (AdvanceView (currentView s) qc)\<rparr>"

definition removeLocalValidator :: "smr \<Rightarrow> string list \<Rightarrow> string list" where
  "removeLocalValidator s accounts = filter (\<lambda>addr. addr \<noteq> smr_address s) accounts"

definition getHighQC :: "smr \<Rightarrow> quorum_cert" where
  "getHighQC s = highQC (qcTree s)"

text \<open>\<open>signSet\<close> holds the addresses of \<open>q\<close> as it was before the second loop.\<close>

fun appendNew :: "string set \<Rightarrow> quorum_cert_sign list \<Rightarrow> quorum_cert_sign list \<Rightarrow> quorum_cert_sign list" where
  "appendNew signSet q [] = q"
| "appendNew signSet q (sign # p) =
     (if Address sign \<notin> signSet then appendNew signSet (q @ [sign]) p else appendNew signSet q p)"

definition appendSigns :: "quorum_cert_sign list \<Rightarrow> quorum_cert_sign list \<Rightarrow> quorum_cert_sign list" where
  "appendSigns q p = appendNew (set (map Address q)) q p"

definition getCompleteHighQC :: "smr \<Rightarrow> quorum_cert" where
  "getCompleteHighQC s =
     (let raw = getHighQC s;
          vote = \<lparr>ProposalId = GetProposalId raw, ProposalView = GetProposalView raw,
                  ParentId = GetParentProposalId raw, ParentView = GetProposalView raw\<rparr>
      in NewQuorumCert vote None (qcVoteMsgs s (F (GetProposalId raw))))"

definition validNewHighQC :: "smr \<Rightarrow> bytes \<Rightarrow> string slice \<Rightarrow> bool" where
  "validNewHighQC s inProposalId validators =
     (case qcVoteMsgs s (F inProposalId) of
        None \<Rightarrow> False
      | Some signs \<Rightarrow>
          if length (elems validators) = 1 then length signs = length (elems validators)
          else CalVotesThreshold (int (length signs)) (int (length (elems validators))))"

definition enforceUpdateHighQC :: "smr \<Rightarrow> bytes \<Rightarrow> smr \<times> bool \<times> smr_error option" where
  "enforceUpdateHighQC s inProposalId =
     (if bytes_Equal (GetProposalId (getHighQC s)) inProposalId then (s, False, None)
      else (case EnforceUpdateHighQC (qcTree s) inProposalId of
              (t, err) \<Rightarrow> (s\<lparr>qcTree := t\<rparr>, True, map_option TreeErr err)))"

definition blockToProposalNode :: "smr \<Rightarrow> block_handle \<Rightarrow> proposal_node" where
  "blockToProposalNode s block =
     (case DFSQueryNode (qcTree s) (GetBlockid block) of
        Some node \<Rightarrow> node
      | None \<Rightarrow>
          ProposalNode (NewQuorumCert
            \<lparr>ProposalId = GetBlockid block, ProposalView = GetHeight block,
             ParentId = GetPreHash block, ParentView = i64 (GetHeight block - 1)\<rparr> None None) [])"

definition SignProposalMsg :: "'pk smr_env \<Rightarrow> proposal_msg \<Rightarrow> proposal_msg option" where
  "SignProposalMsg env msg =
     (case MakeProposalMsgDigest env msg of
        None \<Rightarrow> None
      | Some msgDigest \<Rightarrow>
          (case SignECDSA (CryptoClient (cryptoClient env)) msgDigest of
             None \<Rightarrow> None
           | Some sig \<Rightarrow>
               Some (msg\<lparr>pm_Sign := Some \<lparr>Address = own_Address (cryptoClient env),
                                          PublicKey = own_PublicKeyStr (cryptoClient env), Sign = sig\<rparr>,
                         pm_MsgDigest := msgDigest\<rparr>)))"

section \<open>Status of the tree and of the ledger\<close>

definition updateTree :: "smr \<Rightarrow> proposal_node \<Rightarrow> smr \<times> outcome" where
  "updateTree s node =
     (case UpdateQCStatus (qcTree s) node of
        (t, None) \<Rightarrow> (s\<lparr>qcTree := t\<rparr>, RetNil)
      | (t, Some err) \<Rightarrow> (s\<lparr>qcTree := t\<rparr>, RetErr (TreeErr err)))"

definition smr_updateQcStatus :: "smr \<Rightarrow> proposal_node \<Rightarrow> smr \<times> outcome" where
  "smr_updateQcStatus s node =
     updateTree
       (if GetProposalView (node_QC node) > ledgerState s
        then s\<lparr>ledgerState := GetProposalView (node_QC node)\<rparr> else s) node"

definition updateJustifyQCStatus :: "smr \<Rightarrow> quorum_cert option \<Rightarrow> smr" where
  "updateJustifyQCStatus s justify =
     (case justify of
        None \<Rightarrow> s
      | Some j \<Rightarrow>
          (let key = F (GetProposalId j);
               signs = (case qcVoteMsgs s key of None \<Rightarrow> [] | Some ss \<Rightarrow> ss)
           in case GetSignsInfo j of
                None \<Rightarrow> s
              | Some justifySigns \<Rightarrow>
                  s\<lparr>qcTree := UpdateHighQC (qcTree s) (GetProposalId j),
                    qcVoteMsgs := (qcVoteMsgs s)(key \<mapsto> appendSigns signs justifySigns)\<rparr>))"

section \<open>Proposing\<close>

definition reloadJustifyQC :: "smr \<Rightarrow> bytes \<Rightarrow> smr_error + quorum_cert" where
  "reloadJustifyQC s parentID =
     (if bytes_Equal (GetProposalId (genesis (qcTree s))) parentID then Inr (getHighQC s)
      else (case DFSQueryNode (qcTree s) parentID of
              None \<Rightarrow> Inl ErrEmptyTarget
            | Some qc \<Rightarrow>
                (let v = \<lparr>ProposalId = node_id qc, ProposalView = GetProposalView (node_QC qc),
                          ParentId = None, ParentView = 0\<rparr>;
                     commitId = (case commitQC (qcTree s) of None \<Rightarrow> None | Some c \<Rightarrow> GetProposalId c)
                 in case qcVoteMsgs s (F (node_id qc)) of
                      None \<Rightarrow> Inl ErrJustifyVotesEmpty
                    | Some signs \<Rightarrow>
                        Inr (NewQuorumCert v (Some \<lparr>CommitStateId = commitId, VoteInfoHash = None\<rparr>)
                               (Some signs)))))"

definition voteToSelf :: "'pk smr_env \<Rightarrow> smr \<Rightarrow> int \<Rightarrow> bytes \<Rightarrow> quorum_cert \<Rightarrow> smr" where
  "voteToSelf env s viewNumber proposalID parent =
     (let selfQC = NewQuorumCert
            \<lparr>ProposalId = proposalID, ProposalView = viewNumber, ParentId = GetProposalId parent, ParentView = 0\<rparr>
            (Some \<lparr>CommitStateId = None, VoteInfoHash = proposalID\<rparr>) None
      in case SignVoteMsg (cryptoClient env) proposalID of
           None \<Rightarrow> s
         | Some selfSign \<Rightarrow>
             (let s1 = (if qcVoteMsgs s (F proposalID) = None
                        then s\<lparr>qcVoteMsgs := (qcVoteMsgs s)(F proposalID \<mapsto> [selfSign])\<rparr> else s)
              in case updateTree s1 (ProposalNode selfQC []) of
                   (s2, RetNil) \<Rightarrow>
                     (let s3 = advance s2 (Some selfQC)
                      in s3\<lparr>qcTree := UpdateHighQC (qcTree s3) proposalID\<rparr>)
                 | (s2, _) \<Rightarrow> s2))"

definition ProcessProposal ::
    "'pk smr_env \<Rightarrow> int \<Rightarrow> smr \<Rightarrow> int \<Rightarrow> bytes \<Rightarrow> bytes \<Rightarrow> string slice \<Rightarrow> smr \<times> outcome" where
  "ProcessProposal env now s viewNumber proposalID parentID validatesIpInfo =
     (case validatesIpInfo of
        None \<Rightarrow> (s, RetErr ErrEmptyTarget)
      | Some validators \<Rightarrow>
          if currentView s \<noteq> i64 (GetProposalView (genesis (qcTree s)) + 1) \<and>
             (case lockedQC (qcTree s) of
                None \<Rightarrow> False | Some l \<Rightarrow> currentView s < GetProposalView l)
          then (s, RetErr ErrTooLowNewProposal)
          else if localProposal s (F proposalID) \<noteq> None then (s, RetErr ErrSameProposalNotify)
          else (case reloadJustifyQC s parentID of
                  Inl err \<Rightarrow> (s, RetErr err)
                | Inr parentQC \<Rightarrow>
                    (case SignProposalMsg env
                            \<lparr>pm_ProposalView = viewNumber, pm_ProposalId = proposalID, pm_Timestamp = now,
                             pm_JustifyQC = Some (marshalQC parentQC), pm_Sign = None, pm_MsgDigest = None\<rparr> of
                       None \<Rightarrow> (s, RetErr CryptoError)
                     | Some propMsg \<Rightarrow>
                         (let s1 = send s (ProposalNet propMsg) (removeLocalValidator s validators);
                              s2 = s1\<lparr>localProposal := (localProposal s1)(F proposalID \<mapsto> now)\<rparr>
                          in ((if length validators = 1 then voteToSelf env s2 viewNumber proposalID parentQC
                               else s2), RetNil)))))"

section \<open>Receiving a proposal\<close>

definition voteProposal ::
    "'pk smr_env \<Rightarrow> smr \<Rightarrow> bytes \<Rightarrow> vote_info \<Rightarrow> ledger_commit_info \<Rightarrow> string \<Rightarrow> smr" where
  "voteProposal env s msg vote ledger voteTo =
     (if voteTo = smr_address s then s
      else (case SignVoteMsg (cryptoClient env) msg of
              None \<Rightarrow> s
            | Some nextSign \<Rightarrow>
                send s (VoteNet \<lparr>vm_VoteInfo = Some vote, vm_LedgerCommitInfo = Some ledger,
                                 vm_Signature = Some [nextSign]\<rparr>) [voteTo]))"

text \<open>Step 2: the pacemaker advances, and the proposal is echoed to the node that signed it.\<close>

definition notifyLeader :: "smr \<Rightarrow> proposal_msg \<Rightarrow> quorum_cert \<Rightarrow> smr" where
  "notifyLeader s msg parentQC =
     (let s1 = advance s (Some parentQC);
          leader = (case pm_Sign msg of None \<Rightarrow> [] | Some sig \<Rightarrow> Address sig)
      in if leader \<noteq> [] \<and> leader \<noteq> smr_address s1 then send s1 (ProposalNet msg) [leader] else s1)"

text \<open>Step 3: the commit that the justify certificate allows.\<close>

definition commitJustify :: "smr \<Rightarrow> quorum_cert \<Rightarrow> smr" where
  "commitJustify s parentQC =
     (case LedgerCommitInfo parentQC of
        None \<Rightarrow> s
      | Some info \<Rightarrow>
          if CommitStateId info \<noteq> None then
            (case UpdatePreferredRound (safetyRules s) (GetProposalView parentQC) of
               (r, ok) \<Rightarrow>
                 (let s1 = s\<lparr>safetyRules := r\<rparr>
                  in if ok then s1\<lparr>qcTree := UpdateCommit (qcTree s1) (GetProposalId parentQC)\<rparr> else s1))
          else s)"

text \<open>Steps 4 to 6: the window of views, the vote rule, the insertion and the vote.\<close>

definition acceptProposal :: "'pk smr_env \<Rightarrow> smr \<Rightarrow> proposal_msg \<Rightarrow> vote_info \<Rightarrow> quorum_cert \<Rightarrow> smr \<times> outcome" where
  "acceptProposal env s msg newVote parentQC =
     (if \<not> CheckPacemaker (pm_ProposalView msg) (currentView s) then (s, RetErr ErrTooLowNewProposal)
      else
        (case VoteProposal (safetyRules s) (pm_ProposalView msg) parentQC of
           (r, False) \<Rightarrow> (s\<lparr>safetyRules := r\<rparr>, RetErr ErrVoteProposal)
         | (r, True) \<Rightarrow>
             (let s1 = s\<lparr>safetyRules := r\<rparr>;
                  newLedgerInfo = \<lparr>CommitStateId = None, VoteInfoHash = pm_ProposalId msg\<rparr>
              in case updateTree s1 (ProposalNode (NewQuorumCert newVote (Some newLedgerInfo) None) []) of
                   (s2, RetNil) \<Rightarrow>
                     (let nextLeader = GetLeader env (i64 (currentView s2 + 1))
                      in if nextLeader = [] then (s2, RetErr ErrEmptyTarget)
                         else (voteProposal env s2 (pm_ProposalId msg) newVote newLedgerInfo nextLeader, RetNil))
                 | (s2, out) \<Rightarrow> (s2, out))))"

text \<open>The proposal with the justify certificate it carries, once both are decoded.\<close>

definition processJustified :: "'pk smr_env \<Rightarrow> smr \<Rightarrow> proposal_msg \<Rightarrow> quorum_cert \<Rightarrow> smr \<times> outcome" where
  "processJustified env s msg parentQC =
     (let newVote = \<lparr>ProposalId = pm_ProposalId msg, ProposalView = pm_ProposalView msg,
                     ParentId = GetProposalId parentQC, ParentView = GetProposalView parentQC\<rparr>;
          isFirstJustify = bytes_Equal (GetProposalId (genesis (qcTree s))) (GetProposalId parentQC);
          proposalQC = NewQuorumCert newVote None
            (Some (case pm_Sign msg of None \<Rightarrow> [] | Some sig \<Rightarrow> [sig]));
          err = (if isFirstJustify then None
                 else CheckProposal (cryptoClient env) (safetyRules s) (qcTree s) proposalQC parentQC
                        (GetValidators env (GetProposalView parentQC)))
      in case err of
           Some e \<Rightarrow> (s, RetErr e)
         | None \<Rightarrow>
             if i64 (ledgerState s + StrictInternal) < ProposalView newVote then (s, RetErr ErrOutdatedLedger)
             else acceptProposal env (commitJustify (notifyLeader s msg parentQC) parentQC) msg newVote parentQC)"

definition handleReceivedProposal :: "'pk smr_env \<Rightarrow> smr \<Rightarrow> core_message \<Rightarrow> smr \<times> outcome" where
  "handleReceivedProposal env s msg =
     (case cm_proposal msg of
        None \<Rightarrow> (s, RetErr NetErr)
      | Some newProposalMsg \<Rightarrow>
          (let key = F (pm_ProposalId newProposalMsg);
               ok = (localProposal s key \<noteq> None);
               s1 = (if ok then s
                     else s\<lparr>localProposal := (localProposal s)(key \<mapsto> pm_Timestamp newProposalMsg)\<rparr>)
           in if ok \<and> pm_Sign newProposalMsg = None then (s1, Panic)
              else if ok \<and> Address (the (pm_Sign newProposalMsg)) \<noteq> smr_address s1
                   then (s1, RetErr ErrUnmatchedTarget)
              else (case pm_JustifyQC newProposalMsg of
                      None \<Rightarrow> (s1, RetErr JsonErr)
                    | Some w \<Rightarrow>
                        (case w_VoteInfo w of
                           None \<Rightarrow> (s1, Panic)
                         | Some v \<Rightarrow>
                             processJustified env s1 newProposalMsg
                               \<lparr>VoteInfo = v, LedgerCommitInfo = w_LedgerCommitInfo w,
                                SignInfos = w_SignInfos w\<rparr>))))"

section \<open>Receiving a vote\<close>

definition voteMsgToQC :: "vote_msg \<Rightarrow> smr_error + quorum_cert" where
  "voteMsgToQC msg =
     (case vm_VoteInfo msg of
        None \<Rightarrow> Inl JsonErr
      | Some voteInfo \<Rightarrow>
          (case vm_LedgerCommitInfo msg of
             None \<Rightarrow> Inl JsonErr
           | Some ledgerCommitInfo \<Rightarrow>
               Inr (NewQuorumCert voteInfo (Some ledgerCommitInfo) (vm_Signature msg))))"

text \<open>
  The vote is added to the stored ones; the second component is \<open>VoteLen\<close>. The first vote stores
  all the signatures of the message and counts as one.
\<close>

definition storeVote :: "smr \<Rightarrow> quorum_cert \<Rightarrow> smr \<times> int" where
  "storeVote s voteQC =
     (let key = F (GetProposalId voteQC)
      in case qcVoteMsgs s key of
           None \<Rightarrow> (s\<lparr>qcVoteMsgs := (qcVoteMsgs s)(key \<mapsto> elems (GetSignsInfo voteQC))\<rparr>, 1)
         | Some signs \<Rightarrow>
             (let sign0 = hd (elems (GetSignsInfo voteQC));
                  stored = list_ex (\<lambda>sign. Address sign = Address sign0 \<or> Address sign0 = smr_address s) signs
              in if stored then (s, int (length signs))
                 else (s\<lparr>qcVoteMsgs := (qcVoteMsgs s)(key \<mapsto> signs @ [sign0])\<rparr>, int (length (signs @ [sign0])))))"

definition handleReceivedVoteMsg :: "'pk smr_env \<Rightarrow> smr \<Rightarrow> core_message \<Rightarrow> smr \<times> outcome" where
  "handleReceivedVoteMsg env s msg =
     (case cm_vote msg of
        None \<Rightarrow> (s, RetErr NetErr)
      | Some newVoteMsg \<Rightarrow>
          (case voteMsgToQC newVoteMsg of
             Inl err \<Rightarrow> (s, RetErr err)
           | Inr voteQC \<Rightarrow>
               (let validators = elems (GetValidators env (GetProposalView voteQC))
                in case CheckVote (cryptoClient env) (safetyRules s) voteQC validators of
                     Some err \<Rightarrow> (s, RetErr err)
                   | None \<Rightarrow>
                       if localProposal s (F (GetProposalId voteQC)) = None then (s, RetErr ErrEmptyTarget)
                       else if DFSQueryNode (qcTree s) (GetProposalId voteQC) = None
                            then (s, RetErr ErrEmptyTarget)
                       else (case storeVote s voteQC of
                               (s1, VoteLen) \<Rightarrow>
                                 if \<not> CalVotesThreshold VoteLen (int (length validators)) then (s1, RetNil)
                                 else (let s2 = advance s1 (Some voteQC)
                                       in (s2\<lparr>qcTree := UpdateHighQC (qcTree s2) (GetProposalId voteQC)\<rparr>,
                                           RetNil))))))"

definition handleReceivedMsg :: "'pk smr_env \<Rightarrow> smr \<Rightarrow> core_message \<Rightarrow> smr \<times> outcome" where
  "handleReceivedMsg env s msg =
     (if cm_Bcname msg \<noteq> bcName s then (s, RetNil)
      else (case cm_Type msg of
              CHAINED_BFT_NEW_PROPOSAL_MSG \<Rightarrow> handleReceivedProposal env s msg
            | CHAINED_BFT_VOTE_MSG \<Rightarrow> handleReceivedVoteMsg env s msg
            | _ \<Rightarrow> (s, RetNil)))"

section \<open>Following the ledger\<close>

definition smr_CheckProposal ::
    "'pk smr_env \<Rightarrow> smr \<Rightarrow> block_handle \<Rightarrow> quorum_cert \<Rightarrow> string slice \<Rightarrow> smr_error option" where
  "smr_CheckProposal env s block justify validators =
     CheckProposal (cryptoClient env) (safetyRules s) (qcTree s)
       (node_QC (blockToProposalNode s block)) justify validators"

text \<open>\<open>KeepUpWithBlock\<close> proposes the block when the node is a validator, then follows it.\<close>

definition proposeBlock ::
    "'pk smr_env \<Rightarrow> int \<Rightarrow> smr \<Rightarrow> block_handle \<Rightarrow> string slice \<Rightarrow> smr \<times> outcome" where
  "proposeBlock env now s block validators =
     (if validators \<noteq> None
      then ProcessProposal env now s (GetHeight block) (GetBlockid block) (GetPreHash block) validators
      else (s, RetNil))"

definition followBlock :: "smr \<Rightarrow> block_handle \<Rightarrow> quorum_cert option \<Rightarrow> smr \<times> outcome" where
  "followBlock s block justify =
     (let (s1, out) = smr_updateQcStatus s (blockToProposalNode s block)
      in if out \<noteq> RetNil then (s1, out)
         else (advance (s1\<lparr>qcTree := UpdateCommit (qcTree s1) (GetPreHash block)\<rparr>) justify, RetNil))"

definition KeepUpWithBlock ::
    "'pk smr_env \<Rightarrow> int \<Rightarrow> smr \<Rightarrow> block_handle \<Rightarrow> quorum_cert option \<Rightarrow> string slice \<Rightarrow> smr \<times> outcome" where
  "KeepUpWithBlock env now s block justify validators =
     (let (s1, out) = proposeBlock env now (updateJustifyQCStatus s justify) block validators
      in if out \<noteq> RetNil \<and> out \<noteq> RetErr ErrSameProposalNotify \<and> out \<noteq> RetErr ErrTooLowNewProposal
         then (s1, out)
         else followBlock s1 block justify)"

text \<open>
  The loop of \<open>ResetProposerStatus\<close> that walks back from the tip of the ledger; \<open>query\<close> is
  \<open>queryBlockFunc\<close>. \<open>None\<close> means that the fuel ran out.
\<close>

fun resetTarget ::
    "nat \<Rightarrow> 'pk smr_env \<Rightarrow> smr \<Rightarrow> (bytes \<Rightarrow> block_handle option) \<Rightarrow> bytes \<Rightarrow> (smr_error + quorum_cert) option" where
  "resetTarget 0 env s query targetId = None"
| "resetTarget (Suc fuel) env s query targetId =
     (case query targetId of
        None \<Rightarrow> Some (Inl ErrEmptyTarget)
      | Some block \<Rightarrow>
          if GetHeight block \<le> GetProposalView (node_QC (root (qcTree s)))
          then Some (Inr (node_QC (root (qcTree s))))
          else (case DFSQueryNode (qcTree s) (GetBlockid block) of
                  None \<Rightarrow> resetTarget fuel env s query (GetPreHash block)
                | Some node \<Rightarrow>
                    (case GetValidators env (GetHeight block) of
                       None \<Rightarrow> Some (Inl ErrEmptyTarget)
                     | Some wantProposers \<Rightarrow>
                         if \<not> validNewHighQC s (node_id node) (Some wantProposers)
                         then resetTarget fuel env s query (GetPreHash block)
                         else Some (Inr (node_QC node)))))"

definition ResetProposerStatus ::
    "nat \<Rightarrow> 'pk smr_env \<Rightarrow> smr \<Rightarrow> block_handle \<Rightarrow> (bytes \<Rightarrow> block_handle option) \<Rightarrow> string slice
       \<Rightarrow> (smr \<times> (smr_error + bool \<times> quorum_cert)) option" where
  "ResetProposerStatus fuel env s tipBlock query validators =
     (if bytes_Equal (GetProposalId (getHighQC s)) (GetBlockid tipBlock) \<and>
         validNewHighQC s (GetBlockid tipBlock) validators
      then Some (s, Inr (False, getCompleteHighQC s))
      else (case resetTarget fuel env s query (GetBlockid tipBlock) of
              None \<Rightarrow> None
            | Some (Inl err) \<Rightarrow> Some (s, Inl err)
            | Some (Inr qc) \<Rightarrow>
                (case enforceUpdateHighQC s (GetProposalId qc) of
                   (s1, ok, Some err) \<Rightarrow> Some (s1, Inl err)
                 | (s1, ok, None) \<Rightarrow> Some (s1, Inr (True, getCompleteHighQC s1)))))"

section \<open>Runs\<close>

text \<open>One call of an exported operation; a step is such a call or one received message.\<close>

inductive local_step :: "'pk smr_env \<Rightarrow> smr \<Rightarrow> smr \<Rightarrow> bool" for env where
  keep_up: "local_step env s (fst (KeepUpWithBlock env now s block justify validators))"
| propose: "local_step env s (fst (ProcessProposal env now s view pid parent validators))"
| load_votes: "local_step env s (LoadVotes s pid signs)"
| reset: "ResetProposerStatus fuel env s tip query validators = Some (s', r) \<Longrightarrow> local_step env s s'"
| register: "local_step env s (fst (RegisterToNetwork reg s))"
| unregister: "local_step env s (UnRegisterToNetwork unreg s)"

inductive smr_step :: "'pk smr_env \<Rightarrow> smr \<Rightarrow> smr \<Rightarrow> bool" for env where
  receive: "smr_step env s (fst (handleReceivedMsg env s msg))"
| call: "local_step env s s' \<Longrightarrow> smr_step env s s'"

inductive_cases local_stepE: "local_step env s s'"
inductive_cases smr_stepE: "smr_step env s s'"

section \<open>What only grows\<close>

text \<open>
  \<open>s\<close> is extended by \<open>s'\<close>: the identity is the same, the views have not decreased, every known
  proposal is still known with its timestamp, and no message was taken back.
\<close>

definition extends :: "smr \<Rightarrow> smr \<Rightarrow> bool" where
  "extends s s' \<longleftrightarrow>
     bcName s' = bcName s \<and> smr_address s' = smr_address s \<and>
     currentView s \<le> currentView s' \<and>
     latestRound (safetyRules s) \<le> latestRound (safetyRules s') \<and>
     preferredRound (safetyRules s) \<le> preferredRound (safetyRules s') \<and>
     ledgerState s \<le> ledgerState s' \<and>
     localProposal s \<subseteq>\<^sub>m localProposal s' \<and>
     (\<exists>sent. outbox s' = outbox s @ sent)"

lemma extends_refl [simp, intro]: "extends s s"
  by (simp add: extends_def)

lemma extends_trans [trans]: "extends a b \<Longrightarrow> extends b c \<Longrightarrow> extends a c"
  unfolding extends_def by (auto intro: map_le_trans order_trans)

text \<open>The fields that \<open>extends\<close> does not look at.\<close>

lemma extends_frame [simp]:
  "extends a (s\<lparr>qcTree := t\<rparr>) = extends a s"
  "extends a (s\<lparr>qcVoteMsgs := v\<rparr>) = extends a s"
  "extends a (s\<lparr>subscribeList := l\<rparr>) = extends a s"
  by (simp_all add: extends_def)

lemma extends_send [intro]: "extends a s \<Longrightarrow> extends a (send s m to)"
  by (auto simp: extends_def send_def)

lemma send_frame [simp]:
  "localProposal (send s m to) = localProposal s" "qcTree (send s m to) = qcTree s"
  "safetyRules (send s m to) = safetyRules s" "qcVoteMsgs (send s m to) = qcVoteMsgs s"
  "currentView (send s m to) = currentView s" "ledgerState (send s m to) = ledgerState s"
  by (simp_all add: send_def)

lemma extends_advance [intro]: "extends a s \<Longrightarrow> extends a (advance s qc)"
  by (auto simp: extends_def advance_def intro: order_trans [OF _ AdvanceView_mono])

lemma extends_know:
  "extends a s \<Longrightarrow> localProposal s = m \<Longrightarrow> m k = None \<Longrightarrow> extends a (s\<lparr>localProposal := m(k \<mapsto> v)\<rparr>)"
  by (auto simp: extends_def map_le_def dom_def)

lemma extends_ledger:
  "extends a s \<Longrightarrow> ledgerState s \<le> v \<Longrightarrow> extends a (s\<lparr>ledgerState := v\<rparr>)"
  by (auto simp: extends_def)

lemma extends_rules:
  assumes "extends a s" and "latestRound (safetyRules s) \<le> latestRound r"
    and "preferredRound (safetyRules s) \<le> preferredRound r"
  shows "extends a (s\<lparr>safetyRules := r\<rparr>)"
  using assms by (auto simp: extends_def)

lemma extends_updateTree [intro]: "extends a s \<Longrightarrow> extends a (fst (updateTree s n))"
  by (auto simp: updateTree_def split: prod.split option.split)

lemma extends_updateQcStatus [intro]: "extends a s \<Longrightarrow> extends a (fst (smr_updateQcStatus s n))"
  by (auto simp: smr_updateQcStatus_def intro!: extends_ledger)

lemma extends_updateJustify [intro]: "extends a s \<Longrightarrow> extends a (updateJustifyQCStatus s j)"
  by (auto simp: updateJustifyQCStatus_def Let_def split: option.split)

lemma extends_voteToSelf [intro]: "extends a s \<Longrightarrow> extends a (voteToSelf env s v p q)"
  by (auto simp: voteToSelf_def Let_def case_prod_beta split: option.split outcome.split
      intro!: extends_advance extends_updateTree)

lemma extends_ProcessProposal [intro]:
  "extends a s \<Longrightarrow> extends a (fst (ProcessProposal env now s v pid parent vs))"
  by (auto simp: ProcessProposal_def Let_def split: option.split sum.split
      intro!: extends_voteToSelf extends_know extends_send)

lemma extends_voteProposal [intro]: "extends a s \<Longrightarrow> extends a (voteProposal env s m v l to)"
  by (auto simp: voteProposal_def split: option.split)

lemma extends_notifyLeader [intro]: "extends a s \<Longrightarrow> extends a (notifyLeader s m q)"
  by (auto simp: notifyLeader_def Let_def)

lemma extends_commitJustify [intro]: "extends a s \<Longrightarrow> extends a (commitJustify s q)"
  by (auto simp: commitJustify_def UpdatePreferredRound_def split: option.split intro!: extends_rules)

lemma extends_acceptProposal [intro]:
  assumes "extends a s"
  shows "extends a (fst (acceptProposal env s m v q))"
proof -
  have "extends a (s\<lparr>safetyRules := fst (VoteProposal (safetyRules s) (pm_ProposalView m) q)\<rparr>)"
    using assms by (intro extends_rules) (auto intro: mono_intros)
  then show ?thesis
    using assms
    by (auto simp: acceptProposal_def Let_def case_prod_beta split: bool.split outcome.split
        intro!: extends_voteProposal extends_updateTree)
qed

lemma extends_processJustified [intro]: "extends a s \<Longrightarrow> extends a (fst (processJustified env s m q))"
  by (auto simp: processJustified_def Let_def split: option.split
      intro!: extends_acceptProposal extends_commitJustify extends_notifyLeader)

lemma extends_handleReceivedProposal [intro]:
  "extends a s \<Longrightarrow> extends a (fst (handleReceivedProposal env s m))"
  by (auto simp: handleReceivedProposal_def Let_def split: option.split
      intro!: extends_processJustified extends_know)

lemma extends_storeVote: "storeVote s q = (s', n) \<Longrightarrow> extends a s \<Longrightarrow> extends a s'"
  by (auto simp: storeVote_def Let_def split: option.splits if_splits)

lemma extends_handleReceivedVoteMsg [intro]:
  "extends a s \<Longrightarrow> extends a (fst (handleReceivedVoteMsg env s m))"
  by (auto simp: handleReceivedVoteMsg_def Let_def split: option.split sum.split prod.split
      elim: extends_storeVote)

lemma extends_handleReceivedMsg [intro]: "extends a s \<Longrightarrow> extends a (fst (handleReceivedMsg env s m))"
  by (auto simp: handleReceivedMsg_def split: msg_type.split)

lemma extends_proposeBlock [intro]: "extends a s \<Longrightarrow> extends a (fst (proposeBlock env now s b vs))"
  by (auto simp: proposeBlock_def)

lemma extends_followBlock [intro]: "extends a s \<Longrightarrow> extends a (fst (followBlock s b j))"
  by (auto simp: followBlock_def Let_def case_prod_beta intro!: extends_advance extends_updateQcStatus)

lemma extends_KeepUpWithBlock [intro]: "extends a s \<Longrightarrow> extends a (fst (KeepUpWithBlock env now s b j vs))"
  by (auto simp: KeepUpWithBlock_def Let_def case_prod_beta
      intro!: extends_followBlock extends_proposeBlock)

lemma extends_registerAll: "extends a s \<Longrightarrow> extends a (fst (registerAll reg s ms))"
  by (induction reg s ms rule: registerAll.induct) auto

lemma extends_reset:
  "ResetProposerStatus fuel env s tip query vs = Some (s', r) \<Longrightarrow> extends a s \<Longrightarrow> extends a s'"
  by (auto simp: ResetProposerStatus_def enforceUpdateHighQC_def split: if_splits option.splits sum.splits prod.splits)

lemma local_step_extends: "local_step env s s' \<Longrightarrow> extends s s'"
  by (erule local_stepE)
    (auto simp: LoadVotes_def RegisterToNetwork_def UnRegisterToNetwork_def extends_registerAll
      elim: extends_reset split: option.split)

lemma smr_step_extends: "smr_step env s s' \<Longrightarrow> extends s s'"
  by (auto elim!: smr_stepE dest: local_step_extends)

interpretation smr_order: monotone_relation "smr_step env" extends for env
  by unfold_locales (auto intro: smr_step_extends extends_trans)

section \<open>The tree inside the state machine\<close>

definition wf_smr :: "smr \<Rightarrow> bool" where
  "wf_smr s \<longleftrightarrow> wf_tree (qcTree s)"

lemma advance_qcTree [simp]: "qcTree (advance s q) = qcTree s"
  by (simp add: advance_def)

lemma wf_smr_frame [simp]:
  "wf_smr (send s m to) = wf_smr s"
  "wf_smr (advance s q) = wf_smr s"
  "wf_smr (s\<lparr>qcVoteMsgs := v\<rparr>) = wf_smr s"
  "wf_smr (s\<lparr>localProposal := p\<rparr>) = wf_smr s"
  "wf_smr (s\<lparr>safetyRules := r\<rparr>) = wf_smr s"
  "wf_smr (s\<lparr>ledgerState := l\<rparr>) = wf_smr s"
  "wf_smr (s\<lparr>subscribeList := subs\<rparr>) = wf_smr s"
  by (simp_all add: wf_smr_def)

lemma wf_smr_tree [simp]: "wf_smr (s\<lparr>qcTree := t\<rparr>) = wf_tree t"
  by (simp add: wf_smr_def)

lemma wf_smrD: "wf_smr s \<Longrightarrow> wf_tree (qcTree s)"
  by (simp add: wf_smr_def)

lemmas wf_smr_intros = wf_UpdateHighQC wf_UpdateCommit wf_smrD

lemma wf_smr_updateTree [intro]: "wf_smr s \<Longrightarrow> linked n \<Longrightarrow> wf_smr (fst (updateTree s n))"
  using wf_UpdateQCStatus [of "qcTree s" n]
  by (auto simp: wf_smr_def updateTree_def case_prod_beta split: option.split)

lemma wf_smr_blockToProposalNode: "wf_smr s \<Longrightarrow> linked (blockToProposalNode s b)"
  by (auto simp: wf_smr_def wf_tree_def blockToProposalNode_def DFSQueryNode_def split: option.split
      dest: dfsQuery_Some intro: linked_subtree)

lemma linked_single [simp]: "linked (ProposalNode qc [])"
  by simp

lemma wf_smr_updateQcStatus [intro]: "wf_smr s \<Longrightarrow> linked n \<Longrightarrow> wf_smr (fst (smr_updateQcStatus s n))"
  by (auto simp: smr_updateQcStatus_def)

lemma wf_smr_updateJustify [intro]: "wf_smr s \<Longrightarrow> wf_smr (updateJustifyQCStatus s j)"
  by (auto simp: updateJustifyQCStatus_def Let_def split: option.split intro!: wf_smr_intros)

lemma wf_smr_voteToSelf [intro]: "wf_smr s \<Longrightarrow> wf_smr (voteToSelf env s v p q)"
  by (auto simp: voteToSelf_def Let_def case_prod_beta split: option.split outcome.split
      intro!: wf_smr_intros wf_smr_updateTree)

lemma wf_smr_ProcessProposal [intro]: "wf_smr s \<Longrightarrow> wf_smr (fst (ProcessProposal env now s v pid parent vs))"
  by (auto simp: ProcessProposal_def Let_def split: option.split sum.split intro!: wf_smr_voteToSelf)

lemma wf_smr_voteProposal [simp]: "wf_smr (voteProposal env s m v l to) = wf_smr s"
  by (auto simp: voteProposal_def split: option.split)

lemma wf_smr_notifyLeader [simp]: "wf_smr (notifyLeader s m q) = wf_smr s"
  by (auto simp: notifyLeader_def Let_def)

lemma wf_smr_commitJustify [intro]: "wf_smr s \<Longrightarrow> wf_smr (commitJustify s q)"
  by (auto simp: commitJustify_def Let_def split: option.split prod.split intro!: wf_smr_intros)

lemma wf_smr_acceptProposal [intro]: "wf_smr s \<Longrightarrow> wf_smr (fst (acceptProposal env s m v q))"
  by (auto simp: acceptProposal_def Let_def case_prod_beta split: bool.split outcome.split
      intro!: wf_smr_updateTree)

lemma wf_smr_processJustified [intro]: "wf_smr s \<Longrightarrow> wf_smr (fst (processJustified env s m q))"
  by (auto simp: processJustified_def Let_def split: option.split
      intro!: wf_smr_acceptProposal wf_smr_commitJustify)

lemma wf_smr_handleReceivedProposal [intro]: "wf_smr s \<Longrightarrow> wf_smr (fst (handleReceivedProposal env s m))"
  by (auto simp: handleReceivedProposal_def Let_def split: option.split intro!: wf_smr_processJustified)

lemma storeVote_qcTree: "storeVote s q = (s', n) \<Longrightarrow> qcTree s' = qcTree s"
  by (auto simp: storeVote_def Let_def split: option.splits if_splits)

lemma wf_smr_handleReceivedVoteMsg [intro]: "wf_smr s \<Longrightarrow> wf_smr (fst (handleReceivedVoteMsg env s m))"
  by (auto simp: handleReceivedVoteMsg_def Let_def split: option.split sum.split prod.split
      dest!: storeVote_qcTree simp: wf_smr_def intro: wf_UpdateHighQC)

lemma wf_smr_handleReceivedMsg [intro]: "wf_smr s \<Longrightarrow> wf_smr (fst (handleReceivedMsg env s m))"
  by (auto simp: handleReceivedMsg_def split: msg_type.split)

lemma wf_smr_proposeBlock [intro]: "wf_smr s \<Longrightarrow> wf_smr (fst (proposeBlock env now s b vs))"
  by (auto simp: proposeBlock_def)

lemma wf_smr_followBlock [intro]: "wf_smr s \<Longrightarrow> wf_smr (fst (followBlock s b j))"
  by (auto simp: followBlock_def Let_def case_prod_beta
      intro!: wf_smr_intros wf_smr_updateQcStatus wf_smr_blockToProposalNode)

lemma wf_smr_KeepUpWithBlock [intro]: "wf_smr s \<Longrightarrow> wf_smr (fst (KeepUpWithBlock env now s b j vs))"
  by (auto simp: KeepUpWithBlock_def Let_def case_prod_beta
      intro!: wf_smr_followBlock wf_smr_proposeBlock)

lemma wf_smr_reset:
  assumes "ResetProposerStatus fuel env s tip query vs = Some (s', r)" and "wf_smr s"
  shows "wf_smr s'"
proof -
  have "wf_smr (fst (enforceUpdateHighQC s p))" for p
    using assms(2) wf_EnforceUpdateHighQC [of "qcTree s" p]
    by (auto simp: enforceUpdateHighQC_def wf_smr_def case_prod_beta)
  with assms show ?thesis
    by (auto simp: ResetProposerStatus_def case_prod_beta split: if_splits option.splits sum.splits)
qed

lemma wf_smr_registerAll: "wf_smr s \<Longrightarrow> wf_smr (fst (registerAll reg s ms))"
  by (induction reg s ms rule: registerAll.induct) auto

lemma wf_smr_local_step: "local_step env s s' \<Longrightarrow> wf_smr s \<Longrightarrow> wf_smr s'"
  by (erule local_stepE)
    (auto simp: LoadVotes_def RegisterToNetwork_def UnRegisterToNetwork_def wf_smr_registerAll
      elim: wf_smr_reset split: option.split)

interpretation smr_inv: step_invariant "smr_step env" wf_smr for env
  by unfold_locales (auto elim!: smr_stepE dest: wf_smr_local_step)

section \<open>Votes\<close>

text \<open>The votes a node has sent, with their addressees, and the proposal a vote is for.\<close>

fun as_vote :: "net_msg \<times> string list \<Rightarrow> (vote_msg \<times> string list) option" where
  "as_vote (VoteNet v, to) = Some (v, to)"
| "as_vote (ProposalNet p, to) = None"

definition cast_votes :: "smr \<Rightarrow> (vote_msg \<times> string list) list" where
  "cast_votes s = List.map_filter as_vote (outbox s)"

definition voted_id :: "vote_msg \<times> string list \<Rightarrow> string" where
  "voted_id v = F (case vm_VoteInfo (fst v) of None \<Rightarrow> None | Some i \<Rightarrow> ProposalId i)"

lemma cast_votes_send [simp]:
  "cast_votes (send s (VoteNet v) to) = cast_votes s @ [(v, to)]"
  "cast_votes (send s (ProposalNet p) to) = cast_votes s"
  by (simp_all add: cast_votes_def send_def List.map_filter_def)

lemma cast_votes_frame [simp]:
  "cast_votes (s\<lparr>qcTree := t\<rparr>) = cast_votes s"
  "cast_votes (s\<lparr>qcVoteMsgs := v\<rparr>) = cast_votes s"
  "cast_votes (s\<lparr>localProposal := p\<rparr>) = cast_votes s"
  "cast_votes (s\<lparr>safetyRules := r\<rparr>) = cast_votes s"
  "cast_votes (s\<lparr>ledgerState := l\<rparr>) = cast_votes s"
  "cast_votes (s\<lparr>subscribeList := subs\<rparr>) = cast_votes s"
  "cast_votes (advance s q) = cast_votes s"
  by (simp_all add: cast_votes_def advance_def)

lemma cast_votes_ops [simp]:
  "cast_votes (fst (updateTree s n)) = cast_votes s"
  "cast_votes (fst (smr_updateQcStatus s n)) = cast_votes s"
  "cast_votes (updateJustifyQCStatus s j) = cast_votes s"
  "cast_votes (notifyLeader s m q) = cast_votes s"
  "cast_votes (commitJustify s q) = cast_votes s"
  "cast_votes (fst (enforceUpdateHighQC s p)) = cast_votes s"
  "cast_votes (fst (storeVote s q)) = cast_votes s"
  "cast_votes (LoadVotes s p signs) = cast_votes s"
  "cast_votes (UnRegisterToNetwork unreg s) = cast_votes s"
  by (auto simp: updateTree_def smr_updateQcStatus_def updateJustifyQCStatus_def notifyLeader_def
      commitJustify_def enforceUpdateHighQC_def storeVote_def LoadVotes_def UnRegisterToNetwork_def
      Let_def case_prod_beta split: option.split prod.split)

lemma cast_votes_voteToSelf [simp]: "cast_votes (voteToSelf env s v p q) = cast_votes s"
  by (auto simp: voteToSelf_def Let_def case_prod_beta split: option.split outcome.split)

lemma cast_votes_ProcessProposal [simp]:
  "cast_votes (fst (ProcessProposal env now s v pid parent vs)) = cast_votes s"
  by (auto simp: ProcessProposal_def Let_def split: option.split sum.split)

lemma cast_votes_KeepUpWithBlock [simp]: "cast_votes (fst (KeepUpWithBlock env now s b j vs)) = cast_votes s"
  by (auto simp: KeepUpWithBlock_def proposeBlock_def followBlock_def Let_def case_prod_beta)

lemma cast_votes_registerAll [simp]: "cast_votes (fst (registerAll reg s ms)) = cast_votes s"
  by (induction reg s ms rule: registerAll.induct) auto

lemma cast_votes_reset:
  "ResetProposerStatus fuel env s tip query vs = Some (s', r) \<Longrightarrow> cast_votes s' = cast_votes s"
  using cast_votes_ops(6) [of s]
  by (auto simp: ResetProposerStatus_def case_prod_beta split: if_splits option.splits sum.splits)

lemma cast_votes_handleReceivedVoteMsg [simp]:
  "cast_votes (fst (handleReceivedVoteMsg env s m)) = cast_votes s"
  by (auto simp: handleReceivedVoteMsg_def Let_def case_prod_beta split: option.split sum.split)

text \<open>The certificate a received proposal is justified by.\<close>

definition justifyQC :: "proposal_msg \<Rightarrow> quorum_cert option" where
  "justifyQC m =
     (case pm_JustifyQC m of
        None \<Rightarrow> None
      | Some w \<Rightarrow>
          map_option (\<lambda>v. \<lparr>VoteInfo = v, LedgerCommitInfo = w_LedgerCommitInfo w, SignInfos = w_SignInfos w\<rparr>)
            (w_VoteInfo w))"

text \<open>What holds when the state machine votes for a proposal.\<close>

definition vote_of :: "proposal_msg \<Rightarrow> quorum_cert \<Rightarrow> vote_info" where
  "vote_of m q = \<lparr>ProposalId = pm_ProposalId m, ProposalView = pm_ProposalView m,
                  ParentId = GetProposalId q, ParentView = GetProposalView q\<rparr>"

lemma updateTree_frame [simp]:
  "currentView (fst (updateTree s n)) = currentView s"
  "safetyRules (fst (updateTree s n)) = safetyRules s"
  "localProposal (fst (updateTree s n)) = localProposal s"
  "smr_address (fst (updateTree s n)) = smr_address s"
  by (auto simp: updateTree_def case_prod_beta split: option.split)

lemma voteProposal_frame [simp]:
  "currentView (voteProposal env s m v l to) = currentView s"
  "safetyRules (voteProposal env s m v l to) = safetyRules s"
  "localProposal (voteProposal env s m v l to) = localProposal s"
  by (auto simp: voteProposal_def split: option.split)

lemma VoteProposal_accepts:
  assumes "snd (VoteProposal r view q)"
  shows "view \<le> latestRound (fst (VoteProposal r view q))"
    and "i64 (preferredRound (fst (VoteProposal r view q)) - StrictInternal) \<le> GetProposalView q"
  using assms by (auto simp: VoteProposal_def increaseLatestRound_def split: if_splits)

text \<open>The only way through \<open>acceptProposal\<close> that ends in \<open>voteProposal\<close>.\<close>

lemma acceptProposal_cases:
  obtains
    (no_vote) "cast_votes (fst (acceptProposal env s m v q)) = cast_votes s"
  | (voted) s2 sig where
      "CheckPacemaker (pm_ProposalView m) (currentView s)"
      "snd (VoteProposal (safetyRules s) (pm_ProposalView m) q)"
      "safetyRules s2 = fst (VoteProposal (safetyRules s) (pm_ProposalView m) q)"
      "currentView s2 = currentView s" "cast_votes s2 = cast_votes s"
      "fst (acceptProposal env s m v q) =
         send s2 (VoteNet \<lparr>vm_VoteInfo = Some v,
           vm_LedgerCommitInfo = Some \<lparr>CommitStateId = None, VoteInfoHash = pm_ProposalId m\<rparr>,
           vm_Signature = Some [sig]\<rparr>) [GetLeader env (i64 (currentView s2 + 1))]"
proof -
  obtain r ok where vp: "VoteProposal (safetyRules s) (pm_ProposalView m) q = (r, ok)"
    by (cases "VoteProposal (safetyRules s) (pm_ProposalView m) q")
  define u where "u = updateTree (s\<lparr>safetyRules := r\<rparr>)
    (ProposalNode (NewQuorumCert v (Some \<lparr>CommitStateId = None, VoteInfoHash = pm_ProposalId m\<rparr>) None) [])"
  define leader where "leader = GetLeader env (i64 (currentView s + 1))"
  note unfolded = acceptProposal_def vp u_def [symmetric] Let_def case_prod_beta
  have u: "cast_votes (fst u) = cast_votes s" "currentView (fst u) = currentView s" "safetyRules (fst u) = r"
    by (simp_all add: u_def)
  consider "\<not> (CheckPacemaker (pm_ProposalView m) (currentView s) \<and> ok \<and> snd u = RetNil \<and> leader \<noteq> [])"
    | "CheckPacemaker (pm_ProposalView m) (currentView s)" "ok" "snd u = RetNil" "leader \<noteq> []"
    by blast
  then show thesis
  proof cases
    case 1
    then have "cast_votes (fst (acceptProposal env s m v q)) = cast_votes s"
      using u by (cases ok; cases "snd u") (auto simp: unfolded leader_def)
    then show thesis by (rule no_vote)
  next
    case 2
    then have acc: "fst (acceptProposal env s m v q) = voteProposal env (fst u) (pm_ProposalId m) v
        \<lparr>CommitStateId = None, VoteInfoHash = pm_ProposalId m\<rparr> leader"
      using u by (simp add: unfolded leader_def)
    show thesis
    proof (cases "leader = smr_address (fst u) \<or> SignVoteMsg (cryptoClient env) (pm_ProposalId m) = None")
      case True
      then show thesis using acc u by (intro no_vote) (auto simp: voteProposal_def)
    next
      case False
      then obtain sig where "SignVoteMsg (cryptoClient env) (pm_ProposalId m) = Some sig" by blast
      then show thesis
        using False acc u 2 vp by (intro voted [of "fst u" sig]) (simp_all add: voteProposal_def leader_def)
    qed
  qed
qed

lemma acceptProposal_votes:
  assumes "cast_votes (fst (acceptProposal env s m v q)) \<noteq> cast_votes s"
  defines "s' \<equiv> fst (acceptProposal env s m v q)"
  shows "i64 (currentView s' - StrictInternal) < pm_ProposalView m"
    and "i64 (preferredRound (safetyRules s') - StrictInternal) \<le> GetProposalView q"
    and "pm_ProposalView m \<le> latestRound (safetyRules s')"
    and "\<exists>sig. cast_votes s' = cast_votes s @
           [(\<lparr>vm_VoteInfo = Some v,
              vm_LedgerCommitInfo = Some \<lparr>CommitStateId = None, VoteInfoHash = pm_ProposalId m\<rparr>,
              vm_Signature = Some [sig]\<rparr>, [GetLeader env (i64 (currentView s' + 1))])]"
  unfolding s'_def
  using assms(1)
  by (cases rule: acceptProposal_cases [of env s m v q];
      force simp: CheckPacemaker_def dest: VoteProposal_accepts split: if_splits)+

text \<open>The checks a justify certificate has to pass, and the ledger's window.\<close>

definition justified :: "'pk smr_env \<Rightarrow> smr \<Rightarrow> proposal_msg \<Rightarrow> quorum_cert \<Rightarrow> bool" where
  "justified env s m q \<longleftrightarrow>
     (bytes_Equal (GetProposalId (genesis (qcTree s))) (GetProposalId q) \<or>
      CheckProposal (cryptoClient env) (safetyRules s) (qcTree s)
        (NewQuorumCert (vote_of m q) None (Some (case pm_Sign m of None \<Rightarrow> [] | Some sig \<Rightarrow> [sig])))
        q (GetValidators env (GetProposalView q)) = None) \<and>
     pm_ProposalView m \<le> i64 (ledgerState s + StrictInternal)"

lemma processJustified_unfold:
  "fst (processJustified env s m q) =
     (if justified env s m q
      then fst (acceptProposal env (commitJustify (notifyLeader s m q) q) m (vote_of m q) q) else s)"
  by (auto simp: processJustified_def justified_def vote_of_def Let_def split: option.split)

definition knows :: "smr \<Rightarrow> proposal_msg \<Rightarrow> smr" where
  "knows s m =
     (if localProposal s (F (pm_ProposalId m)) \<noteq> None then s
      else s\<lparr>localProposal := (localProposal s)(F (pm_ProposalId m) \<mapsto> pm_Timestamp m)\<rparr>)"

lemma cast_votes_knows [simp]: "cast_votes (knows s m) = cast_votes s"
  by (simp add: knows_def)

definition own_proposal :: "smr \<Rightarrow> proposal_msg \<Rightarrow> bool" where
  "own_proposal s m \<longleftrightarrow> (\<exists>sig. pm_Sign m = Some sig \<and> Address sig = smr_address s)"

lemma handleReceivedProposal_unfold:
  "fst (handleReceivedProposal env s msg) =
     (case cm_proposal msg of
        None \<Rightarrow> s
      | Some m \<Rightarrow>
          if localProposal s (F (pm_ProposalId m)) \<noteq> None \<and> \<not> own_proposal s m then s
          else (case justifyQC m of
                  None \<Rightarrow> knows s m
                | Some q \<Rightarrow> fst (processJustified env (knows s m) m q)))"
  by (auto simp: handleReceivedProposal_def knows_def own_proposal_def justifyQC_def Let_def
      split: option.split)

lemma handleReceivedProposal_votes:
  assumes "cast_votes (fst (handleReceivedProposal env s msg)) \<noteq> cast_votes s"
  obtains m q where
    "cm_proposal msg = Some m" "justifyQC m = Some q" "justified env (knows s m) m q"
    "localProposal s (F (pm_ProposalId m)) = None \<or> own_proposal s m"
    "fst (handleReceivedProposal env s msg) =
       fst (acceptProposal env (commitJustify (notifyLeader (knows s m) m q) q) m (vote_of m q) q)"
  using assms that
  by (auto simp: handleReceivedProposal_unfold processJustified_unfold split: option.splits if_splits)

lemma cast_votes_local_step: "local_step env s s' \<Longrightarrow> cast_votes s' = cast_votes s"
  by (erule local_stepE) (auto simp: RegisterToNetwork_def dest: cast_votes_reset)

text \<open>
  No proposal is voted for twice. A node that receives a proposal with its own address in the
  signature field processes it even when the proposal is known, so the runs considered receive
  no such message.
\<close>

definition votes_once :: "smr \<Rightarrow> bool" where
  "votes_once s \<longleftrightarrow>
     distinct (map voted_id (cast_votes s)) \<and> (\<forall>v \<in> set (cast_votes s). localProposal s (voted_id v) \<noteq> None)"

inductive foreign_step :: "'pk smr_env \<Rightarrow> smr \<Rightarrow> smr \<Rightarrow> bool" for env where
  foreign_receive:
    "(\<And>m. cm_proposal msg = Some m \<Longrightarrow> \<not> own_proposal s m) \<Longrightarrow>
       foreign_step env s (fst (handleReceivedMsg env s msg))"
| foreign_call: "local_step env s s' \<Longrightarrow> foreign_step env s s'"

lemma extends_known: "extends s s' \<Longrightarrow> localProposal s k \<noteq> None \<Longrightarrow> localProposal s' k \<noteq> None"
  unfolding extends_def map_le_def by (metis domIff)

lemma votes_once_unchanged:
  "votes_once s \<Longrightarrow> extends s s' \<Longrightarrow> cast_votes s' = cast_votes s \<Longrightarrow> votes_once s'"
  by (simp add: votes_once_def) (metis extends_known option.exhaust)

lemma votes_once_handleReceivedProposal:
  assumes "votes_once s" and "\<And>m. cm_proposal msg = Some m \<Longrightarrow> \<not> own_proposal s m"
  shows "votes_once (fst (handleReceivedProposal env s msg))"
proof (cases "cast_votes (fst (handleReceivedProposal env s msg)) = cast_votes s")
  case True
  show ?thesis
    by (rule votes_once_unchanged [OF assms(1) extends_handleReceivedProposal [OF extends_refl] True])
next
  case False
  let ?s' = "fst (handleReceivedProposal env s msg)"
  obtain m q where "cm_proposal msg = Some m"
    and "localProposal s (F (pm_ProposalId m)) = None \<or> own_proposal s m"
    and eq: "?s' = fst (acceptProposal env (commitJustify (notifyLeader (knows s m) m q) q) m (vote_of m q) q)"
    by (rule handleReceivedProposal_votes [OF False])
  then have fresh: "localProposal s (F (pm_ProposalId m)) = None"
    using assms(2) by blast
  let ?t = "commitJustify (notifyLeader (knows s m) m q) q"
  have "cast_votes (fst (acceptProposal env ?t m (vote_of m q) q)) \<noteq> cast_votes ?t"
    using False eq by simp
  from acceptProposal_votes(4) [OF this] obtain v where
    v: "cast_votes ?s' = cast_votes s @ [v]" "voted_id v = F (pm_ProposalId m)"
    using eq by (auto simp: voted_id_def vote_of_def)
  have "extends (knows s m) ?s'"
    using eq by (simp add: extends_acceptProposal extends_commitJustify extends_notifyLeader)
  then have new: "localProposal ?s' (F (pm_ProposalId m)) \<noteq> None"
    by (rule extends_known) (simp add: knows_def)
  have "extends s ?s'" by (rule extends_handleReceivedProposal [OF extends_refl])
  then have old: "localProposal ?s' (voted_id w) \<noteq> None" if "w \<in> set (cast_votes s)" for w
    using assms(1) that extends_known [of s ?s' "voted_id w"] unfolding votes_once_def by blast
  have "voted_id v \<notin> voted_id ` set (cast_votes s)"
    using assms(1) fresh unfolding votes_once_def v(2) by auto
  moreover have "distinct (map voted_id (cast_votes s))"
    using assms(1) by (simp add: votes_once_def)
  ultimately show ?thesis
    using new old unfolding votes_once_def v(1) by (auto simp: v(2))
qed

lemma votes_once_handleReceivedMsg:
  assumes "votes_once s" and "\<And>m. cm_proposal msg = Some m \<Longrightarrow> \<not> own_proposal s m"
  shows "votes_once (fst (handleReceivedMsg env s msg))"
proof -
  have "votes_once (fst (handleReceivedVoteMsg env s msg))"
    by (rule votes_once_unchanged [OF assms(1)]) (simp_all add: extends_handleReceivedVoteMsg)
  then show ?thesis
    using assms(1) votes_once_handleReceivedProposal [where env = env, OF assms]
    by (auto simp: handleReceivedMsg_def split: msg_type.split)
qed

interpretation votes_inv: step_invariant "foreign_step env" votes_once for env
proof (unfold_locales, erule foreign_step.cases)
  fix s t sa s' assume "votes_once s" "s = sa" "t = s'" "local_step env sa s'"
  then show "votes_once t"
    by (auto intro: votes_once_unchanged local_step_extends cast_votes_local_step)
qed (auto intro: votes_once_handleReceivedMsg)

section \<open>Counting votes\<close>

lemma CheckVote_accepts:
  assumes "CheckVote c r q validators = None"
  shows "elems (GetSignsInfo q) \<noteq> []" and "Address (hd (elems (GetSignsInfo q))) \<in> set validators"
  using assms by (auto simp: CheckVote_def split: list.splits if_splits)

lemma storeVote_stores:
  assumes "storeVote s q = (s', n)" and "elems (GetSignsInfo q) \<noteq> []"
  obtains signs where "qcVoteMsgs s' (F (GetProposalId q)) = Some signs" and "n \<le> int (length signs)"
proof -
  have "1 \<le> length (elems (GetSignsInfo q))"
    using assms(2) by (simp add: Suc_leI)
  then show thesis
    using assms that by (auto simp: storeVote_def Let_def split: option.splits if_splits)
qed

lemma CalVotesThreshold_mono: "1 \<le> n \<Longrightarrow> CalVotesThreshold k n \<Longrightarrow> k \<le> k' \<Longrightarrow> CalVotesThreshold k' n"
  by (simp add: CalVotesThreshold_iff)

lemma UpdateHighQC_changes:
  "UpdateHighQC t p \<noteq> t \<Longrightarrow> bytes_Equal (GetProposalId (highQC (UpdateHighQC t p))) p"
  by (auto simp: UpdateHighQC_def split: option.splits if_splits dest: dfsQuery_Some(2))

lemma handleReceivedVoteMsg_changes:
  assumes "qcTree (fst (handleReceivedVoteMsg env s msg)) \<noteq> qcTree s"
  obtains v q s1 n where
    "cm_vote msg = Some v" "voteMsgToQC v = Inr q"
    "CheckVote (cryptoClient env) (safetyRules s) q (elems (GetValidators env (GetProposalView q))) = None"
    "storeVote s q = (s1, n)"
    "CalVotesThreshold n (int (length (elems (GetValidators env (GetProposalView q)))))"
    "fst (handleReceivedVoteMsg env s msg) =
       (advance s1 (Some q))\<lparr>qcTree := UpdateHighQC (qcTree s) (GetProposalId q)\<rparr>"
  using assms storeVote_qcTree that
  by (auto simp: handleReceivedVoteMsg_def Let_def split: option.splits sum.splits prod.splits if_splits)

section \<open>Walking back\<close>

text \<open>The ledger function of a chain: the block before a block is lower.\<close>

definition descending :: "(bytes \<Rightarrow> block_handle option) \<Rightarrow> bool" where
  "descending query \<longleftrightarrow>
     (\<forall>i b b'. query i = Some b \<longrightarrow> query (GetPreHash b) = Some b' \<longrightarrow> GetHeight b' < GetHeight b)"

lemma resetTarget_returns:
  assumes "descending query"
    and "\<And>b. query i = Some b \<Longrightarrow>
           nat (GetHeight b - GetProposalView (node_QC (root (qcTree s)))) + 1 < fuel"
    and "0 < fuel"
  shows "resetTarget fuel env s query i \<noteq> None"
  using assms(2,3)
proof (induction fuel arbitrary: i)
  case (Suc fuel)
  show ?case
  proof (cases "query i")
    case (Some b)
    let ?rv = "GetProposalView (node_QC (root (qcTree s)))"
    have "resetTarget fuel env s query (GetPreHash b) \<noteq> None" if "\<not> GetHeight b \<le> ?rv"
    proof (rule Suc.IH)
      fix b' assume "query (GetPreHash b) = Some b'"
      then have "GetHeight b' < GetHeight b"
        using assms(1) Some by (auto simp: descending_def)
      then show "nat (GetHeight b' - ?rv) + 1 < fuel"
        using Suc.prems(1) [OF Some] that by linarith
    qed (use Suc.prems(1) [OF Some] in simp)
    then show ?thesis using Some by (auto split: option.splits)
  qed simp
qed simp

lemma resetTarget_result:
  assumes "resetTarget fuel env s query i = Some (Inr qc)"
  shows "qc = node_QC (root (qcTree s)) \<or> (\<exists>w. validNewHighQC s (GetProposalId qc) w)"
  using assms
  by (induction fuel arbitrary: i) (auto split: option.splits if_splits)

lemma validNewHighQC_cong:
  "qcVoteMsgs s' = qcVoteMsgs s \<Longrightarrow> F a = F b \<Longrightarrow> validNewHighQC s' a w = validNewHighQC s b w"
  by (simp add: validNewHighQC_def del: F_eq_iff)

lemma enforceUpdateHighQC_ok:
  assumes "enforceUpdateHighQC s p = (s', ok, None)"
  shows "bytes_Equal (GetProposalId (getHighQC s')) p" and "qcVoteMsgs s' = qcVoteMsgs s"
    and "root (qcTree s') = root (qcTree s)"
  using assms
  by (auto simp: enforceUpdateHighQC_def EnforceUpdateHighQC_def getHighQC_def
      split: if_splits option.splits dest: dfsQuery_Some(2))

section \<open>The signature of a proposal\<close>

text \<open>States that differ in the messages sent only.\<close>

definition same_but_sent :: "smr \<Rightarrow> smr \<Rightarrow> bool" where
  "same_but_sent a b \<longleftrightarrow> a\<lparr>outbox := []\<rparr> = b\<lparr>outbox := []\<rparr>"

lemma same_but_sent_refl [simp]: "same_but_sent s s"
  by (simp add: same_but_sent_def)

lemma same_but_sent_send: "same_but_sent a b \<Longrightarrow> same_but_sent (send a m to) (send b m' to')"
  by (simp add: same_but_sent_def send_def)

lemma same_but_sent_cong:
  assumes "same_but_sent a b"
  shows "qcTree a = qcTree b" "safetyRules a = safetyRules b" "currentView a = currentView b"
    "smr_address a = smr_address b" "same_but_sent (a\<lparr>safetyRules := r\<rparr>) (b\<lparr>safetyRules := r\<rparr>)"
    "same_but_sent (a\<lparr>qcTree := t\<rparr>) (b\<lparr>qcTree := t\<rparr>)" "same_but_sent (advance a q) (advance b q)"
  using assms by (cases a; cases b; simp add: same_but_sent_def advance_def)+

lemma same_but_sent_voteProposal:
  "same_but_sent a b \<Longrightarrow> same_but_sent (voteProposal env a m v l to) (voteProposal env b m v l to)"
  using same_but_sent_cong(4) [of a b]
  by (auto simp: voteProposal_def split: option.split intro: same_but_sent_send)

lemma same_but_sent_updateTree:
  "same_but_sent a b \<Longrightarrow>
     same_but_sent (fst (updateTree a n)) (fst (updateTree b n)) \<and> snd (updateTree a n) = snd (updateTree b n)"
  using same_but_sent_cong(1) [of a b]
  by (auto simp: updateTree_def case_prod_beta split: option.split intro: same_but_sent_cong(6))

lemma same_but_sent_commitJustify:
  "same_but_sent a b \<Longrightarrow> same_but_sent (commitJustify a q) (commitJustify b q)"
  using same_but_sent_cong(1,2) [of a b]
  by (auto simp: commitJustify_def Let_def case_prod_beta split: option.split intro!: same_but_sent_cong(5,6))

text \<open>A proposal with another signature in the name of the same address.\<close>

definition resigned :: "proposal_msg \<Rightarrow> string \<Rightarrow> bytes \<Rightarrow> bytes \<Rightarrow> proposal_msg" where
  "resigned m pk sig digest =
     m\<lparr>pm_Sign := map_option (\<lambda>g. g\<lparr>PublicKey := pk, Sign := sig\<rparr>) (pm_Sign m), pm_MsgDigest := digest\<rparr>"

lemma resigned_sel [simp]:
  "pm_ProposalView (resigned m pk sig d) = pm_ProposalView m"
  "pm_ProposalId (resigned m pk sig d) = pm_ProposalId m"
  "pm_Timestamp (resigned m pk sig d) = pm_Timestamp m"
  "pm_JustifyQC (resigned m pk sig d) = pm_JustifyQC m"
  "pm_Sign m = None \<Longrightarrow> pm_Sign (resigned m pk sig d) = None"
  "pm_Sign m = Some g \<Longrightarrow> pm_Sign (resigned m pk sig d) = Some (g\<lparr>PublicKey := pk, Sign := sig\<rparr>)"
  by (simp_all add: resigned_def)

lemma same_but_sent_notifyLeader:
  "same_but_sent (notifyLeader s m q) (notifyLeader s (resigned m pk sig d) q)"
  by (cases "pm_Sign m") (auto simp: notifyLeader_def Let_def intro: same_but_sent_send)

lemma CheckProposal_only_view:
  "CheckProposal c r t (NewQuorumCert v None a) q vs = CheckProposal c r t (NewQuorumCert v None b) q vs"
  by (simp add: CheckProposal_def go_defs)

definition same_result :: "smr \<times> outcome \<Rightarrow> smr \<times> outcome \<Rightarrow> bool" where
  "same_result a b \<longleftrightarrow> same_but_sent (fst a) (fst b) \<and> snd a = snd b"

lemma same_result_refl [simp]: "same_result x x"
  by (simp add: same_result_def)

lemma same_result_acceptProposal:
  assumes "same_but_sent a b"
  shows "same_result (acceptProposal env a m v q) (acceptProposal env b (resigned m pk sig d) v q)"
proof -
  note [simp] = same_but_sent_cong(1-4) [OF assms]
  obtain r ok where vp: "VoteProposal (safetyRules b) (pm_ProposalView m) q = (r, ok)"
    by (cases "VoteProposal (safetyRules b) (pm_ProposalView m) q")
  let ?n = "ProposalNode (NewQuorumCert v (Some \<lparr>CommitStateId = None, VoteInfoHash = pm_ProposalId m\<rparr>) None) []"
  have "same_but_sent (a\<lparr>safetyRules := r\<rparr>) (b\<lparr>safetyRules := r\<rparr>)"
    by (rule same_but_sent_cong(5) [OF assms])
  note u = same_but_sent_updateTree [OF this, of ?n]
  show ?thesis
    using u assms vp
    by (cases ok; cases "snd (updateTree (b\<lparr>safetyRules := r\<rparr>) ?n)")
      (auto simp: same_result_def acceptProposal_def Let_def case_prod_beta
        intro!: same_but_sent_voteProposal same_but_sent_cong(5))
qed

lemma same_result_processJustified:
  "same_result (processJustified env s m q) (processJustified env s (resigned m pk sig d) q)"
proof -
  let ?t = "\<lambda>m. commitJustify (notifyLeader s m q) q"
  have acc: "same_result (acceptProposal env (?t m) m v q)
               (acceptProposal env (?t (resigned m pk sig d)) (resigned m pk sig d) v q)" for v
    by (intro same_result_acceptProposal same_but_sent_commitJustify same_but_sent_notifyLeader)
  show ?thesis
    unfolding processJustified_def Let_def resigned_sel(1,2)
      CheckProposal_only_view [of _ _ _ _ "Some (case pm_Sign m of None \<Rightarrow> [] | Some sig \<Rightarrow> [sig])" _ _ None]
      CheckProposal_only_view [of _ _ _ _ "Some (case pm_Sign (resigned m pk sig d) of None \<Rightarrow> [] | Some sig \<Rightarrow> [sig])" _ _ None]
    by (auto intro: acc split: option.split)
qed

lemma same_result_handleReceivedProposal:
  assumes "cm_proposal msg = Some m" and "cm_proposal msg' = Some (resigned m pk sig d)"
  shows "same_result (handleReceivedProposal env s msg) (handleReceivedProposal env s msg')"
  by (cases "pm_Sign m")
    (auto simp: handleReceivedProposal_def assms Let_def intro: same_result_processJustified split: option.split)

lemma ResetProposerStatus_None:
  "ResetProposerStatus fuel env s tip query vs = None \<Longrightarrow> resetTarget fuel env s query (GetBlockid tip) = None"
  by (auto simp: ResetProposerStatus_def case_prod_beta split: if_splits option.splits sum.splits)

lemma getCompleteHighQC_id [simp]: "GetProposalId (getCompleteHighQC s) = GetProposalId (highQC (qcTree s))"
  by (simp add: getCompleteHighQC_def getHighQC_def go_defs Let_def)

lemma ResetProposerStatus_result:
  assumes "ResetProposerStatus fuel env s tip query vs = Some (s', Inr (changed, qc))"
  shows "GetProposalId qc = GetProposalId (highQC (qcTree s')) \<and>
         (bytes_Equal (GetProposalId qc) (node_id (root (qcTree s'))) \<or>
          (\<exists>w. validNewHighQC s' (GetProposalId qc) w))"
proof (cases "bytes_Equal (GetProposalId (getHighQC s)) (GetBlockid tip) \<and> validNewHighQC s (GetBlockid tip) vs")
  case True
  then have "validNewHighQC s (GetProposalId (highQC (qcTree s))) vs"
    using validNewHighQC_cong [of s s "GetProposalId (getHighQC s)" "GetBlockid tip" vs]
    by (simp add: getHighQC_def)
  then show ?thesis using assms True by (auto simp: ResetProposerStatus_def)
next
  case False
  then obtain target s1 ok where target: "resetTarget fuel env s query (GetBlockid tip) = Some (Inr target)"
    and enf: "enforceUpdateHighQC s (GetProposalId target) = (s1, ok, None)"
    and s': "s' = s1" "qc = getCompleteHighQC s1"
    using assms by (auto simp: ResetProposerStatus_def split: if_splits option.splits sum.splits prod.splits)
  note e = enforceUpdateHighQC_ok [OF enf]
  have "validNewHighQC s1 (GetProposalId (getHighQC s1)) w = validNewHighQC s (GetProposalId target) w" for w
    using e by (intro validNewHighQC_cong) auto
  then show ?thesis
    using resetTarget_result [OF target] e s' by (auto simp: getHighQC_def)
qed

lemma appendSigns_filter: "appendSigns q p = q @ filter (\<lambda>s. Address s \<notin> set (map Address q)) p"
proof -
  have "appendNew S q p = q @ filter (\<lambda>s. Address s \<notin> S) p" for S
    by (induction S q p rule: appendNew.induct) auto
  then show ?thesis by (simp add: appendSigns_def)
qed

section \<open>Sample node\<close>

definition demo_env :: "string smr_env" where
  "demo_env =
     \<lparr>cryptoClient = demo_crypto, GetLeader = (\<lambda>v. ''n2''), GetValidators = (\<lambda>v. Some demo_validators),
      MakeProposalMsgDigest = (\<lambda>m. Some (pm_ProposalId m))\<rparr>"

definition demo_smr :: smr where
  "demo_smr = NewSMR ''corechain'' ''n1'' 3 demo_rules fork_tree"

definition demo_proposal :: proposal_msg where
  "demo_proposal =
     \<lparr>pm_ProposalView = 4, pm_ProposalId = Some ''B4'', pm_Timestamp = 7,
      pm_JustifyQC = Some (marshalQC (signed_qc ''B3'' 3 [''n2'', ''n3''])),
      pm_Sign = Some (demo_sign ''n4'' ''B4''), pm_MsgDigest = Some ''B4''\<rparr>"

definition proposal_message :: "proposal_msg \<Rightarrow> core_message" where
  "proposal_message m =
     \<lparr>cm_Bcname = ''corechain'', cm_Type = CHAINED_BFT_NEW_PROPOSAL_MSG, cm_proposal = Some m, cm_vote = None\<rparr>"

definition vote_message :: "string \<Rightarrow> int \<Rightarrow> quorum_cert_sign list \<Rightarrow> core_message" where
  "vote_message name view signs =
     \<lparr>cm_Bcname = ''corechain'', cm_Type = CHAINED_BFT_VOTE_MSG, cm_proposal = None,
      cm_vote = Some \<lparr>vm_VoteInfo = Some \<lparr>ProposalId = Some name, ProposalView = view,
                                        ParentId = Some ''B2'', ParentView = 2\<rparr>,
                      vm_LedgerCommitInfo = Some \<lparr>CommitStateId = None, VoteInfoHash = Some name\<rparr>,
                      vm_Signature = Some signs\<rparr>\<rparr>"

lemma demo_vote:
  "cast_votes (fst (handleReceivedProposal demo_env demo_smr (proposal_message demo_proposal))) \<noteq> []"
  by code_simp

definition demo_voted :: smr where
  "demo_voted = fst (handleReceivedMsg demo_env demo_smr (proposal_message demo_proposal))"

lemma demo_foreign_run: "run (foreign_step demo_env) demo_smr demo_voted"
  unfolding demo_voted_def
  by (intro run_one foreign_receive)
    (auto simp: proposal_message_def demo_proposal_def own_proposal_def demo_sign_def demo_smr_def NewSMR_def)

lemma demo_run: "run (smr_step demo_env) demo_smr demo_voted"
  unfolding demo_voted_def by (intro run_one receive)

section \<open>Properties\<close>

text \<open>
  C15. In every run of the state machine the pacemaker's view, the latest and the preferred round
  and the view of the ledger never decrease, no known proposal is forgotten and no message sent is
  taken back.
\<close>

theorem smr_views_monotone:
  assumes "run (smr_step env) s s'"
  shows "currentView s \<le> currentView s' \<and>
         latestRound (safetyRules s) \<le> latestRound (safetyRules s') \<and>
         preferredRound (safetyRules s) \<le> preferredRound (safetyRules s') \<and>
         ledgerState s \<le> ledgerState s' \<and>
         localProposal s \<subseteq>\<^sub>m localProposal s' \<and>
         (\<exists>sent. outbox s' = outbox s @ sent)"
  using smr_order.run_rel [OF assms] by (simp add: extends_def)

theorem smr_views_monotone_witness:
  "currentView demo_smr \<le> currentView demo_voted"
  using smr_views_monotone [OF demo_run] by (rule conjunct1)

text \<open>
  C12. From a tree built out of the ledger, whatever messages arrive and whatever blocks the
  ledger reports, the state machine's tree stays well formed: every node is below the node its
  parent id names and the three certificate pointers are the ancestors of \<open>highQC\<close>.
\<close>

theorem smr_tree_wf:
  assumes "InitQCTree startHeight query tip = InitTree t"
    and "run (smr_step env) (NewSMR bcname addr view rules t) s"
  shows "wf_tree (qcTree s)"
proof -
  have "wf_smr (NewSMR bcname addr view rules t)"
    using wf_InitQCTree [OF assms(1)] by (simp add: wf_smr_def NewSMR_def)
  with smr_inv.run_inv [OF assms(2)] show ?thesis by (simp add: wf_smr_def)
qed

theorem smr_tree_wf_witness:
  "wf_tree (qcTree (fst (handleReceivedMsg demo_env (NewSMR ''corechain'' ''n1'' 3 demo_rules demo_tree)
      (proposal_message demo_proposal))))"
proof (rule smr_tree_wf)
  show "InitQCTree 1 demo_block (the (demo_block 5)) = InitTree demo_tree"
    by code_simp
  show "run (smr_step demo_env) (NewSMR ''corechain'' ''n1'' 3 demo_rules demo_tree)
      (fst (handleReceivedMsg demo_env (NewSMR ''corechain'' ''n1'' 3 demo_rules demo_tree)
        (proposal_message demo_proposal)))"
    by (intro run_one receive)
qed



text \<open>
  C1. As long as no received proposal carries the node's own address, the node votes at most
  once for every proposal id.
\<close>

theorem votes_at_most_once:
  assumes "run (foreign_step env) (NewSMR bcname addr view rules t) s"
  shows "distinct (map voted_id (cast_votes s))"
proof -
  have "votes_once (NewSMR bcname addr view rules t)"
    by (simp add: votes_once_def cast_votes_def NewSMR_def List.map_filter_def)
  with votes_inv.run_inv [OF assms] show ?thesis by (simp add: votes_once_def)
qed

theorem votes_at_most_once_witness:
  "distinct (map voted_id (cast_votes demo_voted))"
  by (rule votes_at_most_once) (rule demo_foreign_run [unfolded demo_smr_def])

text \<open>
  C13. A vote message changes the tree only when \<open>highQC\<close> moves to the voted proposal, and then
  the votes stored for that proposal, with the collector's implied one, are enough: at least
  \<open>n - f - 1\<close> signatures for the \<open>n\<close> validators of the view.
\<close>

theorem vote_moves_highQC_with_quorum:
  assumes "handleReceivedVoteMsg env s msg = (s', out)" and "qcTree s' \<noteq> qcTree s"
  shows "\<exists>v q signs.
    cm_vote msg = Some v \<and> voteMsgToQC v = Inr q \<and>
    bytes_Equal (GetProposalId (highQC (qcTree s'))) (GetProposalId q) \<and>
    qcVoteMsgs s' (F (GetProposalId q)) = Some signs \<and>
    (let n = int (length (elems (GetValidators env (GetProposalView q))))
     in n - max_faulty n - 1 \<le> int (length signs))"
proof -
  have s': "s' = fst (handleReceivedVoteMsg env s msg)" using assms(1) by simp
  obtain v q s1 k where vq: "cm_vote msg = Some v" "voteMsgToQC v = Inr q"
    and cv: "CheckVote (cryptoClient env) (safetyRules s) q (elems (GetValidators env (GetProposalView q))) = None"
    and st: "storeVote s q = (s1, k)"
    and th: "CalVotesThreshold k (int (length (elems (GetValidators env (GetProposalView q)))))"
    and eq: "s' = (advance s1 (Some q))\<lparr>qcTree := UpdateHighQC (qcTree s) (GetProposalId q)\<rparr>"
    unfolding s' by (rule handleReceivedVoteMsg_changes [OF assms(2) [unfolded s']])
  let ?n = "int (length (elems (GetValidators env (GetProposalView q))))"
  obtain signs where signs: "qcVoteMsgs s1 (F (GetProposalId q)) = Some signs" "k \<le> int (length signs)"
    by (rule storeVote_stores [OF st CheckVote_accepts(1) [OF cv]])
  have "1 \<le> ?n"
    using length_pos_if_in_set [OF CheckVote_accepts(2) [OF cv]] by linarith
  then have "?n - max_faulty ?n - 1 \<le> int (length signs)"
    using th signs(2) by (simp add: CalVotesThreshold_iff)
  moreover have "bytes_Equal (GetProposalId (highQC (qcTree s'))) (GetProposalId q)"
    using assms(2) UpdateHighQC_changes by (simp add: eq)
  moreover have "qcVoteMsgs s' (F (GetProposalId q)) = Some signs"
    using signs(1) by (simp add: eq advance_def)
  ultimately show ?thesis using vq by (auto simp: Let_def)
qed

definition demo_collected :: smr where
  "demo_collected = demo_smr\<lparr>localProposal := [F (Some ''B3'') \<mapsto> 1],
                             qcVoteMsgs := [F (Some ''B3'') \<mapsto> [demo_sign ''n2'' ''B3'']]\<rparr>"

theorem vote_moves_highQC_with_quorum_witness:
  "\<exists>signs. qcVoteMsgs (fst (handleReceivedVoteMsg demo_env demo_collected
       (vote_message ''B3'' 3 [demo_sign ''n3'' ''B3'']))) (F (Some ''B3'')) = Some signs \<and>
     2 \<le> length signs"
proof -
  have "qcTree (fst (handleReceivedVoteMsg demo_env demo_collected
      (vote_message ''B3'' 3 [demo_sign ''n3'' ''B3'']))) \<noteq> qcTree demo_collected"
    by code_simp
  from vote_moves_highQC_with_quorum [OF surjective_pairing this] show ?thesis
    by (auto simp: vote_message_def voteMsgToQC_def demo_env_def demo_validators_def max_faulty_def go_defs)
qed

text \<open>
  \<open>appendSigns\<close> keeps the signatures it had and ends with exactly the signers of both lists;
  when neither list names a signer twice, the result does not either.
\<close>

lemma appendSigns_union:
  assumes "distinct (map Address q)" and "distinct (map Address p)"
  shows "distinct (map Address (appendSigns q p)) \<and>
         set (map Address (appendSigns q p)) = set (map Address q) \<union> set (map Address p) \<and>
         take (length q) (appendSigns q p) = q"
  using assms by (auto simp: appendSigns_filter distinct_map_filter) (metis imageI)

lemma appendSigns_union_witness:
  "distinct (map Address (appendSigns [demo_sign ''n1'' ''B3''] [demo_sign ''n2'' ''B3'', demo_sign ''n1'' ''B3'']))"
  using appendSigns_union [of "[demo_sign ''n1'' ''B3'']" "[demo_sign ''n2'' ''B3'', demo_sign ''n1'' ''B3'']"]
  by (simp add: demo_sign_def)


definition demo_ledger :: "bytes \<Rightarrow> block_handle option" where
  "demo_ledger i =
     (if i = Some ''B3'' then Some \<lparr>GetBlockid = Some ''B3'', GetHeight = 3, GetPreHash = Some ''B2''\<rparr>
      else if i = Some ''B2'' then Some \<lparr>GetBlockid = Some ''B2'', GetHeight = 2, GetPreHash = Some ''B1''\<rparr>
      else None)"


text \<open>
  The signature of a received proposal is not checked. With any other public key, signature
  and digest in the name of the same address the handler returns the same result and leaves the
  same state, up to the copy of the message it sends back to that address.
\<close>

theorem proposal_signature_unchecked:
  assumes "cm_proposal msg = Some m"
  shows "\<forall>pk sig digest.
    (let (s1, out1) = handleReceivedProposal env s msg;
         (s2, out2) = handleReceivedProposal env s (msg\<lparr>cm_proposal := Some (resigned m pk sig digest)\<rparr>)
     in out1 = out2 \<and> s1\<lparr>outbox := []\<rparr> = s2\<lparr>outbox := []\<rparr>)"
proof (intro allI)
  fix pk sig digest
  have "same_result (handleReceivedProposal env s msg)
      (handleReceivedProposal env s (msg\<lparr>cm_proposal := Some (resigned m pk sig digest)\<rparr>))"
    by (rule same_result_handleReceivedProposal [OF assms]) simp
  then show "let (s1, out1) = handleReceivedProposal env s msg;
        (s2, out2) = handleReceivedProposal env s (msg\<lparr>cm_proposal := Some (resigned m pk sig digest)\<rparr>)
    in out1 = out2 \<and> s1\<lparr>outbox := []\<rparr> = s2\<lparr>outbox := []\<rparr>"
    by (simp add: same_result_def same_but_sent_def case_prod_beta)
qed

theorem proposal_signature_unchecked_witness:
  "snd (handleReceivedProposal demo_env demo_smr (proposal_message (resigned demo_proposal ''x'' None None))) =
   snd (handleReceivedProposal demo_env demo_smr (proposal_message demo_proposal))"
  using proposal_signature_unchecked [of "proposal_message demo_proposal" demo_proposal demo_env demo_smr]
  by (auto simp: proposal_message_def Let_def case_prod_beta)

text \<open>
  Only the first signature of a vote message is verified, but the first vote for a proposal
  stores all of them: one message with a valid signature of \<open>n2\<close> and made-up ones of \<open>n3\<close> and
  \<open>n4\<close> leaves three stored votes, and the next valid vote, a repetition of the first, moves
  \<open>highQC\<close> to the proposal.
\<close>

theorem first_vote_stores_unverified:
  "let forged = vote_message ''C3'' 3 [demo_sign ''n2'' ''C3'', demo_sign ''n3'' ''?'', demo_sign ''n4'' ''?''];
       s0 = demo_smr\<lparr>localProposal := [F (Some ''C3'') \<mapsto> 1]\<rparr>;
       s1 = fst (handleReceivedVoteMsg demo_env s0 forged);
       s2 = fst (handleReceivedVoteMsg demo_env s1 (vote_message ''C3'' 3 [demo_sign ''n2'' ''C3'']))
   in qcVoteMsgs s1 (F (Some ''C3'')) =
        Some [demo_sign ''n2'' ''C3'', demo_sign ''n3'' ''?'', demo_sign ''n4'' ''?''] \<and>
      GetProposalId (highQC (qcTree s0)) = Some ''B2'' \<and>
      GetProposalId (highQC (qcTree s2)) = Some ''C3''"
  by code_simp

text \<open>
  \<open>UnRegisterToNetwork\<close> unregisters nothing: its loop variable starts as \<open>nil\<close>, which ends the
  loop before the first subscriber, so every subscription of a registered node stays in place.
\<close>

lemma UnRegisterToNetwork_nothing:
  "UnRegisterToNetwork unregister (fst (RegisterToNetwork (\<lambda>m. True) s)) = fst (RegisterToNetwork (\<lambda>m. True) s) \<and>
   subscribeList (UnRegisterToNetwork unregister (fst (RegisterToNetwork (\<lambda>m. True) s))) =
     subscribeList s @ [CHAINED_BFT_NEW_VIEW_MSG, CHAINED_BFT_NEW_PROPOSAL_MSG, CHAINED_BFT_VOTE_MSG]"
  by (simp add: UnRegisterToNetwork_def RegisterToNetwork_def)

end
