(* ===== verification/Sandbox.thy ===== *)
theory Sandbox
  imports Prelude "HOL-Library.List_Lexorder" "HOL-Library.Char_ord" "HOL-Library.RBT"
begin

text \<open>
  The state sandbox contracts run in: \<^verbatim>\<open>contract/sandbox/xmcache.go\<close>, \<^verbatim>\<open>mem_xmodel.go\<close>,
  \<^verbatim>\<open>iterator.go\<close>, \<^verbatim>\<open>utils.go\<close>, \<^verbatim>\<open>utxo.go\<close> and \<^verbatim>\<open>state/utxo/utxo_sandbox.go\<close>.

  The red-black tree of the gods package is a parameter, the record \<open>tree_ops\<close>; what the code
  relies on of it is the locale \<open>ordered_tree\<close>. The reader of the ledger's state,
  \<open>ledger.XReader\<close>, is the parameter \<open>x_reader\<close>. An iterator is represented by the list of the
  entries that draining it yields. Byte strings are compared by \<open>bytes.Compare\<close>, the
  lexicographic order of their bytes. Amounts of tokens are the numbers their bytes encode.
\<close>

section \<open>Data\<close>

record pure_data =
  Bucket :: string
  Key :: bytes
  Value :: bytes

record versioned_data =
  RefTxid :: bytes
  RefOffset :: int
  PureData :: pure_data

datatype sandbox_error = ErrHasDel | ErrNotFound | ReaderErr | SelectErr | UtxoErr | MarshalErr

definition TransientBucket :: string where "TransientBucket = ''$transient''"
definition BucketSeperator :: string where "BucketSeperator = ''/''"
definition DelFlag :: string where "DelFlag = [CHR 0x00]"

definition makeRawKey :: "string \<Rightarrow> bytes \<Rightarrow> string" where
  "makeRawKey bucket key = bucket @ BucketSeperator @ elems key"

text \<open>\<open>None\<close> is the error for a raw key without a separator.\<close>

definition parseRawKey :: "string \<Rightarrow> (string \<times> bytes) option" where
  "parseRawKey rawKey =
     (let bucket = takeWhile (\<lambda>c. c \<noteq> CHR ''/'') rawKey
      in if length bucket = length rawKey then None
         else Some (bucket, Some (drop (length bucket + 1) rawKey)))"

definition IsEmptyVersionedData :: "versioned_data \<Rightarrow> bool" where
  "IsEmptyVersionedData vd \<longleftrightarrow> RefTxid vd = None \<and> RefOffset vd = 0"

definition IsDelFlag :: "bytes \<Rightarrow> bool" where
  "IsDelFlag value \<longleftrightarrow> bytes_Equal (Some DelFlag) value"

section \<open>The in-memory model\<close>

text \<open>
  \<open>tree_Walk t start\<close> are the entries an iterator visits that is placed before the first key not
  below \<open>start\<close> (\<open>Ceiling\<close>, \<open>IteratorAt\<close>, \<open>Prev\<close>), or before the first key for \<open>None\<close>.
\<close>

record 't tree_ops =
  tree_New :: 't
  tree_Get :: "'t \<Rightarrow> string \<Rightarrow> versioned_data option"
  tree_Put :: "'t \<Rightarrow> string \<Rightarrow> versioned_data \<Rightarrow> 't"
  tree_Walk :: "'t \<Rightarrow> string option \<Rightarrow> (string \<times> versioned_data) list"

definition Mem_Get :: "'t tree_ops \<Rightarrow> 't \<Rightarrow> string \<Rightarrow> bytes \<Rightarrow> sandbox_error + versioned_data" where
  "Mem_Get T m bucket key =
     (case tree_Get T m (makeRawKey bucket key) of None \<Rightarrow> Inl ErrNotFound | Some v \<Rightarrow> Inr v)"

definition Mem_Put :: "'t tree_ops \<Rightarrow> 't \<Rightarrow> string \<Rightarrow> bytes \<Rightarrow> versioned_data \<Rightarrow> 't" where
  "Mem_Put T m bucket key value = tree_Put T m (makeRawKey bucket key) value"

text \<open>The first byte string above all that have the prefix; \<open>None\<close> when every byte is \<open>0xff\<close>.\<close>

fun prefixEndRev :: "string \<Rightarrow> string option" where
  "prefixEndRev [] = None"
| "prefixEndRev (c # cs) =
     (if (of_char c :: nat) < 255 then Some (char_of ((of_char c :: nat) + 1) # cs) else prefixEndRev cs)"

definition prefixEnd :: "string \<Rightarrow> bytes" where
  "prefixEnd prefix = map_option rev (prefixEndRev (rev prefix))"

text \<open>The entries a range iterator yields: from \<open>start\<close>, up to the first key that is not below \<open>end\<close>.\<close>

definition newTreeRangeIterator ::
    "'t tree_ops \<Rightarrow> 't \<Rightarrow> string \<Rightarrow> bytes \<Rightarrow> versioned_data list" where
  "newTreeRangeIterator T m start stop =
     map snd (takeWhile (\<lambda>(k, v). case stop of None \<Rightarrow> True | Some e \<Rightarrow> k < e) (tree_Walk T m (Some start)))"

definition newTreeIterator :: "'t tree_ops \<Rightarrow> 't \<Rightarrow> versioned_data list" where
  "newTreeIterator T m = map snd (tree_Walk T m None)"

definition Mem_Select ::
    "'t tree_ops \<Rightarrow> 't \<Rightarrow> string \<Rightarrow> bytes \<Rightarrow> bytes \<Rightarrow> sandbox_error + versioned_data list" where
  "Mem_Select T m bucket startKey endKey =
     (if bucket = [] then Inl SelectErr
      else if startKey \<noteq> None \<and> endKey \<noteq> None \<and> elems startKey > elems endKey then Inl SelectErr
      else
        (let rawStartKey = makeRawKey bucket startKey;
             rawEndKey = (if endKey \<noteq> None then Some (makeRawKey bucket endKey)
                          else prefixEnd (makeRawKey bucket None))
         in Inr (newTreeRangeIterator T m rawStartKey rawEndKey)))"

section \<open>Iterators\<close>

text \<open>\<open>compareBytes\<close> takes \<open>nil\<close> as the greatest key.\<close>

definition compareBytes :: "bytes \<Rightarrow> bytes \<Rightarrow> int" where
  "compareBytes k1 k2 =
     (if k1 = None \<and> k2 = None then 0
      else if k1 = None then 1
      else if k2 = None then -1
      else if elems k1 < elems k2 then -1
      else if elems k1 = elems k2 then 0 else 1)"

text \<open>
  The multi iterator over two iterators, each a list of keys with their values: when both offer
  the same key the front one wins.
\<close>

fun multiIterator :: "(bytes \<times> 'v) list \<Rightarrow> (bytes \<times> 'v) list \<Rightarrow> (bytes \<times> 'v) list" where
  "multiIterator [] back = back"
| "multiIterator front [] = front"
| "multiIterator (x # front) (y # back) =
     (if compareBytes (fst x) (fst y) = 0 then x # multiIterator front back
      else if compareBytes (fst x) (fst y) = -1 then x # multiIterator front (y # back)
      else y # multiIterator (x # front) back)"

definition stripDelIterator :: "versioned_data list \<Rightarrow> versioned_data list" where
  "stripDelIterator vs = filter (\<lambda>v. \<not> IsDelFlag (Value (PureData v))) vs"

definition keyed :: "versioned_data list \<Rightarrow> (bytes \<times> versioned_data) list" where
  "keyed vs = map (\<lambda>v. (Key (PureData v), v)) vs"

section \<open>Tokens moved by a contract\<close>

record sandbox_input =
  in_RefTxid :: bytes
  in_RefOffset :: int
  FromAddr :: string
  in_Amount :: nat

record sandbox_output =
  out_Amount :: nat
  ToAddr :: string

text \<open>
  \<open>SelectUtxo\<close> of a reader with state \<open>'r\<close>: the inputs chosen and their sum_got, or an error. The
  keys it also returns are ignored by the sandbox, and so are the two flags it takes.
\<close>

type_synonym 'r select_utxo = "'r \<Rightarrow> string \<Rightarrow> int \<Rightarrow> 'r \<times> (sandbox_error + sandbox_input list \<times> int)"

text \<open>The reader that replays the inputs of a transaction.\<close>

record utxo_reader =
  inputCache :: "sandbox_input list"
  inputIdx :: nat

definition NewUTXOReaderFromInput :: "sandbox_input list \<Rightarrow> utxo_reader" where
  "NewUTXOReaderFromInput input = \<lparr>inputCache = input, inputIdx = 0\<rparr>"

text \<open>
  The loop of \<open>SelectUtxo\<close>: \<open>n\<close> inputs used so far, with the sum \<open>sum_in\<close>. It ends at the first
  input that reaches the amount or at the last one.
\<close>

fun selectLoop :: "string \<Rightarrow> int \<Rightarrow> sandbox_input list \<Rightarrow> nat \<Rightarrow> int \<Rightarrow> (nat \<times> int) option" where
  "selectLoop sender amount [] n sum_in = Some (n, sum_in)"
| "selectLoop sender amount (i # rest) n sum_in =
     (if FromAddr i \<noteq> sender then None
      else if sum_in + int (in_Amount i) \<ge> amount then Some (n + 1, sum_in + int (in_Amount i))
      else selectLoop sender amount rest (n + 1) (sum_in + int (in_Amount i)))"

definition UTXOReader_SelectUtxo :: "utxo_reader select_utxo" where
  "UTXOReader_SelectUtxo r sender amount =
     (let cache = drop (inputIdx r) (inputCache r)
      in case selectLoop sender amount cache 0 0 of
           None \<Rightarrow> (r, Inl UtxoErr)
         | Some (n, sum_got) \<Rightarrow>
             if sum_got < amount then (r, Inl UtxoErr)
             else (r\<lparr>inputIdx := inputIdx r + n\<rparr>, Inr (take n cache, sum_got)))"

record 'r utxo_sandbox =
  us_inputCache :: "sandbox_input list"
  us_outputCache :: "sandbox_output list"
  utxoReader :: 'r

definition NewUTXOSandbox :: "'r \<Rightarrow> 'r utxo_sandbox" where
  "NewUTXOSandbox reader = \<lparr>us_inputCache = [], us_outputCache = [], utxoReader = reader\<rparr>"

text \<open>\<open>Bytes\<close> of a big integer drops its sign.\<close>

definition UTXO_Transfer ::
    "'r select_utxo \<Rightarrow> 'r utxo_sandbox \<Rightarrow> string \<Rightarrow> string \<Rightarrow> int \<Rightarrow> 'r utxo_sandbox \<times> sandbox_error option" where
  "UTXO_Transfer sel u sender receiver amount =
     (if amount = 0 then (u, Some UtxoErr)
      else (case sel (utxoReader u) sender amount of
              (r, Inl err) \<Rightarrow> (u\<lparr>utxoReader := r\<rparr>, Some err)
            | (r, Inr (inputs, sum_got)) \<Rightarrow>
                (let change = (if sum_got > amount
                               then [\<lparr>out_Amount = nat \<bar>sum_got - amount\<bar>, ToAddr = sender\<rparr>] else [])
                 in (\<lparr>us_inputCache = us_inputCache u @ inputs,
                      us_outputCache =
                        us_outputCache u @ [\<lparr>out_Amount = nat \<bar>amount\<bar>, ToAddr = receiver\<rparr>] @ change,
                      utxoReader = r\<rparr>, None))))"

definition GetUTXORWSets :: "'r utxo_sandbox \<Rightarrow> sandbox_input list \<times> sandbox_output list" where
  "GetUTXORWSets u = (us_inputCache u, us_outputCache u)"

section \<open>The cache\<close>

record x_reader =
  xr_Get :: "string \<Rightarrow> bytes \<Rightarrow> sandbox_error + versioned_data"
  xr_Select :: "string \<Rightarrow> bytes \<Rightarrow> bytes \<Rightarrow> sandbox_error + versioned_data list"

record ('t, 'r, 'e) xm_cache =
  inputsCache :: 't
  outputsCache :: 't
  utxoSandbox :: "'r utxo_sandbox"
  cached_events :: "'e list"

definition NewXModelCache :: "'t tree_ops \<Rightarrow> 'r \<Rightarrow> ('t, 'r, 'e) xm_cache" where
  "NewXModelCache T reader =
     \<lparr>inputsCache = tree_New T, outputsCache = tree_New T, utxoSandbox = NewUTXOSandbox reader,
      cached_events = []\<rparr>"

definition getFromOuputsCache ::
    "'t tree_ops \<Rightarrow> ('t, 'r, 'e) xm_cache \<Rightarrow> string \<Rightarrow> bytes \<Rightarrow> sandbox_error + versioned_data" where
  "getFromOuputsCache T xc bucket key =
     (case Mem_Get T (outputsCache xc) bucket key of
        Inl err \<Rightarrow> Inl err
      | Inr data \<Rightarrow> if IsDelFlag (Value (PureData data)) then Inl ErrHasDel else Inr data)"

definition getAndSetFromInputsCache ::
    "'t tree_ops \<Rightarrow> x_reader \<Rightarrow> ('t, 'r, 'e) xm_cache \<Rightarrow> string \<Rightarrow> bytes
       \<Rightarrow> ('t, 'r, 'e) xm_cache \<times> (sandbox_error + versioned_data)" where
  "getAndSetFromInputsCache T M xc bucket key =
     (case Mem_Get T (inputsCache xc) bucket key of
        Inr data \<Rightarrow> (xc, Inr data)
      | Inl err \<Rightarrow>
          if err \<noteq> ErrNotFound then (xc, Inl err)
          else (case xr_Get M bucket key of
                  Inl err \<Rightarrow> (xc, Inl err)
                | Inr data \<Rightarrow> (xc\<lparr>inputsCache := Mem_Put T (inputsCache xc) bucket key data\<rparr>, Inr data)))"

definition XM_Get ::
    "'t tree_ops \<Rightarrow> x_reader \<Rightarrow> ('t, 'r, 'e) xm_cache \<Rightarrow> string \<Rightarrow> bytes
       \<Rightarrow> ('t, 'r, 'e) xm_cache \<times> (sandbox_error + bytes)" where
  "XM_Get T M xc bucket key =
     (case getFromOuputsCache T xc bucket key of
        Inr data \<Rightarrow> (xc, Inr (Value (PureData data)))
      | Inl err \<Rightarrow>
          if err \<noteq> ErrNotFound then (xc, Inl err)
          else (case getAndSetFromInputsCache T M xc bucket key of
                  (xc', Inl err) \<Rightarrow> (xc', Inl err)
                | (xc', Inr verData) \<Rightarrow>
                    (xc', if IsEmptyVersionedData verData then Inl ErrNotFound
                          else if IsDelFlag (Value (PureData verData)) then Inl ErrHasDel
                          else Inr (Value (PureData verData)))))"

text \<open>
  \<open>Put\<close> reads the key first, so that it is in the read set; its check of the outputs cache returns
  an error only for one that is neither \<open>ErrNotFound\<close> nor \<open>ErrHasDel\<close>, which \<open>Mem_Get\<close> never gives.
\<close>

definition XM_Put ::
    "'t tree_ops \<Rightarrow> x_reader \<Rightarrow> ('t, 'r, 'e) xm_cache \<Rightarrow> string \<Rightarrow> bytes \<Rightarrow> bytes
       \<Rightarrow> ('t, 'r, 'e) xm_cache \<times> sandbox_error option" where
  "XM_Put T M xc bucket key value =
     (let old = getFromOuputsCache T xc bucket key
      in if old = Inl ReaderErr \<or> old = Inl SelectErr \<or> old = Inl UtxoErr \<or> old = Inl MarshalErr
         then (xc, Some (projl old))
         else
           (let val = \<lparr>RefTxid = None, RefOffset = 0,
                       PureData = \<lparr>Bucket = bucket, Key = key, Value = value\<rparr>\<rparr>;
                xc1 = (if bucket \<noteq> TransientBucket then fst (XM_Get T M xc bucket key) else xc)
            in (xc1\<lparr>outputsCache := Mem_Put T (outputsCache xc1) bucket key val\<rparr>, None)))"

definition XM_Del ::
    "'t tree_ops \<Rightarrow> x_reader \<Rightarrow> ('t, 'r, 'e) xm_cache \<Rightarrow> string \<Rightarrow> bytes
       \<Rightarrow> ('t, 'r, 'e) xm_cache \<times> sandbox_error option" where
  "XM_Del T M xc bucket key = XM_Put T M xc bucket key (Some DelFlag)"

text \<open>Draining the backend iterator reads every key it yields, which puts it into the read set.\<close>

fun rsetIterator ::
    "'t tree_ops \<Rightarrow> x_reader \<Rightarrow> ('t, 'r, 'e) xm_cache \<Rightarrow> string \<Rightarrow> versioned_data list \<Rightarrow> ('t, 'r, 'e) xm_cache" where
  "rsetIterator T M xc bucket [] = xc"
| "rsetIterator T M xc bucket (v # vs) =
     rsetIterator T M (fst (XM_Get T M xc bucket (Key (PureData v)))) bucket vs"

definition XM_Select ::
    "'t tree_ops \<Rightarrow> x_reader \<Rightarrow> ('t, 'r, 'e) xm_cache \<Rightarrow> string \<Rightarrow> bytes \<Rightarrow> bytes
       \<Rightarrow> ('t, 'r, 'e) xm_cache \<times> (sandbox_error + (bytes \<times> bytes) list)" where
  "XM_Select T M xc bucket startKey endKey =
     (case Mem_Select T (outputsCache xc) bucket startKey endKey of
        Inl err \<Rightarrow> (xc, Inl err)
      | Inr outputIter \<Rightarrow>
          (case Mem_Select T (inputsCache xc) bucket startKey endKey of
             Inl err \<Rightarrow> (xc, Inl err)
           | Inr inputs \<Rightarrow>
               (case xr_Select M bucket startKey endKey of
                  Inl err \<Rightarrow> (xc, Inl err)
                | Inr backend \<Rightarrow>
                    (let multiIter = multiIterator (keyed outputIter)
                           (multiIterator (keyed (stripDelIterator inputs)) (keyed (stripDelIterator backend)))
                     in (rsetIterator T M xc bucket backend,
                         Inr (map (\<lambda>(k, v). (k, Value (PureData v))) multiIter))))))"

definition RSet :: "'t tree_ops \<Rightarrow> ('t, 'r, 'e) xm_cache \<Rightarrow> versioned_data list" where
  "RSet T xc = newTreeIterator T (inputsCache xc)"

definition WSet :: "'t tree_ops \<Rightarrow> ('t, 'r, 'e) xm_cache \<Rightarrow> pure_data list" where
  "WSet T xc = map PureData (newTreeIterator T (outputsCache xc))"

definition XM_Transfer ::
    "'r select_utxo \<Rightarrow> ('t, 'r, 'e) xm_cache \<Rightarrow> string \<Rightarrow> string \<Rightarrow> int
       \<Rightarrow> ('t, 'r, 'e) xm_cache \<times> sandbox_error option" where
  "XM_Transfer sel xc sender receiver amount =
     (case UTXO_Transfer sel (utxoSandbox xc) sender receiver amount of
        (u, err) \<Rightarrow> (xc\<lparr>utxoSandbox := u\<rparr>, err))"

definition AddEvent :: "('t, 'r, 'e) xm_cache \<Rightarrow> 'e list \<Rightarrow> ('t, 'r, 'e) xm_cache" where
  "AddEvent xc evs = xc\<lparr>cached_events := cached_events xc @ evs\<rparr>"

text \<open>The model that replays a read set.\<close>

fun putAll :: "'t tree_ops \<Rightarrow> 't \<Rightarrow> versioned_data list \<Rightarrow> 't" where
  "putAll T m [] = m"
| "putAll T m (r # rs) = putAll T (Mem_Put T m (Bucket (PureData r)) (Key (PureData r)) r) rs"

definition XMReaderFromRWSet :: "'t tree_ops \<Rightarrow> versioned_data list \<Rightarrow> x_reader" where
  "XMReaderFromRWSet T rset =
     (let m = putAll T (tree_New T) rset in \<lparr>xr_Get = Mem_Get T m, xr_Select = Mem_Select T m\<rparr>)"

text \<open>
  \<open>Flush\<close> writes the token inputs and outputs and the events to the transient bucket;
  \<open>model.MarshalMessages\<close> is a parameter for each of the three, \<open>None\<close> for its error.
\<close>

record ('e) marshal_ops =
  marshalInputs :: "sandbox_input list \<Rightarrow> string option"
  marshalOutputs :: "sandbox_output list \<Rightarrow> string option"
  marshalEvents :: "'e list \<Rightarrow> string option"

definition contractUtxoInputKey :: string where "contractUtxoInputKey = ''ContractUtxo.Inputs''"
definition contractUtxoOutputKey :: string where "contractUtxoOutputKey = ''ContractUtxo.Outputs''"
definition contractEventKey :: string where "contractEventKey = ''contractEvent''"

definition putTransient ::
    "'t tree_ops \<Rightarrow> x_reader \<Rightarrow> ('t, 'r, 'e) xm_cache \<Rightarrow> string \<Rightarrow> string option
       \<Rightarrow> ('t, 'r, 'e) xm_cache \<times> sandbox_error option" where
  "putTransient T M xc key value =
     (case value of None \<Rightarrow> (xc, None) | Some v \<Rightarrow> XM_Put T M xc TransientBucket (Some key) (Some v))"

definition flushUTXORWSet ::
    "'t tree_ops \<Rightarrow> x_reader \<Rightarrow> 'e marshal_ops \<Rightarrow> ('t, 'r, 'e) xm_cache
       \<Rightarrow> ('t, 'r, 'e) xm_cache \<times> sandbox_error option" where
  "flushUTXORWSet T M E xc =
     (case GetUTXORWSets (utxoSandbox xc) of
        (inputs, outputs) \<Rightarrow>
          (let ins = (if inputs \<noteq> [] then marshalInputs E inputs else None);
               outs = (if outputs \<noteq> [] then marshalOutputs E outputs else None)
           in if inputs \<noteq> [] \<and> ins = None then (xc, Some MarshalErr)
              else if outputs \<noteq> [] \<and> outs = None then (xc, Some MarshalErr)
              else (case putTransient T M xc contractUtxoInputKey ins of
                      (xc1, Some err) \<Rightarrow> (xc1, Some err)
                    | (xc1, None) \<Rightarrow> putTransient T M xc1 contractUtxoOutputKey outs)))"

definition writeEventRWSet ::
    "'t tree_ops \<Rightarrow> x_reader \<Rightarrow> 'e marshal_ops \<Rightarrow> ('t, 'r, 'e) xm_cache
       \<Rightarrow> ('t, 'r, 'e) xm_cache \<times> sandbox_error option" where
  "writeEventRWSet T M E xc =
     (if cached_events xc = [] then (xc, None)
      else (case marshalEvents E (cached_events xc) of
              None \<Rightarrow> (xc, Some MarshalErr)
            | Some buf \<Rightarrow> XM_Put T M xc TransientBucket (Some contractEventKey) (Some buf)))"

definition Flush ::
    "'t tree_ops \<Rightarrow> x_reader \<Rightarrow> 'e marshal_ops \<Rightarrow> ('t, 'r, 'e) xm_cache
       \<Rightarrow> ('t, 'r, 'e) xm_cache \<times> sandbox_error option" where
  "Flush T M E xc =
     (case flushUTXORWSet T M E xc of
        (xc1, Some err) \<Rightarrow> (xc1, Some err)
      | (xc1, None) \<Rightarrow> writeEventRWSet T M E xc1)"

text \<open>The events of a transaction: the value under the event key in its transient bucket.\<close>

fun ParseContractEvents :: "(string \<Rightarrow> 'e list option) \<Rightarrow> pure_data list \<Rightarrow> sandbox_error + 'e list" where
  "ParseContractEvents unmarshal [] = Inr []"
| "ParseContractEvents unmarshal (out # outs) =
     (if Bucket out \<noteq> TransientBucket then ParseContractEvents unmarshal outs
      else if \<not> bytes_Equal (Key out) (Some contractEventKey) then ParseContractEvents unmarshal outs
      else (case unmarshal (elems (Value out)) of None \<Rightarrow> Inl MarshalErr | Some events \<Rightarrow> Inr events))"

section \<open>Contracts\<close>

subsection \<open>The ordered tree\<close>

text \<open>
  What the in-memory model relies on: keys are unique and visited in ascending order, a walk from
  a key starts at the first key that is not below it, and \<open>Put\<close> changes the value of one key.
\<close>

locale ordered_tree =
  fixes T :: "'t tree_ops"
  assumes walk_New: "tree_Walk T (tree_New T) None = []"
    and walk_sorted: "sorted_wrt (<) (map fst (tree_Walk T m None))"
    and walk_from: "tree_Walk T m (Some k) = filter (\<lambda>e. k \<le> fst e) (tree_Walk T m None)"
    and get_walk: "tree_Get T m k = map_of (tree_Walk T m None) k"
    and walk_put: "map_of (tree_Walk T (tree_Put T m k v) None) = (map_of (tree_Walk T m None))(k \<mapsto> v)"
begin

lemma get_New [simp]: "tree_Get T (tree_New T) k = None"
  by (simp add: get_walk walk_New)

lemma get_Put [simp]: "tree_Get T (tree_Put T m k v) k' = (if k' = k then Some v else tree_Get T m k')"
  by (simp add: get_walk walk_put)

lemma walk_distinct: "distinct (map fst (tree_Walk T m None))"
  using walk_sorted [of m] by (simp add: strict_sorted_iff)

lemma walk_get: "(k, v) \<in> set (tree_Walk T m None) \<longleftrightarrow> tree_Get T m k = Some v"
  using walk_distinct [of m] by (simp add: get_walk)

lemma Mem_Get_Put [simp]:
  "Mem_Get T (Mem_Put T m b k v) b' k' =
     (if makeRawKey b' k' = makeRawKey b k then Inr v else Mem_Get T m b' k')"
  by (simp add: Mem_Get_def Mem_Put_def)

lemma Mem_Get_New [simp]: "Mem_Get T (tree_New T) b k = Inl ErrNotFound"
  by (simp add: Mem_Get_def)

end

text \<open>The red-black trees of the library meet the contract.\<close>

definition rbt_ops :: "(string, versioned_data) rbt tree_ops" where
  "rbt_ops =
     \<lparr>tree_New = RBT.empty, tree_Get = RBT.lookup, tree_Put = (\<lambda>m k v. RBT.insert k v m),
      tree_Walk = (\<lambda>m start. case start of None \<Rightarrow> RBT.entries m
                              | Some k \<Rightarrow> filter (\<lambda>e. k \<le> fst e) (RBT.entries m))\<rparr>"

lemma rbt_entries_empty: "RBT.entries (RBT.empty :: ('a :: linorder, 'b) rbt) = []"
  using RBT.map_of_entries [of "RBT.empty :: ('a, 'b) rbt"] by (simp del: RBT.map_of_entries)

interpretation rbt: ordered_tree rbt_ops
  by unfold_locales
    (auto simp: rbt_ops_def rbt_entries_empty strict_sorted_iff RBT.distinct_entries RBT.sorted_entries RBT.map_of_entries)

subsection \<open>Raw keys\<close>

definition plain_bucket :: "string \<Rightarrow> bool" where
  "plain_bucket b \<longleftrightarrow> CHR ''/'' \<notin> set b"

lemma parse_makeRawKey: "plain_bucket b \<Longrightarrow> parseRawKey (makeRawKey b (Some k)) = Some (b, Some k)"
  by (simp add: parseRawKey_def makeRawKey_def BucketSeperator_def plain_bucket_def Let_def takeWhile_append)

lemma makeRawKey_inject:
  assumes "plain_bucket b" and "plain_bucket b'"
  shows "makeRawKey b' (Some k') = makeRawKey b (Some k) \<longleftrightarrow> b' = b \<and> k' = k"
  using parse_makeRawKey [OF assms(1), of k] parse_makeRawKey [OF assms(2), of k'] by auto

subsection \<open>The key-value interface\<close>

text \<open>
  What a contract relies on: \<open>look\<close> is the state it can see; reading returns it and does not
  change it, writing succeeds and changes one key. The mark of a deletion is not a value.
\<close>

locale kv_store =
  fixes get :: "'s \<Rightarrow> string \<Rightarrow> string \<Rightarrow> 's \<times> (sandbox_error + bytes)"
    and put :: "'s \<Rightarrow> string \<Rightarrow> string \<Rightarrow> bytes \<Rightarrow> 's \<times> sandbox_error option"
    and look :: "'s \<Rightarrow> string \<Rightarrow> string \<Rightarrow> sandbox_error + bytes"
  assumes get_returns: "snd (get s b k) = look s b k"
    and get_keeps: "plain_bucket b \<Longrightarrow> plain_bucket b' \<Longrightarrow> look (fst (get s b k)) b' k' = look s b' k'"
    and put_succeeds: "snd (put s b k v) = None"
    and put_updates: "plain_bucket b \<Longrightarrow> plain_bucket b' \<Longrightarrow>
      look (fst (put s b k v)) b' k' =
        (if b' = b \<and> k' = k then (if IsDelFlag v then Inl ErrHasDel else Inr v) else look s b' k')"

text \<open>Sequences of operations, their results, and the same sequence on the visible state alone.\<close>

datatype kv_op = KGet string string | KPut string string bytes | KDel string string

datatype kv_result = Got "sandbox_error + bytes" | Wrote "sandbox_error option"

fun op_bucket :: "kv_op \<Rightarrow> string" where
  "op_bucket (KGet b k) = b"
| "op_bucket (KPut b k v) = b"
| "op_bucket (KDel b k) = b"

fun kv_exec ::
    "('s \<Rightarrow> string \<Rightarrow> string \<Rightarrow> 's \<times> (sandbox_error + bytes)) \<Rightarrow>
     ('s \<Rightarrow> string \<Rightarrow> string \<Rightarrow> bytes \<Rightarrow> 's \<times> sandbox_error option) \<Rightarrow> 's \<Rightarrow> kv_op \<Rightarrow> 's \<times> kv_result" where
  "kv_exec get put s (KGet b k) = (case get s b k of (s', r) \<Rightarrow> (s', Got r))"
| "kv_exec get put s (KPut b k v) = (case put s b k v of (s', r) \<Rightarrow> (s', Wrote r))"
| "kv_exec get put s (KDel b k) = (case put s b k (Some DelFlag) of (s', r) \<Rightarrow> (s', Wrote r))"

fun kv_run ::
    "('s \<Rightarrow> string \<Rightarrow> string \<Rightarrow> 's \<times> (sandbox_error + bytes)) \<Rightarrow>
     ('s \<Rightarrow> string \<Rightarrow> string \<Rightarrow> bytes \<Rightarrow> 's \<times> sandbox_error option) \<Rightarrow> 's \<Rightarrow> kv_op list \<Rightarrow> 's \<times> kv_result list" where
  "kv_run get put s [] = (s, [])"
| "kv_run get put s (p # ps) =
     (case kv_exec get put s p of
        (s1, r) \<Rightarrow> (case kv_run get put s1 ps of (s2, rs) \<Rightarrow> (s2, r # rs)))"

type_synonym kv_view = "string \<Rightarrow> string \<Rightarrow> sandbox_error + bytes"

definition spec_get :: "kv_view \<Rightarrow> string \<Rightarrow> string \<Rightarrow> kv_view \<times> (sandbox_error + bytes)" where
  "spec_get st b k = (st, st b k)"

definition spec_put :: "kv_view \<Rightarrow> string \<Rightarrow> string \<Rightarrow> bytes \<Rightarrow> kv_view \<times> sandbox_error option" where
  "spec_put st b k v = (st(b := (st b)(k := (if IsDelFlag v then Inl ErrHasDel else Inr v))), None)"

context kv_store
begin

lemma exec_refines:
  assumes "plain_bucket (op_bucket p)" and "\<And>b k. plain_bucket b \<Longrightarrow> look s b k = st b k"
  shows "snd (kv_exec get put s p) = snd (kv_exec spec_get spec_put st p) \<and>
         (\<forall>b k. plain_bucket b \<longrightarrow>
            look (fst (kv_exec get put s p)) b k = fst (kv_exec spec_get spec_put st p) b k)"
  using assms
  by (cases p) (auto simp: case_prod_beta get_returns get_keeps put_succeeds put_updates spec_get_def spec_put_def)

lemma run_refines:
  assumes "\<forall>p \<in> set ps. plain_bucket (op_bucket p)" and "\<And>b k. plain_bucket b \<Longrightarrow> look s b k = st b k"
  shows "snd (kv_run get put s ps) = snd (kv_run spec_get spec_put st ps) \<and>
         (\<forall>b k. plain_bucket b \<longrightarrow>
            look (fst (kv_run get put s ps)) b k = fst (kv_run spec_get spec_put st ps) b k)"
  using assms
proof (induction ps arbitrary: s st)
  case (Cons p ps)
  have p: "plain_bucket (op_bucket p)" using Cons.prems(1) by simp
  note one = exec_refines [OF p Cons.prems(2)]
  have "snd (kv_run get put (fst (kv_exec get put s p)) ps) =
          snd (kv_run spec_get spec_put (fst (kv_exec spec_get spec_put st p)) ps) \<and>
        (\<forall>b k. plain_bucket b \<longrightarrow> look (fst (kv_run get put (fst (kv_exec get put s p)) ps)) b k =
          fst (kv_run spec_get spec_put (fst (kv_exec spec_get spec_put st p)) ps) b k)"
    using Cons.prems(1) one by (intro Cons.IH) auto
  then show ?case using one by (simp add: case_prod_beta)
qed simp

end

subsection \<open>The cache implements it\<close>

definition XM_look :: "'t tree_ops \<Rightarrow> x_reader \<Rightarrow> ('t, 'r, 'e) xm_cache \<Rightarrow> string \<Rightarrow> string \<Rightarrow> sandbox_error + bytes" where
  "XM_look T M xc b k = snd (XM_Get T M xc b (Some k))"

abbreviation XM_get :: "'t tree_ops \<Rightarrow> x_reader \<Rightarrow> ('t, 'r, 'e) xm_cache \<Rightarrow> string \<Rightarrow> string
    \<Rightarrow> ('t, 'r, 'e) xm_cache \<times> (sandbox_error + bytes)" where
  "XM_get T M xc b k \<equiv> XM_Get T M xc b (Some k)"

abbreviation XM_put :: "'t tree_ops \<Rightarrow> x_reader \<Rightarrow> ('t, 'r, 'e) xm_cache \<Rightarrow> string \<Rightarrow> string \<Rightarrow> bytes
    \<Rightarrow> ('t, 'r, 'e) xm_cache \<times> sandbox_error option" where
  "XM_put T M xc b k v \<equiv> XM_Put T M xc b (Some k) v"

lemma getFromOuputsCache_errors:
  "getFromOuputsCache T xc b k = Inl e \<Longrightarrow> e = ErrNotFound \<or> e = ErrHasDel"
  by (auto simp: getFromOuputsCache_def Mem_Get_def split: option.splits if_splits)

lemma XM_Put_unfold:
  "XM_Put T M xc b k v =
     (let xc1 = (if b \<noteq> TransientBucket then fst (XM_Get T M xc b k) else xc)
      in (xc1\<lparr>outputsCache := Mem_Put T (outputsCache xc1) b k
            \<lparr>RefTxid = None, RefOffset = 0, PureData = \<lparr>Bucket = b, Key = k, Value = v\<rparr>\<rparr>\<rparr>, None))"
  using getFromOuputsCache_errors [of T xc b k] by (auto simp: XM_Put_def Let_def)

lemma XM_Get_outputs [simp]: "outputsCache (fst (XM_Get T M xc b k)) = outputsCache xc"
  by (auto simp: XM_Get_def getAndSetFromInputsCache_def split: sum.split)

text \<open>The version of a key: from the inputs cache, or from the reader.\<close>

definition version ::
    "'t tree_ops \<Rightarrow> x_reader \<Rightarrow> ('t, 'r, 'e) xm_cache \<Rightarrow> string \<Rightarrow> bytes \<Rightarrow> sandbox_error + versioned_data" where
  "version T M xc b k =
     (case Mem_Get T (inputsCache xc) b k of Inr data \<Rightarrow> Inr data | Inl _ \<Rightarrow> xr_Get M b k)"

lemma version_outputs: "version T M (xc\<lparr>outputsCache := m\<rparr>) b k = version T M xc b k"
  by (simp add: version_def)

lemma Mem_Get_error: "Mem_Get T m b k = Inl e \<Longrightarrow> e = ErrNotFound"
  by (simp add: Mem_Get_def split: option.splits)

lemma getAndSet_version: "snd (getAndSetFromInputsCache T M xc b k) = version T M xc b k"
  by (auto simp: getAndSetFromInputsCache_def version_def dest: Mem_Get_error split: sum.split)

definition visible_of :: "sandbox_error + versioned_data \<Rightarrow> sandbox_error + versioned_data \<Rightarrow> sandbox_error + bytes" where
  "visible_of out ver =
     (case out of
        Inr data \<Rightarrow> Inr (Value (PureData data))
      | Inl err \<Rightarrow>
          if err \<noteq> ErrNotFound then Inl err
          else (case ver of
                  Inl err \<Rightarrow> Inl err
                | Inr verData \<Rightarrow>
                    if IsEmptyVersionedData verData then Inl ErrNotFound
                    else if IsDelFlag (Value (PureData verData)) then Inl ErrHasDel
                    else Inr (Value (PureData verData))))"

lemma XM_Get_value: "snd (XM_Get T M xc b k) = visible_of (getFromOuputsCache T xc b k) (version T M xc b k)"
  by (auto simp: XM_Get_def visible_of_def getAndSet_version [symmetric] split: sum.split prod.split)

lemma getFromOuputsCache_cong:
  "outputsCache xc = outputsCache xc' \<Longrightarrow> getFromOuputsCache T xc b k = getFromOuputsCache T xc' b k"
  by (simp add: getFromOuputsCache_def)

lemma XM_Get_fst:
  "fst (XM_Get T M xc b k) =
     (if getFromOuputsCache T xc b k = Inl ErrNotFound then fst (getAndSetFromInputsCache T M xc b k) else xc)"
  by (auto simp: XM_Get_def split: sum.split prod.split)

lemma XM_Get_state:
  obtains (same) "fst (XM_Get T M xc b k) = xc"
  | (fetched) data where
      "Mem_Get T (inputsCache xc) b k = Inl ErrNotFound" "xr_Get M b k = Inr data"
      "fst (XM_Get T M xc b k) = xc\<lparr>inputsCache := Mem_Put T (inputsCache xc) b k data\<rparr>"
proof -
  have "fst (XM_Get T M xc b k) = xc \<or>
    (\<exists>data. Mem_Get T (inputsCache xc) b k = Inl ErrNotFound \<and> xr_Get M b k = Inr data \<and>
       fst (XM_Get T M xc b k) = xc\<lparr>inputsCache := Mem_Put T (inputsCache xc) b k data\<rparr>)"
    by (auto simp: XM_Get_fst getAndSetFromInputsCache_def split: sum.split)
  then show thesis using that by blast
qed

context ordered_tree
begin

lemma version_get:
  assumes "plain_bucket b" and "plain_bucket b'"
  shows "version T M (fst (XM_Get T M xc b (Some k))) b' (Some k') = version T M xc b' (Some k')"
  by (cases rule: XM_Get_state [of T M xc b "Some k"])
    (auto simp: version_def makeRawKey_inject [OF assms] split: sum.split)

lemma look_get:
  assumes "plain_bucket b" and "plain_bucket b'"
  shows "XM_look T M (fst (XM_Get T M xc b (Some k))) b' k' = XM_look T M xc b' k'"
  using version_get [OF assms, of M xc k k']
  by (simp add: XM_look_def XM_Get_value getFromOuputsCache_cong [OF XM_Get_outputs])

lemma getFromOuputsCache_put:
  "getFromOuputsCache T (xc\<lparr>outputsCache := Mem_Put T (outputsCache xc) b k d\<rparr>) b' k' =
     (if makeRawKey b' k' = makeRawKey b k
      then (if IsDelFlag (Value (PureData d)) then Inl ErrHasDel else Inr d)
      else getFromOuputsCache T xc b' k')"
  by (simp add: getFromOuputsCache_def)

lemma look_put:
  assumes "plain_bucket b" and "plain_bucket b'"
  shows "XM_look T M (fst (XM_Put T M xc b (Some k) v)) b' k' =
    (if b' = b \<and> k' = k then (if IsDelFlag v then Inl ErrHasDel else Inr v) else XM_look T M xc b' k')"
  using version_get [OF assms, of M xc k k']
  by (simp add: XM_look_def XM_Get_value XM_Put_unfold Let_def getFromOuputsCache_put version_outputs
      getFromOuputsCache_cong [OF XM_Get_outputs] makeRawKey_inject [OF assms] visible_of_def [of "Inl ErrHasDel"]
      visible_of_def [of "Inr _"])

lemma put_ok: "snd (XM_Put T M xc b k v) = None"
  by (simp add: XM_Put_unfold Let_def)

end

sublocale ordered_tree \<subseteq> kv: kv_store "XM_get T M" "XM_put T M" "XM_look T M" for M
  by unfold_locales (simp_all add: look_get look_put put_ok, simp add: XM_look_def)

context ordered_tree
begin

lemma cache_refines:
  assumes "\<forall>p \<in> set ps. plain_bucket (op_bucket p)"
  shows "snd (kv_run (XM_get T M) (XM_put T M) xc ps) = snd (kv_run spec_get spec_put (XM_look T M xc) ps)"
  using kv.run_refines [OF assms, of M xc "XM_look T M xc"] by blast

lemma cache_refines_view:
  assumes "\<forall>p \<in> set ps. plain_bucket (op_bucket p)" and "plain_bucket b"
  shows "XM_look T M (fst (kv_run (XM_get T M) (XM_put T M) xc ps)) b k =
         fst (kv_run spec_get spec_put (XM_look T M xc) ps) b k"
  using kv.run_refines [OF assms(1), of M xc "XM_look T M xc"] assms(2) by blast

end

section \<open>Replaying a read set\<close>

lemma map_of_rev_distinct: "distinct (map fst xs) \<Longrightarrow> map_of (rev xs) = map_of xs"
  by (subst map_of_inject_set) (simp_all add: rev_map [symmetric])

text \<open>
  What is relied on of the ledger's reader: it answers for every key, with data that carry the
  bucket and the key asked for; a key that does not exist has an empty version.
\<close>

definition faithful :: "x_reader \<Rightarrow> bool" where
  "faithful M \<longleftrightarrow>
     (\<forall>b k. \<exists>d. xr_Get M b k = Inr d \<and> Bucket (PureData d) = b \<and> bytes_Equal (Key (PureData d)) k)"

definition raw_of :: "versioned_data \<Rightarrow> string" where
  "raw_of d = makeRawKey (Bucket (PureData d)) (Key (PureData d))"

lemma faithful_raw: "faithful M \<Longrightarrow> xr_Get M b k = Inr d \<Longrightarrow> raw_of d = makeRawKey b k"
  unfolding faithful_def raw_of_def makeRawKey_def bytes_Equal_def by (metis sum.inject(2))

text \<open>A reader that answers like the inputs cache, and inputs caches that store data under its own key.\<close>

definition covers :: "'t tree_ops \<Rightarrow> x_reader \<Rightarrow> ('t, 'r, 'e) xm_cache \<Rightarrow> bool" where
  "covers T M xc \<longleftrightarrow> (\<forall>b k d. Mem_Get T (inputsCache xc) b k = Inr d \<longrightarrow> xr_Get M b k = Inr d)"

definition labelled :: "'t tree_ops \<Rightarrow> ('t, 'r, 'e) xm_cache \<Rightarrow> bool" where
  "labelled T xc \<longleftrightarrow> (\<forall>raw d. tree_Get T (inputsCache xc) raw = Some d \<longrightarrow> raw_of d = raw)"

definition inputs_le :: "'t tree_ops \<Rightarrow> ('t, 'r, 'e) xm_cache \<Rightarrow> ('t, 'r, 'e) xm_cache \<Rightarrow> bool" where
  "inputs_le T xc xc' \<longleftrightarrow>
     (\<forall>raw d. tree_Get T (inputsCache xc) raw = Some d \<longrightarrow> tree_Get T (inputsCache xc') raw = Some d)"

lemma covers_anti: "inputs_le T xc xc' \<Longrightarrow> covers T M xc' \<Longrightarrow> covers T M xc"
  by (auto simp: covers_def inputs_le_def Mem_Get_def split: option.splits)

lemma inputs_le_trans: "inputs_le T a b \<Longrightarrow> inputs_le T b c \<Longrightarrow> inputs_le T a c"
  by (simp add: inputs_le_def)

lemma inputs_le_refl [simp]: "inputs_le T a a"
  by (simp add: inputs_le_def)

lemma inputs_le_outputs [simp]: "inputs_le T a (b\<lparr>outputsCache := m\<rparr>) = inputs_le T a b"
  by (simp add: inputs_le_def)

lemma labelled_outputs [simp]: "labelled T (a\<lparr>outputsCache := m\<rparr>) = labelled T a"
  by (simp add: labelled_def)

lemma covers_outputs [simp]: "covers T M (a\<lparr>outputsCache := m\<rparr>) = covers T M a"
  by (simp add: covers_def)

context ordered_tree
begin

lemma inputs_le_get: "inputs_le T xc (fst (XM_Get T M xc b k))"
  by (cases rule: XM_Get_state [of T M xc b k])
    (auto simp: inputs_le_def Mem_Put_def Mem_Get_def split: option.splits)

lemma labelled_get: "faithful M \<Longrightarrow> labelled T xc \<Longrightarrow> labelled T (fst (XM_Get T M xc b k))"
  by (cases rule: XM_Get_state [of T M xc b k])
    (auto simp: labelled_def Mem_Put_def faithful_raw)

lemma get_replay:
  assumes "faithful M" and "covers T M' (fst (XM_Get T M xc b k))"
  shows "XM_Get T M' xc b k = XM_Get T M xc b k"
proof (cases "getFromOuputsCache T xc b k = Inl ErrNotFound \<and> Mem_Get T (inputsCache xc) b k = Inl ErrNotFound")
  case True
  obtain d where d: "xr_Get M b k = Inr d" using assms(1) by (auto simp: faithful_def)
  have "Mem_Get T (inputsCache (fst (XM_Get T M xc b k))) b k = Inr d"
    using True d by (simp add: XM_Get_fst getAndSetFromInputsCache_def)
  then have "xr_Get M' b k = Inr d" using assms(2) by (simp add: covers_def)
  with True d show ?thesis by (simp add: XM_Get_def getAndSetFromInputsCache_def)
next
  case False
  then have "getAndSetFromInputsCache T M' xc b k = getAndSetFromInputsCache T M xc b k"
    if "getFromOuputsCache T xc b k = Inl ErrNotFound"
    using that Mem_Get_error [of T "inputsCache xc" b k]
    by (cases "Mem_Get T (inputsCache xc) b k") (auto simp: getAndSetFromInputsCache_def)
  then show ?thesis by (auto simp: XM_Get_def split: sum.split)
qed

lemma put_replay:
  assumes "faithful M" and "covers T M' (fst (XM_Put T M xc b k v))"
  shows "XM_Put T M' xc b k v = XM_Put T M xc b k v"
  using assms get_replay [of M M' xc b k] by (auto simp: XM_Put_unfold Let_def)

lemma put_inputs:
  "inputs_le T xc (fst (XM_Put T M xc b k v))"
  "faithful M \<Longrightarrow> labelled T xc \<Longrightarrow> labelled T (fst (XM_Put T M xc b k v))"
  using inputs_le_get [of xc M b k] labelled_get [of M xc b k] by (auto simp: XM_Put_unfold Let_def)

lemma exec_replay:
  assumes "faithful M" and "covers T M' (fst (kv_exec (XM_get T M) (XM_put T M) xc p))"
  shows "kv_exec (XM_get T M') (XM_put T M') xc p = kv_exec (XM_get T M) (XM_put T M) xc p"
proof (cases p)
  case (KGet b k)
  then show ?thesis using assms get_replay [of M M' xc b "Some k"] by (simp add: case_prod_beta)
next
  case (KPut b k v)
  then show ?thesis using assms put_replay [of M M' xc b "Some k" v] by (simp add: case_prod_beta)
next
  case (KDel b k)
  then show ?thesis using assms put_replay [of M M' xc b "Some k" "Some DelFlag"] by (simp add: case_prod_beta)
qed

lemma exec_inputs:
  "inputs_le T xc (fst (kv_exec (XM_get T M) (XM_put T M) xc p))"
  "faithful M \<Longrightarrow> labelled T xc \<Longrightarrow> labelled T (fst (kv_exec (XM_get T M) (XM_put T M) xc p))"
  by (cases p; simp add: case_prod_beta inputs_le_get put_inputs labelled_get)+

lemma run_inputs:
  "inputs_le T xc (fst (kv_run (XM_get T M) (XM_put T M) xc ps))"
  "faithful M \<Longrightarrow> labelled T xc \<Longrightarrow> labelled T (fst (kv_run (XM_get T M) (XM_put T M) xc ps))"
  by (induction ps arbitrary: xc)
    (auto simp: case_prod_beta intro: exec_inputs inputs_le_trans [OF exec_inputs(1)])

lemma run_replay:
  assumes "faithful M" and "covers T M' (fst (kv_run (XM_get T M) (XM_put T M) xc ps))"
  shows "kv_run (XM_get T M') (XM_put T M') xc ps = kv_run (XM_get T M) (XM_put T M) xc ps"
  using assms(2)
proof (induction ps arbitrary: xc)
  case (Cons p ps)
  let ?xc1 = "fst (kv_exec (XM_get T M) (XM_put T M) xc p)"
  have rest: "covers T M' (fst (kv_run (XM_get T M) (XM_put T M) ?xc1 ps))"
    using Cons.prems by (simp add: case_prod_beta)
  have "kv_exec (XM_get T M') (XM_put T M') xc p = kv_exec (XM_get T M) (XM_put T M) xc p"
    by (rule exec_replay [OF assms(1) covers_anti [OF run_inputs(1) rest]])
  then show ?case using Cons.IH [OF rest] by (simp add: case_prod_beta)
qed simp

lemma get_putAll:
  "tree_Get T (putAll T m vs) raw =
     (case map_of (rev (map (\<lambda>d. (raw_of d, d)) vs)) raw of None \<Rightarrow> tree_Get T m raw | Some d \<Rightarrow> Some d)"
  by (induction vs arbitrary: m)
    (auto simp: Mem_Put_def raw_of_def map_add_def split: option.split)

lemma covers_rset:
  assumes "labelled T xc"
  shows "covers T (XMReaderFromRWSet T (RSet T xc)) xc"
proof -
  let ?walk = "tree_Walk T (inputsCache xc) None"
  have "map (\<lambda>d. (raw_of d, d)) (map snd ?walk) = ?walk"
    using assms walk_get [of _ _ "inputsCache xc"]
    by (auto simp: labelled_def intro!: map_idI)
  then have "tree_Get T (putAll T (tree_New T) (map snd ?walk)) raw = tree_Get T (inputsCache xc) raw" for raw
    using walk_distinct [of "inputsCache xc"]
    by (simp only: get_putAll) (simp add: map_of_rev_distinct get_walk walk_New split: option.split)
  then show ?thesis
    by (simp add: covers_def XMReaderFromRWSet_def RSet_def newTreeIterator_def Mem_Get_def Let_def)
qed

lemma labelled_New: "labelled T (NewXModelCache T u)"
  by (simp add: labelled_def NewXModelCache_def)

lemma rset_replays:
  assumes "faithful M" and "labelled T xc0" and "kv_run (XM_get T M) (XM_put T M) xc0 ps = (xc, rs)"
  shows "kv_run (XM_get T (XMReaderFromRWSet T (RSet T xc))) (XM_put T (XMReaderFromRWSet T (RSet T xc)))
           xc0 ps = (xc, rs)"
proof -
  have "labelled T xc" using run_inputs(2) [OF assms(1,2), of ps] assms(3) by simp
  then have "covers T (XMReaderFromRWSet T (RSet T xc)) (fst (kv_run (XM_get T M) (XM_put T M) xc0 ps))"
    using covers_rset assms(3) by simp
  from run_replay [OF assms(1) this] show ?thesis using assms(3) by simp
qed

end

section \<open>The write set\<close>

text \<open>The value a sequence of operations leaves for a key, if it writes it.\<close>

fun last_write :: "kv_op list \<Rightarrow> string \<Rightarrow> string \<Rightarrow> bytes option" where
  "last_write [] b k = None"
| "last_write (KGet b' k' # ps) b k = last_write ps b k"
| "last_write (KPut b' k' v # ps) b k =
     (case last_write ps b k of Some w \<Rightarrow> Some w | None \<Rightarrow> if b' = b \<and> k' = k then Some v else None)"
| "last_write (KDel b' k' # ps) b k =
     (case last_write ps b k of
        Some w \<Rightarrow> Some w | None \<Rightarrow> if b' = b \<and> k' = k then Some (Some DelFlag) else None)"

abbreviation written :: "string \<Rightarrow> string \<Rightarrow> bytes \<Rightarrow> versioned_data" where
  "written b k v \<equiv> \<lparr>RefTxid = None, RefOffset = 0, PureData = \<lparr>Bucket = b, Key = Some k, Value = v\<rparr>\<rparr>"

text \<open>Every entry of the outputs cache is such a write, stored under its own raw key.\<close>

definition outputs_ok :: "'t tree_ops \<Rightarrow> ('t, 'r, 'e) xm_cache \<Rightarrow> bool" where
  "outputs_ok T xc \<longleftrightarrow>
     (\<forall>raw d. tree_Get T (outputsCache xc) raw = Some d \<longrightarrow>
        (\<exists>b k v. plain_bucket b \<and> raw = makeRawKey b (Some k) \<and> d = written b k v))"

context ordered_tree
begin

lemma XM_Put_outputs [simp]:
  "outputsCache (fst (XM_Put T M xc b (Some k) v)) = tree_Put T (outputsCache xc) (makeRawKey b (Some k)) (written b k v)"
  by (simp add: XM_Put_unfold Let_def Mem_Put_def)

lemma exec_outputs_ok:
  "outputs_ok T xc \<Longrightarrow> plain_bucket (op_bucket p) \<Longrightarrow>
     outputs_ok T (fst (kv_exec (XM_get T M) (XM_put T M) xc p))"
  by (cases p) (auto simp: outputs_ok_def case_prod_beta)

lemma run_outputs:
  assumes "\<forall>p \<in> set ps. plain_bucket (op_bucket p)" and "plain_bucket b"
  shows "tree_Get T (outputsCache (fst (kv_run (XM_get T M) (XM_put T M) xc ps))) (makeRawKey b (Some k)) =
    (case last_write ps b k of
       Some v \<Rightarrow> Some (written b k v)
     | None \<Rightarrow> tree_Get T (outputsCache xc) (makeRawKey b (Some k)))"
  using assms(1)
proof (induction ps arbitrary: xc)
  case (Cons p ps)
  have "tree_Get T (outputsCache (fst (kv_exec (XM_get T M) (XM_put T M) xc p))) (makeRawKey b (Some k)) =
     (case last_write [p] b k of
        Some v \<Rightarrow> Some (written b k v) | None \<Rightarrow> tree_Get T (outputsCache xc) (makeRawKey b (Some k)))"
    using Cons.prems assms(2) by (cases p) (auto simp: case_prod_beta makeRawKey_inject)
  then show ?case
    using Cons by (cases p) (auto simp: case_prod_beta split: option.splits)
qed simp

lemma run_outputs_ok:
  "outputs_ok T xc \<Longrightarrow> \<forall>p \<in> set ps. plain_bucket (op_bucket p) \<Longrightarrow>
     outputs_ok T (fst (kv_run (XM_get T M) (XM_put T M) xc ps))"
  by (induction ps arbitrary: xc) (auto simp: case_prod_beta exec_outputs_ok)

lemma WSet_entries: "set (WSet T xc) = {PureData d | raw d. tree_Get T (outputsCache xc) raw = Some d}"
  by (auto simp: WSet_def newTreeIterator_def walk_get [symmetric] image_def) force+

lemma outputs_okE:
  assumes "outputs_ok T xc" and "tree_Get T (outputsCache xc) raw = Some d"
  obtains b k v where "plain_bucket b" "raw = makeRawKey b (Some k)" "d = written b k v"
  using assms unfolding outputs_ok_def by blast

lemma WSet_last_writes:
  assumes "\<forall>p \<in> set ps. plain_bucket (op_bucket p)" and "outputsCache xc0 = tree_New T"
    and "fst (kv_run (XM_get T M) (XM_put T M) xc0 ps) = xc"
  shows "set (WSet T xc) =
    {\<lparr>Bucket = b, Key = Some k, Value = v\<rparr> | b k v. plain_bucket b \<and> last_write ps b k = Some v}"
proof -
  have ok: "outputs_ok T xc"
    using run_outputs_ok [of xc0 ps M] assms by (simp add: outputs_ok_def)
  have get: "tree_Get T (outputsCache xc) (makeRawKey b (Some k)) = map_option (written b k) (last_write ps b k)"
    if "plain_bucket b" for b k
    using run_outputs [OF assms(1) that, of M xc0 k] assms(2,3) by (simp split: option.split)
  show ?thesis
  proof (intro equalityI subsetI)
    fix x assume "x \<in> set (WSet T xc)"
    then obtain raw d where "x = PureData d" and d: "tree_Get T (outputsCache xc) raw = Some d"
      by (auto simp: WSet_entries)
    moreover obtain b k v where "plain_bucket b" "raw = makeRawKey b (Some k)" "d = written b k v"
      by (rule outputs_okE [OF ok d])
    ultimately show "x \<in> {\<lparr>Bucket = b, Key = Some k, Value = v\<rparr> | b k v. plain_bucket b \<and> last_write ps b k = Some v}"
      using get [of b k] by auto
  next
    fix x
    assume "x \<in> {\<lparr>Bucket = b, Key = Some k, Value = v\<rparr> | b k v. plain_bucket b \<and> last_write ps b k = Some v}"
    then obtain b k v where x: "x = PureData (written b k v)" and "plain_bucket b" "last_write ps b k = Some v"
      by auto
    then have "tree_Get T (outputsCache xc) (makeRawKey b (Some k)) = Some (written b k v)"
      using get by simp
    then show "x \<in> set (WSet T xc)" unfolding WSet_entries x by blast
  qed
qed

lemma WSet_distinct:
  assumes "outputs_ok T xc"
  shows "distinct (WSet T xc)"
proof -
  have "inj_on (\<lambda>e. PureData (snd e)) (set (tree_Walk T (outputsCache xc) None))"
  proof (rule inj_onI, clarify)
    fix r d r' d'
    assume "(r, d) \<in> set (tree_Walk T (outputsCache xc) None)" "(r', d') \<in> set (tree_Walk T (outputsCache xc) None)"
      and eq: "PureData (snd (r, d)) = PureData (snd (r', d'))"
    then have d: "tree_Get T (outputsCache xc) r = Some d" and d': "tree_Get T (outputsCache xc) r' = Some d'"
      by (simp_all add: walk_get)
    obtain b k v where 1: "r = makeRawKey b (Some k)" "d = written b k v" by (rule outputs_okE [OF assms d])
    obtain b' k' v' where "r' = makeRawKey b' (Some k')" "d' = written b' k' v'" by (rule outputs_okE [OF assms d'])
    with 1 eq show "r = r' \<and> d = d'" by simp
  qed
  moreover have "distinct (tree_Walk T (outputsCache xc) None)"
    using walk_distinct [of "outputsCache xc"] by (simp add: distinct_map)
  ultimately show ?thesis by (simp add: WSet_def newTreeIterator_def distinct_map comp_def)
qed

end

context ordered_tree
begin

lemma WSet_exact:
  assumes "\<forall>p \<in> set ps. plain_bucket (op_bucket p)" and "outputsCache xc0 = tree_New T"
    and "kv_run (XM_get T M) (XM_put T M) xc0 ps = (xc, rs)"
  shows "distinct (WSet T xc) \<and>
    set (WSet T xc) = {\<lparr>Bucket = b, Key = Some k, Value = v\<rparr> | b k v. plain_bucket b \<and> last_write ps b k = Some v}"
proof
  have "outputs_ok T xc0" using assms(2) by (simp add: outputs_ok_def)
  then have "outputs_ok T xc" using run_outputs_ok [of xc0 ps M] assms(1,3) by simp
  then show "distinct (WSet T xc)" by (rule WSet_distinct)
  show "set (WSet T xc) = {\<lparr>Bucket = b, Key = Some k, Value = v\<rparr> | b k v. plain_bucket b \<and> last_write ps b k = Some v}"
    using assms(3) by (intro WSet_last_writes [OF assms(1,2), of M]) simp
qed

end

section \<open>Merging iterators\<close>

text \<open>Iterators over keys that are not \<open>nil\<close>, in ascending order.\<close>

definition ascending :: "(bytes \<times> 'v) list \<Rightarrow> bool" where
  "ascending xs \<longleftrightarrow> sorted_wrt (<) (map (elems \<circ> fst) xs) \<and> (\<forall>x \<in> set xs. fst x \<noteq> None)"

lemma ascending_Cons:
  "ascending (x # xs) \<longleftrightarrow> ascending xs \<and> fst x \<noteq> None \<and> (\<forall>y \<in> set xs. elems (fst x) < elems (fst y))"
  by (auto simp: ascending_def)

lemma ascending_Nil [simp]: "ascending []"
  by (simp add: ascending_def)

lemma compareBytes_cases:
  assumes "a \<noteq> None" and "b \<noteq> None"
  shows "compareBytes a b = 0 \<longleftrightarrow> a = b" and "compareBytes a b = -1 \<longleftrightarrow> elems a < elems b"
  using assms by (auto simp: compareBytes_def)

lemma multiIterator_keys: "z \<in> set (multiIterator f g) \<Longrightarrow> z \<in> set f \<union> set g"
  by (induction f g rule: multiIterator.induct) (auto split: if_splits)

lemma multiIterator_merges:
  assumes "ascending f" and "ascending g"
  shows "ascending (multiIterator f g) \<and> map_of (multiIterator f g) = map_of g ++ map_of f"
  using assms
proof (induction f g rule: multiIterator.induct)
  case (3 x f y g)
  obtain k a l b where xy: "x = (Some k, a)" "y = (Some l, b)"
    using "3.prems" by (cases x; cases y) (auto simp: ascending_Cons)
  have asc: "ascending f" "ascending g" "\<forall>z \<in> set f. k < elems (fst z)" "\<forall>z \<in> set g. l < elems (fst z)"
    using "3.prems" by (auto simp: ascending_Cons xy)
  have cmp: "compareBytes (Some k) (Some l) = (if k < l then -1 else if k = l then 0 else 1)"
    by (simp add: compareBytes_def)
  consider (eq) "k = l" | (lt) "k < l" | (gt) "l < k" using less_linear by blast
  then show ?case
  proof cases
    case eq
    then have "ascending (multiIterator f g) \<and> map_of (multiIterator f g) = map_of g ++ map_of f"
      using "3.IH"(1) asc cmp by (simp add: xy)
    then show ?thesis
      using eq cmp asc by (auto simp: xy ascending_Cons map_add_def fun_eq_iff dest!: multiIterator_keys)
  next
    case lt
    then have "ascending (multiIterator f (y # g)) \<and> map_of (multiIterator f (y # g)) = map_of (y # g) ++ map_of f"
      using "3.prems" asc cmp by (intro "3.IH"(2)) (auto simp: xy)
    moreover have "\<forall>z \<in> set (multiIterator f (y # g)). k < elems (fst z)"
      using asc lt by (auto simp: xy dest!: multiIterator_keys intro: less_trans)
    ultimately show ?thesis
      using lt cmp by (auto simp: xy ascending_Cons map_add_def split: option.split intro!: ext)
  next
    case gt
    then have "ascending (multiIterator (x # f) g) \<and> map_of (multiIterator (x # f) g) = map_of g ++ map_of (x # f)"
      using "3.prems" asc cmp by (intro "3.IH"(3)) (auto simp: xy)
    moreover have "\<forall>z \<in> set (multiIterator (x # f) g). l < elems (fst z)"
      using asc gt by (auto simp: xy dest!: multiIterator_keys intro: less_trans)
    moreover have "map_of f (Some l) = None"
      using asc(3) gt by (fastforce simp: map_of_eq_None_iff)
    ultimately show ?thesis
      using gt cmp by (auto simp: xy ascending_Cons map_add_def split: option.split intro!: ext)
  qed
qed (auto simp: ascending_def)

section \<open>Conservation of tokens\<close>

text \<open>What a source of tokens promises: its total is the sum of the inputs it hands out.\<close>

locale utxo_source =
  fixes sel :: "'r select_utxo"
  assumes sel_total: "sel r sender amount = (r', Inr (inputs, t)) \<Longrightarrow>
      t = int (sum_list (map in_Amount inputs)) \<and> amount \<le> t"

definition balanced :: "'r utxo_sandbox \<Rightarrow> bool" where
  "balanced u \<longleftrightarrow> sum_list (map in_Amount (us_inputCache u)) = sum_list (map out_Amount (us_outputCache u))"

fun transfers :: "'r select_utxo \<Rightarrow> 'r utxo_sandbox \<Rightarrow> (string \<times> string \<times> int) list \<Rightarrow> 'r utxo_sandbox" where
  "transfers sel u [] = u"
| "transfers sel u ((sender, receiver, amount) # ts) =
     transfers sel (fst (UTXO_Transfer sel u sender receiver amount)) ts"

context utxo_source
begin

lemma balanced_Transfer:
  assumes "balanced u" and "0 < amount"
  shows "balanced (fst (UTXO_Transfer sel u sender receiver amount))"
proof (cases "sel (utxoReader u) sender amount")
  case (Pair r res)
  show ?thesis
  proof (cases res)
    case (Inl e)
    then show ?thesis using assms Pair by (simp add: UTXO_Transfer_def balanced_def)
  next
    case (Inr p)
    then obtain inputs t where sel: "sel (utxoReader u) sender amount = (r, Inr (inputs, t))"
      using Pair by (cases p) simp
    have "t = int (sum_list (map in_Amount inputs))" "amount \<le> t"
      using sel_total [OF sel] by auto
    then show ?thesis using assms sel by (simp add: UTXO_Transfer_def balanced_def) linarith
  qed
qed

lemma balanced_transfers:
  "balanced u \<Longrightarrow> \<forall>(sender, receiver, amount) \<in> set ts. 0 < amount \<Longrightarrow> balanced (transfers sel u ts)"
  by (induction ts arbitrary: u) (auto simp: balanced_Transfer)

end

lemma selectLoop_total:
  "selectLoop sender amount cache n s = Some (n', s') \<Longrightarrow>
     n \<le> n' \<and> s' = s + int (sum_list (map in_Amount (take (n' - n) cache)))"
proof (induction sender amount cache n s rule: selectLoop.induct)
  case (2 sender amount i rest n s)
  show ?case
  proof (cases "s + int (in_Amount i) \<ge> amount")
    case True
    then show ?thesis using 2 by (auto split: if_splits)
  next
    case False
    then have "n + 1 \<le> n' \<and> s' = s + int (in_Amount i) + int (sum_list (map in_Amount (take (n' - (n + 1)) rest)))"
      using 2 by (auto split: if_splits)
    moreover from this have "n' - n = Suc (n' - (n + 1))" by linarith
    ultimately show ?thesis by simp
  qed
qed simp

interpretation replay_utxo: utxo_source UTXOReader_SelectUtxo
  by unfold_locales
    (auto simp: UTXOReader_SelectUtxo_def Let_def split: option.splits if_splits dest: selectLoop_total)

section \<open>Sample state\<close>

text \<open>A ledger in which the bucket \<open>acc\<close> holds \<open>k1\<close> and \<open>k2\<close>.\<close>

definition demo_entry :: "string \<Rightarrow> string \<Rightarrow> string \<Rightarrow> versioned_data" where
  "demo_entry b k v = \<lparr>RefTxid = Some ''t'', RefOffset = 0, PureData = \<lparr>Bucket = b, Key = Some k, Value = Some v\<rparr>\<rparr>"

definition demo_reader :: x_reader where
  "demo_reader =
     \<lparr>xr_Get = (\<lambda>b k.
        if b = ''acc'' \<and> elems k = ''k1'' then Inr (demo_entry ''acc'' ''k1'' ''v1'')
        else if b = ''acc'' \<and> elems k = ''k2'' then Inr (demo_entry ''acc'' ''k2'' ''v2'')
        else Inr \<lparr>RefTxid = None, RefOffset = 0, PureData = \<lparr>Bucket = b, Key = k, Value = None\<rparr>\<rparr>),
      xr_Select = (\<lambda>b s e. if b = ''acc'' then Inr [demo_entry ''acc'' ''k1'' ''v1'', demo_entry ''acc'' ''k2'' ''v2'']
                           else Inr [])\<rparr>"

definition demo_ops :: "kv_op list" where
  "demo_ops = [KGet ''acc'' ''k1'', KPut ''acc'' ''k1'' (Some ''w''), KDel ''acc'' ''k2'', KGet ''acc'' ''k2'', KGet ''acc'' ''k3'']"

type_synonym demo_cache_type = "((string, versioned_data) rbt, utxo_reader, string) xm_cache"

definition demo_cache :: demo_cache_type where
  "demo_cache = NewXModelCache rbt_ops (NewUTXOReaderFromInput [])"

lemma demo_faithful: "faithful demo_reader"
  by (auto simp: faithful_def demo_reader_def demo_entry_def bytes_Equal_def)

lemma demo_ops_plain: "\<forall>p \<in> set demo_ops. plain_bucket (op_bucket p)"
  by (simp add: demo_ops_def plain_bucket_def)

section \<open>Properties\<close>

text \<open>
  C22. The cache refines a plain key-value state: every sequence of reads, writes and deletions
  on it returns what the same sequence returns on the state that was visible at the start. The
  buckets must not contain the separator.
\<close>

theorem sandbox_refines_kv_state:
  assumes "ordered_tree T" and "\<forall>p \<in> set ps. plain_bucket (op_bucket p)"
  shows "snd (kv_run (XM_get T M) (XM_put T M) xc ps) = snd (kv_run spec_get spec_put (XM_look T M xc) ps)"
  using assms by (rule ordered_tree.cache_refines)

theorem sandbox_refines_kv_state_witness:
  "snd (kv_run (XM_get rbt_ops demo_reader) (XM_put rbt_ops demo_reader) demo_cache demo_ops) =
   snd (kv_run spec_get spec_put (XM_look rbt_ops demo_reader demo_cache) demo_ops)"
  by (rule sandbox_refines_kv_state [OF rbt.ordered_tree_axioms demo_ops_plain])



text \<open>
  The write set of a contract run lists each key that was written exactly once, with the
  value of its last write.
\<close>

theorem write_set_last_writes:
  assumes "ordered_tree T" and "\<forall>p \<in> set ps. plain_bucket (op_bucket p)"
    and "kv_run (XM_get T M) (XM_put T M) (NewXModelCache T u) ps = (xc, rs)"
  shows "distinct (WSet T xc) \<and>
    set (WSet T xc) = {\<lparr>Bucket = b, Key = Some k, Value = v\<rparr> | b k v. plain_bucket b \<and> last_write ps b k = Some v}"
  by (rule ordered_tree.WSet_exact [OF assms(1,2) _ assms(3)]) (simp add: NewXModelCache_def)

theorem write_set_last_writes_witness:
  "set (WSet rbt_ops (fst (kv_run (XM_get rbt_ops demo_reader) (XM_put rbt_ops demo_reader) demo_cache demo_ops))) =
   {\<lparr>Bucket = b, Key = Some k, Value = v\<rparr> | b k v. plain_bucket b \<and> last_write demo_ops b k = Some v}"
  unfolding demo_cache_def
  by (rule conjunct2 [OF write_set_last_writes [OF rbt.ordered_tree_axioms demo_ops_plain surjective_pairing]])

text \<open>
  Merging two iterators in key order gives an iterator in key order that offers every key of
  either once, with the value of the front iterator where both have it.
\<close>

theorem multiIterator_front_wins:
  assumes "ascending f" and "ascending g"
  shows "ascending (multiIterator f g) \<and> map_of (multiIterator f g) = map_of g ++ map_of f"
  using assms by (rule multiIterator_merges)

theorem multiIterator_front_wins_witness:
  "map_of (multiIterator [(Some ''a'', 1 :: int), (Some ''c'', 2)] [(Some ''a'', 3), (Some ''b'', 4)]) (Some ''a'') = Some 1"
  using multiIterator_front_wins [of "[(Some ''a'', 1 :: int), (Some ''c'', 2)]" "[(Some ''a'', 3), (Some ''b'', 4)]"]
  by (auto simp: ascending_def less_char_def)

text \<open>
  C24. Transfers of positive amounts conserve tokens: with the reader that replays the inputs of
  a transaction, the outputs a sandbox has collected always amount to its inputs.
\<close>

theorem transfers_conserve_tokens:
  assumes "\<forall>(sender, receiver, amount) \<in> set ts. 0 < amount"
  shows "balanced (transfers UTXOReader_SelectUtxo (NewUTXOSandbox r) ts)"
  using assms by (intro replay_utxo.balanced_transfers) (simp_all add: balanced_def NewUTXOSandbox_def)

definition demo_inputs :: "sandbox_input list" where
  "demo_inputs = [\<lparr>in_RefTxid = Some ''t'', in_RefOffset = 0, FromAddr = ''alice'', in_Amount = 10\<rparr>]"

theorem transfers_conserve_tokens_witness:
  "balanced (transfers UTXOReader_SelectUtxo (NewUTXOSandbox (NewUTXOReaderFromInput demo_inputs))
     [(''alice'', ''bob'', 7)])"
  by (rule transfers_conserve_tokens) simp


text \<open>
  \<open>Select\<close> lists keys that are not there: a key deleted in the sandbox is listed with the
  deletion mark as its value, and a key that was only looked up and does not exist is listed
  with an empty value.
\<close>

theorem select_lists_deleted_and_missing:
  "(let xc = fst (kv_run (XM_get rbt_ops demo_reader) (XM_put rbt_ops demo_reader) demo_cache
              [KDel ''acc'' ''k1'', KGet ''acc'' ''k3''])
    in snd (XM_Select rbt_ops demo_reader xc ''acc'' None None) =
         Inr [(Some ''k1'', Some DelFlag), (Some ''k2'', Some ''v2''), (Some ''k3'', None)] \<and>
       XM_look rbt_ops demo_reader xc ''acc'' ''k1'' = Inl ErrHasDel \<and>
       XM_look rbt_ops demo_reader xc ''acc'' ''k3'' = Inl ErrNotFound)"
  by code_simp

end
