(* ===== verification/Limits.thy ===== *)
theory Limits
  imports Prelude
begin

text \<open>
  Resource limits and their price (\<^verbatim>\<open>contract/base/limits.go\<close>): 64-bit numbers that wrap around.
\<close>

record limits =
  Cpu :: int
  Memory :: int
  Disk :: int
  XFee :: int

definition limits_Add :: "limits \<Rightarrow> limits \<Rightarrow> limits" where
  "limits_Add l l1 = \<lparr>Cpu = i64 (Cpu l + Cpu l1), Memory = i64 (Memory l + Memory l1),
                     Disk = i64 (Disk l + Disk l1), XFee = i64 (XFee l + XFee l1)\<rparr>"

definition limits_Sub :: "limits \<Rightarrow> limits \<Rightarrow> limits" where
  "limits_Sub l l1 = \<lparr>Cpu = i64 (Cpu l - Cpu l1), Memory = i64 (Memory l - Memory l1),
                     Disk = i64 (Disk l - Disk l1), XFee = i64 (XFee l - XFee l1)\<rparr>"

definition Exceed :: "limits \<Rightarrow> limits \<Rightarrow> bool" where
  "Exceed l l1 \<longleftrightarrow> Cpu l > Cpu l1 \<or> Memory l > Memory l1 \<or> Disk l > Disk l1 \<or> XFee l > XFee l1"

definition maxResourceLimit :: int where "maxResourceLimit = 0xFFFFFFFF"

definition MaxLimits :: limits where
  "MaxLimits = \<lparr>Cpu = maxResourceLimit, Memory = maxResourceLimit, Disk = maxResourceLimit, XFee = maxResourceLimit\<rparr>"

definition zero_limits :: limits where
  "zero_limits = \<lparr>Cpu = 0, Memory = 0, Disk = 0, XFee = 0\<rparr>"

record gas_price =
  CpuRate :: int
  MemRate :: int
  DiskRate :: int
  XfeeRate :: int

definition roundup :: "int \<Rightarrow> int \<Rightarrow> int" where
  "roundup n scale = (if scale = 0 then 0 else i64 (i64 (i64 (n + scale) - 1) sdiv scale))"

definition TotalGas :: "limits \<Rightarrow> gas_price \<Rightarrow> int" where
  "TotalGas l gasPrice =
     i64 (i64 (i64 (roundup (Cpu l) (CpuRate gasPrice) + roundup (Memory l) (MemRate gasPrice)) +
               roundup (Disk l) (DiskRate gasPrice)) + roundup (XFee l) (XfeeRate gasPrice))"

datatype resource_type = RCPU | RMEMORY | RDISK | RXFEE | ROther

fun FromPbLimitsLoop :: "(resource_type \<times> int) list \<Rightarrow> limits \<Rightarrow> limits" where
  "FromPbLimitsLoop [] limits = limits"
| "FromPbLimitsLoop ((tp, limit) # ls) limits =
     FromPbLimitsLoop ls
       (case tp of
          RCPU \<Rightarrow> limits\<lparr>Cpu := limit\<rparr>
        | RMEMORY \<Rightarrow> limits\<lparr>Memory := limit\<rparr>
        | RDISK \<Rightarrow> limits\<lparr>Disk := limit\<rparr>
        | RXFEE \<Rightarrow> limits\<lparr>XFee := limit\<rparr>
        | ROther \<Rightarrow> limits)"

definition FromPbLimits :: "(resource_type \<times> int) list \<Rightarrow> limits" where
  "FromPbLimits rlimits = FromPbLimitsLoop rlimits zero_limits"

definition ToPbLimits :: "limits \<Rightarrow> (resource_type \<times> int) list" where
  "ToPbLimits l = [(RCPU, Cpu l), (RMEMORY, Memory l), (RDISK, Disk l), (RXFEE, XFee l)]"

end
