(* ===== verification/Decimal.thy ===== *)
theory Decimal
  imports Main
begin

text \<open>
  The decimal texts of \<open>math/big\<close> and \<open>strconv\<close> that the kernel contracts read and write:
  \<open>(*big.Int).SetString\<close> in base 10, \<open>(*big.Int).String\<close> and \<open>strconv.FormatInt\<close>.
\<close>

definition digit :: "int \<Rightarrow> char" where
  "digit d = char_of (48 + d)"

definition is_digit :: "char \<Rightarrow> bool" where
  "is_digit c \<longleftrightarrow> 48 \<le> (of_char c :: int) \<and> (of_char c :: int) \<le> 57"

definition digit_value :: "char \<Rightarrow> int" where
  "digit_value c = of_char c - 48"

function digits :: "int \<Rightarrow> string" where
  "digits n = (if n < 10 then [digit n] else digits (n div 10) @ [digit (n mod 10)])"
  by auto
termination by (relation "measure nat") auto

declare digits.simps [simp del]

definition dec_string :: "int \<Rightarrow> string" where
  "dec_string n = (if n < 0 then CHR ''-'' # digits (- n) else digits n)"

fun scan_digits :: "int \<Rightarrow> string \<Rightarrow> int \<times> string" where
  "scan_digits acc [] = (acc, [])"
| "scan_digits acc (c # cs) =
     (if is_digit c then scan_digits (acc * 10 + digit_value c) cs else (acc, c # cs))"

text \<open>
  The value and whether the whole text was a number. After a failure the documentation leaves
  the value open; the scanner keeps the digits it has read.
\<close>

definition SetString :: "string \<Rightarrow> int \<times> bool" where
  "SetString s =
     (let neg = (take 1 s = ''-'');
          ds = (if take 1 s = ''-'' \<or> take 1 s = ''+'' then drop 1 s else s)
      in case ds of
           [] \<Rightarrow> (0, False)
         | d # _ \<Rightarrow>
             if \<not> is_digit d then (0, False)
             else (case scan_digits 0 ds of
                     (n, rest) \<Rightarrow> ((if neg then - n else n), rest = [])))"

section \<open>Reading what was written\<close>

lemma digit_is [simp]:
  "0 \<le> d \<Longrightarrow> d < 10 \<Longrightarrow> is_digit (digit d)" "0 \<le> d \<Longrightarrow> d < 10 \<Longrightarrow> digit_value (digit d) = d"
  by (simp_all add: is_digit_def digit_def digit_value_def)

lemma scan_digits_append:
  "\<forall>c \<in> set ds. is_digit c \<Longrightarrow> scan_digits acc (ds @ rest) = scan_digits (fst (scan_digits acc ds)) rest"
  by (induction ds arbitrary: acc) auto

lemma digits_all: "0 \<le> n \<Longrightarrow> \<forall>c \<in> set (digits n). is_digit c"
proof (induction n rule: digits.induct)
  case (1 n)
  then show ?case by (subst digits.simps) auto
qed

lemma scan_digits_digits: "0 \<le> n \<Longrightarrow> scan_digits 0 (digits n) = (n, [])"
proof (induction n rule: digits.induct)
  case (1 n)
  show ?case
  proof (cases "n < 10")
    case True
    then show ?thesis using 1 by (subst digits.simps) simp
  next
    case False
    then have "scan_digits 0 (digits (n div 10)) = (n div 10, [])" using 1 by simp
    with False show ?thesis by (subst digits.simps) (simp add: scan_digits_append [OF digits_all])
  qed
qed

lemma digits_not_empty: "digits n \<noteq> []"
  by (subst digits.simps) simp

lemma hd_digits: "0 \<le> n \<Longrightarrow> is_digit (hd (digits n))"
  using digits_all [of n] digits_not_empty [of n] by (cases "digits n") auto

lemma digits_no_sign: "0 \<le> n \<Longrightarrow> take 1 (digits n) \<noteq> ''-''" "0 \<le> n \<Longrightarrow> take 1 (digits n) \<noteq> ''+''"
  using digits_all [of n] by (cases "digits n"; auto simp: is_digit_def)+

text \<open>Reading back a printed number gives the number.\<close>

lemma SetString_dec_string [simp]: "SetString (dec_string n) = (n, True)"
proof (cases "n < 0")
  case True
  then show ?thesis
    using scan_digits_digits [of "- n"] hd_digits [of "- n"] digits_not_empty [of "- n"]
    by (cases "digits (- n)") (auto simp: dec_string_def SetString_def Let_def)
next
  case False
  then show ?thesis
    using scan_digits_digits [of n] hd_digits [of n] digits_not_empty [of n] digits_no_sign [of n]
    by (cases "digits n") (auto simp: dec_string_def SetString_def Let_def)
qed

lemma dec_string_inject [simp]: "dec_string m = dec_string n \<longleftrightarrow> m = n"
  by (metis SetString_dec_string Pair_inject)

end
