(* ===== verification/Base64.thy ===== *)
theory Base64
  imports Main
begin

text \<open>
  \<open>base64.StdEncoding\<close>, in which \<open>encoding/json\<close> writes byte slices: three bytes are four symbols
  of the alphabet, and \<open>=\<close> pads the last group. Decoding skips line breaks and does not look at
  the unused bits of the last symbol.
\<close>

definition alphabet :: string where
  "alphabet = ''ABCDEFGHIJKLMNOPQRSTUVWXYZabcdefghijklmnopqrstuvwxyz0123456789+/''"

definition symbol :: "nat \<Rightarrow> char" where
  "symbol i = alphabet ! (i mod 64)"

fun find_index :: "nat \<Rightarrow> string \<Rightarrow> char \<Rightarrow> nat option" where
  "find_index i [] c = None"
| "find_index i (x # xs) c = (if x = c then Some i else find_index (i + 1) xs c)"

definition symbol_value :: "char \<Rightarrow> nat option" where
  "symbol_value c = find_index 0 alphabet c"

fun base64_encode :: "string \<Rightarrow> string" where
  "base64_encode [] = []"
| "base64_encode [a] =
     (let x = of_char a :: nat
      in [symbol (x div 4), symbol (x mod 4 * 16), CHR ''='', CHR ''=''])"
| "base64_encode [a, b] =
     (let x = of_char a :: nat; y = of_char b :: nat
      in [symbol (x div 4), symbol (x mod 4 * 16 + y div 16), symbol (y mod 16 * 4), CHR ''=''])"
| "base64_encode (a # b # c # rest) =
     (let x = of_char a :: nat; y = of_char b :: nat; z = of_char c :: nat
      in symbol (x div 4) # symbol (x mod 4 * 16 + y div 16) # symbol (y mod 16 * 4 + z div 64)
         # symbol (z mod 64) # base64_encode rest)"

definition dec1 :: "nat \<Rightarrow> nat \<Rightarrow> char" where "dec1 i j = char_of (i * 4 + j div 16)"
definition dec2 :: "nat \<Rightarrow> nat \<Rightarrow> char" where "dec2 j k = char_of (j mod 16 * 16 + k div 4)"
definition dec3 :: "nat \<Rightarrow> nat \<Rightarrow> char" where "dec3 k l = char_of (k mod 4 * 64 + l)"

fun decode_groups :: "string \<Rightarrow> string option" where
  "decode_groups [] = Some []"
| "decode_groups (a # b # c # d # rest) =
     (case (symbol_value a, symbol_value b) of
        (Some i, Some j) \<Rightarrow>
          if c = CHR ''='' \<and> d = CHR ''='' \<and> rest = [] then Some [dec1 i j]
          else (case symbol_value c of
                  None \<Rightarrow> None
                | Some k \<Rightarrow>
                    if d = CHR ''='' \<and> rest = [] then Some [dec1 i j, dec2 j k]
                    else (case symbol_value d of
                            None \<Rightarrow> None
                          | Some l \<Rightarrow> map_option (\<lambda>r. dec1 i j # dec2 j k # dec3 k l # r) (decode_groups rest)))
      | _ \<Rightarrow> None)"
| "decode_groups _ = None"

definition base64_decode :: "string \<Rightarrow> string option" where
  "base64_decode s = decode_groups (filter (\<lambda>c. c \<noteq> CHR 0x0A \<and> c \<noteq> CHR 0x0D) s)"

section \<open>Round trip\<close>

lemma symbols_checked:
  "\<forall>i \<in> set [0..<64]. symbol_value (alphabet ! i) = Some i \<and> alphabet ! i \<noteq> CHR ''='' \<and>
     alphabet ! i \<noteq> CHR 0x0A \<and> alphabet ! i \<noteq> CHR 0x0D"
  by code_simp

lemma symbol_facts [simp]:
  "symbol_value (symbol i) = Some (i mod 64)" "symbol i \<noteq> CHR ''=''" "symbol i \<noteq> CHR 0x0A" "symbol i \<noteq> CHR 0x0D"
  using bspec [OF symbols_checked, of "i mod 64"] by (simp_all add: symbol_def)

lemma encode_no_breaks:
  "filter (\<lambda>c. c \<noteq> CHR 0x0A \<and> c \<noteq> CHR 0x0D) (base64_encode s) = base64_encode s"
  by (induction s rule: base64_encode.induct) (simp_all add: Let_def)

lemma byte_bound: "(of_char c :: nat) < 256"
  by (rule nat_of_char_less_256)

lemma dec_sums:
  fixes x y z q r :: nat
  shows "x < 256 \<Longrightarrow> q < 16 \<Longrightarrow> x div 4 mod 64 * 4 + (x mod 4 * 16 + q) mod 64 div 16 = x"
    and "y < 256 \<Longrightarrow> r < 4 \<Longrightarrow>
           (x mod 4 * 16 + y div 16) mod 64 mod 16 * 16 + (y mod 16 * 4 + r) mod 64 div 4 = y"
    and "z < 256 \<Longrightarrow> (y mod 16 * 4 + z div 64) mod 64 mod 4 * 64 + z mod 64 mod 64 = z"
proof -
  assume "x < 256" "q < 16"
  then have "x div 4 < 64" "x mod 4 * 16 + q < 64" "(x mod 4 * 16 + q) div 16 = x mod 4" by linarith+
  then show "x div 4 mod 64 * 4 + (x mod 4 * 16 + q) mod 64 div 16 = x" by simp
next
  assume "y < 256" "r < 4"
  then have "y div 16 < 16" "y mod 16 * 4 + r < 64" "(y mod 16 * 4 + r) div 4 = y mod 16"
    "x mod 4 * 16 + y div 16 < 64" by linarith+
  then show "(x mod 4 * 16 + y div 16) mod 64 mod 16 * 16 + (y mod 16 * 4 + r) mod 64 div 4 = y" by simp
next
  assume "z < 256"
  then have "z div 64 < 4" "y mod 16 * 4 + z div 64 < 64" by linarith+
  then show "(y mod 16 * 4 + z div 64) mod 64 mod 4 * 64 + z mod 64 mod 64 = z" by simp
qed

lemma dec_chars:
  "q < 16 \<Longrightarrow> dec1 (of_char a div 4 mod 64) ((of_char a mod 4 * 16 + q) mod 64) = a"
  "r < 4 \<Longrightarrow> dec2 ((x mod 4 * 16 + of_char b div 16) mod 64) ((of_char b mod 16 * 4 + r) mod 64) = b"
  "dec3 ((y mod 16 * 4 + of_char c div 64) mod 64) (of_char c mod 64 mod 64) = c"
  by (simp_all only: dec1_def dec2_def dec3_def dec_sums byte_bound char_of_char)

lemma small_parts: "(of_char c :: nat) div 16 < 16" "(of_char c :: nat) div 64 < 4"
  using byte_bound [of c] by linarith+

text \<open>Decoding an encoded byte string gives it back.\<close>

lemma base64_round_trip: "base64_decode (base64_encode s) = Some s"
proof -
  have "decode_groups (base64_encode s) = Some s"
  proof (induction s rule: base64_encode.induct)
    case (2 a)
    then show ?case using dec_chars(1) [of 0 a] by (simp add: Let_def)
  next
    case (3 a b)
    then show ?case
      using dec_chars(1) [of "of_char b div 16" a] dec_chars(2) [of 0 "of_char a" b] small_parts [of b]
      by (simp add: Let_def)
  next
    case (4 a b c rest)
    then show ?case
      using dec_chars(1) [of "of_char b div 16" a] dec_chars(2) [of "of_char c div 64" "of_char a" b]
        dec_chars(3) [of "of_char b" c] small_parts [of b] small_parts [of c]
      by (simp add: Let_def)
  qed simp
  then show ?thesis by (simp add: base64_decode_def encode_no_breaks)
qed

end
