(* ===== verification/Kernel.thy ===== *)
theory Kernel
  imports Sandbox Limits Decimal Base64 "HOL-Library.AList"
begin

text \<open>
  What kernel contracts run on, besides the limits of the theory \<open>Limits\<close>: the registry
  of kernel methods (\<^verbatim>\<open>contract/kernel/registry_impl.go\<close>), the context a method sees
  (\<^verbatim>\<open>contract/kernel/context.go\<close>, \<^verbatim>\<open>contract/base/interface.go\<close>) and the call of one
  kernel contract by another (\<open>ContractCall\<close> in \<^verbatim>\<open>contract/bridge/syscall_service.go\<close>,
  \<open>Invoke\<close> in \<^verbatim>\<open>context_impl.go\<close>, \<open>Exec\<close> in \<^verbatim>\<open>contract/kernel/vm.go\<close>).

  The state is the key-value view that the sandbox provides, an association list from buckets
  and keys to values. Values are byte strings in the code; the JSON texts that the contracts
  store are represented by the structure they encode, other texts as they are.
\<close>

section \<open>The registry of kernel methods\<close>

record 'm registry =
  methods :: "string \<Rightarrow> string \<Rightarrow> 'm option"
  known_contracts :: "string \<Rightarrow> bool"
  shortcuts :: "string \<Rightarrow> (string \<times> string) option"

datatype registry_error = ErrContractNotFound | ErrMethodNotExists | ErrShortcutNotFound

text \<open>\<open>None\<close> is the panic for a method or a shortcut that is there already.\<close>

definition RegisterKernMethod :: "'m registry \<Rightarrow> string \<Rightarrow> string \<Rightarrow> 'm \<Rightarrow> 'm registry option" where
  "RegisterKernMethod r ctract method handler =
     (if methods r ctract method \<noteq> None then None
      else Some (r\<lparr>methods := (methods r)(ctract := (methods r ctract)(method \<mapsto> handler)),
                   known_contracts := (known_contracts r)(ctract := True)\<rparr>))"

definition UnregisterKernMethod :: "'m registry \<Rightarrow> string \<Rightarrow> string \<Rightarrow> 'm registry" where
  "UnregisterKernMethod r ctract method =
     (if known_contracts r ctract
      then r\<lparr>methods := (methods r)(ctract := (methods r ctract)(method := None))\<rparr> else r)"

definition RegisterShortcut :: "'m registry \<Rightarrow> string \<Rightarrow> string \<Rightarrow> string \<Rightarrow> 'm registry option" where
  "RegisterShortcut r oldmethod contract method =
     (if shortcuts r oldmethod \<noteq> None then None
      else Some (r\<lparr>shortcuts := (shortcuts r)(oldmethod \<mapsto> (contract, method))\<rparr>))"

definition lookupMethod :: "'m registry \<Rightarrow> string \<Rightarrow> string \<Rightarrow> registry_error + 'm" where
  "lookupMethod r ctract method =
     (if \<not> known_contracts r ctract then Inl ErrContractNotFound
      else (case methods r ctract method of None \<Rightarrow> Inl ErrMethodNotExists | Some m \<Rightarrow> Inr m))"

definition GetKernMethod :: "'m registry \<Rightarrow> string \<Rightarrow> string \<Rightarrow> registry_error + 'm" where
  "GetKernMethod r ctract method =
     (if ctract = [] then
        (case shortcuts r method of
           None \<Rightarrow> Inl ErrShortcutNotFound
         | Some (c, m) \<Rightarrow> lookupMethod r c m)
      else lookupMethod r ctract method)"

section \<open>Values\<close>

text \<open>
  A JSON value under an \<open>interface{}\<close>: the code only asks whether it is a string. A missing key
  reads as \<open>nil\<close>, like \<open>JNull\<close>.
\<close>

datatype jvalue = JNull | JString string | JOther

type_synonym jobject = "(string \<times> jvalue) list"

definition jget :: "jobject \<Rightarrow> string \<Rightarrow> jvalue" where
  "jget obj key = (case map_of obj key of None \<Rightarrow> JNull | Some v \<Rightarrow> v)"

record gov_balance =
  TotalBalance :: int
  LockedBalance :: "(string \<times> int) list"

record trigger_desc =
  t_Height :: int
  t_Module :: string
  t_Contract :: string
  t_Method :: string
  t_Args :: jobject

text \<open>\<open>Trigger\<close> and \<open>VoteAmount\<close> are pointers.\<close>

record proposal =
  p_Args :: jobject
  p_Trigger :: "trigger_desc option"
  VoteAmount :: "int option"
  p_Status :: string
  Proposer :: string

text \<open>An entry of the record of withdrawn votes.\<close>

record revoke_item =
  RevokeType :: string
  Ballot :: int
  TargetAddress :: string

text \<open>
  A value is represented by what its reader makes of it: a text that \<open>json.Unmarshal\<close> decodes
  as one of the contracts' structures by that structure, every other text as \<open>Text\<close>. A reader
  of one structure gets an error from anything else, and \<open>string(buf)\<close> is only applied to
  texts.
\<close>

datatype payload =
    Text string
  | BalanceJson gov_balance
  | ProposalJson proposal
  | TriggerJson trigger_desc
  | ArgsJson jobject
  | NominateJson "(string \<times> (string \<times> int) list) list"
  | VoteJson "(string \<times> int) list"
  | RevokeJson "(string \<times> revoke_item list) list"
  | ValidatesJson "string list"

fun text_of :: "payload \<Rightarrow> string" where
  "text_of (Text s) = s"
| "text_of _ = []"

section \<open>State, context and results\<close>

type_synonym store = "((string \<times> string) \<times> payload) list"

text \<open>
  \<open>kv\<close> is the sandbox, shared by nested calls, \<open>used\<close> the resources of the running method and
  \<open>cset\<close> the map \<open>ContractSet\<close> of contracts being called, shared by nested calls as well.
\<close>

record kstate =
  kv :: store
  used :: limits
  cset :: "string set"

definition kGet :: "kstate \<Rightarrow> string \<Rightarrow> string \<Rightarrow> payload option" where
  "kGet st bucket key = map_of (kv st) (bucket, key)"

definition kPut :: "kstate \<Rightarrow> string \<Rightarrow> string \<Rightarrow> payload \<Rightarrow> kstate" where
  "kPut st bucket key value = st\<lparr>kv := AList.update (bucket, key) value (kv st)\<rparr>"

definition kDel :: "kstate \<Rightarrow> string \<Rightarrow> string \<Rightarrow> kstate" where
  "kDel st bucket key = st\<lparr>kv := AList.delete (bucket, key) (kv st)\<rparr>"

text \<open>The entries of a bucket with keys from \<open>start\<close> up to, but without, \<open>stop\<close>, in key order.\<close>

definition kSelect :: "kstate \<Rightarrow> string \<Rightarrow> string \<Rightarrow> string \<Rightarrow> (string \<times> payload) list" where
  "kSelect st bucket start stop =
     sort_key fst (map (\<lambda>((b, k), v). (k, v))
       (filter (\<lambda>((b, k), v). b = bucket \<and> start \<le> k \<and> k < stop) (kv st)))"

definition AddResourceUsed :: "kstate \<Rightarrow> limits \<Rightarrow> kstate" where
  "AddResourceUsed st delta = st\<lparr>used := limits_Add (used st) delta\<rparr>"

definition fee :: "int \<Rightarrow> limits" where
  "fee x = zero_limits\<lparr>XFee := x\<rparr>"

type_synonym args = "(string \<times> payload) list"

record kctx =
  Args :: args
  Initiator :: string
  kAuthRequire :: "string list"
  Caller :: string
  ContractName :: string
  ResourceLimit :: limits

definition arg :: "kctx \<Rightarrow> string \<Rightarrow> payload option" where
  "arg ctx name = map_of (Args ctx) name"

datatype kern_error =
    ErrInitialized | ErrNegativeAmount | ErrGasNotEnough | ErrNilArgument | ErrBadAmount
  | ErrNoBalance | ErrInsufficient | ErrNoAuthority | ErrLockType | ErrNoKey | ErrParse
  | ErrVotePercent | ErrStopHeight | ErrTriggerHeight | ErrNoProposal | ErrStatus | ErrVoted
  | ErrRecursiveCall | ErrCallDepth | ErrPermission | ErrNoContext | ErrNoMethod | ErrResourceExceeds
  | ErrContract | ErrOutOfFuel

record response =
  Status :: int
  Body :: "payload option"

text \<open>\<open>KPanic\<close>: the method dereferences \<open>nil\<close> or asserts a type that the value does not have.\<close>

datatype 'a kres = KOk 'a | KErr kern_error | KPanic

definition StatusOK :: int where "StatusOK = 200"
definition StatusException :: int where "StatusException = 500"

definition success :: "payload option \<Rightarrow> response kres" where
  "success body = KOk \<lparr>Status = StatusOK, Body = body\<rparr>"

type_synonym kmethod = "kctx \<Rightarrow> kstate \<Rightarrow> kstate \<times> response kres"

text \<open>\<open>ctx.Call\<close>: module, contract, method and arguments.\<close>

type_synonym kcall = "kctx \<Rightarrow> kstate \<Rightarrow> string \<Rightarrow> string \<Rightarrow> string \<Rightarrow> args \<Rightarrow> kstate \<times> response kres"

text \<open>
  What a method does with the result of a call: a panic of the callee unwinds the caller, an
  error is returned or handled.
\<close>

definition after_call ::
    "kstate \<times> 'a kres \<Rightarrow> (kstate \<Rightarrow> kern_error \<Rightarrow> kstate \<times> 'b kres) \<Rightarrow> (kstate \<Rightarrow> 'a \<Rightarrow> kstate \<times> 'b kres) \<Rightarrow>
     kstate \<times> 'b kres" where
  "after_call res on_err on_ok =
     (case snd res of
        KOk x \<Rightarrow> on_ok (fst res) x
      | KErr e \<Rightarrow> on_err (fst res) e
      | KPanic \<Rightarrow> (fst res, KPanic))"

definition if_ok :: "kstate \<times> 'a kres \<Rightarrow> (kstate \<Rightarrow> 'a \<Rightarrow> kstate \<times> 'b kres) \<Rightarrow> kstate \<times> 'b kres" where
  "if_ok res on_ok = after_call res (\<lambda>st e. (st, KErr e)) on_ok"


section \<open>User contracts\<close>

text \<open>
  The code of a deployed contract is not part of the repository. Whatever it is, it runs as a
  sequence of system calls (\<^verbatim>\<open>contract/bridge/syscall_service.go\<close>), each chosen from the
  results of the earlier ones, and then ends or fails. The limits it carries are what
  \<open>Context.ResourceUsed\<close> returns at that point.
\<close>

datatype prog =
    PDone limits response
  | PFail limits
  | PutObject string payload prog
  | GetObject string "payload option \<Rightarrow> prog"
  | DeleteObject string prog
  | NewIterator string string int "(string \<times> payload) list \<Rightarrow> prog"
  | PCall limits string string string args "kern_error + response \<Rightarrow> prog"

definition DefaultCap :: int where "DefaultCap = 1000"

text \<open>The objects of a contract are the entries of the bucket that has the contract's name.\<close>

primrec run_prog :: "kcall \<Rightarrow> kctx \<Rightarrow> prog \<Rightarrow> kstate \<Rightarrow> kstate \<times> response kres" where
  "run_prog call ctx (PDone u resp) st = (st\<lparr>used := u\<rparr>, KOk resp)"
| "run_prog call ctx (PFail u) st = (st\<lparr>used := u\<rparr>, KErr ErrContract)"
| "run_prog call ctx (PutObject key value p) st = run_prog call ctx p (kPut st (ContractName ctx) key value)"
| "run_prog call ctx (GetObject key p) st = run_prog call ctx (p (kGet st (ContractName ctx) key)) st"
| "run_prog call ctx (DeleteObject key p) st = run_prog call ctx p (kDel st (ContractName ctx) key)"
| "run_prog call ctx (NewIterator start stop cap p) st =
     run_prog call ctx
       (p (take (nat (if cap \<le> 0 then DefaultCap else cap)) (kSelect st (ContractName ctx) start stop))) st"
| "run_prog call ctx (PCall u module contract method as p) st =
     after_call (call ctx (st\<lparr>used := u\<rparr>) module contract method as)
       (\<lambda>st' e. run_prog call ctx (p (Inl e)) st')
       (\<lambda>st' resp. run_prog call ctx (p (Inr resp)) st')"

section \<open>Names of contracts\<close>

definition contractNameMaxSize :: nat where "contractNameMaxSize = 16"
definition contractNameMinSize :: nat where "contractNameMinSize = 4"

definition is_letter :: "char \<Rightarrow> bool" where
  "is_letter c \<longleftrightarrow> CHR ''a'' \<le> c \<and> c \<le> CHR ''z'' \<or> CHR ''A'' \<le> c \<and> c \<le> CHR ''Z'' \<or> c = CHR ''_''"

text \<open>The pattern: a letter, then letters, digits and dots, and no dot at the end.\<close>

definition contractNameRegex :: "string \<Rightarrow> bool" where
  "contractNameRegex s \<longleftrightarrow>
     3 \<le> length s \<and> is_letter (hd s) \<and>
     (\<forall>c \<in> set (butlast (tl s)). is_letter c \<or> is_digit c \<or> c = CHR ''.'') \<and>
     (is_letter (last s) \<or> is_digit (last s))"

definition ValidContractName :: "string \<Rightarrow> bool" where
  "ValidContractName contractName \<longleftrightarrow>
     \<not> (length contractName > contractNameMaxSize \<or> length contractName < contractNameMinSize) \<and>
     contractNameRegex contractName"

section \<open>Calling a contract\<close>

definition MaxContractCallDepth :: nat where "MaxContractCallDepth = 10"
definition TimerTaskKernelContract :: string where "TimerTaskKernelContract = ''$timer_task''"
definition TypeKernel :: string where "TypeKernel = ''xkernel''"
definition initMethod :: string where "initMethod = ''initialize''"

definition Exec :: "kmethod registry \<Rightarrow> string \<Rightarrow> string \<Rightarrow> kmethod" where
  "Exec reg contract method ctx st =
     (case GetKernMethod reg contract method of
        Inl e \<Rightarrow> (st, KErr ErrNoMethod)
      | Inr m \<Rightarrow> m ctx st)"

text \<open>
  \<open>NewContext\<close>: the kernel's registry for the kernel module; for every other module \<open>vm\<close> gives
  the instance of a deployed contract, or \<open>None\<close> where there is no such contract or no virtual
  machine for it.
\<close>

type_synonym contexts = "string \<Rightarrow> string \<Rightarrow> (string \<Rightarrow> kmethod) option"

definition NewContext :: "kmethod registry \<Rightarrow> contexts \<Rightarrow> contexts" where
  "NewContext reg vm module contract =
     (if module = TypeKernel then Some (Exec reg contract) else vm module contract)"

text \<open>\<open>Invoke\<close>, where the context does not allow initialisation.\<close>

definition Invoke :: "(string \<Rightarrow> kmethod) \<Rightarrow> string \<Rightarrow> kmethod" where
  "Invoke inst method ctx st =
     (if method = initMethod then (st, KErr ErrNoMethod)
      else if_ok (inst method ctx st)
             (\<lambda>st' resp. if Exceed (used st') (ResourceLimit ctx) then (st', KErr ErrResourceExceeds)
                         else (st', KOk resp)))"

text \<open>
  \<open>ContractCall\<close>; \<open>newContext\<close> is \<open>NewContext\<close> and \<open>perm\<close> is \<open>VerifyContractPermission\<close> on the initiator, the contract and the
  method. The callee shares the sandbox and the set of contracts being called. It gets the
  caller's name, the rest of the caller's limits, except that the disk limit is the same, and
  an empty account of used resources. What it writes before an error stays. The name of a
  contract without context is not taken out of the set.
\<close>

definition ContractCall ::
    "(string \<Rightarrow> string \<Rightarrow> string \<Rightarrow> bool) \<Rightarrow> contexts \<Rightarrow> kcall" where
  "ContractCall perm newContext ctx st module contract method as =
     (if contract \<in> cset st \<and> contract \<noteq> TimerTaskKernelContract then (st, KErr ErrRecursiveCall)
      else if card (cset st) \<ge> MaxContractCallDepth then (st, KErr ErrCallDepth)
      else if \<not> perm (Initiator ctx) contract method then (st, KErr ErrPermission)
      else
        (let left = (limits_Sub (limits_Add zero_limits (ResourceLimit ctx)) (used st))
                      \<lparr>Disk := Disk (ResourceLimit ctx)\<rparr>;
             st1 = st\<lparr>cset := insert contract (cset st)\<rparr>
         in case newContext module contract of
              None \<Rightarrow> (st1, KErr ErrNoContext)
            | Some inst \<Rightarrow>
                (let ctx' = \<lparr>Args = as, Initiator = Initiator ctx, kAuthRequire = kAuthRequire ctx, Caller = ContractName ctx,
                             ContractName = contract, ResourceLimit = left\<rparr>;
                     res = Invoke inst method ctx' (st1\<lparr>used := zero_limits\<rparr>)
                 in ((fst res)\<lparr>used := used st, cset := cset (fst res) - {contract}\<rparr>, snd res))))"

text \<open>The call of a contract by a transaction: a context with no set of contracts.\<close>

definition TopCall :: "contexts \<Rightarrow> kctx \<Rightarrow> kstate \<Rightarrow> string \<Rightarrow> string \<Rightarrow> kstate \<times> response kres" where
  "TopCall newContext ctx st module method =
     (case newContext module (ContractName ctx) of
        None \<Rightarrow> (st, KErr ErrNoContext)
      | Some inst \<Rightarrow> Invoke inst method ctx (st\<lparr>used := zero_limits, cset := {ContractName ctx}\<rparr>))"

section \<open>Facts about the state\<close>

lemma kGet_kPut [simp]:
  "kGet (kPut st b k v) b' k' = (if b' = b \<and> k' = k then Some v else kGet st b' k')"
  by (simp add: kGet_def kPut_def update_conv')

lemma kGet_kDel [simp]: "kGet (kDel st b k) b' k' = (if b' = b \<and> k' = k then None else kGet st b' k')"
  by (simp add: kGet_def kDel_def delete_conv')

lemma kGet_other [simp]:
  "kGet (st\<lparr>used := u\<rparr>) b k = kGet st b k"
  "kGet (st\<lparr>cset := s\<rparr>) b k = kGet st b k"
  "kGet (AddResourceUsed st d) b k = kGet st b k"
  by (simp_all add: kGet_def AddResourceUsed_def)

lemma cset_ops [simp]:
  "cset (kPut st b k v) = cset st" "cset (kDel st b k) = cset st" "cset (AddResourceUsed st d) = cset st"
  by (simp_all add: kPut_def kDel_def AddResourceUsed_def)

definition keys_once :: "kstate \<Rightarrow> bool" where
  "keys_once st \<longleftrightarrow> distinct (map fst (kv st))"

lemma keys_once_ops [simp]:
  "keys_once st \<Longrightarrow> keys_once (kPut st b k v)"
  "keys_once st \<Longrightarrow> keys_once (kDel st b k)"
  "keys_once (AddResourceUsed st d) = keys_once st"
  "keys_once (st\<lparr>used := u\<rparr>) = keys_once st"
  "keys_once (st\<lparr>cset := s\<rparr>) = keys_once st"
  by (simp_all add: keys_once_def kPut_def kDel_def AddResourceUsed_def distinct_update distinct_delete)

lemma in_kSelect:
  "keys_once st \<Longrightarrow>
     (k, v) \<in> set (kSelect st b start stop) \<longleftrightarrow> kGet st b k = Some v \<and> start \<le> k \<and> k < stop"
  by (force simp: kSelect_def kGet_def keys_once_def image_def)

lemma distinct_sort_key: "distinct (map fst xs) \<Longrightarrow> distinct (map fst (sort_key f xs))"
  by (simp add: distinct_map)

lemma distinct_kSelect:
  assumes "keys_once st"
  shows "distinct (map fst (kSelect st b start stop))"
proof -
  let ?P = "\<lambda>((b', k), v). b' = b \<and> start \<le> k \<and> k < stop"
  have "distinct (map fst (filter ?P (kv st)))"
    using assms by (simp add: keys_once_def distinct_map_filter)
  then have "distinct (map (\<lambda>x. snd (fst x)) (filter ?P (kv st)))"
    by (auto simp: distinct_map inj_on_def)
  then have "distinct (map fst (map (\<lambda>((b, k), v). (k, v)) (filter ?P (kv st))))"
    by (simp add: comp_def case_prod_beta')
  then show ?thesis
    unfolding kSelect_def by (rule distinct_sort_key)
qed

section \<open>What nested calls keep\<close>

text \<open>
  A relation between the states before and after a method, reflexive and transitive, that does
  not look at the used resources and goes through the entry of a contract into the set of
  contracts being called and its removal. A method that makes calls keeps such a relation if its
  own writes do and the calls do; so nested calls of any depth do.
\<close>

locale call_relation =
  fixes R :: "kstate \<Rightarrow> kstate \<Rightarrow> bool"
  assumes rel_refl [simp, intro]: "R st st"
    and rel_trans [trans]: "R st st' \<Longrightarrow> R st' st'' \<Longrightarrow> R st st''"
    and rel_used [simp]: "R st (st'\<lparr>used := u\<rparr>) = R st st'"
    and rel_used' [simp]: "R (st\<lparr>used := u\<rparr>) st' = R st st'"
    and rel_enter: "R st (st\<lparr>cset := insert c (cset st)\<rparr>)"
    and rel_leave: "c \<notin> cset st \<or> c = TimerTaskKernelContract \<Longrightarrow> R (st\<lparr>cset := insert c (cset st)\<rparr>) st' \<Longrightarrow>
      R st (st'\<lparr>cset := cset st' - {c}\<rparr>)"
begin

definition keeps_call :: "kcall \<Rightarrow> bool" where
  "keeps_call call \<longleftrightarrow> (\<forall>ctx st module c f as. R st (fst (call ctx st module c f as)))"

definition keeps :: "string \<Rightarrow> kmethod \<Rightarrow> bool" where
  "keeps c m \<longleftrightarrow> (\<forall>ctx st. ContractName ctx = c \<longrightarrow> c \<in> cset st \<longrightarrow> R st (fst (m ctx st)))"

definition put_ok :: "string \<Rightarrow> bool" where
  "put_ok b \<longleftrightarrow> (\<forall>st k v. R st (kPut st b k v))"

definition del_ok :: "string \<Rightarrow> bool" where
  "del_ok b \<longleftrightarrow> (\<forall>st k. R st (kDel st b k))"

lemma keeps_callD: "keeps_call call \<Longrightarrow> R st (fst (call ctx st module c f as))"
  by (simp add: keeps_call_def)

lemma rel_AddResourceUsed [simp]: "R st (AddResourceUsed st' d) = R st st'"
  by (simp add: AddResourceUsed_def)

lemma rel_put: "put_ok b \<Longrightarrow> R st st' \<Longrightarrow> R st (kPut st' b k v)"
  by (auto simp: put_ok_def intro: rel_trans)

lemma rel_del: "del_ok b \<Longrightarrow> R st st' \<Longrightarrow> R st (kDel st' b k)"
  by (auto simp: del_ok_def intro: rel_trans)

lemma rel_after_call:
  assumes "R st (fst res)"
    and "\<And>e. R st (fst res) \<Longrightarrow> R st (fst (on_err (fst res) e))"
    and "\<And>x. R st (fst res) \<Longrightarrow> R st (fst (on_ok (fst res) x))"
  shows "R st (fst (after_call res on_err on_ok))"
  using assms by (simp add: after_call_def split: kres.split)

lemma rel_if_ok:
  assumes "R st (fst res)" and "\<And>x. R st (fst res) \<Longrightarrow> R st (fst (on_ok (fst res) x))"
  shows "R st (fst (if_ok res on_ok))"
  unfolding if_ok_def using assms by (intro rel_after_call) auto

lemma run_prog_keeps:
  assumes "keeps_call call" "put_ok (ContractName ctx)" "del_ok (ContractName ctx)" "R st0 st"
  shows "R st0 (fst (run_prog call ctx p st))"
  using \<open>R st0 st\<close>
proof (induction p arbitrary: st)
  case (PCall u module c f as p)
  have "R st0 (fst (call ctx (st\<lparr>used := u\<rparr>) module c f as))"
    by (rule rel_trans [OF PCall.prems]) (metis assms(1) keeps_callD rel_used')
  with PCall.IH show ?case
    by (simp add: rel_after_call rangeI)
qed (simp_all add: assms rel_put rel_del rangeI)

lemma Invoke_keeps:
  assumes "R st0 st" "R st0 (fst (inst f ctx st))"
  shows "R st0 (fst (Invoke inst f ctx st))"
  using assms by (simp add: Invoke_def rel_if_ok)

lemma rel_return:
  assumes "c \<notin> cset st \<or> c = TimerTaskKernelContract" "R (st\<lparr>cset := insert c (cset st), used := u\<rparr>) st'"
  shows "R st (st'\<lparr>used := u', cset := cset st' - {c}\<rparr>)"
  using rel_leave [of c st "st'\<lparr>used := u'\<rparr>"] assms by simp

text \<open>A relation may also say nothing about the calls that enter a certain contract.\<close>

definition free_for :: "string \<Rightarrow> bool" where
  "free_for c \<longleftrightarrow> c \<noteq> TimerTaskKernelContract \<and> (\<forall>st st'. c \<notin> cset st \<longrightarrow> R st st')"

lemma ContractCall_keeps:
  assumes ctxs: "\<And>module c inst f. nctx module c = Some inst \<Longrightarrow> free_for c \<or> keeps c (inst f)"
  shows "keeps_call (ContractCall perm nctx)"
  unfolding keeps_call_def
proof (intro allI)
  fix ctx st module c f as
  have inv: "R st' (fst (Invoke inst f ctx' st'))"
    if "nctx module c = Some inst" "\<not> free_for c" "ContractName ctx' = c" "c \<in> cset st'" for inst ctx' st'
    using Invoke_keeps [of st' st' inst f ctx'] ctxs [OF that(1), of f] that by (simp add: keeps_def)
  show "R st (fst (ContractCall perm nctx ctx st module c f as))"
  proof (cases "free_for c")
    case True
    then show ?thesis by (cases "c \<in> cset st") (auto simp: free_for_def ContractCall_def)
  next
    case False
    then show ?thesis
      by (auto simp: ContractCall_def Let_def rel_enter split: option.split intro!: rel_return inv)
  qed
qed

lemma TopCall_keeps:
  assumes "\<And>module inst f. nctx module (ContractName ctx) = Some inst \<Longrightarrow> keeps (ContractName ctx) (inst f)"
    and start: "\<And>st'. R (st\<lparr>cset := {ContractName ctx}\<rparr>) st' \<Longrightarrow> P st st'" and "P st st"
  shows "P st (fst (TopCall nctx ctx st module f))"
proof (cases "nctx module (ContractName ctx)")
  case (Some inst)
  let ?st = "st\<lparr>used := zero_limits, cset := {ContractName ctx}\<rparr>"
  have "R ?st (fst (Invoke inst f ctx ?st))"
    using Invoke_keeps [of ?st ?st inst f ctx] assms(1) [OF Some, of f] by (simp add: keeps_def)
  moreover have "?st = st\<lparr>cset := {ContractName ctx}, used := zero_limits\<rparr>" by simp
  ultimately have "R (st\<lparr>cset := {ContractName ctx}\<rparr>) (fst (Invoke inst f ctx ?st))"
    by (metis rel_used')
  then show ?thesis using Some start by (simp add: TopCall_def)
qed (simp add: TopCall_def assms)

end

end
