(* ===== verification/GovernToken.thy ===== *)
theory GovernToken
  imports Kernel
begin

text \<open>
  The kernel contract \<open>$govern_token\<close> (\<^verbatim>\<open>contract/proposal/govern/token_contract.go\<close> with
  \<^verbatim>\<open>contract/proposal/utils\<close>): balances of governance tokens, of which a part can be locked
  by votes and elections. The contract makes no calls.
\<close>

section \<open>Keys and balances\<close>

definition governTokenBucket :: string where "governTokenBucket = ''governToken''"
definition totalSupplyKey :: string where "totalSupplyKey = ''totalSupply''"
definition distributedKey :: string where "distributedKey = ''distributed''"

definition MakeAccountBalanceKey :: "string \<Rightarrow> string" where
  "MakeAccountBalanceKey account = ''balanceOf'' @ ''_'' @ account"

definition GovernTokenTypeOrdinary :: string where "GovernTokenTypeOrdinary = ''ordinary''"
definition GovernTokenTypeTDPOS :: string where "GovernTokenTypeTDPOS = ''xpos''"

definition GovernTokenKernelContract :: string where "GovernTokenKernelContract = ''$govern_token''"
definition ProposalKernelContract :: string where "ProposalKernelContract = ''$proposal''"
definition XPOSKernelContract :: string where "XPOSKernelContract = ''$xpos''"

definition NewGovernTokenBalance :: gov_balance where
  "NewGovernTokenBalance =
     \<lparr>TotalBalance = 0, LockedBalance = [(GovernTokenTypeOrdinary, 0), (GovernTokenTypeTDPOS, 0)]\<rparr>"

text \<open>
  \<open>json.Unmarshal\<close> into a new balance: the total is replaced, and the entries of the map are
  added to the two that are there.
\<close>

definition unmarshalBalance :: "payload \<Rightarrow> gov_balance option" where
  "unmarshalBalance buf =
     (case buf of
        BalanceJson b \<Rightarrow>
          Some \<lparr>TotalBalance = TotalBalance b,
                LockedBalance = AList.merge (LockedBalance NewGovernTokenBalance) (LockedBalance b)\<rparr>
      | _ \<Rightarrow> None)"

definition balanceOf :: "kstate \<Rightarrow> string \<Rightarrow> gov_balance option" where
  "balanceOf st account =
     (case kGet st governTokenBucket (MakeAccountBalanceKey account) of
        None \<Rightarrow> None
      | Some buf \<Rightarrow> unmarshalBalance buf)"

definition putBalance :: "kstate \<Rightarrow> string \<Rightarrow> gov_balance \<Rightarrow> kstate" where
  "putBalance st account b = kPut st governTokenBucket (MakeAccountBalanceKey account) (BalanceJson b)"

section \<open>The methods\<close>

record predistribution =
  Address :: string
  Quota :: string

record gov_method =
  NewGovResourceAmount :: int
  Predistribution :: "predistribution list"

definition transferFee :: "gov_method \<Rightarrow> int" where
  "transferFee t = NewGovResourceAmount t sdiv 1000"

text \<open>The loop over the accounts of the genesis block, with the sum so far.\<close>

fun distribute :: "predistribution list \<Rightarrow> int \<Rightarrow> kstate \<Rightarrow> kstate \<times> int kres" where
  "distribute [] total_supply st = (st, KOk total_supply)"
| "distribute (ps # rest) total_supply st =
     (let amount = fst (SetString (Quota ps)) in
      if amount < 0 then (st, KErr ErrNegativeAmount)
      else distribute rest (total_supply + amount)
             (putBalance st (Address ps) (NewGovernTokenBalance\<lparr>TotalBalance := amount\<rparr>)))"

definition InitGovernTokens :: "gov_method \<Rightarrow> kmethod" where
  "InitGovernTokens t ctx st =
     (if kGet st governTokenBucket distributedKey = Some (Text ''true'') then (st, KErr ErrInitialized)
      else if_ok (distribute (Predistribution t) 0 st)
        (\<lambda>st1 totalSupply.
           let st2 = kPut st1 governTokenBucket totalSupplyKey (Text (dec_string totalSupply));
               st3 = kPut st2 governTokenBucket distributedKey (Text ''true'')
           in (AddResourceUsed st3 (fee (NewGovResourceAmount t)), success None)))"

text \<open>
  \<open>TransferGovernTokens\<close>. The receiver's old record is decoded into an empty structure, whose
  total is \<open>nil\<close> where the record is no balance; the record that is written is a new one with
  the sum of the totals.
\<close>

definition TransferGovernTokens :: "gov_method \<Rightarrow> kmethod" where
  "TransferGovernTokens t ctx st =
     (if XFee (ResourceLimit ctx) < transferFee t then (st, KErr ErrGasNotEnough)
      else case (arg ctx ''to'', arg ctx ''amount'') of
        (Some receiverBuf, Some amountBuf) \<Rightarrow>
          (let sender = Initiator ctx; receiver = text_of receiverBuf;
               (amount, isAmount) = SetString (text_of amountBuf)
           in if \<not> isAmount \<or> amount < 0 then (st, KErr ErrBadAmount)
              else case balanceOf st sender of
                None \<Rightarrow> (st, KErr ErrNoBalance)
              | Some senderBalance \<Rightarrow>
                  if \<exists>(k, v) \<in> set (LockedBalance senderBalance). TotalBalance senderBalance - v < amount
                  then (st, KErr ErrInsufficient)
                  else if receiver = sender then
                    (AddResourceUsed (putBalance st sender senderBalance) (fee (transferFee t)), success None)
                  else
                    (let old = (case kGet st governTokenBucket (MakeAccountBalanceKey receiver) of
                                  None \<Rightarrow> Some 0
                                | Some (BalanceJson b) \<Rightarrow> Some (TotalBalance b)
                                | Some _ \<Rightarrow> None)
                     in case old of
                          None \<Rightarrow> (st, KPanic)
                        | Some oldTotal \<Rightarrow>
                            (let st1 = putBalance st sender
                                   (senderBalance\<lparr>TotalBalance := TotalBalance senderBalance - amount\<rparr>);
                                 st2 = putBalance st1 receiver
                                   (NewGovernTokenBalance\<lparr>TotalBalance := amount + oldTotal\<rparr>)
                             in (AddResourceUsed st2 (fee (transferFee t)), success None))))
      | _ \<Rightarrow> (st, KErr ErrNilArgument))"

definition lockCaller :: "string \<Rightarrow> bool" where
  "lockCaller caller \<longleftrightarrow> caller = ProposalKernelContract \<or> caller = XPOSKernelContract"

definition lockType_ok :: "string \<Rightarrow> bool" where
  "lockType_ok lt \<longleftrightarrow> lt = GovernTokenTypeOrdinary \<or> lt = GovernTokenTypeTDPOS"

definition locked :: "gov_balance \<Rightarrow> string \<Rightarrow> int option" where
  "locked b lockType = map_of (LockedBalance b) lockType"

definition setLocked :: "gov_balance \<Rightarrow> string \<Rightarrow> int \<Rightarrow> gov_balance" where
  "setLocked b lockType v = b\<lparr>LockedBalance := AList.update lockType v (LockedBalance b)\<rparr>"

definition LockGovernTokens :: "gov_method \<Rightarrow> kmethod" where
  "LockGovernTokens t ctx st =
     (if \<not> lockCaller (Caller ctx) then (st, KErr ErrNoAuthority)
      else case (arg ctx ''from'', arg ctx ''amount'', arg ctx ''lock_type'') of
        (Some accountBuf, Some amountBuf, Some lockTypeBuf) \<Rightarrow>
          (let lockType = text_of lockTypeBuf; account = text_of accountBuf in
           if \<not> lockType_ok lockType then (st, KErr ErrLockType)
           else case balanceOf st account of
             None \<Rightarrow> (st, KErr ErrNoBalance)
           | Some b \<Rightarrow>
               (let amountLock = fst (SetString (text_of amountBuf)) in
                case locked b lockType of
                  None \<Rightarrow> (st, KPanic)
                | Some l \<Rightarrow>
                    if TotalBalance b - l < amountLock then (st, KErr ErrInsufficient)
                    else (AddResourceUsed (putBalance st account (setLocked b lockType (l + amountLock)))
                            (fee (transferFee t)), success None)))
      | _ \<Rightarrow> (st, KErr ErrNilArgument))"

definition UnLockGovernTokens :: "gov_method \<Rightarrow> kmethod" where
  "UnLockGovernTokens t ctx st =
     (if \<not> lockCaller (Caller ctx) then (st, KErr ErrNoAuthority)
      else case (arg ctx ''from'', arg ctx ''amount'', arg ctx ''lock_type'') of
        (Some accountBuf, Some amountBuf, Some lockTypeBuf) \<Rightarrow>
          (let lockType = text_of lockTypeBuf; account = text_of accountBuf in
           case balanceOf st account of
             None \<Rightarrow> (st, KErr ErrNoBalance)
           | Some b \<Rightarrow>
               (let amountLock = fst (SetString (text_of amountBuf)) in
                if \<not> lockType_ok lockType then (st, KErr ErrLockType)
                else case locked b lockType of
                  None \<Rightarrow> (st, KPanic)
                | Some l \<Rightarrow>
                    (AddResourceUsed (putBalance st account (setLocked b lockType (l - amountLock)))
                       (fee (transferFee t)), success None)))
      | _ \<Rightarrow> (st, KErr ErrNilArgument))"

definition QueryAccountGovernTokens :: kmethod where
  "QueryAccountGovernTokens ctx st =
     (case balanceOf st (case arg ctx ''account'' of None \<Rightarrow> [] | Some a \<Rightarrow> text_of a) of
        None \<Rightarrow> (st, KErr ErrNoBalance)
      | Some b \<Rightarrow> (st, success (Some (BalanceJson b))))"

definition TotalSupply :: kmethod where
  "TotalSupply ctx st =
     (case kGet st governTokenBucket totalSupplyKey of
        None \<Rightarrow> (st, KErr ErrNoKey)
      | Some buf \<Rightarrow> (st, success (Some (Text (dec_string (fst (SetString (text_of buf))))))))"

definition gov_methods :: "gov_method \<Rightarrow> (string \<times> kmethod) list" where
  "gov_methods t =
     [(''Init'', InitGovernTokens t), (''Transfer'', TransferGovernTokens t), (''Lock'', LockGovernTokens t),
      (''UnLock'', UnLockGovernTokens t), (''Query'', QueryAccountGovernTokens), (''TotalSupply'', TotalSupply)]"

section \<open>The sum of the balances\<close>

definition payload_value :: "payload \<Rightarrow> int" where
  "payload_value v = (case v of BalanceJson b \<Rightarrow> TotalBalance b | _ \<Rightarrow> 0)"

definition entry_value :: "(string \<times> string) \<times> payload \<Rightarrow> int" where
  "entry_value e = (if fst (fst e) = governTokenBucket then payload_value (snd e) else 0)"

definition token_sum :: "kstate \<Rightarrow> int" where
  "token_sum st = sum_list (map entry_value (kv st))"

definition stored_value :: "payload option \<Rightarrow> int" where
  "stored_value v = (case v of None \<Rightarrow> 0 | Some p \<Rightarrow> payload_value p)"

lemma payload_value_simps [simp]:
  "payload_value (BalanceJson b) = TotalBalance b" "payload_value (Text s) = 0"
  by (simp_all add: payload_value_def)

lemma sum_update:
  "sum_list (map entry_value (AList.update (b, k) v al)) =
     sum_list (map entry_value al) +
       (if b = governTokenBucket then payload_value v - stored_value (map_of al (b, k)) else 0)"
  by (induction al) (auto simp: entry_value_def stored_value_def)

lemma sum_delete:
  "b \<noteq> governTokenBucket \<Longrightarrow>
     sum_list (map entry_value (AList.delete (b, k) al)) = sum_list (map entry_value al)"
  by (induction al) (auto simp: entry_value_def)

lemma token_sum_kPut:
  "token_sum (kPut st b k v) =
     token_sum st + (if b = governTokenBucket then payload_value v - stored_value (kGet st b k) else 0)"
  by (simp add: token_sum_def kPut_def kGet_def sum_update)

lemma token_sum_other [simp]:
  "b \<noteq> governTokenBucket \<Longrightarrow> token_sum (kDel st b k) = token_sum st"
  "token_sum (st\<lparr>used := u\<rparr>) = token_sum st" "token_sum (st\<lparr>cset := s\<rparr>) = token_sum st"
  "token_sum (AddResourceUsed st d) = token_sum st"
  by (simp_all add: token_sum_def kDel_def sum_delete AddResourceUsed_def)

lemma balance_keys [simp]:
  "MakeAccountBalanceKey a \<noteq> distributedKey" "MakeAccountBalanceKey a \<noteq> totalSupplyKey"
  "distributedKey \<noteq> MakeAccountBalanceKey a" "totalSupplyKey \<noteq> MakeAccountBalanceKey a"
  "totalSupplyKey \<noteq> distributedKey" "distributedKey \<noteq> totalSupplyKey"
  "MakeAccountBalanceKey a = MakeAccountBalanceKey a' \<longleftrightarrow> a = a'"
  by (simp_all add: MakeAccountBalanceKey_def distributedKey_def totalSupplyKey_def)

lemma token_sum_putBalance:
  "token_sum (putBalance st a b) =
     token_sum st + TotalBalance b - stored_value (kGet st governTokenBucket (MakeAccountBalanceKey a))"
  by (simp add: putBalance_def token_sum_kPut)

lemma kGet_putBalance [simp]:
  "kGet (putBalance st a b) governTokenBucket k =
     (if k = MakeAccountBalanceKey a then Some (BalanceJson b) else kGet st governTokenBucket k)"
  by (simp add: putBalance_def)

lemma balanceOf_value:
  "balanceOf st a = Some b \<Longrightarrow> stored_value (kGet st governTokenBucket (MakeAccountBalanceKey a)) = TotalBalance b"
  by (auto simp: balanceOf_def unmarshalBalance_def stored_value_def split: option.splits payload.splits)

lemma TotalBalance_setLocked [simp]: "TotalBalance (setLocked b lt v) = TotalBalance b"
  by (simp add: setLocked_def)

section \<open>The recorded supply is the sum of the balances\<close>

definition fresh_tokens :: "kstate \<Rightarrow> bool" where
  "fresh_tokens st \<longleftrightarrow> (\<forall>e \<in> set (kv st). fst (fst e) \<noteq> governTokenBucket)"

definition initialised :: "kstate \<Rightarrow> bool" where
  "initialised st \<longleftrightarrow> kGet st governTokenBucket distributedKey = Some (Text ''true'')"

definition supply_recorded :: "kstate \<Rightarrow> bool" where
  "supply_recorded st \<longleftrightarrow> kGet st governTokenBucket totalSupplyKey = Some (Text (dec_string (token_sum st)))"

definition tokens_ok :: "kstate \<Rightarrow> bool" where
  "tokens_ok st \<longleftrightarrow> fresh_tokens st \<or> initialised st \<and> supply_recorded st"

definition genesis_ok :: "gov_method \<Rightarrow> bool" where
  "genesis_ok t \<longleftrightarrow>
     distinct (map Address (Predistribution t)) \<and>
     (\<forall>ps \<in> set (Predistribution t). 0 \<le> fst (SetString (Quota ps)))"

lemma fresh_get: "fresh_tokens st \<Longrightarrow> kGet st governTokenBucket k = None"
  by (auto simp: fresh_tokens_def kGet_def map_of_eq_None_iff)

lemma fresh_sum: "fresh_tokens st \<Longrightarrow> token_sum st = 0"
proof -
  assume "fresh_tokens st"
  then have "map entry_value (kv st) = map (\<lambda>_. 0) (kv st)"
    by (simp add: fresh_tokens_def entry_value_def)
  then show ?thesis by (simp only: token_sum_def sum_list_0)
qed

lemma fresh_keys: "fresh_tokens st \<longleftrightarrow> (\<forall>k \<in> fst ` set (kv st). fst k \<noteq> governTokenBucket)"
  by (auto simp: fresh_tokens_def)

lemma fresh_ops [simp]:
  "b \<noteq> governTokenBucket \<Longrightarrow> fresh_tokens (kPut st b k v) = fresh_tokens st"
  "fresh_tokens (st\<lparr>used := u\<rparr>) = fresh_tokens st" "fresh_tokens (st\<lparr>cset := s\<rparr>) = fresh_tokens st"
  "fresh_tokens (AddResourceUsed st d) = fresh_tokens st"
  by (simp_all add: fresh_keys kPut_def AddResourceUsed_def dom_update)

lemma fresh_kDel: "fresh_tokens st \<Longrightarrow> fresh_tokens (kDel st b k)"
proof -
  assume "fresh_tokens st"
  moreover have "fst ` set (kv (kDel st b k)) \<subseteq> fst ` set (kv st)"
    by (simp add: kDel_def dom_delete_subset)
  ultimately show ?thesis unfolding fresh_keys by blast
qed

lemma tokens_ok_other:
  "b \<noteq> governTokenBucket \<Longrightarrow> tokens_ok st \<Longrightarrow> tokens_ok (kPut st b k v)"
  "b \<noteq> governTokenBucket \<Longrightarrow> tokens_ok st \<Longrightarrow> tokens_ok (kDel st b k)"
  "tokens_ok (st\<lparr>used := u\<rparr>) = tokens_ok st" "tokens_ok (st\<lparr>cset := s\<rparr>) = tokens_ok st"
  "tokens_ok (AddResourceUsed st d) = tokens_ok st"
  by (auto simp: tokens_ok_def initialised_def supply_recorded_def token_sum_kPut fresh_kDel)

lemma balanceOf_not_fresh: "balanceOf st a = Some b \<Longrightarrow> \<not> fresh_tokens st"
  by (auto simp: balanceOf_def fresh_get)

text \<open>Rewriting one account with the same total, or two with the same sum.\<close>

lemma tokens_ok_putBalance:
  assumes "tokens_ok st" "balanceOf st a = Some b" "TotalBalance b' = TotalBalance b"
  shows "tokens_ok (putBalance st a b')"
  using assms balanceOf_not_fresh [of st a b] balanceOf_value [of st a b]
  by (simp add: tokens_ok_def initialised_def supply_recorded_def token_sum_putBalance)

lemma tokens_ok_move:
  assumes "tokens_ok st" "balanceOf st a = Some b" "a' \<noteq> a"
    and "TotalBalance b1 = TotalBalance b - x"
    and "TotalBalance b2 = x + stored_value (kGet st governTokenBucket (MakeAccountBalanceKey a'))"
  shows "tokens_ok (putBalance (putBalance st a b1) a' b2)"
proof -
  have "token_sum (putBalance (putBalance st a b1) a' b2) = token_sum st"
    using assms balanceOf_value [of st a b] by (simp add: token_sum_putBalance)
  then show ?thesis
    using assms(1) balanceOf_not_fresh [OF assms(2)]
    by (simp add: tokens_ok_def initialised_def supply_recorded_def)
qed

lemma distribute_sum:
  assumes "\<forall>ps \<in> set pds. 0 \<le> fst (SetString (Quota ps))" "distinct (map Address pds)"
    and "\<forall>ps \<in> set pds. kGet st governTokenBucket (MakeAccountBalanceKey (Address ps)) = None"
  shows "\<exists>st' n. distribute pds m st = (st', KOk n) \<and> n - m = token_sum st' - token_sum st"
  using assms
proof (induction pds arbitrary: m st)
  case (Cons ps pds)
  let ?b = "NewGovernTokenBalance\<lparr>TotalBalance := fst (SetString (Quota ps))\<rparr>"
  let ?st = "putBalance st (Address ps) ?b"
  have "\<forall>q \<in> set pds. kGet ?st governTokenBucket (MakeAccountBalanceKey (Address q)) = None"
    using Cons.prems by (auto simp: image_iff)
  moreover have "token_sum ?st = token_sum st + fst (SetString (Quota ps))"
    using Cons.prems by (simp add: token_sum_putBalance stored_value_def)
  ultimately show ?case
    using Cons.prems Cons.IH [of ?st "m + fst (SetString (Quota ps))"] by (auto simp: Let_def)
qed simp

lemma distribute_other:
  "distribute pds m st = (st', r) \<Longrightarrow> k \<notin> range MakeAccountBalanceKey \<Longrightarrow>
     kGet st' governTokenBucket k = kGet st governTokenBucket k"
  by (induction pds m st rule: distribute.induct) (auto simp: Let_def split: if_splits)

lemma not_balance_keys: "distributedKey \<notin> range MakeAccountBalanceKey" "totalSupplyKey \<notin> range MakeAccountBalanceKey"
  by auto

lemma Init_tokens_ok:
  assumes "genesis_ok t" "tokens_ok st"
  shows "tokens_ok (fst (InitGovernTokens t ctx st))"
proof (cases "initialised st")
  case True
  then show ?thesis using assms by (simp add: InitGovernTokens_def initialised_def)
next
  case False
  then have fresh: "fresh_tokens st" using assms by (simp add: tokens_ok_def)
  then obtain st' n where "distribute (Predistribution t) 0 st = (st', KOk n)" "n = token_sum st'"
    using distribute_sum [of "Predistribution t" st 0] assms by (auto simp: genesis_ok_def fresh_get fresh_sum)
  moreover from this have "kGet st' governTokenBucket k = None" if "k \<notin> range MakeAccountBalanceKey" for k
    using distribute_other [of _ _ st st' _ k] that fresh by (simp add: fresh_get)
  ultimately show ?thesis using False
    by (simp add: InitGovernTokens_def initialised_def if_ok_def after_call_def Let_def tokens_ok_def
        supply_recorded_def token_sum_kPut stored_value_def not_balance_keys)
qed

lemma Transfer_tokens_ok: "tokens_ok st \<Longrightarrow> tokens_ok (fst (TransferGovernTokens t ctx st))"
  by (auto simp: TransferGovernTokens_def Let_def tokens_ok_other tokens_ok_putBalance stored_value_def
      split: option.split payload.split prod.split intro!: tokens_ok_move)

lemma Lock_tokens_ok: "tokens_ok st \<Longrightarrow> tokens_ok (fst (LockGovernTokens t ctx st))"
  by (auto simp: LockGovernTokens_def Let_def tokens_ok_other tokens_ok_putBalance split: option.split)

lemma UnLock_tokens_ok: "tokens_ok st \<Longrightarrow> tokens_ok (fst (UnLockGovernTokens t ctx st))"
  by (auto simp: UnLockGovernTokens_def Let_def tokens_ok_other tokens_ok_putBalance split: option.split)

lemma read_only [simp]: "fst (QueryAccountGovernTokens ctx st) = st" "fst (TotalSupply ctx st) = st"
  by (simp_all add: QueryAccountGovernTokens_def TotalSupply_def split: option.split)

lemma gov_methods_tokens_ok:
  "genesis_ok t \<Longrightarrow> map_of (gov_methods t) f = Some m \<Longrightarrow> tokens_ok st \<Longrightarrow> tokens_ok (fst (m ctx st))"
  by (auto simp: gov_methods_def Init_tokens_ok Transfer_tokens_ok Lock_tokens_ok UnLock_tokens_ok
      split: if_splits)

section \<open>Locks\<close>

lemma unmarshalBalance_locked:
  "unmarshalBalance (BalanceJson b) = Some b' \<Longrightarrow>
     locked b' lt = (map_of (LockedBalance NewGovernTokenBalance) ++ map_of (LockedBalance b)) lt \<and>
     TotalBalance b' = TotalBalance b"
  by (auto simp: unmarshalBalance_def locked_def merge_conv')

lemma balanceOf_locked:
  "balanceOf st a = Some b \<Longrightarrow> lockType_ok lt \<Longrightarrow> \<exists>l. locked b lt = Some l"
  by (auto simp: balanceOf_def unmarshalBalance_def locked_def merge_conv' lockType_ok_def
      NewGovernTokenBalance_def map_add_def split: option.splits payload.splits)

text \<open>What an account holds and has locked, read through \<open>balanceOf\<close>.\<close>

definition total_of :: "kstate \<Rightarrow> string \<Rightarrow> int option" where
  "total_of st a = map_option TotalBalance (balanceOf st a)"

definition locked_of :: "kstate \<Rightarrow> string \<Rightarrow> string \<Rightarrow> int option" where
  "locked_of st a lt = Option.bind (balanceOf st a) (\<lambda>b. locked b lt)"

lemma balanceOf_putBalance_other: "a' \<noteq> a \<Longrightarrow> balanceOf (putBalance st a b) a' = balanceOf st a'"
  by (simp add: balanceOf_def)

lemma balanceOf_other [simp]:
  "balanceOf (AddResourceUsed st d) a = balanceOf st a"
  "balanceOf (st\<lparr>used := u\<rparr>) a = balanceOf st a" "balanceOf (st\<lparr>cset := s\<rparr>) a = balanceOf st a"
  "bkt \<noteq> governTokenBucket \<Longrightarrow> balanceOf (kPut st bkt k v) a = balanceOf st a"
  by (simp_all add: balanceOf_def)

lemma of_other [simp]:
  "total_of (AddResourceUsed st d) a = total_of st a" "locked_of (AddResourceUsed st d) a lt = locked_of st a lt"
  "total_of (st\<lparr>used := u\<rparr>) a = total_of st a" "locked_of (st\<lparr>used := u\<rparr>) a lt = locked_of st a lt"
  "total_of (st\<lparr>cset := s\<rparr>) a = total_of st a" "locked_of (st\<lparr>cset := s\<rparr>) a lt = locked_of st a lt"
  "bkt \<noteq> governTokenBucket \<Longrightarrow> total_of (kPut st bkt k v) a = total_of st a"
  "bkt \<noteq> governTokenBucket \<Longrightarrow> locked_of (kPut st bkt k v) a lt = locked_of st a lt"
  by (simp_all add: total_of_def locked_of_def)

lemma total_of_putBalance [simp]:
  "total_of (putBalance st a b) a' = (if a' = a then Some (TotalBalance b) else total_of st a')"
  by (simp add: total_of_def balanceOf_def unmarshalBalance_def)

lemma locked_of_putBalance [simp]:
  "locked b lt = Some l \<Longrightarrow>
     locked_of (putBalance st a b) a' lt = (if a' = a then Some l else locked_of st a' lt)"
  by (simp add: locked_of_def balanceOf_def unmarshalBalance_def locked_def merge_conv' map_add_def)

lemma locked_setLocked [simp]: "locked (setLocked b lt v) lt' = (if lt' = lt then Some v else locked b lt')"
  by (simp add: locked_def setLocked_def update_conv')

lemma locked_of_eq:
  "locked_of st a lt = Some l \<longleftrightarrow> (\<exists>b. balanceOf st a = Some b \<and> locked b lt = Some l)"
  by (simp add: locked_of_def bind_eq_Some_conv)

lemma locked_of_setLocked:
  assumes "balanceOf st a = Some b" "lockType_ok lt'"
  shows "locked_of (putBalance st a (setLocked b lt v)) a' lt' =
           (if a' = a \<and> lt' = lt then Some v else locked_of st a' lt')"
proof -
  obtain l where "locked b lt' = Some l" using balanceOf_locked [OF assms] by blast
  then show ?thesis using assms(1) by (cases "lt' = lt") (auto simp: locked_of_def [of st])
qed

definition lock_args :: "string \<Rightarrow> payload \<Rightarrow> args" where
  "lock_args a amount = [(''from'', Text a), (''amount'', amount), (''lock_type'', Text GovernTokenTypeOrdinary)]"

lemma ordinary_ok [simp]: "lockType_ok GovernTokenTypeOrdinary"
  by (simp add: lockType_ok_def)

end
