(* ===== verification/TimerTask.thy ===== *)
theory TimerTask
  imports GovernToken
begin

text \<open>
  The kernel contract \<open>$timer_task\<close> (\<^verbatim>\<open>contract/proposal/timer/timer_task_contract.go\<close>):
  tasks are stored under the block height at which they are due, and \<open>Do\<close> calls the contract
  methods that the tasks of a height name. \<open>call\<close> is the context's \<open>Call\<close>.
\<close>

section \<open>Keys\<close>

definition timerBucket :: string where "timerBucket = ''timer''"
definition taskIDKey :: string where "taskIDKey = ''id''"

definition MakeTimerBlockHeightTaskKey :: "string \<Rightarrow> string \<Rightarrow> string" where
  "MakeTimerBlockHeightTaskKey blockHeight taskID = blockHeight @ ''_'' @ taskID"

definition MakeTimerBlockHeightPrefix :: "string \<Rightarrow> string" where
  "MakeTimerBlockHeightPrefix blockHeight = blockHeight @ ''_''"

definition MakeTimerBlockHeightPrefixSeparator :: "string \<Rightarrow> string" where
  "MakeTimerBlockHeightPrefixSeparator blockHeight = blockHeight @ ''_'' @ ''_''"

text \<open>\<open>PrefixRange\<close>: the loop runs from the last byte, here over the reversed prefix; \<open>nil\<close> if no byte can be raised.\<close>

fun PrefixRangeLoop :: "string \<Rightarrow> string" where
  "PrefixRangeLoop [] = []"
| "PrefixRangeLoop (c # cs) =
     (if (of_char c :: nat) < 255 then rev (char_of ((of_char c :: nat) + 1) # cs) else PrefixRangeLoop cs)"

definition PrefixRange :: "string \<Rightarrow> string" where
  "PrefixRange prefix = PrefixRangeLoop (rev prefix)"

section \<open>The methods\<close>

definition getNextTaskID :: "kstate \<Rightarrow> string" where
  "getNextTaskID st =
     (case kGet st timerBucket taskIDKey of
        None \<Rightarrow> dec_string 1
      | Some latestTaskID \<Rightarrow> dec_string (fst (SetString (text_of latestTaskID)) + 1))"

definition Timer_Add :: kmethod where
  "Timer_Add ctx st =
     (case (arg ctx ''block_height'', arg ctx ''trigger'') of
        (Some blockHeightBuf, Some triggerBuf) \<Rightarrow>
          (let taskID = getNextTaskID st;
               st1 = kPut st timerBucket taskIDKey (Text taskID);
               st2 = kPut st1 timerBucket (MakeTimerBlockHeightTaskKey (text_of blockHeightBuf) taskID) triggerBuf
           in (AddResourceUsed st2 (fee 0), success None))
      | _ \<Rightarrow> (st, KErr ErrNilArgument))"

text \<open>\<open>Trigger\<close> drops errors: of the text, and of the call.\<close>

definition Timer_Trigger :: "kcall \<Rightarrow> kctx \<Rightarrow> kstate \<Rightarrow> payload \<Rightarrow> kstate \<times> unit kres" where
  "Timer_Trigger call ctx st triggerBuf =
     (case triggerBuf of
        TriggerJson trigger \<Rightarrow>
          after_call (call ctx st (t_Module trigger) (t_Contract trigger) (t_Method trigger)
                        [(''args'', ArgsJson (t_Args trigger))])
            (\<lambda>st' e. (st', KOk ()))
            (\<lambda>st' resp. (st', KOk ()))
      | _ \<Rightarrow> (st, KOk ()))"

fun doTasks :: "kcall \<Rightarrow> kctx \<Rightarrow> (string \<times> payload) list \<Rightarrow> kstate \<Rightarrow> kstate \<times> unit kres" where
  "doTasks call ctx [] st = (st, KOk ())"
| "doTasks call ctx ((k, triggerBuf) # rest) st =
     if_ok (Timer_Trigger call ctx st triggerBuf) (\<lambda>st' x. doTasks call ctx rest st')"

text \<open>
  The iterator of \<open>Do\<close> is open while the tasks run; the tasks here are those that were there when
  it was opened. A task that is added for the very height that is being worked off is left out.
\<close>

definition Timer_Do :: "kcall \<Rightarrow> kmethod" where
  "Timer_Do call ctx st =
     (case arg ctx ''block_height'' of
        None \<Rightarrow> (st, KErr ErrNilArgument)
      | Some blockHeightBuf \<Rightarrow>
          (let blockHeight = text_of blockHeightBuf;
               startKey = MakeTimerBlockHeightPrefix blockHeight;
               endKey = PrefixRange (MakeTimerBlockHeightPrefixSeparator blockHeight)
           in if_ok (doTasks call ctx (kSelect st timerBucket startKey endKey) st)
                (\<lambda>st' x. (AddResourceUsed st' (fee 0), success None))))"

definition timer_methods :: "kcall \<Rightarrow> (string \<times> kmethod) list" where
  "timer_methods call = [(''Add'', Timer_Add), (''Do'', Timer_Do call)]"

section \<open>What the methods keep\<close>

context call_relation
begin

lemma Timer_Add_rel: "put_ok timerBucket \<Longrightarrow> R st (fst (Timer_Add ctx st))"
  by (simp add: Timer_Add_def Let_def rel_put split: option.split)

lemma Timer_Trigger_rel: "keeps_call call \<Longrightarrow> R st (fst (Timer_Trigger call ctx st buf))"
  by (cases buf) (auto simp: Timer_Trigger_def intro!: rel_after_call keeps_callD)

lemma doTasks_rel: "keeps_call call \<Longrightarrow> R st (fst (doTasks call ctx tasks st))"
proof (induction tasks arbitrary: st)
  case (Cons task tasks)
  obtain k buf where [simp]: "task = (k, buf)" by force
  have "R st (fst (Timer_Trigger call ctx st buf))"
    using Cons.prems by (rule Timer_Trigger_rel)
  with Cons show ?case by (auto intro!: rel_if_ok intro: rel_trans)
qed simp

lemma timer_methods_keep:
  "keeps_call call \<Longrightarrow> put_ok timerBucket \<Longrightarrow> map_of (timer_methods call) f = Some m \<Longrightarrow> keeps c m"
  by (auto simp: timer_methods_def keeps_def Timer_Add_rel Timer_Do_def Let_def doTasks_rel
      split: if_splits option.split intro!: rel_if_ok)

end

end
