(* ===== verification/Propose.thy ===== *)
theory Propose
  imports TimerTask
begin

text \<open>
  The kernel contract \<open>$proposal\<close> (\<^verbatim>\<open>contract/proposal/propose/propose_contract.go\<close>): a
  proposal is put to the vote, counted at its closing height by a timer task, and if it passes
  carried out at its trigger height by another. Votes and the proposer's deposit are locked
  governance tokens. \<open>call\<close> is the context's \<open>Call\<close>.
\<close>

section \<open>Keys and states\<close>

definition proposalBucket :: string where "proposalBucket = ''proposal''"
definition proposalIDKey :: string where "proposalIDKey = ''id''"

definition MakeProposalKey :: "string \<Rightarrow> string" where
  "MakeProposalKey proposalID = proposalID"

definition MakeProposalLockPrefix :: "string \<Rightarrow> string" where
  "MakeProposalLockPrefix proposalID = ''lock'' @ ''_'' @ proposalID @ ''_''"

definition MakeProposalLockKey :: "string \<Rightarrow> string \<Rightarrow> string" where
  "MakeProposalLockKey proposalID account = ''lock'' @ ''_'' @ proposalID @ ''_'' @ account"

definition MakeProposalLockPrefixSeparator :: "string \<Rightarrow> string" where
  "MakeProposalLockPrefixSeparator proposalID = ''lock'' @ ''_'' @ proposalID @ ''_'' @ ''~''"

definition ProposalStatusVoting :: string where "ProposalStatusVoting = ''voting''"
definition ProposalStatusCancelled :: string where "ProposalStatusCancelled = ''cancelled''"
definition ProposalStatusRejected :: string where "ProposalStatusRejected = ''rejected''"
definition ProposalStatusPassed :: string where "ProposalStatusPassed = ''passed''"
definition ProposalStatusCompletedAndFailure :: string where "ProposalStatusCompletedAndFailure = ''completed_failure''"
definition ProposalStatusCompletedAndSuccess :: string where "ProposalStatusCompletedAndSuccess = ''completed_success''"

lemmas proposal_status_defs = ProposalStatusVoting_def ProposalStatusCancelled_def ProposalStatusRejected_def
  ProposalStatusPassed_def ProposalStatusCompletedAndFailure_def ProposalStatusCompletedAndSuccess_def

section \<open>Checks and helpers\<close>

definition Parse :: "payload option \<Rightarrow> proposal option" where
  "Parse buf = (case buf of Some (ProposalJson p) \<Rightarrow> Some p | _ \<Rightarrow> None)"

definition checkVoteThread :: "string \<Rightarrow> unit kres" where
  "checkVoteThread s =
     (let (voteThread, ok) = SetString s in
      if \<not> ok then KErr ErrParse
      else if voteThread > 100 \<or> voteThread < 51 then KErr ErrVotePercent else KOk ())"

definition parseVoteStopHeight :: "string \<Rightarrow> int kres" where
  "parseVoteStopHeight s = (let (h, ok) = SetString s in if \<not> ok then KErr ErrStopHeight else KOk h)"

text \<open>A type assertion \<open>.(string)\<close> panics on anything else, a missing key included.\<close>

definition checkProposalArgs :: "proposal \<Rightarrow> unit kres" where
  "checkProposalArgs p =
     (let percent = jget (p_Args p) ''min_vote_percent''; stop = jget (p_Args p) ''stop_vote_height'' in
      if percent = JString [] \<or> stop = JString [] then KErr ErrNilArgument
      else case percent of
        JString ps \<Rightarrow>
          (case checkVoteThread ps of
             KOk _ \<Rightarrow>
               (case stop of
                  JString ss \<Rightarrow>
                    (case parseVoteStopHeight ss of
                       KOk voteStopHeight \<Rightarrow>
                         (case p_Trigger p of
                            None \<Rightarrow> KPanic
                          | Some tr \<Rightarrow>
                              if t_Height tr \<noteq> 0 \<and> t_Height tr \<le> voteStopHeight then KErr ErrTriggerHeight
                              else KOk ())
                     | KErr e \<Rightarrow> KErr e
                     | KPanic \<Rightarrow> KPanic)
                | _ \<Rightarrow> KPanic)
           | KErr e \<Rightarrow> KErr e
           | KPanic \<Rightarrow> KPanic)
      | _ \<Rightarrow> KPanic)"

definition getNextProposalID :: "kstate \<Rightarrow> string" where
  "getNextProposalID st =
     (case kGet st proposalBucket proposalIDKey of
        None \<Rightarrow> dec_string 1
      | Some latestProposalID \<Rightarrow> dec_string (fst (SetString (text_of latestProposalID)) + 1))"

definition getProposal :: "kstate \<Rightarrow> string \<Rightarrow> proposal option" where
  "getProposal st proposalID = Parse (kGet st proposalBucket (MakeProposalKey proposalID))"

definition updateProposal :: "kstate \<Rightarrow> string \<Rightarrow> proposal \<Rightarrow> kstate" where
  "updateProposal st proposalID p = kPut st proposalBucket (MakeProposalKey proposalID) (ProposalJson p)"

text \<open>\<open>encoding/json\<close> writes a byte slice as the string of its base64 encoding.\<close>

definition makeTimerArgs :: "string \<Rightarrow> string \<Rightarrow> string \<Rightarrow> args" where
  "makeTimerArgs proposalID triggerHeight method =
     [(''block_height'', Text triggerHeight),
      (''trigger'', TriggerJson
         \<lparr>t_Height = 0, t_Module = TypeKernel, t_Contract = ProposalKernelContract, t_Method = method,
          t_Args = [(''proposal_id'', JString (base64_encode proposalID))]\<rparr>)]"

text \<open>
  The loop of \<open>unlockGovernTokensForProposal\<close>; an error of a call is skipped, so that the
  function itself has no error.
\<close>

fun unlockLoop :: "kcall \<Rightarrow> kctx \<Rightarrow> nat \<Rightarrow> (string \<times> payload) list \<Rightarrow> kstate \<Rightarrow> kstate \<times> unit kres" where
  "unlockLoop call ctx n [] st = (st, KOk ())"
| "unlockLoop call ctx n ((key, unLockAmount) # rest) st =
     after_call (call ctx st TypeKernel GovernTokenKernelContract ''UnLock'' (lock_args (drop n key) unLockAmount))
       (\<lambda>st' e. unlockLoop call ctx n rest st')
       (\<lambda>st' resp. unlockLoop call ctx n rest st')"

definition unlockGovernTokensForProposal :: "kcall \<Rightarrow> kctx \<Rightarrow> kstate \<Rightarrow> string \<Rightarrow> kstate \<times> unit kres" where
  "unlockGovernTokensForProposal call ctx st proposalID =
     (let startKey = MakeProposalLockPrefix proposalID;
          endKey = PrefixRange (MakeProposalLockPrefixSeparator proposalID)
      in unlockLoop call ctx (length startKey) (kSelect st proposalBucket startKey endKey) st)"

section \<open>The methods\<close>

definition depositAmount :: string where "depositAmount = ''1000''"

text \<open>The arguments are fine, or the error or panic of the check is the result.\<close>

definition checked :: "kstate \<Rightarrow> 'a kres \<Rightarrow> ('a \<Rightarrow> kstate \<times> 'b kres) \<Rightarrow> kstate \<times> 'b kres" where
  "checked st r cont = if_ok (st, r) (\<lambda>_. cont)"

definition Prop_Propose :: "kcall \<Rightarrow> kmethod" where
  "Prop_Propose call ctx st =
     (let proposalID = getNextProposalID st in
      case Parse (arg ctx ''proposal'') of
        None \<Rightarrow> (st, KErr ErrParse)
      | Some p \<Rightarrow>
          checked st (checkProposalArgs p) (\<lambda>_.
            case jget (p_Args p) ''stop_vote_height'' of
              JString stopVoteHeight \<Rightarrow>
                if_ok (call ctx st TypeKernel TimerTaskKernelContract ''Add''
                         (makeTimerArgs proposalID stopVoteHeight ''CheckVoteResult''))
                  (\<lambda>st1 _.
                     let from = Initiator ctx in
                     if_ok (call ctx st1 TypeKernel GovernTokenKernelContract ''Lock''
                              (lock_args from (Text depositAmount)))
                       (\<lambda>st2 _.
                          let st3 = kPut st2 proposalBucket (MakeProposalLockKey proposalID from) (Text depositAmount);
                              st4 = kPut st3 proposalBucket proposalIDKey (Text proposalID);
                              st5 = updateProposal st4 proposalID
                                      (p\<lparr>VoteAmount := Some 0, p_Status := ProposalStatusVoting,
                                         Proposer := Initiator ctx\<rparr>)
                          in (AddResourceUsed st5 (fee 100), success (Some (Text proposalID)))))
            | _ \<Rightarrow> (st, KPanic)))"

definition Prop_Vote :: "kcall \<Rightarrow> kmethod" where
  "Prop_Vote call ctx st =
     (case (arg ctx ''proposal_id'', arg ctx ''amount'') of
        (Some proposalIDBuf, Some amountBuf) \<Rightarrow>
          (let pid = text_of proposalIDBuf; (lockAmount, isAmount) = SetString (text_of amountBuf) in
           if \<not> isAmount \<or> lockAmount < 0 then (st, KErr ErrBadAmount)
           else case getProposal st pid of
             None \<Rightarrow> (st, KErr ErrNoProposal)
           | Some p \<Rightarrow>
               if p_Status p \<noteq> ProposalStatusVoting then (st, KErr ErrStatus)
               else
                 (let from = Initiator ctx in
                  if_ok (call ctx st TypeKernel GovernTokenKernelContract ''Lock'' (lock_args from amountBuf))
                    (\<lambda>st1 _.
                       let lockKey = MakeProposalLockKey pid from;
                           lockAmountCurrent =
                             (case kGet st1 proposalBucket lockKey of
                                None \<Rightarrow> lockAmount
                              | Some lockAmountBuf \<Rightarrow> lockAmount + fst (SetString (text_of lockAmountBuf)));
                           st2 = kPut st1 proposalBucket lockKey (Text (dec_string lockAmountCurrent))
                       in case VoteAmount p of
                            None \<Rightarrow> (st2, KPanic)
                          | Some votes \<Rightarrow>
                              (AddResourceUsed
                                 (updateProposal st2 pid (p\<lparr>VoteAmount := Some (votes + lockAmount)\<rparr>)) (fee 100),
                               success None))))
      | _ \<Rightarrow> (st, KErr ErrNilArgument))"

definition Prop_Thaw :: "kcall \<Rightarrow> kmethod" where
  "Prop_Thaw call ctx st =
     (case arg ctx ''proposal_id'' of
        None \<Rightarrow> (st, KErr ErrNilArgument)
      | Some proposalIDBuf \<Rightarrow>
          (let pid = text_of proposalIDBuf in
           case getProposal st pid of
             None \<Rightarrow> (st, KErr ErrNoProposal)
           | Some p \<Rightarrow>
               if Proposer p \<noteq> Initiator ctx then (st, KErr ErrNoAuthority)
               else case VoteAmount p of
                 None \<Rightarrow> (st, KPanic)
               | Some votes \<Rightarrow>
                   if votes > 0 then (st, KErr ErrVoted)
                   else if p_Status p \<noteq> ProposalStatusVoting then (st, KErr ErrStatus)
                   else
                     (let st1 = updateProposal st pid (p\<lparr>p_Status := ProposalStatusCancelled\<rparr>);
                          from = Initiator ctx
                      in case kGet st1 proposalBucket (MakeProposalLockKey pid from) of
                           None \<Rightarrow> (st1, KErr ErrNoKey)
                         | Some lockAmountBuf \<Rightarrow>
                             if_ok (call ctx st1 TypeKernel GovernTokenKernelContract ''UnLock''
                                      (lock_args from lockAmountBuf))
                               (\<lambda>st2 _. (AddResourceUsed st2 (fee 100), success None)))))"

definition Prop_Query :: kmethod where
  "Prop_Query ctx st =
     (case arg ctx ''proposal_id'' of
        None \<Rightarrow> (st, KErr ErrNilArgument)
      | Some proposalIDBuf \<Rightarrow>
          (case getProposal st (text_of proposalIDBuf) of
             None \<Rightarrow> (st, KErr ErrNoProposal)
           | Some p \<Rightarrow> (st, success (Some (ProposalJson p)))))"

text \<open>
  The argument of a timer task: the structure \<open>ProposalID\<close>, whose field stays empty where the
  object has no such key or \<open>null\<close>, and the base64 text in it.
\<close>

definition taskProposalID :: "kctx \<Rightarrow> string option" where
  "taskProposalID ctx =
     (case arg ctx ''args'' of
        Some (ArgsJson obj) \<Rightarrow>
          (case jget obj ''proposal_id'' of
             JNull \<Rightarrow> base64_decode []
           | JString s \<Rightarrow> base64_decode s
           | JOther \<Rightarrow> None)
      | _ \<Rightarrow> None)"

text \<open>The threshold, with the text of the total supply and the percentage.\<close>

definition threadTickets :: "payload option \<Rightarrow> string \<Rightarrow> int" where
  "threadTickets body percent =
     fst (SetString (case body of None \<Rightarrow> [] | Some b \<Rightarrow> text_of b)) * fst (SetString percent) div 100"

definition Prop_CheckVoteResult :: "kcall \<Rightarrow> kmethod" where
  "Prop_CheckVoteResult call ctx st =
     (if Caller ctx \<noteq> TimerTaskKernelContract then (st, KErr ErrNoAuthority)
      else case taskProposalID ctx of
        None \<Rightarrow> (st, KErr ErrParse)
      | Some pid \<Rightarrow>
          (case getProposal st pid of
             None \<Rightarrow> (st, KErr ErrNoProposal)
           | Some p \<Rightarrow>
               if p_Status p \<noteq> ProposalStatusVoting then (st, KOk \<lparr>Status = StatusException, Body = None\<rparr>)
               else
                 if_ok (call ctx st TypeKernel GovernTokenKernelContract ''TotalSupply'' [])
                   (\<lambda>st1 totalSupplyRes.
                      case (jget (p_Args p) ''min_vote_percent'', VoteAmount p) of
                        (JString percent, Some votes) \<Rightarrow>
                          if votes < threadTickets (Body totalSupplyRes) percent then
                            if_ok (unlockGovernTokensForProposal call ctx st1 pid)
                              (\<lambda>st2 _. (updateProposal st2 pid (p\<lparr>p_Status := ProposalStatusRejected\<rparr>), success None))
                          else
                            (case p_Trigger p of
                               None \<Rightarrow> (st1, KPanic)
                             | Some tr \<Rightarrow>
                                 if_ok (call ctx st1 TypeKernel TimerTaskKernelContract ''Add''
                                          (makeTimerArgs pid (dec_string (t_Height tr)) ''Trigger''))
                                   (\<lambda>st2 _. (updateProposal st2 pid (p\<lparr>p_Status := ProposalStatusPassed\<rparr>),
                                            success None)))
                      | _ \<Rightarrow> (st1, KPanic))))"

definition Prop_Trigger :: "kcall \<Rightarrow> kmethod" where
  "Prop_Trigger call ctx st =
     (if Caller ctx \<noteq> TimerTaskKernelContract then (st, KErr ErrNoAuthority)
      else case taskProposalID ctx of
        None \<Rightarrow> (st, KErr ErrParse)
      | Some pid \<Rightarrow>
          (case getProposal st pid of
             None \<Rightarrow> (st, KErr ErrNoProposal)
           | Some p \<Rightarrow>
               if p_Status p \<noteq> ProposalStatusPassed then (st, KOk \<lparr>Status = StatusException, Body = None\<rparr>)
               else
                 (case p_Trigger p of
                    None \<Rightarrow> (st, KPanic)
                  | Some tr \<Rightarrow>
                      (let done = (\<lambda>st1 status.
                             if_ok (unlockGovernTokensForProposal call ctx st1 pid)
                               (\<lambda>st2 _. (updateProposal st2 pid (p\<lparr>p_Status := status\<rparr>), success None)))
                       in after_call
                            (call ctx st (t_Module tr) (t_Contract tr) (t_Method tr)
                               [(''args'', ArgsJson (t_Args tr)), (''height'', Text (dec_string (t_Height tr)))])
                            (\<lambda>st1 e. done st1 ProposalStatusCompletedAndFailure)
                            (\<lambda>st1 resp. done st1 ProposalStatusCompletedAndSuccess)))))"

definition proposal_methods :: "kcall \<Rightarrow> (string \<times> kmethod) list" where
  "proposal_methods call =
     [(''Propose'', Prop_Propose call), (''Vote'', Prop_Vote call), (''Thaw'', Prop_Thaw call),
      (''CheckVoteResult'', Prop_CheckVoteResult call), (''Trigger'', Prop_Trigger call), (''Query'', Prop_Query)]"

section \<open>What the methods keep\<close>

lemma buckets [simp]:
  "timerBucket \<noteq> governTokenBucket" "proposalBucket \<noteq> governTokenBucket" "timerBucket \<noteq> proposalBucket"
  "governTokenBucket \<noteq> timerBucket" "governTokenBucket \<noteq> proposalBucket" "proposalBucket \<noteq> timerBucket"
  by (simp_all add: timerBucket_def governTokenBucket_def proposalBucket_def)

lemma contracts [simp]:
  "ProposalKernelContract \<noteq> GovernTokenKernelContract" "ProposalKernelContract \<noteq> TimerTaskKernelContract"
  "GovernTokenKernelContract \<noteq> TimerTaskKernelContract" "GovernTokenKernelContract \<noteq> ProposalKernelContract"
  "TimerTaskKernelContract \<noteq> ProposalKernelContract" "TimerTaskKernelContract \<noteq> GovernTokenKernelContract"
  "ProposalKernelContract \<noteq> []" "GovernTokenKernelContract \<noteq> []" "TimerTaskKernelContract \<noteq> []"
  by (simp_all add: ProposalKernelContract_def GovernTokenKernelContract_def TimerTaskKernelContract_def)

context call_relation
begin

lemma unlockLoop_rel: "keeps_call call \<Longrightarrow> R st (fst (unlockLoop call ctx n locks st))"
proof (induction locks arbitrary: st)
  case (Cons e locks)
  obtain key amount where [simp]: "e = (key, amount)" by force
  let ?st = "fst (call ctx st TypeKernel GovernTokenKernelContract ''UnLock'' (lock_args (drop n key) amount))"
  have "R st ?st" using Cons.prems by (rule keeps_callD)
  with Cons show ?case by (auto intro!: rel_after_call intro: rel_trans)
qed simp

lemma unlock_rel: "keeps_call call \<Longrightarrow> R st0 st \<Longrightarrow> R st0 (fst (unlockGovernTokensForProposal call ctx st pid))"
  unfolding unlockGovernTokensForProposal_def Let_def by (rule rel_trans) (auto intro: unlockLoop_rel)

lemma call_rel: "keeps_call call \<Longrightarrow> R st0 st \<Longrightarrow> R st0 (fst (call ctx st module c f as))"
  by (rule rel_trans) (auto intro: keeps_callD)

lemma rel_updateProposal: "put_ok proposalBucket \<Longrightarrow> R st st' \<Longrightarrow> R st (updateProposal st' pid p)"
  by (simp add: updateProposal_def rel_put)

lemma rel_checked: "(\<And>x. R st (fst (cont x))) \<Longrightarrow> R st (fst (checked st r cont))"
  by (simp add: checked_def rel_if_ok)

lemmas rel_intros = rel_if_ok rel_after_call rel_checked rel_updateProposal rel_put rel_refl

lemma proposal_methods_keep:
  assumes "keeps_call call" "put_ok proposalBucket" "map_of (proposal_methods call) f = Some m"
  shows "keeps c m"
proof -
  note intros = call_rel [OF assms(1)] unlock_rel [OF assms(1)] rel_intros
  have "R st (fst (Prop_Propose call ctx st))" for ctx st
    using assms(2) by (auto simp: Prop_Propose_def Let_def split: option.split jvalue.split intro!: intros)
  moreover have "R st (fst (Prop_Vote call ctx st))" for ctx st
    using assms(2) by (auto simp: Prop_Vote_def Let_def split: option.split prod.split intro!: intros)
  moreover have "R st (fst (Prop_Thaw call ctx st))" for ctx st
    using assms(2) by (auto simp: Prop_Thaw_def Let_def split: option.split intro!: intros)
  moreover have "R st (fst (Prop_CheckVoteResult call ctx st))" for ctx st
    using assms(2)
    by (auto simp: Prop_CheckVoteResult_def Let_def split: option.split jvalue.split intro!: intros)
  moreover have "R st (fst (Prop_Trigger call ctx st))" for ctx st
    using assms(2) by (auto simp: Prop_Trigger_def Let_def split: option.split intro!: intros)
  moreover have "R st (fst (Prop_Query ctx st))" for ctx st
    by (simp add: Prop_Query_def split: option.split)
  ultimately show ?thesis
    using assms(3) by (auto simp: proposal_methods_def keeps_def split: if_splits)
qed

end

end
