(* ===== verification/Governance.thy ===== *)
theory Governance
  imports Propose
begin

text \<open>
  The governance contracts together: their registration (\<open>NewGovManager\<close>,
  \<open>NewTimerTaskManager\<close>, \<open>NewProposeManager\<close> in \<^verbatim>\<open>contract/proposal\<close>), the calls between
  them and with user contracts, and what holds of them whatever is called in whatever order.
\<close>

section \<open>The system\<close>

definition empty_registry :: "'m registry" where
  "empty_registry = \<lparr>methods = \<lambda>_ _. None, known_contracts = \<lambda>_. False, shortcuts = \<lambda>_. None\<rparr>"

fun registerMethods :: "string \<Rightarrow> (string \<times> 'm) list \<Rightarrow> 'm registry \<Rightarrow> 'm registry option" where
  "registerMethods c [] r = Some r"
| "registerMethods c ((f, m) # ms) r = Option.bind (RegisterKernMethod r c f m) (registerMethods c ms)"

definition NewGovManager :: "gov_method \<Rightarrow> kmethod registry \<Rightarrow> kmethod registry option" where
  "NewGovManager t = registerMethods GovernTokenKernelContract (gov_methods t)"

definition NewTimerTaskManager :: "kcall \<Rightarrow> kmethod registry \<Rightarrow> kmethod registry option" where
  "NewTimerTaskManager call = registerMethods TimerTaskKernelContract (timer_methods call)"

definition NewProposeManager :: "kcall \<Rightarrow> kmethod registry \<Rightarrow> kmethod registry option" where
  "NewProposeManager call = registerMethods ProposalKernelContract (proposal_methods call)"

definition gov_registry :: "gov_method \<Rightarrow> kcall \<Rightarrow> kmethod registry option" where
  "gov_registry t call =
     Option.bind (NewGovManager t empty_registry) (\<lambda>r1.
       Option.bind (NewProposeManager call r1) (NewTimerTaskManager call))"

text \<open>The code of the deployed contracts: by module and name, the program for a method and its arguments.\<close>

type_synonym deployed = "string \<Rightarrow> string \<Rightarrow> (string \<Rightarrow> args \<Rightarrow> prog) option"

definition user_vm :: "deployed \<Rightarrow> kcall \<Rightarrow> contexts" where
  "user_vm code call module c =
     map_option (\<lambda>p f ctx st. run_prog call ctx (p f (Args ctx)) st) (code module c)"

definition sys_contexts :: "deployed \<Rightarrow> gov_method \<Rightarrow> kcall \<Rightarrow> contexts" where
  "sys_contexts code t call module c =
     (case gov_registry t call of None \<Rightarrow> None | Some reg \<Rightarrow> NewContext reg (user_vm code call) module c)"

text \<open>
  The calls with at most \<open>n\<close> levels of nesting. \<open>ErrOutOfFuel\<close> is no result of the code;
  21 levels are shown to be enough in the theory \<open>Nesting\<close>.
\<close>

primrec sys_call :: "(string \<Rightarrow> string \<Rightarrow> string \<Rightarrow> bool) \<Rightarrow> deployed \<Rightarrow> gov_method \<Rightarrow> nat \<Rightarrow> kcall" where
  "sys_call perm code t 0 = (\<lambda>ctx st module c f as. (st, KErr ErrOutOfFuel))"
| "sys_call perm code t (Suc n) = ContractCall perm (sys_contexts code t (sys_call perm code t n))"

text \<open>The call of a transaction, whose calls may nest \<open>n\<close> levels deep.\<close>

definition tx_call ::
    "(string \<Rightarrow> string \<Rightarrow> string \<Rightarrow> bool) \<Rightarrow> deployed \<Rightarrow> gov_method \<Rightarrow> nat \<Rightarrow> kctx \<Rightarrow> kstate \<Rightarrow> string \<Rightarrow> string \<Rightarrow>
     kstate \<times> response kres" where
  "tx_call perm code t n = TopCall (sys_contexts code t (sys_call perm code t n))"

text \<open>A transaction is committed if its call succeeds.\<close>

inductive committed :: "(string \<Rightarrow> string \<Rightarrow> string \<Rightarrow> bool) \<Rightarrow> deployed \<Rightarrow> gov_method \<Rightarrow> kstate \<Rightarrow> kstate \<Rightarrow> bool"
  for perm code t where
  commit: "Caller ctx = [] \<Longrightarrow> tx_call perm code t n ctx st module f = (st', KOk resp) \<Longrightarrow>
             committed perm code t st st'"

section \<open>The registry\<close>

definition registered :: "string \<Rightarrow> (string \<times> 'm) list \<Rightarrow> 'm registry \<Rightarrow> 'm registry \<Rightarrow> bool" where
  "registered c ms r r' \<longleftrightarrow>
     (\<forall>c' f. methods r' c' f = (if c' = c then (methods r c ++ map_of ms) f else methods r c' f)) \<and>
     (\<forall>c'. known_contracts r' c' \<longleftrightarrow> c' = c \<and> ms \<noteq> [] \<or> known_contracts r c') \<and> shortcuts r' = shortcuts r"

lemma registerMethods_fresh:
  assumes "distinct (map fst ms)" "\<forall>f \<in> fst ` set ms. methods r c f = None"
  shows "\<exists>r'. registerMethods c ms r = Some r' \<and> registered c ms r r'"
  using assms
proof (induction ms arbitrary: r)
  case (Cons fm ms)
  obtain f m where [simp]: "fm = (f, m)" by force
  let ?r = "r\<lparr>methods := (methods r)(c := (methods r c)(f \<mapsto> m)), known_contracts := (known_contracts r)(c := True)\<rparr>"
  have "RegisterKernMethod r c f m = Some ?r"
    using Cons.prems(2) by (simp add: RegisterKernMethod_def)
  moreover obtain r' where "registerMethods c ms ?r = Some r'" "registered c ms ?r r'"
  proof -
    have "\<forall>g \<in> fst ` set ms. methods ?r c g = None" using Cons.prems by auto
    with that Cons.IH [of ?r] Cons.prems(1) show thesis by auto
  qed
  moreover have "map_of ms f = None" using Cons.prems(1) by (simp add: map_of_eq_None_iff)
  ultimately show ?case by (auto simp: registered_def map_add_def split: option.split)
qed (simp add: registered_def)

lemma gov_registry_lookup:
  "\<exists>reg. gov_registry t call = Some reg \<and>
     (\<forall>c f m. GetKernMethod reg c f = Inr m \<longleftrightarrow>
        c = GovernTokenKernelContract \<and> map_of (gov_methods t) f = Some m \<or>
        c = ProposalKernelContract \<and> map_of (proposal_methods call) f = Some m \<or>
        c = TimerTaskKernelContract \<and> map_of (timer_methods call) f = Some m)"
proof -
  let ?g = GovernTokenKernelContract and ?p = ProposalKernelContract and ?t = TimerTaskKernelContract
  have distinct: "distinct (map fst (gov_methods t))" "distinct (map fst (proposal_methods call))"
    "distinct (map fst (timer_methods call))" "gov_methods t \<noteq> []" "proposal_methods call \<noteq> []" "timer_methods call \<noteq> []"
    by (simp_all add: gov_methods_def proposal_methods_def timer_methods_def)
  obtain r1 where r1: "NewGovManager t empty_registry = Some r1" "registered ?g (gov_methods t) empty_registry r1"
    using registerMethods_fresh [of "gov_methods t" empty_registry ?g] distinct
    by (auto simp: NewGovManager_def empty_registry_def)
  then have "methods r1 ?p f = None" for f by (simp add: registered_def empty_registry_def)
  then obtain r2 where r2: "NewProposeManager call r1 = Some r2" "registered ?p (proposal_methods call) r1 r2"
    using registerMethods_fresh [of "proposal_methods call" r1 ?p] distinct by (auto simp: NewProposeManager_def)
  then have "methods r2 ?t f = None" for f using r1 by (simp add: registered_def empty_registry_def)
  then obtain r3 where r3: "NewTimerTaskManager call r2 = Some r3" "registered ?t (timer_methods call) r2 r3"
    using registerMethods_fresh [of "timer_methods call" r2 ?t] distinct by (auto simp: NewTimerTaskManager_def)
  have "methods r3 c f =
      (if c = ?t then map_of (timer_methods call) f else if c = ?p then map_of (proposal_methods call) f
       else if c = ?g then map_of (gov_methods t) f else None)"
    "known_contracts r3 c \<longleftrightarrow> c = ?t \<or> c = ?p \<or> c = ?g" "shortcuts r3 f = None" for c f
    using r1(2) r2(2) r3(2) distinct by (auto simp: registered_def empty_registry_def map_add_def split: option.split)
  then have "GetKernMethod r3 c f = Inr m \<longleftrightarrow>
      c = ?g \<and> map_of (gov_methods t) f = Some m \<or> c = ?p \<and> map_of (proposal_methods call) f = Some m \<or>
      c = ?t \<and> map_of (timer_methods call) f = Some m" for c f m
    by (auto simp: GetKernMethod_def lookupMethod_def split: option.split)
  then show ?thesis by (auto simp: gov_registry_def r1(1) r2(1) r3(1))
qed

text \<open>The methods by contract and name, and the contexts without the registry.\<close>

definition kern_method :: "gov_method \<Rightarrow> kcall \<Rightarrow> string \<Rightarrow> string \<Rightarrow> kmethod option" where
  "kern_method t call c f =
     (if c = GovernTokenKernelContract then map_of (gov_methods t) f
      else if c = ProposalKernelContract then map_of (proposal_methods call) f
      else if c = TimerTaskKernelContract then map_of (timer_methods call) f
      else None)"

definition kern_exec :: "gov_method \<Rightarrow> kcall \<Rightarrow> string \<Rightarrow> string \<Rightarrow> kmethod" where
  "kern_exec t call c f ctx st =
     (case kern_method t call c f of None \<Rightarrow> (st, KErr ErrNoMethod) | Some m \<Rightarrow> m ctx st)"

lemma sys_contexts_eq [code]:
  "sys_contexts code t call module c =
     (if module = TypeKernel then Some (kern_exec t call c) else user_vm code call module c)"
proof -
  obtain reg where reg: "gov_registry t call = Some reg"
    and lookup: "\<And>c f m. GetKernMethod reg c f = Inr m \<longleftrightarrow> kern_method t call c f = Some m"
    using gov_registry_lookup [of t call] by (auto simp: kern_method_def)
  have "Exec reg c f ctx st = kern_exec t call c f ctx st" for f ctx st
  proof (cases "kern_method t call c f")
    case None
    then show ?thesis using lookup [of c f] by (auto simp: Exec_def kern_exec_def split: sum.split)
  next
    case (Some m)
    then have "GetKernMethod reg c f = Inr m" by (simp add: lookup)
    with Some show ?thesis by (simp add: Exec_def kern_exec_def)
  qed
  then have "Exec reg c = kern_exec t call c" by (intro ext)
  then show ?thesis by (simp add: sys_contexts_def reg NewContext_def)
qed

section \<open>Nested calls keep what the methods keep\<close>

context call_relation
begin

lemma user_vm_keeps:
  assumes "keeps_call call" "user_vm code call module c = Some inst" "put_ok c" "del_ok c"
  shows "keeps c (inst f)"
  using assms by (auto simp: user_vm_def keeps_def run_prog_keeps)

definition gov_keeps :: "gov_method \<Rightarrow> bool" where
  "gov_keeps t \<longleftrightarrow> (\<forall>f m. map_of (gov_methods t) f = Some m \<longrightarrow> keeps GovernTokenKernelContract m)"

definition proposal_keeps :: "kcall \<Rightarrow> bool" where
  "proposal_keeps call \<longleftrightarrow> (\<forall>f m. map_of (proposal_methods call) f = Some m \<longrightarrow> keeps ProposalKernelContract m)"

definition user_keeps :: "deployed \<Rightarrow> bool" where
  "user_keeps code \<longleftrightarrow> (\<forall>module c. code module c \<noteq> None \<longrightarrow> put_ok c \<and> del_ok c)"

lemma sys_contexts_keep:
  assumes "keeps_call call" "put_ok timerBucket" "gov_keeps t" "user_keeps code"
    and "sys_contexts code t call module c = Some inst"
    and "c = ProposalKernelContract \<longrightarrow> proposal_keeps call"
  shows "keeps c (inst f)"
proof (cases "module = TypeKernel")
  case True
  then have "inst = kern_exec t call c" using assms(5) by (simp add: sys_contexts_eq)
  moreover have "keeps c m" if "kern_method t call c f = Some m" for m
    using that assms(3,6) timer_methods_keep [OF assms(1,2)]
    by (auto simp: kern_method_def gov_keeps_def proposal_keeps_def split: if_splits)
  ultimately show ?thesis by (auto simp: keeps_def kern_exec_def split: option.split)
next
  case False
  then have inst: "user_vm code call module c = Some inst" using assms(5) by (simp add: sys_contexts_eq)
  then have "put_ok c \<and> del_ok c" using assms(4) by (auto simp: user_vm_def user_keeps_def)
  then show ?thesis using user_vm_keeps [OF assms(1) inst] by blast
qed

lemma sys_call_keeps:
  assumes "put_ok timerBucket" "gov_keeps t" "user_keeps code"
    and "free_for ProposalKernelContract \<or> (\<forall>call. keeps_call call \<longrightarrow> proposal_keeps call)"
  shows "keeps_call (sys_call perm code t n)"
proof (induction n)
  case (Suc n)
  show ?case
    unfolding sys_call.simps
    by (rule ContractCall_keeps) (use sys_contexts_keep [OF Suc assms(1-3)] assms(4) Suc in blast)
qed (simp add: keeps_call_def)

lemma tx_call_keeps:
  assumes "keeps_call (sys_call perm code t n)" "put_ok timerBucket" "gov_keeps t" "user_keeps code"
    and "proposal_keeps (sys_call perm code t n)"
    and "\<And>st'. R (st\<lparr>cset := {ContractName ctx}\<rparr>) st' \<Longrightarrow> P st st'" "P st st"
  shows "P st (fst (tx_call perm code t n ctx st module f))"
  unfolding tx_call_def
  by (rule TopCall_keeps [where P = P, OF _ assms(6,7)]) (use sys_contexts_keep [OF assms(1-4)] assms(5) in blast)

lemma proposal_keepsI: "keeps_call call \<Longrightarrow> put_ok proposalBucket \<Longrightarrow> proposal_keeps call"
  by (simp add: proposal_keeps_def proposal_methods_keep)

end

section \<open>The token supply\<close>

text \<open>No contract is deployed under the name of a bucket that the governance contracts use.\<close>

definition no_bucket_names :: "deployed \<Rightarrow> bool" where
  "no_bucket_names code \<longleftrightarrow>
     (\<forall>module c. c \<in> {governTokenBucket, proposalBucket, timerBucket} \<longrightarrow> code module c = None)"

interpretation tokens: call_relation "\<lambda>st st'. tokens_ok st \<longrightarrow> tokens_ok st'"
  by unfold_locales (auto simp: tokens_ok_other)

lemma tokens_put [simp]:
  "b \<noteq> governTokenBucket \<Longrightarrow> tokens.put_ok b" "b \<noteq> governTokenBucket \<Longrightarrow> tokens.del_ok b"
  by (simp_all add: tokens.put_ok_def tokens.del_ok_def tokens_ok_other)

lemma no_bucket_namesD:
  "no_bucket_names code \<Longrightarrow> code module c = Some y \<Longrightarrow> c \<noteq> governTokenBucket \<and> c \<noteq> proposalBucket \<and> c \<noteq> timerBucket"
  by (auto simp: no_bucket_names_def)

lemma tokens_parts:
  "genesis_ok t \<Longrightarrow> tokens.gov_keeps t" "no_bucket_names code \<Longrightarrow> tokens.user_keeps code"
  "tokens.keeps_call call \<Longrightarrow> tokens.proposal_keeps call"
  by (auto simp: tokens.gov_keeps_def tokens.keeps_def gov_methods_tokens_ok tokens.user_keeps_def
      tokens.proposal_keepsI dest: no_bucket_namesD)

lemma committed_tokens:
  assumes "genesis_ok t" "no_bucket_names code" "committed perm code t st st'"
  shows "tokens_ok st \<longrightarrow> tokens_ok st'"
  using assms(3)
proof cases
  case (commit ctx n module f resp)
  have call: "tokens.keeps_call (sys_call perm code t n)"
    by (rule tokens.sys_call_keeps) (simp_all add: tokens_parts assms)
  then have "tokens_ok st \<longrightarrow> tokens_ok (fst (tx_call perm code t n ctx st module f))"
    by (rule tokens.tx_call_keeps [where P = "\<lambda>st st'. tokens_ok st \<longrightarrow> tokens_ok st'"])
       (simp_all add: tokens_parts assms call tokens_ok_other)
  with commit show ?thesis by simp
qed

interpretation supply_inv: step_invariant "committed perm code t"
    "\<lambda>st. genesis_ok t \<and> no_bucket_names code \<longrightarrow> tokens_ok st" for perm code t
  by unfold_locales (blast dest: committed_tokens)

section \<open>An example system\<close>

definition demo_gov :: gov_method where
  "demo_gov = \<lparr>NewGovResourceAmount = 1000,
     Predistribution = [\<lparr>Address = ''alice'', Quota = ''5000''\<rparr>, \<lparr>Address = ''bob'', Quota = ''7000''\<rparr>]\<rparr>"

definition demo_start :: kstate where
  "demo_start = \<lparr>kv = [], used = zero_limits, cset = {}\<rparr>"

definition no_code :: deployed where "no_code module c = None"

definition all_allowed :: "string \<Rightarrow> string \<Rightarrow> string \<Rightarrow> bool" where
  "all_allowed initiator c f \<longleftrightarrow> True"

definition demo_tx :: "string \<Rightarrow> string \<Rightarrow> string \<Rightarrow> args \<Rightarrow> kstate \<Rightarrow> kstate \<times> response kres" where
  "demo_tx initiator c f as st =
     tx_call all_allowed no_code demo_gov 5
       \<lparr>Args = as, Initiator = initiator, kAuthRequire = [], Caller = [], ContractName = c, ResourceLimit = MaxLimits\<rparr> st TypeKernel f"

lemma demo_committed:
  "demo_tx initiator c f as st = (st', KOk resp) \<Longrightarrow> committed all_allowed no_code demo_gov st st'"
  unfolding demo_tx_def by (rule committed.commit) simp_all

definition demo_balance :: "string \<Rightarrow> int \<Rightarrow> int \<Rightarrow> (string \<times> string) \<times> payload" where
  "demo_balance a held lockedUp = ((governTokenBucket, MakeAccountBalanceKey a),
     BalanceJson \<lparr>TotalBalance = held, LockedBalance = [(GovernTokenTypeOrdinary, lockedUp), (GovernTokenTypeTDPOS, 0)]\<rparr>)"

definition demo_tokens :: "int \<Rightarrow> int \<Rightarrow> int \<Rightarrow> store" where
  "demo_tokens bob lockedAlice lockedBob =
     [demo_balance ''alice'' 5000 lockedAlice, demo_balance ''bob'' bob lockedBob,
      ((governTokenBucket, totalSupplyKey), Text ''12000''), ((governTokenBucket, distributedKey), Text ''true'')]"

definition demo_init :: kstate where
  "demo_init = \<lparr>kv = demo_tokens 7000 0 0, used = fee 1000, cset = {GovernTokenKernelContract}\<rparr>"

definition demo_moved :: kstate where
  "demo_moved = \<lparr>kv = demo_tokens 6700 0 0 @ [demo_balance ''carol'' 300 0], used = fee 1, cset = {GovernTokenKernelContract}\<rparr>"

lemma demo_Init: "demo_tx ''alice'' GovernTokenKernelContract ''Init'' [] demo_start = (demo_init, success None)"
  by code_simp

lemma demo_Transfer:
  "demo_tx ''bob'' GovernTokenKernelContract ''Transfer'' [(''to'', Text ''carol''), (''amount'', Text ''300'')] demo_init =
     (demo_moved, success None)"
  by code_simp

lemma gov_demo_run: "run (committed all_allowed no_code demo_gov) demo_start demo_moved"
  using demo_committed [OF demo_Init [unfolded success_def]] demo_committed [OF demo_Transfer [unfolded success_def]]
  by (blast intro: run.intros)

lemma demo_genesis: "genesis_ok demo_gov" "no_bucket_names no_code"
  by (simp add: genesis_ok_def, code_simp) (simp add: no_bucket_names_def no_code_def)



end
