(* ===== verification/Lifecycle.thy ===== *)
theory Lifecycle
  imports Governance
begin

text \<open>
  The life of a proposal (\<^verbatim>\<open>contract/proposal/propose/propose_contract.go\<close>), whatever
  transactions are committed: which states follow each other, what becomes of the votes, and that
  no nested call changes a proposal behind the back of the method that works on it.
\<close>

section \<open>Numbers as keys\<close>

lemma dec_string_starts: "dec_string n = c # cs \<Longrightarrow> is_digit c \<or> c = CHR ''-''"
  using digits_all [of n] by (auto simp: dec_string_def split: if_splits)

lemma not_dec_string: "\<not> is_digit c \<Longrightarrow> c \<noteq> CHR ''-'' \<Longrightarrow> dec_string n \<noteq> c # cs"
  using dec_string_starts by blast

lemma dec_string_keys [simp]:
  "dec_string n \<noteq> proposalIDKey" "dec_string n \<noteq> MakeProposalLockKey pid a"
  "proposalIDKey \<noteq> MakeProposalLockKey pid a"
  by (simp_all add: proposalIDKey_def MakeProposalLockKey_def not_dec_string is_digit_def)

lemmas dec_string_keys' [simp] = dec_string_keys [symmetric]

section \<open>Nested calls do not touch proposals\<close>

text \<open>While the contract is being called, its bucket stays as it is.\<close>

definition frozen :: "kstate \<Rightarrow> kstate \<Rightarrow> bool" where
  "frozen st st' \<longleftrightarrow>
     (ProposalKernelContract \<in> cset st \<longrightarrow>
        ProposalKernelContract \<in> cset st' \<and> (\<forall>k. kGet st' proposalBucket k = kGet st proposalBucket k))"

interpretation frozen: call_relation frozen
  by unfold_locales (auto simp: frozen_def)

context call_relation
begin

lemma gov_methods_keep: "put_ok governTokenBucket \<Longrightarrow> gov_keeps t"
proof -
  assume put: "put_ok governTokenBucket"
  then have bal: "R st0 st \<Longrightarrow> R st0 (putBalance st a b)" for st0 st a b
    by (simp add: putBalance_def rel_put)
  have dist: "R st0 st \<Longrightarrow> R st0 (fst (distribute pds m st))" for st0 pds m st
    by (induction pds m st rule: distribute.induct) (auto simp: Let_def bal)
  have "R st (fst (InitGovernTokens t ctx st))" for ctx st
    using put by (auto simp: InitGovernTokens_def Let_def dist intro!: rel_if_ok rel_put)
  moreover have "R st (fst (TransferGovernTokens t ctx st))" for ctx st
    by (auto simp: TransferGovernTokens_def Let_def bal split: option.split prod.split)
  moreover have "R st (fst (LockGovernTokens t ctx st))" for ctx st
    by (auto simp: LockGovernTokens_def Let_def bal split: option.split)
  moreover have "R st (fst (UnLockGovernTokens t ctx st))" for ctx st
    by (auto simp: UnLockGovernTokens_def Let_def bal split: option.split)
  ultimately show ?thesis
    by (auto simp: gov_keeps_def gov_methods_def keeps_def split: if_splits)
qed

end

lemma frozen_put [simp]:
  "b \<noteq> proposalBucket \<Longrightarrow> frozen.put_ok b" "b \<noteq> proposalBucket \<Longrightarrow> frozen.del_ok b"
  by (simp_all add: frozen.put_ok_def frozen.del_ok_def frozen_def)

lemma frozen_user: "no_bucket_names code \<Longrightarrow> frozen.user_keeps code"
  by (auto simp: frozen.user_keeps_def dest: no_bucket_namesD)

lemma frozen_sys_call: "no_bucket_names code \<Longrightarrow> frozen.keeps_call (sys_call perm code t n)"
  by (rule frozen.sys_call_keeps)
     (simp_all add: frozen.gov_methods_keep frozen_user frozen.free_for_def frozen_def)

section \<open>States of a proposal\<close>

definition votes :: "proposal \<Rightarrow> int" where
  "votes p = (case VoteAmount p of None \<Rightarrow> 0 | Some v \<Rightarrow> v)"

definition completed :: "string set" where
  "completed = {ProposalStatusCompletedAndFailure, ProposalStatusCompletedAndSuccess}"

definition can_become :: "string \<Rightarrow> string \<Rightarrow> bool" where
  "can_become s s' \<longleftrightarrow>
     s' = s \<or>
     s = ProposalStatusVoting \<and>
       s' \<in> {ProposalStatusCancelled, ProposalStatusRejected, ProposalStatusPassed} \<union> completed \<or>
     s = ProposalStatusPassed \<and> s' \<in> completed"

definition advances :: "proposal \<Rightarrow> proposal \<Rightarrow> bool" where
  "advances p p' \<longleftrightarrow>
     p_Args p' = p_Args p \<and> p_Trigger p' = p_Trigger p \<and> Proposer p' = Proposer p \<and>
     can_become (p_Status p) (p_Status p') \<and>
     votes p \<le> votes p' \<and> (p_Status p \<noteq> ProposalStatusVoting \<longrightarrow> votes p' = votes p) \<and>
     (p_Status p \<noteq> ProposalStatusCancelled \<and> p_Status p' = ProposalStatusCancelled \<longrightarrow> votes p' = 0)"

lemma can_become_trans: "can_become s s' \<Longrightarrow> can_become s' s'' \<Longrightarrow> can_become s s''"
  by (auto simp: can_become_def completed_def proposal_status_defs)

lemma not_voting_again: "can_become s s' \<Longrightarrow> s \<noteq> ProposalStatusVoting \<Longrightarrow> s' \<noteq> ProposalStatusVoting"
  by (auto simp: can_become_def completed_def proposal_status_defs)

lemma cancelled_not_voting: "ProposalStatusCancelled \<noteq> ProposalStatusVoting"
  by (simp add: proposal_status_defs)

lemma advances_refl [simp]: "advances p p"
  by (simp add: advances_def can_become_def)

lemma advances_trans: "advances p p' \<Longrightarrow> advances p' p'' \<Longrightarrow> advances p p''"
  unfolding advances_def using can_become_trans not_voting_again cancelled_not_voting by (smt (verit))

text \<open>
  What is stored in the bucket: proposals under the numbers up to the latest one, with checked
  arguments and votes that are not negative.
\<close>

definition stored_ok :: "proposal \<Rightarrow> bool" where
  "stored_ok p \<longleftrightarrow> checkProposalArgs p = KOk () \<and> (\<exists>v. VoteAmount p = Some v \<and> 0 \<le> v)"

definition last_id :: "kstate \<Rightarrow> int" where
  "last_id st =
     (case kGet st proposalBucket proposalIDKey of None \<Rightarrow> 0 | Some b \<Rightarrow> fst (SetString (text_of b)))"

definition proposals_ok :: "kstate \<Rightarrow> bool" where
  "proposals_ok st \<longleftrightarrow>
     (\<forall>pid p. kGet st proposalBucket pid = Some (ProposalJson p) \<longrightarrow>
        stored_ok p \<and> (\<exists>n. pid = dec_string n \<and> n \<le> last_id st))"

definition lifecycle :: "kstate \<Rightarrow> kstate \<Rightarrow> bool" where
  "lifecycle st st' \<longleftrightarrow>
     (proposals_ok st \<longrightarrow>
        proposals_ok st' \<and>
        (\<forall>pid p. getProposal st pid = Some p \<longrightarrow> (\<exists>p'. getProposal st' pid = Some p' \<and> advances p p')))"

lemma getProposal_iff: "getProposal st pid = Some p \<longleftrightarrow> kGet st proposalBucket pid = Some (ProposalJson p)"
  by (auto simp: getProposal_def Parse_def MakeProposalKey_def split: option.splits payload.splits)

lemma same_bucket_lifecycle:
  "\<forall>k. kGet st' proposalBucket k = kGet st proposalBucket k \<Longrightarrow> lifecycle st st'"
  by (auto simp: lifecycle_def proposals_ok_def last_id_def getProposal_iff)

lemma lifecycle_trans: "lifecycle st st' \<Longrightarrow> lifecycle st' st'' \<Longrightarrow> lifecycle st st''"
  unfolding lifecycle_def using advances_trans by blast

interpretation life: call_relation lifecycle
proof unfold_locales
  show "lifecycle st st' \<Longrightarrow> lifecycle st' st'' \<Longrightarrow> lifecycle st st''" for st st' st''
    by (rule lifecycle_trans)
  have eq: "proposals_ok (st\<lparr>used := u\<rparr>) = proposals_ok st" "getProposal (st\<lparr>used := u\<rparr>) pid = getProposal st pid"
    "proposals_ok (st\<lparr>cset := s\<rparr>) = proposals_ok st" "getProposal (st\<lparr>cset := s\<rparr>) pid = getProposal st pid" for st u s pid
    by (simp_all add: proposals_ok_def last_id_def getProposal_def)
  show "lifecycle st (st'\<lparr>used := u\<rparr>) = lifecycle st st'" "lifecycle (st\<lparr>used := u\<rparr>) st' = lifecycle st st'" for st st' u
    by (simp_all add: lifecycle_def eq)
  show "lifecycle st (st'\<lparr>cset := cset st' - {c}\<rparr>)"
    if "lifecycle (st\<lparr>cset := insert c (cset st)\<rparr>) st'" for c st st'
    using that by (simp add: lifecycle_def eq)
qed (auto intro: same_bucket_lifecycle)
section \<open>Every method advances the proposals\<close>

lemma life_put [simp]: "b \<noteq> proposalBucket \<Longrightarrow> life.put_ok b" "b \<noteq> proposalBucket \<Longrightarrow> life.del_ok b"
  by (auto simp: life.put_ok_def life.del_ok_def intro: same_bucket_lifecycle)

lemma proposals_ok_keys:
  assumes "proposals_ok st"
  shows "kGet st proposalBucket proposalIDKey \<noteq> Some (ProposalJson p)"
    and "kGet st proposalBucket (MakeProposalLockKey pid a) \<noteq> Some (ProposalJson p)"
  using assms dec_string_keys(1,2) unfolding proposals_ok_def by metis+

text \<open>Writing one key: the proposals after it are those before and, under that key, the new one.\<close>

lemma life_step:
  assumes "proposals_ok st \<Longrightarrow> proposals_ok st'"
    and "\<And>pid p. proposals_ok st \<Longrightarrow> getProposal st pid = Some p \<Longrightarrow> \<exists>p'. getProposal st' pid = Some p' \<and> advances p p'"
  shows "lifecycle st st'"
  using assms by (simp add: lifecycle_def)

lemma life_update:
  assumes "getProposal st pid = Some p" "advances p p'" "stored_ok p \<Longrightarrow> stored_ok p'"
  shows "lifecycle st (updateProposal st pid p')"
proof (rule life_step)
  assume ok: "proposals_ok st"
  then have "pid \<noteq> proposalIDKey" using assms(1) proposals_ok_keys(1) by (auto simp: getProposal_iff)
  then have "last_id (updateProposal st pid p') = last_id st"
    by (simp add: last_id_def updateProposal_def MakeProposalKey_def)
  then show "proposals_ok (updateProposal st pid p')"
    using ok assms by (simp add: proposals_ok_def getProposal_iff) (auto simp: updateProposal_def MakeProposalKey_def)
qed (use assms in \<open>auto simp: getProposal_iff updateProposal_def MakeProposalKey_def\<close>)

lemma life_lock:
  assumes "lifecycle st0 st"
  shows "lifecycle st0 (kPut st proposalBucket (MakeProposalLockKey pid a) (Text s))"
proof (rule lifecycle_trans [OF assms life_step])
  let ?st = "kPut st proposalBucket (MakeProposalLockKey pid a) (Text s)"
  show "proposals_ok ?st" if "proposals_ok st"
    using that by (simp add: proposals_ok_def last_id_def)
  show "\<exists>p'. getProposal ?st pid' = Some p' \<and> advances p p'"
    if "proposals_ok st" "getProposal st pid' = Some p" for pid' p
    using that proposals_ok_keys(2) [OF that(1), of pid a p] by (auto simp: getProposal_iff)
qed

lemma life_new:
  assumes "stored_ok p"
  shows "lifecycle st (updateProposal (kPut st proposalBucket proposalIDKey (Text (getNextProposalID st)))
                         (getNextProposalID st) p)"
proof -
  have next_id: "getNextProposalID st = dec_string (last_id st + 1)"
    by (simp add: getNextProposalID_def last_id_def split: option.split)
  let ?st = "updateProposal (kPut st proposalBucket proposalIDKey (Text (dec_string (last_id st + 1))))
               (dec_string (last_id st + 1)) p"
  have get: "kGet ?st proposalBucket k =
      (if k = dec_string (last_id st + 1) then Some (ProposalJson p)
       else if k = proposalIDKey then Some (Text (dec_string (last_id st + 1))) else kGet st proposalBucket k)" for k
    by (simp add: updateProposal_def MakeProposalKey_def)
  have "last_id ?st = last_id st + 1" by (simp add: last_id_def [of ?st] get)
  then have "lifecycle st ?st"
    using assms proposals_ok_keys(1) [of st]
    by (intro life_step) (force simp: proposals_ok_def get, force simp: getProposal_iff get proposals_ok_def)
  then show ?thesis unfolding next_id .
qed

text \<open>The continuation of a call sees the proposals as they were.\<close>

definition untouched :: "kstate \<Rightarrow> kstate \<Rightarrow> bool" where
  "untouched st st' \<longleftrightarrow>
     ProposalKernelContract \<in> cset st' \<and> (\<forall>k. kGet st' proposalBucket k = kGet st proposalBucket k)"

lemma untouched_frozen: "untouched st st' \<Longrightarrow> frozen st' st'' \<Longrightarrow> untouched st st''"
  by (auto simp: untouched_def frozen_def)

lemma untouched_life: "untouched st st' \<Longrightarrow> lifecycle st st'"
  by (simp add: untouched_def same_bucket_lifecycle)

lemma untouched_get: "untouched st st' \<Longrightarrow> getProposal st' pid = getProposal st pid"
  by (simp add: untouched_def getProposal_def)

lemma life_after_call:
  assumes "untouched st (fst res)"
    and "\<And>st' e. untouched st st' \<Longrightarrow> lifecycle st (fst (on_err st' e))"
    and "\<And>st' x. untouched st st' \<Longrightarrow> lifecycle st (fst (on_ok st' x))"
  shows "lifecycle st (fst (after_call res on_err on_ok))"
  using assms by (simp add: after_call_def untouched_life split: kres.split)

lemma life_if_ok:
  assumes "untouched st (fst res)" "\<And>st' x. untouched st st' \<Longrightarrow> lifecycle st (fst (on_ok st' x))"
  shows "lifecycle st (fst (if_ok res on_ok))"
  unfolding if_ok_def using assms by (intro life_after_call) (auto intro: untouched_life)

lemma life_checked:
  assumes "\<And>x. r = KOk x \<Longrightarrow> lifecycle st (fst (cont x))"
  shows "lifecycle st (fst (checked st r cont))"
  using assms by (simp add: checked_def if_ok_def after_call_def split: kres.split)

lemma life_write:
  assumes "untouched st st'" "getProposal st pid = Some p" "advances p p'" "stored_ok p \<Longrightarrow> stored_ok p'"
  shows "lifecycle st (updateProposal st' pid p')"
proof -
  have "getProposal st' pid = Some p" using assms(1,2) by (simp add: untouched_get)
  from lifecycle_trans [OF untouched_life [OF assms(1)] life_update [OF this assms(3,4)]] show ?thesis by blast
qed

lemma advances_status:
  "votes p' = votes p \<Longrightarrow> p_Args p' = p_Args p \<Longrightarrow> p_Trigger p' = p_Trigger p \<Longrightarrow> Proposer p' = Proposer p \<Longrightarrow>
     can_become (p_Status p) (p_Status p') \<Longrightarrow> p_Status p' \<noteq> ProposalStatusCancelled \<or> votes p = 0 \<Longrightarrow> advances p p'"
  by (auto simp: advances_def)

lemma checkProposalArgs_cong:
  assumes "p_Args p' = p_Args p" "p_Trigger p' = p_Trigger p"
  shows "checkProposalArgs p' = checkProposalArgs p"
  unfolding checkProposalArgs_def assms ..

lemma stored_ok_status [simp]: "stored_ok (p\<lparr>p_Status := s\<rparr>) = stored_ok p"
  by (simp add: stored_ok_def checkProposalArgs_cong [of "p\<lparr>p_Status := s\<rparr>" p])

lemma votes_status [simp]: "votes (p\<lparr>p_Status := s\<rparr>) = votes p"
  by (simp add: votes_def)

lemma call_untouched:
  assumes "frozen.keeps_call call" "untouched st st'"
  shows "untouched st (fst (call ctx st' module c f as))"
  by (rule untouched_frozen [OF assms(2) frozen.keeps_callD [OF assms(1)]])

lemma unlock_untouched:
  assumes "frozen.keeps_call call" "untouched st st'"
  shows "untouched st (fst (unlockGovernTokensForProposal call ctx st' pid))"
  by (rule untouched_frozen [OF assms(2) frozen.unlock_rel [OF assms(1)]]) (simp add: frozen_def)

lemma untouched_refl: "ProposalKernelContract \<in> cset st \<Longrightarrow> untouched st st"
  by (simp add: untouched_def)

lemma Propose_life:
  assumes call: "frozen.keeps_call call" and self: "ProposalKernelContract \<in> cset st"
  shows "lifecycle st (fst (Prop_Propose call ctx st))"
proof -
  note c = call_untouched [OF call]
  have final: "lifecycle st (updateProposal (kPut (kPut st' proposalBucket (MakeProposalLockKey pid a) (Text s))
        proposalBucket proposalIDKey (Text pid)) pid p)"
    if u: "untouched st st'" and "stored_ok p" "pid = getNextProposalID st" for st' pid a s p
  proof -
    let ?st = "kPut st' proposalBucket (MakeProposalLockKey pid a) (Text s)"
    have "getNextProposalID ?st = pid" using u that(3) by (simp add: getNextProposalID_def untouched_def)
    then have "lifecycle ?st (updateProposal (kPut ?st proposalBucket proposalIDKey (Text pid)) pid p)"
      using life_new [OF that(2), of ?st] by simp
    then show ?thesis by (rule lifecycle_trans [OF life_lock [OF untouched_life [OF u]]])
  qed
  have new: "stored_ok (p\<lparr>VoteAmount := Some 0, p_Status := s, Proposer := a\<rparr>)"
    if "checkProposalArgs p = KOk x" for p s a x
    using that checkProposalArgs_cong [of "p\<lparr>VoteAmount := Some 0, p_Status := s, Proposer := a\<rparr>" p]
    by (simp add: stored_ok_def)
  show ?thesis
    unfolding Prop_Propose_def Let_def using self
    by (auto split: option.split jvalue.split intro!: life_checked life_if_ok c final new untouched_refl)
qed

lemma Vote_life:
  assumes call: "frozen.keeps_call call" and self: "ProposalKernelContract \<in> cset st"
  shows "lifecycle st (fst (Prop_Vote call ctx st))"
proof -
  have upd: "lifecycle st (updateProposal (kPut st' proposalBucket (MakeProposalLockKey pid a) (Text s)) pid
        (p\<lparr>VoteAmount := Some (v + x)\<rparr>))"
    if u: "untouched st st'" and p: "getProposal st pid = Some p" "VoteAmount p = Some v" "p_Status p = ProposalStatusVoting"
      and "0 \<le> x" for st' pid a s p v x
  proof (cases "proposals_ok st")
    case True
    let ?st = "kPut st' proposalBucket (MakeProposalLockKey pid a) (Text s)"
    obtain n where "pid = dec_string n" using True p(1) by (auto simp: proposals_ok_def getProposal_iff)
    then have "getProposal ?st pid = Some p" using u p(1) by (simp add: untouched_def getProposal_iff)
    then have "lifecycle ?st (updateProposal ?st pid (p\<lparr>VoteAmount := Some (v + x)\<rparr>))"
      using p that(5) by (intro life_update)
        (auto simp: advances_def votes_def can_become_def stored_ok_def cancelled_not_voting [symmetric]
          checkProposalArgs_cong [of "p\<lparr>VoteAmount := Some (v + x)\<rparr>" p])
    then show ?thesis by (rule lifecycle_trans [OF life_lock [OF untouched_life [OF u]]])
  qed (simp add: lifecycle_def)
  show ?thesis
    unfolding Prop_Vote_def Let_def using self
    by (auto split: option.split prod.split
        intro!: life_if_ok call_untouched [OF call] upd untouched_refl life_lock intro: untouched_life)
qed

lemma Thaw_life:
  assumes call: "frozen.keeps_call call" and self: "ProposalKernelContract \<in> cset st"
  shows "lifecycle st (fst (Prop_Thaw call ctx st))"
proof -
  have upd: "lifecycle st (updateProposal st pid (p\<lparr>p_Status := ProposalStatusCancelled\<rparr>))"
    if p: "getProposal st pid = Some p" "VoteAmount p = Some v" "v \<le> 0" "p_Status p = ProposalStatusVoting" for pid p v
  proof (cases "proposals_ok st")
    case True
    then have "stored_ok p" using p(1) unfolding proposals_ok_def getProposal_iff by blast
    then have "v = 0" using p by (simp add: stored_ok_def)
    then show ?thesis
      using p by (intro life_update) (auto simp: votes_def can_become_def intro!: advances_status)
  qed (simp add: lifecycle_def)
  have cont: "lifecycle st (fst (if_ok (call ctx st1 module c f as) (\<lambda>st2 _. (AddResourceUsed st2 d, r))))"
    if "lifecycle st st1" "ProposalKernelContract \<in> cset st1" for st1 module c f as d r
    by (rule lifecycle_trans [OF that(1)])
       (auto intro!: life_if_ok call_untouched [OF call] untouched_refl that(2) intro: untouched_life)
  show ?thesis
    unfolding Prop_Thaw_def Let_def using self
    by (auto split: option.split simp: updateProposal_def intro!: cont upd [unfolded updateProposal_def])
qed

lemma CheckVoteResult_life:
  assumes call: "frozen.keeps_call call" and self: "ProposalKernelContract \<in> cset st"
  shows "lifecycle st (fst (Prop_CheckVoteResult call ctx st))"
proof -
  have upd: "lifecycle st (updateProposal st' pid (p\<lparr>p_Status := s\<rparr>))"
    if "untouched st st'" "getProposal st pid = Some p" "p_Status p = ProposalStatusVoting"
      "s = ProposalStatusRejected \<or> s = ProposalStatusPassed" for st' pid p s
    by (rule life_write [OF that(1,2) advances_status])
       (use that(3,4) in \<open>auto simp: can_become_def proposal_status_defs\<close>)
  show ?thesis
    unfolding Prop_CheckVoteResult_def Let_def using self
    by (auto split: option.split jvalue.split simp: untouched_life
        intro!: life_if_ok call_untouched [OF call] unlock_untouched [OF call] untouched_refl upd)
qed

lemma Trigger_life:
  assumes call: "frozen.keeps_call call" and self: "ProposalKernelContract \<in> cset st"
  shows "lifecycle st (fst (Prop_Trigger call ctx st))"
proof -
  have upd: "lifecycle st (updateProposal st' pid (p\<lparr>p_Status := s\<rparr>))"
    if "untouched st st'" "getProposal st pid = Some p" "p_Status p = ProposalStatusPassed" "s \<in> completed" for st' pid p s
    by (rule life_write [OF that(1,2) advances_status])
       (use that(3,4) in \<open>auto simp: can_become_def completed_def proposal_status_defs\<close>)
  show ?thesis
    unfolding Prop_Trigger_def Let_def using self
    by (auto split: option.split simp: completed_def
        intro!: life_if_ok life_after_call call_untouched [OF call] unlock_untouched [OF call] untouched_refl upd)
qed

lemma proposal_methods_life:
  assumes "frozen.keeps_call call"
  shows "life.proposal_keeps call"
proof -
  have "lifecycle st (fst (Prop_Query ctx st))" for ctx st
    by (simp add: Prop_Query_def split: option.split)
  then show ?thesis
    using Propose_life [OF assms] Vote_life [OF assms] Thaw_life [OF assms] CheckVoteResult_life [OF assms]
      Trigger_life [OF assms]
    by (auto simp: life.proposal_keeps_def proposal_methods_def life.keeps_def split: if_splits)
qed

lemma life_user: "no_bucket_names code \<Longrightarrow> life.user_keeps code"
  by (auto simp: life.user_keeps_def dest: no_bucket_namesD)

lemma sys_call_life:
  assumes "no_bucket_names code"
  shows "life.keeps_call (sys_call perm code t n)"
proof (induction n)
  case (Suc n)
  show ?case
    unfolding sys_call.simps
    by (rule life.ContractCall_keeps, rule disjI2, rule life.sys_contexts_keep [OF Suc])
       (simp_all add: life.gov_methods_keep life_user assms proposal_methods_life frozen_sys_call)
qed (simp add: life.keeps_call_def)

lemma committed_life:
  assumes "no_bucket_names code" "committed perm code t st st'"
  shows "lifecycle st st'"
  using assms(2)
proof cases
  case (commit ctx n module f resp)
  have "lifecycle st (fst (tx_call perm code t n ctx st module f))"
    by (rule life.tx_call_keeps [where P = lifecycle, OF sys_call_life [OF assms(1)]])
       (use assms in \<open>auto simp: life.gov_methods_keep life_user proposal_methods_life frozen_sys_call
          lifecycle_def proposals_ok_def last_id_def getProposal_def\<close>)
  with commit show ?thesis by simp
qed

interpretation life_run: monotone_relation "committed perm code t" "\<lambda>st st'. no_bucket_names code \<longrightarrow> lifecycle st st'"
    for perm code t
  by unfold_locales (auto intro: committed_life lifecycle_trans)

section \<open>The life of a proposal\<close>

definition demo_proposal :: proposal where
  "demo_proposal =
     \<lparr>p_Args = [(''min_vote_percent'', JString ''51''), (''stop_vote_height'', JString ''5'')],
      p_Trigger = Some \<lparr>t_Height = 8, t_Module = TypeKernel, t_Contract = GovernTokenKernelContract,
                        t_Method = ''Query'', t_Args = []\<rparr>,
      VoteAmount = None, p_Status = [], Proposer = []\<rparr>"

definition demo_stored :: "int \<Rightarrow> string \<Rightarrow> proposal" where
  "demo_stored n status = demo_proposal\<lparr>VoteAmount := Some n, p_Status := status, Proposer := ''alice''\<rparr>"

definition demo_task :: "string \<Rightarrow> payload" where
  "demo_task f = TriggerJson \<lparr>t_Height = 0, t_Module = TypeKernel, t_Contract = ProposalKernelContract, t_Method = f,
     t_Args = [(''proposal_id'', JString ''MQ=='')]\<rparr>"

definition demo_entries :: "string \<Rightarrow> proposal \<Rightarrow> store" where
  "demo_entries tasks p =
     [((timerBucket, taskIDKey), Text tasks), ((timerBucket, ''5_1''), demo_task ''CheckVoteResult''),
      ((proposalBucket, ''lock_1_alice''), Text ''1000''), ((proposalBucket, proposalIDKey), Text ''1''),
      ((proposalBucket, ''1''), ProposalJson p)]"

definition demo_proposed :: kstate where
  "demo_proposed = \<lparr>kv = demo_tokens 7000 1000 0 @ demo_entries ''1'' (demo_stored 0 ProposalStatusVoting),
     used = fee 100, cset = {ProposalKernelContract}\<rparr>"

definition demo_voted :: kstate where
  "demo_voted = \<lparr>kv = demo_tokens 7000 1000 6500 @ demo_entries ''1'' (demo_stored 6500 ProposalStatusVoting) @
       [((proposalBucket, ''lock_1_bob''), Text ''6500'')],
     used = fee 100, cset = {ProposalKernelContract}\<rparr>"

definition demo_counted :: kstate where
  "demo_counted = \<lparr>kv = demo_tokens 7000 1000 6500 @ demo_entries ''2'' (demo_stored 6500 ProposalStatusPassed) @
       [((proposalBucket, ''lock_1_bob''), Text ''6500''), ((timerBucket, ''8_2''), demo_task ''Trigger'')],
     used = fee 0, cset = {}\<rparr>"

lemma demo_Propose:
  "demo_tx ''alice'' ProposalKernelContract ''Propose'' [(''proposal'', ProposalJson demo_proposal)] demo_init =
     (demo_proposed, success (Some (Text ''1'')))"
  by code_simp

lemma demo_Vote:
  "demo_tx ''bob'' ProposalKernelContract ''Vote'' [(''proposal_id'', Text ''1''), (''amount'', Text ''6500'')] demo_proposed =
     (demo_voted, success None)"
  by code_simp

lemma demo_Do:
  "demo_tx ''carol'' TimerTaskKernelContract ''Do'' [(''block_height'', Text ''5'')] demo_voted =
     (demo_counted, success None)"
  by code_simp

lemma demo_proposal_run: "run (committed all_allowed no_code demo_gov) demo_proposed demo_counted"
  using demo_committed [OF demo_Vote [unfolded success_def]] demo_committed [OF demo_Do [unfolded success_def]]
  by (blast intro: run.intros)

text \<open>A state whose only proposal is the given one.\<close>

lemma proposals_ok_single:
  assumes "stored_ok p" "n \<le> last_id st" "list_all (\<lambda>e. case snd e of ProposalJson q \<Rightarrow> q = p \<and> snd (fst e) = dec_string n | _ \<Rightarrow> True) (kv st)"
  shows "proposals_ok st"
  unfolding proposals_ok_def kGet_def
  using assms by (force simp: list_all_iff dest: map_of_SomeD)

lemma demo_proposed_ok: "proposals_ok demo_proposed"
proof (rule proposals_ok_single [of "demo_stored 0 ProposalStatusVoting" 1])
  have "checkProposalArgs (demo_stored 0 ProposalStatusVoting) = KOk ()" by code_simp
  then show "stored_ok (demo_stored 0 ProposalStatusVoting)" by (simp add: stored_ok_def demo_stored_def)
qed code_simp+



end
