(* ===== verification/Locks.thy ===== *)
theory Locks
  imports Lifecycle
begin

text \<open>
  Locked governance tokens: what a vote locks and the end of a proposal gives back
  (\<open>LockGovernTokens\<close>, \<open>UnLockGovernTokens\<close>, \<open>Vote\<close> and \<open>unlockGovernTokensForProposal\<close> in
  \<^verbatim>\<open>contract/proposal\<close>), through the calls that the proposal contract makes.
\<close>

section \<open>Key ranges\<close>

lemma prefix_less [simp]: "(p @ xs :: 'a :: linorder list) < p @ ys \<longleftrightarrow> xs < ys"
  by (induction p) auto

lemma prefix_le [simp]: "(p @ xs :: 'a :: linorder list) \<le> p @ ys \<longleftrightarrow> xs \<le> ys"
  by (induction p) auto

lemma prefix_range:
  "(p :: 'a :: linorder list) \<le> k \<Longrightarrow> k < p @ xs \<Longrightarrow> \<exists>a. k = p @ a \<and> a < xs"
proof (induction p arbitrary: k)
  case (Cons x p)
  then obtain y ys where k: "k = y # ys" by (cases k) auto
  with Cons.prems have "y = x" "p \<le> ys" "ys < p @ xs" by auto
  with Cons.IH [of ys] k show ?case by auto
qed simp

lemma less_single: "(a :: 'a :: linorder list) < [c] \<longleftrightarrow> a = [] \<or> hd a < c"
  by (cases a) auto

lemma lock_range: "PrefixRange (MakeProposalLockPrefixSeparator pid) = MakeProposalLockPrefix pid @ [CHR 0x7F]"
proof -
  have "PrefixRangeLoop (CHR ''~'' # s) = rev (CHR 0x7F # s)" for s
    unfolding PrefixRangeLoop.simps by code_simp
  then show ?thesis
    by (simp add: PrefixRange_def MakeProposalLockPrefixSeparator_def MakeProposalLockPrefix_def
        del: PrefixRangeLoop.simps)
qed

lemma lock_key: "MakeProposalLockKey pid a = MakeProposalLockPrefix pid @ a"
  by (simp add: MakeProposalLockKey_def MakeProposalLockPrefix_def)

text \<open>The accounts that the scan for the locks of a proposal reaches.\<close>

definition in_scan :: "string \<Rightarrow> bool" where
  "in_scan a \<longleftrightarrow> a = [] \<or> hd a < CHR 0x7F"

definition locks :: "kstate \<Rightarrow> string \<Rightarrow> (string \<times> payload) list" where
  "locks st pid = kSelect st proposalBucket (MakeProposalLockPrefix pid)
                    (PrefixRange (MakeProposalLockPrefixSeparator pid))"

lemma in_locks:
  assumes "keys_once st"
  shows "(k, v) \<in> set (locks st pid) \<longleftrightarrow>
    (\<exists>a. k = MakeProposalLockKey pid a \<and> in_scan a \<and> kGet st proposalBucket k = Some v)"
proof -
  have "MakeProposalLockPrefix pid \<le> k \<and> k < MakeProposalLockPrefix pid @ [CHR 0x7F] \<longleftrightarrow>
      (\<exists>a. k = MakeProposalLockPrefix pid @ a \<and> in_scan a)"
    using prefix_range [of "MakeProposalLockPrefix pid" k "[CHR 0x7F]"]
      prefix_le [of "MakeProposalLockPrefix pid" "[]"] prefix_less [of "MakeProposalLockPrefix pid" _ "[CHR 0x7F]"]
    unfolding in_scan_def less_single [symmetric] by auto
  then show ?thesis
    unfolding locks_def lock_range lock_key in_kSelect [OF assms] by auto
qed

section \<open>Calls of the token contract\<close>

definition can_call :: "(string \<Rightarrow> string \<Rightarrow> string \<Rightarrow> bool) \<Rightarrow> kctx \<Rightarrow> kstate \<Rightarrow> string \<Rightarrow> bool" where
  "can_call perm ctx st f \<longleftrightarrow>
     ContractName ctx = ProposalKernelContract \<and> GovernTokenKernelContract \<notin> cset st \<and>
     card (cset st) < MaxContractCallDepth \<and> perm (Initiator ctx) GovernTokenKernelContract f"

text \<open>The state after \<open>UnLock\<close>, whether or not the limits let the call succeed.\<close>

definition unlocked :: "kstate \<Rightarrow> string \<Rightarrow> int \<Rightarrow> kstate" where
  "unlocked st a x =
     (case balanceOf st a of
        None \<Rightarrow> st
      | Some b \<Rightarrow> putBalance st a (setLocked b GovernTokenTypeOrdinary
                    (the (locked b GovernTokenTypeOrdinary) - x)))"

lemma sys_call_gov:
  assumes "can_call perm ctx st f" "f \<noteq> initMethod" "map_of (gov_methods t) f = Some m"
  shows "sys_call perm code t (Suc n) ctx st TypeKernel GovernTokenKernelContract f as =
    (let ctx' = \<lparr>Args = as, Initiator = Initiator ctx, kAuthRequire = kAuthRequire ctx, Caller = ProposalKernelContract,
           ContractName = GovernTokenKernelContract,
           ResourceLimit = (limits_Sub (limits_Add zero_limits (ResourceLimit ctx)) (used st))
             \<lparr>Disk := Disk (ResourceLimit ctx)\<rparr>\<rparr>;
         res = if_ok (m ctx' (st\<lparr>cset := insert GovernTokenKernelContract (cset st), used := zero_limits\<rparr>))
           (\<lambda>st' resp. if Exceed (used st') (ResourceLimit ctx') then (st', KErr ErrResourceExceeds)
                       else (st', KOk resp))
     in ((fst res)\<lparr>used := used st, cset := cset (fst res) - {GovernTokenKernelContract}\<rparr>, snd res))"
  using assms
  by (simp add: ContractCall_def can_call_def sys_contexts_eq Invoke_def Let_def kern_exec_def [abs_def] kern_method_def)

lemma UnLock_call:
  assumes "can_call perm ctx st ''UnLock''"
  shows "fst (sys_call perm code t (Suc n) ctx st TypeKernel GovernTokenKernelContract ''UnLock'' (lock_args a amount)) =
           unlocked st a (fst (SetString (text_of amount)))"
    and "snd (sys_call perm code t (Suc n) ctx st TypeKernel GovernTokenKernelContract ''UnLock'' (lock_args a amount)) \<noteq> KPanic"
proof -
  have gov: "GovernTokenKernelContract \<notin> cset st" using assms by (simp add: can_call_def)
  have m: "map_of (gov_methods t) ''UnLock'' = Some (UnLockGovernTokens t)" "''UnLock'' \<noteq> initMethod"
    by (simp_all add: gov_methods_def initMethod_def)
  have arg: "arg \<lparr>Args = lock_args a amount, Initiator = i, kAuthRequire = au, Caller = c, ContractName = d, ResourceLimit = l\<rparr> ''from'' = Some (Text a)"
    "arg \<lparr>Args = lock_args a amount, Initiator = i, kAuthRequire = au, Caller = c, ContractName = d, ResourceLimit = l\<rparr> ''amount'' = Some amount"
    "arg \<lparr>Args = lock_args a amount, Initiator = i, kAuthRequire = au, Caller = c, ContractName = d, ResourceLimit = l\<rparr> ''lock_type'' =
       Some (Text GovernTokenTypeOrdinary)" for i au c d l
    by (simp_all add: arg_def lock_args_def)
  show "fst (sys_call perm code t (Suc n) ctx st TypeKernel GovernTokenKernelContract ''UnLock'' (lock_args a amount)) =
           unlocked st a (fst (SetString (text_of amount)))"
    "snd (sys_call perm code t (Suc n) ctx st TypeKernel GovernTokenKernelContract ''UnLock'' (lock_args a amount)) \<noteq> KPanic"
    unfolding sys_call_gov [OF assms m(2,1)]
    using gov balanceOf_locked [of st a _ GovernTokenTypeOrdinary]
    by (auto simp: UnLockGovernTokens_def arg lockCaller_def unlocked_def Let_def if_ok_def after_call_def success_def
        putBalance_def kPut_def AddResourceUsed_def split: option.split)
qed

lemma unlocked_frame [simp]:
  "cset (unlocked st a x) = cset st" "can_call perm ctx (unlocked st a x) f = can_call perm ctx st f"
  "total_of (unlocked st a x) a' = total_of st a'"
  by (auto simp: unlocked_def can_call_def putBalance_def kPut_def split: option.split)
     (auto simp: total_of_def balanceOf_def unmarshalBalance_def kGet_def update_conv' setLocked_def
       split: option.splits payload.splits)

lemma locked_of_unlocked:
  assumes "lockType_ok lt"
  shows "locked_of (unlocked st a x) a' lt =
    (if a' = a \<and> lt = GovernTokenTypeOrdinary then map_option (\<lambda>l. l - x) (locked_of st a' lt) else locked_of st a' lt)"
proof (cases "balanceOf st a")
  case None
  then show ?thesis by (auto simp: unlocked_def locked_of_def)
next
  case (Some b)
  then obtain l where "locked b GovernTokenTypeOrdinary = Some l" using balanceOf_locked by fastforce
  with Some assms show ?thesis
    by (auto simp: unlocked_def locked_of_setLocked locked_of_def [of st])
qed

definition amounts :: "nat \<Rightarrow> (string \<times> payload) list \<Rightarrow> string \<Rightarrow> int" where
  "amounts n ls a = sum_list (map (\<lambda>(k, v). fst (SetString (text_of v))) (filter (\<lambda>(k, v). drop n k = a) ls))"

lemma unlockLoop_unlocks:
  assumes "can_call perm ctx st ''UnLock''"
  shows "\<exists>st'. unlockLoop (sys_call perm code t (Suc m)) ctx n ls st = (st', KOk ()) \<and>
    (\<forall>a. total_of st' a = total_of st a) \<and>
    (\<forall>a. locked_of st' a GovernTokenTypeOrdinary =
       map_option (\<lambda>l. l - amounts n ls a) (locked_of st a GovernTokenTypeOrdinary)) \<and>
    (\<forall>a. locked_of st' a GovernTokenTypeTDPOS = locked_of st a GovernTokenTypeTDPOS)"
  using assms
proof (induction ls arbitrary: st)
  case Nil
  then show ?case by (simp add: amounts_def option.map_ident)
next
  case (Cons e ls)
  obtain k v where e: "e = (k, v)" by force
  let ?x = "fst (SetString (text_of v))"
  let ?st = "unlocked st (drop n k) ?x"
  let ?res = "sys_call perm code t (Suc m) ctx st TypeKernel GovernTokenKernelContract ''UnLock'' (lock_args (drop n k) v)"
  have "unlockLoop (sys_call perm code t (Suc m)) ctx n (e # ls) st = unlockLoop (sys_call perm code t (Suc m)) ctx n ls ?st"
    using UnLock_call [OF Cons.prems, of code t m "drop n k" v]
    by (cases "snd ?res") (simp_all add: e after_call_def del: sys_call.simps)
  moreover have "lockType_ok GovernTokenTypeTDPOS" "GovernTokenTypeTDPOS \<noteq> GovernTokenTypeOrdinary"
    by (simp_all add: lockType_ok_def GovernTokenTypeTDPOS_def GovernTokenTypeOrdinary_def)
  ultimately show ?case
    using Cons.IH [of ?st] Cons.prems
    by (auto simp: locked_of_unlocked option.map_comp comp_def amounts_def e simp del: sys_call.simps
        intro!: map_option_cong)
qed

definition lock_amount :: "kstate \<Rightarrow> string \<Rightarrow> string \<Rightarrow> int" where
  "lock_amount st pid a =
     (case kGet st proposalBucket (MakeProposalLockKey pid a) of
        None \<Rightarrow> 0
      | Some v \<Rightarrow> fst (SetString (text_of v)))"

lemma filter_key: "distinct (map fst xs) \<Longrightarrow>
    filter (\<lambda>(k, v). k = key) xs = (case map_of xs key of None \<Rightarrow> [] | Some v \<Rightarrow> [(key, v)])"
proof (induction xs)
  case (Cons x xs)
  then show ?case
    by (cases x) (auto simp: map_of_eq_None_iff [THEN iffD2] intro!: filter_False)
qed simp

lemma option_eqI: "(\<And>v. x = Some v \<longleftrightarrow> y = Some v) \<Longrightarrow> x = y"
  by (metis not_Some_eq)

lemma amounts_locks:
  assumes "keys_once st"
  shows "amounts (length (MakeProposalLockPrefix pid)) (locks st pid) a = (if in_scan a then lock_amount st pid a else 0)"
proof -
  let ?key = "MakeProposalLockKey pid a"
  have distinct: "distinct (map fst (locks st pid))" unfolding locks_def by (rule distinct_kSelect [OF assms])
  have "drop (length (MakeProposalLockPrefix pid)) k = a \<longleftrightarrow> k = ?key" if "(k, v) \<in> set (locks st pid)" for k v
    using that by (auto simp: in_locks [OF assms] lock_key)
  then have "filter (\<lambda>(k, v). drop (length (MakeProposalLockPrefix pid)) k = a) (locks st pid) =
      filter (\<lambda>(k, v). k = ?key) (locks st pid)"
    by (intro filter_cong) auto
  moreover have "map_of (locks st pid) ?key = (if in_scan a then kGet st proposalBucket ?key else None)"
  proof (rule option_eqI)
    show "map_of (locks st pid) ?key = Some v \<longleftrightarrow> (if in_scan a then kGet st proposalBucket ?key else None) = Some v" for v
      unfolding map_of_eq_Some_iff [OF distinct] in_locks [OF assms] by (auto simp: lock_key)
  qed
  ultimately show ?thesis
    by (simp add: amounts_def filter_key [OF distinct] lock_amount_def split: option.split)
qed

lemma unlock_unlocks:
  assumes "keys_once st" "can_call perm ctx st ''UnLock''"
  shows "\<exists>st'. unlockGovernTokensForProposal (sys_call perm code t (Suc m)) ctx st pid = (st', KOk ()) \<and>
    (\<forall>a. total_of st' a = total_of st a) \<and>
    (\<forall>a. locked_of st' a GovernTokenTypeOrdinary =
       map_option (\<lambda>l. l - (if in_scan a then lock_amount st pid a else 0)) (locked_of st a GovernTokenTypeOrdinary)) \<and>
    (\<forall>a. locked_of st' a GovernTokenTypeTDPOS = locked_of st a GovernTokenTypeTDPOS)"
  unfolding unlockGovernTokensForProposal_def Let_def locks_def [symmetric] amounts_locks [OF assms(1), symmetric]
  by (rule unlockLoop_unlocks [OF assms(2)])

section \<open>The result of a vote\<close>

text \<open>The limits leave room for a call that costs nothing.\<close>

definition within_limits :: "kctx \<Rightarrow> kstate \<Rightarrow> bool" where
  "within_limits ctx st \<longleftrightarrow>
     \<not> Exceed zero_limits ((limits_Sub (limits_Add zero_limits (ResourceLimit ctx)) (used st))
                             \<lparr>Disk := Disk (ResourceLimit ctx)\<rparr>)"

lemma TotalSupply_call:
  assumes "can_call perm ctx st ''TotalSupply''" "within_limits ctx st"
    and "kGet st governTokenBucket totalSupplyKey = Some (Text (dec_string s))"
  shows "sys_call perm code t (Suc n) ctx st TypeKernel GovernTokenKernelContract ''TotalSupply'' as =
           (st, success (Some (Text (dec_string s))))"
proof -
  have m: "map_of (gov_methods t) ''TotalSupply'' = Some TotalSupply" "''TotalSupply'' \<noteq> initMethod"
    by (simp_all add: gov_methods_def initMethod_def)
  show ?thesis
    unfolding sys_call_gov [OF assms(1) m(2,1)] using assms
    by (simp add: TotalSupply_def success_def if_ok_def after_call_def Let_def within_limits_def can_call_def)
qed

definition add_task :: "kstate \<Rightarrow> string \<Rightarrow> payload \<Rightarrow> kstate" where
  "add_task st height trigger =
     kPut (kPut st timerBucket taskIDKey (Text (getNextTaskID st))) timerBucket
       (MakeTimerBlockHeightTaskKey height (getNextTaskID st)) trigger"

lemma Add_call:
  assumes "ProposalKernelContract = ContractName ctx" "card (cset st) < MaxContractCallDepth"
    "perm (Initiator ctx) TimerTaskKernelContract ''Add''" "within_limits ctx st"
  shows "sys_call perm code t (Suc n) ctx st TypeKernel TimerTaskKernelContract ''Add'' (makeTimerArgs pid h f) =
    ((add_task st h (the (map_of (makeTimerArgs pid h f) ''trigger'')))\<lparr>cset := cset st - {TimerTaskKernelContract}\<rparr>,
     success None)"
proof -
  have m: "map_of (timer_methods call) ''Add'' = Some Timer_Add" "''Add'' \<noteq> initMethod" for call
    by (simp_all add: timer_methods_def initMethod_def)
  have z: "limits_Add zero_limits (fee 0) = zero_limits"
    by (simp add: limits_Add_def zero_limits_def fee_def)
  show ?thesis
    using assms m
    by (simp add: ContractCall_def sys_contexts_eq Invoke_def Let_def kern_exec_def [abs_def] kern_method_def
        Timer_Add_def arg_def makeTimerArgs_def add_task_def success_def if_ok_def after_call_def within_limits_def
        AddResourceUsed_def z kPut_def getNextTaskID_def kGet_def)
qed

lemma checkProposalArgs_ok:
  assumes "checkProposalArgs p = KOk ()"
  obtains q tr where "jget (p_Args p) ''min_vote_percent'' = JString q" "p_Trigger p = Some tr"
    "51 \<le> fst (SetString q)" "fst (SetString q) \<le> 100"
  using assms
  by (auto simp: checkProposalArgs_def checkVoteThread_def Let_def split: if_splits jvalue.splits kres.splits option.splits
      prod.splits)

text \<open>
  The contract is called by the timer in a context that may call the two other contracts.
\<close>

definition counting :: "(string \<Rightarrow> string \<Rightarrow> string \<Rightarrow> bool) \<Rightarrow> kctx \<Rightarrow> kstate \<Rightarrow> bool" where
  "counting perm ctx st \<longleftrightarrow>
     Caller ctx = TimerTaskKernelContract \<and> can_call perm ctx st ''TotalSupply'' \<and> can_call perm ctx st ''UnLock'' \<and>
     perm (Initiator ctx) TimerTaskKernelContract ''Add'' \<and> within_limits ctx st \<and> keys_once st"

lemma update_frame [simp]:
  "total_of (updateProposal st pid p) a = total_of st a" "locked_of (updateProposal st pid p) a lt = locked_of st a lt"
  "getProposal (updateProposal st pid p) pid = Some p"
  by (simp_all add: updateProposal_def getProposal_iff MakeProposalKey_def)

lemma add_task_frame [simp]:
  "total_of (add_task st h tr) a = total_of st a" "locked_of (add_task st h tr) a lt = locked_of st a lt"
  by (simp_all add: add_task_def)

text \<open>
  C20. Counting the votes. When the timer calls \<open>CheckVoteResult\<close> for a stored proposal that is
  being voted on, the call succeeds. If the votes do not reach the proposal's percentage of the
  total supply, the proposal is rejected and every account gets back exactly what it had locked
  for it; otherwise it has passed, the locks stay, and a timer task for its trigger height is
  there. No account's balance changes.
\<close>

theorem vote_is_counted:
  assumes "counting perm ctx st" "taskProposalID ctx = Some pid" "getProposal st pid = Some p"
    and "p_Status p = ProposalStatusVoting" "stored_ok p"
    and "jget (p_Args p) ''min_vote_percent'' = JString q" "p_Trigger p = Some tr"
    and "kGet st governTokenBucket totalSupplyKey = Some (Text (dec_string s))"
    and "Prop_CheckVoteResult (sys_call perm code t (Suc n)) ctx st = (st', r)"
  shows "r = success None \<and> (\<forall>a. total_of st' a = total_of st a) \<and>
    (if votes p < s * fst (SetString q) div 100
     then getProposal st' pid = Some (p\<lparr>p_Status := ProposalStatusRejected\<rparr>) \<and>
       (\<forall>a. in_scan a \<longrightarrow> locked_of st' a GovernTokenTypeOrdinary =
          map_option (\<lambda>l. l - lock_amount st pid a) (locked_of st a GovernTokenTypeOrdinary))
     else getProposal st' pid = Some (p\<lparr>p_Status := ProposalStatusPassed\<rparr>) \<and>
       (\<forall>a. locked_of st' a GovernTokenTypeOrdinary = locked_of st a GovernTokenTypeOrdinary) \<and>
       kGet st' timerBucket (MakeTimerBlockHeightTaskKey (dec_string (t_Height tr)) (getNextTaskID st)) =
         map_of (makeTimerArgs pid (dec_string (t_Height tr)) ''Trigger'') ''trigger'')"
proof -
  let ?call = "sys_call perm code t (Suc n)"
  obtain v where v: "VoteAmount p = Some v" using assms(5) by (auto simp: stored_ok_def)
  have total: "?call ctx st TypeKernel GovernTokenKernelContract ''TotalSupply'' [] = (st, success (Some (Text (dec_string s))))"
    using assms(1,8) by (intro TotalSupply_call) (auto simp: counting_def)
  have tickets: "threadTickets (Some (Text (dec_string s))) q = s * fst (SetString q) div 100"
    by (simp add: threadTickets_def)
  note unfold = Prop_CheckVoteResult_def assms(2-4,6,7) v total success_def if_ok_def after_call_def tickets
  show ?thesis
  proof (cases "votes p < s * fst (SetString q) div 100")
    case True
    obtain st1 where st1: "unlockGovernTokensForProposal ?call ctx st pid = (st1, KOk ())"
      "\<forall>a. total_of st1 a = total_of st a"
      "\<forall>a. locked_of st1 a GovernTokenTypeOrdinary =
         map_option (\<lambda>l. l - (if in_scan a then lock_amount st pid a else 0)) (locked_of st a GovernTokenTypeOrdinary)"
      using unlock_unlocks [of st perm ctx code t n pid] assms(1) by (auto simp: counting_def simp del: sys_call.simps)
    have "st' = updateProposal st1 pid (p\<lparr>p_Status := ProposalStatusRejected\<rparr>)" "r = success None"
      using assms(9,1) True v by (auto simp: unfold st1 votes_def counting_def simp del: sys_call.simps)
    with st1 True show ?thesis by simp
  next
    case False
    let ?h = "dec_string (t_Height tr)"
    have "?call ctx st TypeKernel TimerTaskKernelContract ''Add'' (makeTimerArgs pid ?h ''Trigger'') =
      ((add_task st ?h (the (map_of (makeTimerArgs pid ?h ''Trigger'') ''trigger'')))
         \<lparr>cset := cset st - {TimerTaskKernelContract}\<rparr>, success None)"
      using assms(1) by (intro Add_call) (auto simp: counting_def can_call_def)
    then have "st' = updateProposal ((add_task st ?h (the (map_of (makeTimerArgs pid ?h ''Trigger'') ''trigger'')))
         \<lparr>cset := cset st - {TimerTaskKernelContract}\<rparr>) pid (p\<lparr>p_Status := ProposalStatusPassed\<rparr>)" "r = success None"
      using assms(9,1) False v by (auto simp: unfold votes_def counting_def simp del: sys_call.simps)
    with False show ?thesis
      by (simp add: updateProposal_def add_task_def) (simp add: getProposal_iff MakeProposalKey_def makeTimerArgs_def)
  qed
qed

definition demo_counting :: kstate where
  "demo_counting = demo_proposed\<lparr>used := zero_limits, cset := {TimerTaskKernelContract, ProposalKernelContract}\<rparr>"

definition demo_counter :: kctx where
  "demo_counter = \<lparr>Args = [(''args'', ArgsJson [(''proposal_id'', JString ''MQ=='')])], Initiator = ''carol'', kAuthRequire = [],
     Caller = TimerTaskKernelContract, ContractName = ProposalKernelContract, ResourceLimit = MaxLimits\<rparr>"

theorem vote_is_counted_witness:
  "\<exists>st' r. Prop_CheckVoteResult (sys_call all_allowed no_code demo_gov 1) demo_counter demo_counting = (st', r) \<and>
     r = success None \<and>
     getProposal st' ''1'' = Some (demo_stored 0 ''rejected'') \<and>
     lock_amount demo_counting ''1'' ''alice'' = 1000 \<and>
     locked_of st' ''alice'' GovernTokenTypeOrdinary =
       map_option (\<lambda>l. l - lock_amount demo_counting ''1'' ''alice'') (locked_of demo_counting ''alice'' GovernTokenTypeOrdinary)"
proof -
  obtain st' r where res: "Prop_CheckVoteResult (sys_call all_allowed no_code demo_gov (Suc 0)) demo_counter demo_counting = (st', r)"
    by force
  have c: "counting all_allowed demo_counter demo_counting" by code_simp
  have pid: "taskProposalID demo_counter = Some ''1''" by code_simp
  have p: "getProposal demo_counting ''1'' = Some (demo_stored 0 ''voting'')"
    "p_Status (demo_stored 0 ''voting'') = ProposalStatusVoting" by code_simp+
  have ok: "stored_ok (demo_stored 0 ''voting'')"
  proof -
    have "checkProposalArgs (demo_stored 0 ''voting'') = KOk ()" by code_simp
    then show ?thesis by (simp add: stored_ok_def demo_stored_def)
  qed
  have q: "jget (p_Args (demo_stored 0 ''voting'')) ''min_vote_percent'' = JString ''51''"
    "p_Trigger (demo_stored 0 ''voting'') = Some \<lparr>t_Height = 8, t_Module = TypeKernel, t_Contract = GovernTokenKernelContract,
                        t_Method = ''Query'', t_Args = []\<rparr>" by code_simp+
  have s: "kGet demo_counting governTokenBucket totalSupplyKey = Some (Text (dec_string 12000))" by code_simp
  have few: "votes (demo_stored 0 ''voting'') < 12000 * fst (SetString ''51'') div 100" by code_simp
  have scan: "in_scan ''alice''" "lock_amount demo_counting ''1'' ''alice'' = 1000" by code_simp+
  have "(demo_stored 0 ''voting'')\<lparr>p_Status := ProposalStatusRejected\<rparr> = demo_stored 0 ''rejected''" by code_simp
  then show ?thesis
    using vote_is_counted [OF c pid p ok q s res] few scan res by auto
qed

end
