(* ===== verification/Nesting.thy ===== *)
theory Nesting
  imports Locks
begin

text \<open>
  Nested calls end. A contract that is being called cannot be called again, except for the timer,
  and at most ten contracts can be called at a time (\<open>ContractCall\<close> in
  \<^verbatim>\<open>contract/bridge/syscall_service.go\<close>). Together with the timer's own arguments this bounds
  the depth of nesting: 21 levels are enough for every call.
\<close>

section \<open>The contracts being called\<close>

definition others :: "kstate \<Rightarrow> string set" where
  "others st = cset st - {TimerTaskKernelContract}"

definition grows :: "kstate \<Rightarrow> kstate \<Rightarrow> bool" where
  "grows st st' \<longleftrightarrow> (finite (cset st) \<longrightarrow> finite (cset st') \<and> others st \<subseteq> others st')"

interpretation grows: call_relation grows
  by unfold_locales (auto simp: grows_def others_def)

lemma grows_put [simp]: "grows.put_ok b" "grows.del_ok b"
  by (simp_all add: grows.put_ok_def grows.del_ok_def grows_def others_def)

text \<open>At least \<open>k\<close> contracts other than the timer are being called.\<close>

definition busy :: "nat \<Rightarrow> kstate \<Rightarrow> bool" where
  "busy k st \<longleftrightarrow> finite (cset st) \<and> k \<le> card (others st)"

lemma busy_grows: "busy k st \<Longrightarrow> grows st st' \<Longrightarrow> busy k st'"
  by (auto simp: busy_def grows_def others_def dest!: card_mono [rotated])

lemma busy_used [simp]: "busy k (st\<lparr>used := u\<rparr>) = busy k st" "busy k (kPut st b key v) = busy k st"
  "busy k (kDel st b key) = busy k st" "busy k (AddResourceUsed st d) = busy k st"
  by (simp_all add: busy_def others_def)

lemma busy_enter:
  assumes "busy k st" "c \<notin> cset st" "c \<noteq> TimerTaskKernelContract"
  shows "busy (Suc k) (st\<lparr>cset := insert c (cset st)\<rparr>)"
proof -
  have "insert c (cset st) - {TimerTaskKernelContract} = insert c (others st)" "c \<notin> others st" "finite (others st)"
    using assms by (auto simp: others_def busy_def)
  then show ?thesis using assms by (simp add: busy_def others_def [of "st\<lparr>cset := insert c (cset st)\<rparr>"])
qed

lemma busy_timer: "busy k st \<Longrightarrow> busy k (st\<lparr>cset := insert TimerTaskKernelContract (cset st)\<rparr>)"
  by (simp add: busy_def others_def)

section \<open>Methods depend on their calls only where they make them\<close>

definition agree :: "nat \<Rightarrow> kcall \<Rightarrow> kcall \<Rightarrow> bool" where
  "agree k call call' \<longleftrightarrow>
     (\<forall>ctx st module c f as. busy k st \<longrightarrow> call ctx st module c f as = call' ctx st module c f as)"

text \<open>The calls of the timer's tasks, whose arguments do not name a height.\<close>

definition agree_tasks :: "nat \<Rightarrow> kcall \<Rightarrow> kcall \<Rightarrow> bool" where
  "agree_tasks k call call' \<longleftrightarrow>
     (\<forall>ctx st module c f as. busy k st \<longrightarrow> c \<noteq> TimerTaskKernelContract \<or> map_of as ''block_height'' = None \<longrightarrow>
        call ctx st module c f as = call' ctx st module c f as)"

lemma agreeD: "agree k call call' \<Longrightarrow> busy k st \<Longrightarrow> call ctx st module c f as = call' ctx st module c f as"
  by (simp add: agree_def)

lemma after_call_cong:
  assumes "res = res'" "\<And>e. on_err (fst res') e = on_err' (fst res') e" "\<And>x. on_ok (fst res') x = on_ok' (fst res') x"
  shows "after_call res on_err on_ok = after_call res' on_err' on_ok'"
  using assms by (simp add: after_call_def split: kres.split)

lemma if_ok_cong:
  assumes "res = res'" "\<And>x. on_ok (fst res') x = on_ok' (fst res') x"
  shows "if_ok res on_ok = if_ok res' on_ok'"
  unfolding if_ok_def using assms by (intro after_call_cong) simp_all

lemma checked_cong: "(\<And>x. cont x = cont' x) \<Longrightarrow> checked st r cont = checked st r cont'"
  unfolding checked_def by (rule if_ok_cong) simp_all

lemma busy_call: "grows.keeps_call call \<Longrightarrow> busy k st \<Longrightarrow> busy k (fst (call ctx st module c f as))"
  by (rule busy_grows [OF _ grows.keeps_callD])

lemma run_prog_agree:
  assumes "agree k call call'" "grows.keeps_call call'" "busy k st"
  shows "run_prog call ctx p st = run_prog call' ctx p st"
  using \<open>busy k st\<close>
proof (induction p arbitrary: st)
  case (PCall u module c f as p)
  let ?res = "call' ctx (st\<lparr>used := u\<rparr>) module c f as"
  have "busy k (fst ?res)" using PCall.prems assms(2) by (intro busy_call) simp_all
  then show ?case
    using PCall agreeD [OF assms(1), of "st\<lparr>used := u\<rparr>"]
    by (auto intro!: after_call_cong PCall.IH)
qed simp_all

lemma unlockLoop_agree:
  assumes "agree k call call'" "grows.keeps_call call'" "busy k st"
  shows "unlockLoop call ctx n ls st = unlockLoop call' ctx n ls st"
  using \<open>busy k st\<close>
proof (induction ls arbitrary: st)
  case (Cons e ls)
  obtain key v where [simp]: "e = (key, v)" by force
  show ?case
    using Cons agreeD [OF assms(1) Cons.prems] busy_call [OF assms(2) Cons.prems] by (auto intro!: after_call_cong)
qed simp

lemma unlock_agree:
  assumes "agree k call call'" "grows.keeps_call call'" "busy k st"
  shows "unlockGovernTokensForProposal call ctx st pid = unlockGovernTokensForProposal call' ctx st pid"
  unfolding unlockGovernTokensForProposal_def Let_def by (rule unlockLoop_agree [OF assms])

lemma proposal_methods_agree:
  assumes "agree k call call'" "grows.keeps_call call'" "busy k st"
  shows "rel_option (\<lambda>m m'. m ctx st = m' ctx st) (map_of (proposal_methods call) f) (map_of (proposal_methods call') f)"
proof -
  note same = agreeD [OF assms(1)] unlock_agree [OF assms(1,2)] and b = busy_call [OF assms(2)] assms(3)
  have "Prop_Propose call ctx st = Prop_Propose call' ctx st"
    unfolding Prop_Propose_def Let_def using b
    by (auto simp: same split: option.split jvalue.split prod.split intro!: checked_cong if_ok_cong)
  moreover have "Prop_Vote call ctx st = Prop_Vote call' ctx st"
    unfolding Prop_Vote_def Let_def using b by (auto simp: same split: option.split prod.split intro!: if_ok_cong)
  moreover have "Prop_Thaw call ctx st = Prop_Thaw call' ctx st"
    unfolding Prop_Thaw_def Let_def using b
    by (auto simp: same updateProposal_def split: option.split prod.split intro!: if_ok_cong)
  moreover have "Prop_CheckVoteResult call ctx st = Prop_CheckVoteResult call' ctx st"
    unfolding Prop_CheckVoteResult_def Let_def using b
    by (auto simp: same split: option.split jvalue.split prod.split intro!: if_ok_cong)
  moreover have "Prop_Trigger call ctx st = Prop_Trigger call' ctx st"
    unfolding Prop_Trigger_def Let_def using b
    by (auto simp: same split: option.split prod.split intro!: if_ok_cong after_call_cong)
  ultimately show ?thesis by (simp add: proposal_methods_def)
qed


lemma doTasks_agree:
  assumes "agree_tasks k call call'" "grows.keeps_call call'" "busy k st"
  shows "doTasks call ctx tasks st = doTasks call' ctx tasks st"
  using \<open>busy k st\<close>
proof (induction tasks arbitrary: st)
  case (Cons task tasks)
  obtain key buf where [simp]: "task = (key, buf)" by force
  have same: "Timer_Trigger call ctx st buf = Timer_Trigger call' ctx st buf"
    using assms(1) Cons.prems unfolding Timer_Trigger_def agree_tasks_def
    by (auto split: payload.split intro!: after_call_cong)
  have "busy k (fst (Timer_Trigger call' ctx st buf))"
    by (rule busy_grows [OF Cons.prems grows.Timer_Trigger_rel [OF assms(2)]])
  then show ?case using same by (auto intro!: if_ok_cong Cons.IH)
qed simp

lemma timer_methods_agree:
  assumes "agree_tasks k call call'" "grows.keeps_call call'" "busy k st"
  shows "rel_option (\<lambda>m m'. m ctx st = m' ctx st) (map_of (timer_methods call) f) (map_of (timer_methods call') f)"
  using doTasks_agree [OF assms]
  by (auto simp: timer_methods_def Timer_Do_def Let_def split: option.split intro!: if_ok_cong)

text \<open>A timer that is called by a task makes no calls.\<close>

lemma timer_methods_idle:
  assumes "map_of (Args ctx) ''block_height'' = None"
  shows "rel_option (\<lambda>m m'. m ctx st = m' ctx st) (map_of (timer_methods call) f) (map_of (timer_methods call') f)"
  using assms by (simp add: timer_methods_def Timer_Do_def arg_def)

lemma kern_exec_agree:
  assumes "rel_option (\<lambda>m m'. m ctx st = m' ctx st) (kern_method t call c f) (kern_method t call' c f)"
  shows "kern_exec t call c f ctx st = kern_exec t call' c f ctx st"
  using assms by (cases rule: option.rel_cases) (simp_all add: kern_exec_def)

section \<open>Instances of contracts\<close>

text \<open>The instances that two ways of calling give a contract do the same in a state.\<close>

definition same_at :: "kctx \<Rightarrow> kstate \<Rightarrow> (string \<Rightarrow> kmethod) option \<Rightarrow> (string \<Rightarrow> kmethod) option \<Rightarrow> bool" where
  "same_at ctx st = rel_option (\<lambda>inst inst'. \<forall>f. inst f ctx st = inst' f ctx st)"

lemma sys_contexts_agree:
  assumes "agree k call call'" "grows.keeps_call call'" "busy k st" "c \<noteq> TimerTaskKernelContract"
  shows "same_at ctx st (sys_contexts code t call module c) (sys_contexts code t call' module c)"
proof -
  have "kern_exec t call c f ctx st = kern_exec t call' c f ctx st" for f
    using proposal_methods_agree [OF assms(1-3)] assms(4)
    by (intro kern_exec_agree) (auto simp: kern_method_def option.rel_refl)
  moreover have "run_prog call ctx p st = run_prog call' ctx p st" for p
    by (rule run_prog_agree [OF assms(1-3)])
  ultimately show ?thesis
    by (cases "code module c") (simp_all add: same_at_def sys_contexts_eq user_vm_def)
qed

lemma valid_names: "\<not> ValidContractName TimerTaskKernelContract"
  by code_simp

lemma timer_context:
  assumes "\<forall>module c. code module c \<noteq> None \<longrightarrow> ValidContractName c"
    and "\<And>f. rel_option (\<lambda>m m'. m ctx st = m' ctx st) (map_of (timer_methods call) f) (map_of (timer_methods call') f)"
  shows "same_at ctx st (sys_contexts code t call module TimerTaskKernelContract)
           (sys_contexts code t call' module TimerTaskKernelContract)"
proof -
  have "code module TimerTaskKernelContract = None"
    using assms(1) valid_names by (metis (no_types))
  moreover have "kern_exec t call TimerTaskKernelContract f ctx st = kern_exec t call' TimerTaskKernelContract f ctx st" for f
    by (rule kern_exec_agree) (use assms(2) [of f] in
      \<open>simp add: kern_method_def TimerTaskKernelContract_def GovernTokenKernelContract_def ProposalKernelContract_def\<close>)
  ultimately show ?thesis by (simp add: same_at_def sys_contexts_eq user_vm_def)
qed

lemma same_at_Invoke: "same_at ctx st (Some inst) (Some inst') \<Longrightarrow> Invoke inst f ctx st = Invoke inst' f ctx st"
  by (simp add: same_at_def Invoke_def)

lemma ContractCall_agree:
  assumes "\<And>left. contract \<notin> cset st \<or> contract = TimerTaskKernelContract \<Longrightarrow> card (cset st) < MaxContractCallDepth \<Longrightarrow>
      same_at \<lparr>Args = as, Initiator = Initiator ctx, kAuthRequire = kAuthRequire ctx, Caller = ContractName ctx,
                             ContractName = contract, ResourceLimit = left\<rparr>
        (st\<lparr>cset := insert contract (cset st), used := zero_limits\<rparr>) (news module contract) (news' module contract)"
  shows "ContractCall perm news ctx st module contract f as = ContractCall perm news' ctx st module contract f as"
proof (cases "(contract \<notin> cset st \<or> contract = TimerTaskKernelContract) \<and> card (cset st) < MaxContractCallDepth")
  case True
  then show ?thesis
    using assms same_at_Invoke
    by (cases "news module contract"; cases "news' module contract") (auto simp: ContractCall_def Let_def same_at_def Invoke_def)
qed (auto simp: ContractCall_def)


section \<open>The depth of nesting\<close>

text \<open>\<open>n\<close> levels of calls on top of a function \<open>bottom\<close> that stands for all deeper calls.\<close>

definition call_step :: "(string \<Rightarrow> string \<Rightarrow> string \<Rightarrow> bool) \<Rightarrow> deployed \<Rightarrow> gov_method \<Rightarrow> kcall \<Rightarrow> kcall" where
  "call_step perm code t call = ContractCall perm (sys_contexts code t call)"

lemma sys_call_Suc: "sys_call perm code t (Suc n) = call_step perm code t (sys_call perm code t n)"
  by (simp add: call_step_def)

lemma sys_call_grows: "grows.keeps_call (sys_call perm code t n)"
proof (rule grows.sys_call_keeps)
  have "grows.proposal_keeps call" if "grows.keeps_call call" for call
    unfolding grows.proposal_keeps_def using grows.proposal_methods_keep [OF that] by simp
  then show "grows.free_for ProposalKernelContract \<or> (\<forall>call. grows.keeps_call call \<longrightarrow> grows.proposal_keeps call)"
    by blast
qed (simp_all add: grows.gov_methods_keep grows.user_keeps_def)

lemma busy_refused: "busy MaxContractCallDepth st \<Longrightarrow> \<not> card (cset st) < MaxContractCallDepth"
  using card_mono [of "cset st" "others st"] by (auto simp: busy_def others_def)


text \<open>A level that is reached by a task of the timer, or by another contract.\<close>

lemma call_step_tasks:
  assumes "\<forall>module c. code module c \<noteq> None \<longrightarrow> ValidContractName c"
    and "agree (Suc k) call call'" "grows.keeps_call call'"
  shows "agree_tasks k (call_step perm code t call) (call_step perm code t call')"
  unfolding agree_tasks_def call_step_def
proof (intro allI impI)
  fix ctx st module c f and as :: args
  assume st: "busy k st" and c: "c \<noteq> TimerTaskKernelContract \<or> map_of as ''block_height'' = None"
  show "ContractCall perm (sys_contexts code t call) ctx st module c f as =
        ContractCall perm (sys_contexts code t call') ctx st module c f as"
  proof (cases "c = TimerTaskKernelContract")
    case True
    with c show ?thesis by (auto intro!: ContractCall_agree timer_context [OF assms(1)] timer_methods_idle)
  next
    case False
    with st show ?thesis
      by (intro ContractCall_agree sys_contexts_agree [OF assms(2,3)]) (auto dest: busy_enter)
  qed
qed

lemma call_step_agree:
  assumes names: "\<forall>module c. code module c \<noteq> None \<longrightarrow> ValidContractName c"
    and "agree (Suc k) call call'" "agree_tasks k call call'" "grows.keeps_call call'"
  shows "agree k (call_step perm code t call) (call_step perm code t call')"
  unfolding agree_def
proof (intro allI impI)
  fix ctx st module c f and as :: args
  assume st: "busy k st"
  show "call_step perm code t call ctx st module c f as = call_step perm code t call' ctx st module c f as"
  proof (cases "c = TimerTaskKernelContract")
    case True
    with st show ?thesis unfolding call_step_def
      by (auto intro!: ContractCall_agree timer_context [OF names] timer_methods_agree [OF assms(3,4)] busy_timer)
  next
    case False
    then show ?thesis
      using call_step_tasks [OF assms(1,2,4)] st unfolding agree_tasks_def by blast
  qed
qed

lemma agree_refused: "agree MaxContractCallDepth (call_step perm code t call) (call_step perm code t call')"
  unfolding agree_def call_step_def using busy_refused by (auto intro!: ContractCall_agree)

lemma levels_agree:
  assumes "\<forall>module c. code module c \<noteq> None \<longrightarrow> ValidContractName c"
    and "k + j = MaxContractCallDepth"
  shows "agree k ((call_step perm code t ^^ (n + (2 * j + 1))) bottom) (sys_call perm code t (m + (2 * j + 1)))"
  using assms(2)
proof (induction j arbitrary: k n m)
  case 0
  then show ?case using agree_refused by (simp add: sys_call_Suc del: sys_call.simps(2))
next
  case (Suc j)
  let ?low = "\<lambda>n. (call_step perm code t ^^ n) bottom" and ?call = "sys_call perm code t"
  have IH: "agree (Suc k) (?low (n + (2 * j + 1))) (?call (m + (2 * j + 1)))" for n m
    using Suc by simp
  have "agree_tasks k (?low (Suc (n + (2 * j + 1)))) (?call (Suc (m + (2 * j + 1))))"
    using call_step_tasks [OF assms(1) IH sys_call_grows] by (simp add: sys_call_Suc del: sys_call.simps(2))
  then have "agree k (?low (Suc (Suc (n + (2 * j + 1))))) (?call (Suc (Suc (m + (2 * j + 1)))))"
    using call_step_agree [OF assms(1) IH [of "Suc n" "Suc m"] _ sys_call_grows] by (simp add: sys_call_Suc del: sys_call.simps(2))
  then show ?case by simp
qed




text \<open>A contract that calls whatever its arguments name, itself included.\<close>

definition relay_code :: deployed where
  "relay_code module c =
     (if module = ''wasm'' \<and> c = ''relay'' then
        Some (\<lambda>f as. PCall zero_limits ''wasm'' ''relay'' f as
          (\<lambda>r. PCall zero_limits TypeKernel TimerTaskKernelContract ''Do'' as (\<lambda>r'. PDone zero_limits \<lparr>Status = StatusOK, Body = None\<rparr>)))
      else None)"

definition relay_ctx :: kctx where
  "relay_ctx = \<lparr>Args = [(''block_height'', Text ''5'')], Initiator = ''alice'', kAuthRequire = [], Caller = [], ContractName = ''relay'',
     ResourceLimit = MaxLimits\<rparr>"


end
