(* ===== verification/Weaknesses.thy ===== *)
theory Weaknesses
  imports Nesting
begin

text \<open>
  Two weaknesses of the governance contracts: a transfer of governance tokens
  (\<^verbatim>\<open>contract/proposal/govern/token_contract.go\<close>) clears the locks of its receiver, and a user
  contract may be deployed under the name of the bucket that holds the balances
  (\<open>ValidContractName\<close> in \<^verbatim>\<open>contract/base/utils.go\<close>, \<open>PutObject\<close> in
  \<^verbatim>\<open>contract/bridge/syscall_service.go\<close>).
\<close>

section \<open>A transfer clears locks\<close>

definition record_of :: "kstate \<Rightarrow> string \<Rightarrow> payload option" where
  "record_of st account = kGet st governTokenBucket (MakeAccountBalanceKey account)"

lemma record_of_putBalance [simp]:
  "record_of (putBalance st a b) a' = (if a' = a then Some (BalanceJson b) else record_of st a')"
  "record_of (AddResourceUsed st d) a' = record_of st a'"
  by (simp_all add: record_of_def putBalance_def MakeAccountBalanceKey_def)

definition held :: "kstate \<Rightarrow> string \<Rightarrow> int" where
  "held st account = (case record_of st account of Some (BalanceJson b) \<Rightarrow> TotalBalance b | _ \<Rightarrow> 0)"

text \<open>A successful transfer to another account takes the amount, which is not negative and
  which no lock of the sender covers, from the sender, keeps the sender's locks, gives it to the
  receiver and touches no other account; and it writes the receiver's record with no lock at all,
  whatever was locked before.\<close>

theorem transfer_clears_locks:
  assumes "TransferGovernTokens t ctx st = (st', KOk resp)"
    and "arg ctx ''to'' = Some to" "arg ctx ''amount'' = Some amount" "text_of to \<noteq> Initiator ctx"
  shows "\<exists>b n. balanceOf st (Initiator ctx) = Some b \<and> SetString (text_of amount) = (n, True) \<and> 0 \<le> n \<and>
     (\<forall>(lockType, v) \<in> set (LockedBalance b). n \<le> TotalBalance b - v) \<and>
     record_of st' (Initiator ctx) = Some (BalanceJson (b\<lparr>TotalBalance := TotalBalance b - n\<rparr>)) \<and>
     record_of st' (text_of to) = Some (BalanceJson (NewGovernTokenBalance\<lparr>TotalBalance := n + held st (text_of to)\<rparr>)) \<and>
     (\<forall>a. a \<noteq> Initiator ctx \<longrightarrow> a \<noteq> text_of to \<longrightarrow> record_of st' a = record_of st a)"
proof -
  obtain n ok where n: "SetString (text_of amount) = (n, ok)" by force
  obtain b where b: "balanceOf st (Initiator ctx) = Some b"
    using assms n by (auto simp: TransferGovernTokens_def Let_def split: if_splits option.splits)
  have guards: "ok" "0 \<le> n" "\<forall>(lockType, v) \<in> set (LockedBalance b). n \<le> TotalBalance b - v"
    using assms n b by (auto simp: TransferGovernTokens_def Let_def split: if_splits option.splits)
  have "st' = AddResourceUsed (putBalance (putBalance st (Initiator ctx) (b\<lparr>TotalBalance := TotalBalance b - n\<rparr>)) (text_of to)
          (NewGovernTokenBalance\<lparr>TotalBalance := n + held st (text_of to)\<rparr>)) (fee (transferFee t))"
    using assms n b
    by (auto simp: TransferGovernTokens_def Let_def held_def record_of_def split: if_splits option.splits payload.splits)
  with n b guards assms(4) show ?thesis by auto
qed

definition gift_ctx :: kctx where
  "gift_ctx = \<lparr>Args = [(''to'', Text ''alice''), (''amount'', Text ''0'')], Initiator = ''bob'', kAuthRequire = [], Caller = [],
     ContractName = GovernTokenKernelContract, ResourceLimit = MaxLimits\<rparr>"

lemma gift_locked: "map_option (\<lambda>b. locked b GovernTokenTypeOrdinary) (balanceOf demo_proposed ''alice'') = Some (Some 1000)"
  by code_simp

lemma gift_sent: "snd (TransferGovernTokens demo_gov gift_ctx demo_proposed) = success None"
  by code_simp

lemma gift_held: "held demo_proposed ''alice'' = 5000"
  by code_simp

lemma gift_amount: "fst (SetString ''0'') = 0"
  by code_simp

theorem transfer_clears_locks_witness:
  "(\<exists>b. balanceOf demo_proposed ''alice'' = Some b \<and> locked b GovernTokenTypeOrdinary = Some 1000) \<and>
   record_of (fst (TransferGovernTokens demo_gov gift_ctx demo_proposed)) ''alice'' =
     Some (BalanceJson (NewGovernTokenBalance\<lparr>TotalBalance := 5000\<rparr>))"
proof (intro conjI)
  show "\<exists>b. balanceOf demo_proposed ''alice'' = Some b \<and> locked b GovernTokenTypeOrdinary = Some 1000"
    using gift_locked by auto
  have run: "TransferGovernTokens demo_gov gift_ctx demo_proposed =
      (fst (TransferGovernTokens demo_gov gift_ctx demo_proposed), KOk \<lparr>Status = StatusOK, Body = None\<rparr>)"
    unfolding success_def [symmetric] gift_sent [symmetric] by (rule surjective_pairing)
  have args: "arg gift_ctx ''to'' = Some (Text ''alice'')" "arg gift_ctx ''amount'' = Some (Text ''0'')"
    "text_of (Text ''alice'') \<noteq> Initiator gift_ctx"
    by (simp_all add: gift_ctx_def arg_def)
  obtain n where n: "SetString ''0'' = (n, True)"
    and got: "record_of (fst (TransferGovernTokens demo_gov gift_ctx demo_proposed)) ''alice'' =
      Some (BalanceJson (NewGovernTokenBalance\<lparr>TotalBalance := n + held demo_proposed ''alice''\<rparr>))"
    using transfer_clears_locks [OF run args] unfolding text_of.simps by blast
  have "n = 0" using n gift_amount by (metis fst_conv)
  then show "record_of (fst (TransferGovernTokens demo_gov gift_ctx demo_proposed)) ''alice'' =
     Some (BalanceJson (NewGovernTokenBalance\<lparr>TotalBalance := 5000\<rparr>))"
    using got gift_held by (metis add_0)
qed

section \<open>The name of a bucket\<close>

text \<open>A contract that writes a balance of \<open>n\<close> tokens for the account \<open>a\<close>.\<close>

definition mint_code :: "string \<Rightarrow> int \<Rightarrow> deployed" where
  "mint_code a n module c =
     (if module = ''wasm'' \<and> c = governTokenBucket then
        Some (\<lambda>f as. PutObject (MakeAccountBalanceKey a) (BalanceJson (NewGovernTokenBalance\<lparr>TotalBalance := n\<rparr>))
          (PDone zero_limits \<lparr>Status = StatusOK, Body = None\<rparr>))
      else None)"

definition mint_ctx :: "string \<Rightarrow> kctx" where
  "mint_ctx a = \<lparr>Args = [], Initiator = a, kAuthRequire = [], Caller = [], ContractName = governTokenBucket, ResourceLimit = MaxLimits\<rparr>"

text \<open>The name of the bucket of the governance tokens is a valid name for a user contract, and
  such a contract gives any account any balance: in every state its call succeeds, the account
  then holds the tokens with none of them locked, and the recorded total supply is what it was.\<close>

theorem bucket_name_mints:
  "ValidContractName governTokenBucket \<and>
   (\<exists>st' resp. tx_call perm (mint_code a n) t fuel (mint_ctx a) st ''wasm'' ''run'' = (st', KOk resp) \<and>
      balanceOf st' a = Some (NewGovernTokenBalance\<lparr>TotalBalance := n\<rparr>) \<and>
      kGet st' governTokenBucket totalSupplyKey = kGet st governTokenBucket totalSupplyKey)"
proof
  show "ValidContractName governTokenBucket" by code_simp
  have key: "MakeAccountBalanceKey a \<noteq> totalSupplyKey"
    by (simp add: MakeAccountBalanceKey_def totalSupplyKey_def)
  have ok: "\<not> Exceed zero_limits MaxLimits" by code_simp
  have new: "unmarshalBalance (BalanceJson (NewGovernTokenBalance\<lparr>TotalBalance := n\<rparr>)) = Some (NewGovernTokenBalance\<lparr>TotalBalance := n\<rparr>)"
    by (simp add: unmarshalBalance_def NewGovernTokenBalance_def AList.merge_def)
  show "\<exists>st' resp. tx_call perm (mint_code a n) t fuel (mint_ctx a) st ''wasm'' ''run'' = (st', KOk resp) \<and>
      balanceOf st' a = Some (NewGovernTokenBalance\<lparr>TotalBalance := n\<rparr>) \<and>
      kGet st' governTokenBucket totalSupplyKey = kGet st governTokenBucket totalSupplyKey"
    using key ok new
    by (simp add: tx_call_def TopCall_def sys_contexts_eq user_vm_def mint_code_def mint_ctx_def Invoke_def TypeKernel_def
        initMethod_def if_ok_def after_call_def balanceOf_def)
qed

end
