(* ===== verification/Transaction.thy ===== *)
theory Transaction
  imports Prelude "HOL-Library.List_Lexorder" "HOL-Library.Char_ord"
begin

text \<open>
  Transactions, as \<^verbatim>\<open>protos/contract.proto\<close> declares them. A list is a slice where the code
  tells \<open>nil\<close> from an empty one; a map is the list of its entries.
\<close>

record tx_input =
  RefTxid :: bytes
  RefOffset :: int
  FromAddr :: bytes
  in_Amount :: bytes
  in_FrozenHeight :: int

record tx_output =
  out_Amount :: bytes
  ToAddr :: bytes
  out_FrozenHeight :: int

record tx_input_ext =
  xin_Bucket :: string
  xin_Key :: bytes
  xin_RefTxid :: bytes
  xin_RefOffset :: int

record tx_output_ext =
  xout_Bucket :: string
  xout_Key :: bytes
  xout_Value :: bytes

record invoke_request =
  ModuleName :: string
  req_ContractName :: string
  MethodName :: string
  req_Args :: "(string \<times> bytes) list"
  ResourceLimits :: "(int \<times> int) list"
  req_Amount :: string

record signature_info =
  PublicKey :: string
  Sign :: bytes

record xuper_signature =
  PublicKeys :: "bytes list"
  Signature :: bytes

record hd_info =
  HdPublicKey :: bytes
  OriginalHash :: bytes

record modify_block =
  Marked :: bool
  EffectiveHeight :: int
  mb_PublicKey :: string
  mb_Sign :: string

record transaction =
  Txid :: bytes
  tx_Blockid :: bytes
  TxInputs :: "tx_input list"
  TxOutputs :: "tx_output list"
  Desc :: bytes
  Coinbase :: bool
  Nonce :: string
  Timestamp :: int
  Version :: int
  Autogen :: bool
  TxInputsExt :: "tx_input_ext slice"
  TxOutputsExt :: "tx_output_ext slice"
  ContractRequests :: "invoke_request slice"
  tx_Initiator :: string
  AuthRequire :: "string list"
  InitiatorSigns :: "signature_info list"
  AuthRequireSigns :: "signature_info list"
  ReceivedTimestamp :: int
  XuperSign :: "xuper_signature option"
  ModifyBlock :: "modify_block option"
  HDInfo :: "hd_info option"

end
