(* ===== verification/Kv.thy ===== *)
theory Kv
  imports Prelude "HOL-Library.AList" "HOL-Library.List_Lexorder" "HOL-Library.Char_ord" "HOL-Library.Sublist"
begin

text \<open>
  Tables of a key-value store (\<^verbatim>\<open>storage\<close>). The store orders its keys as byte strings and iterates
  over ranges of them. The tables of one store have prefixes none of which starts another, so they are
  kept apart here. A table is a list of entries with distinct keys.
\<close>

section \<open>Tables\<close>

type_synonym 'v table = "(string \<times> 'v) list"

abbreviation wf_table :: "'v table \<Rightarrow> bool" where
  "wf_table t \<equiv> distinct (map fst t)"

lemma sum_list_delete:
  fixes f :: "'v \<Rightarrow> int"
  assumes "wf_table t"
  shows "(\<Sum>(k, v)\<leftarrow>AList.delete x t. f v) = (\<Sum>(k, v)\<leftarrow>t. f v) - (case map_of t x of None \<Rightarrow> 0 | Some v \<Rightarrow> f v)"
  using assms
proof (induction t)
  case (Cons e t)
  obtain k v where e: "e = (k, v)" by (cases e)
  show ?case
  proof (cases "k = x")
    case True
    with Cons.prems e have "AList.delete x t = t"
      by (auto simp: AList.delete_eq filter_id_conv rev_image_eqI)
    moreover have "map_of t x = None" using Cons.prems e True by (simp add: map_of_eq_None_iff)
    ultimately show ?thesis using True e by simp
  next
    case False
    then show ?thesis using Cons e by simp
  qed
qed simp

lemma sum_list_update:
  fixes f :: "'v \<Rightarrow> int"
  assumes "wf_table t"
  shows "(\<Sum>(k, v)\<leftarrow>AList.update x w t. f v) = (\<Sum>(k, v)\<leftarrow>t. f v) - (case map_of t x of None \<Rightarrow> 0 | Some v \<Rightarrow> f v) + f w"
  using assms by (induction t) (auto simp: map_of_eq_None_iff split: option.split)

section \<open>Ranges\<close>

text \<open>The limit of a range is not included; there is none when the prefix consists of bytes \<open>0xff\<close>.\<close>

record key_range =
  Start :: string
  Limit :: "string option"

fun prefix_limit :: "string \<Rightarrow> string option" where
  "prefix_limit [] = None"
| "prefix_limit (c # cs) =
     (case prefix_limit cs of
        Some l \<Rightarrow> Some (c # l)
      | None \<Rightarrow> if of_char c < (0xff :: nat) then Some [char_of (of_char c + 1 :: nat)] else None)"

definition BytesPrefix :: "string \<Rightarrow> key_range" where
  "BytesPrefix p = \<lparr>Start = p, Limit = prefix_limit p\<rparr>"

definition in_range :: "key_range \<Rightarrow> string \<Rightarrow> bool" where
  "in_range r k \<longleftrightarrow> Start r \<le> k \<and> (case Limit r of None \<Rightarrow> True | Some l \<Rightarrow> k < l)"

definition iterate :: "'v table \<Rightarrow> key_range \<Rightarrow> 'v table" where
  "iterate t r = sort_key fst (filter (in_range r \<circ> fst) t)"

definition NewIteratorWithPrefix :: "'v table \<Rightarrow> string \<Rightarrow> 'v table" where
  "NewIteratorWithPrefix t p = iterate t (BytesPrefix p)"

text \<open>The entries of a quick iterator: from the middle key on, and then the ones before it.\<close>

definition NewQuickIterator :: "'v table \<Rightarrow> string \<Rightarrow> string option \<Rightarrow> 'v table" where
  "NewQuickIterator t p middleKey =
     (case middleKey of
        None \<Rightarrow> NewIteratorWithPrefix t p
      | Some m \<Rightarrow> iterate t \<lparr>Start = m, Limit = Limit (BytesPrefix p)\<rparr> @ iterate t \<lparr>Start = p, Limit = Some m\<rparr>)"

lemma char_succ_less:
  fixes c d :: char
  assumes "of_char c < (255 :: nat)"
  shows "d < char_of (of_char c + 1 :: nat) \<longleftrightarrow> d \<le> c"
proof -
  have "of_char (char_of (of_char c + 1 :: nat) :: char) = (of_char c + 1 :: nat)" using assms by simp
  then show ?thesis by (simp add: less_char_def less_eq_char_def less_Suc_eq_le)
qed

lemma char_top:
  fixes c d :: char
  assumes "\<not> of_char c < (255 :: nat)"
  shows "d \<le> c"
  unfolding less_eq_char_def using assms nat_of_char_less_256 [of d] by linarith

lemma in_range_BytesPrefix: "in_range (BytesPrefix p) k \<longleftrightarrow> prefix p k"
proof -
  have "(p \<le> k \<and> (case prefix_limit p of None \<Rightarrow> True | Some l \<Rightarrow> k < l)) \<longleftrightarrow> prefix p k"
  proof (induction p arbitrary: k)
    case Nil
    then show ?case by simp
  next
    case (Cons c cs)
    show ?case
    proof (cases k)
      case Nil
      then show ?thesis by simp
    next
      case k: (Cons d ks)
      note IH = Cons.IH [of ks]
      show ?thesis
      proof (cases "prefix_limit cs")
        case (Some l)
        then show ?thesis using IH k by auto
      next
        case None
        then have cs: "cs \<le> ks \<longleftrightarrow> prefix cs ks" using IH by simp
        show ?thesis
        proof (cases "of_char c < (255 :: nat)")
          case True
          then show ?thesis using None k cs char_succ_less [OF True, of d] by auto
        next
          case False
          then show ?thesis using None k cs char_top [OF False, of d] by auto
        qed
      qed
    qed
  qed
  then show ?thesis by (simp add: in_range_def BytesPrefix_def)
qed

lemma set_iterate [simp]: "set (iterate t r) = {e \<in> set t. in_range r (fst e)}"
  by (auto simp: iterate_def)

lemma set_NewIteratorWithPrefix: "set (NewIteratorWithPrefix t p) = {e \<in> set t. prefix p (fst e)}"
  by (auto simp: NewIteratorWithPrefix_def in_range_BytesPrefix)

lemma wf_iterate: "wf_table t \<Longrightarrow> wf_table (iterate t r)"
proof -
  assume "wf_table t"
  then have "inj_on fst (set t)" "distinct t" by (simp_all add: distinct_map)
  then have "distinct (iterate t r)" "inj_on fst (set (iterate t r))"
    by (auto simp: iterate_def intro: inj_on_subset)
  then show ?thesis by (simp add: distinct_map)
qed

text \<open>A quick iterator that starts in the middle visits the entries of the prefix, each of them once.\<close>

lemma in_quick_range:
  assumes "prefix p m"
  shows "in_range \<lparr>Start = m, Limit = Limit (BytesPrefix p)\<rparr> k \<or> in_range \<lparr>Start = p, Limit = Some m\<rparr> k \<longleftrightarrow> prefix p k"
proof -
  have m: "p \<le> m" "case prefix_limit p of None \<Rightarrow> True | Some l \<Rightarrow> m < l"
    using assms in_range_BytesPrefix [of p m] by (simp_all add: in_range_def BytesPrefix_def)
  show ?thesis
    unfolding in_range_BytesPrefix [of p k, symmetric] in_range_def BytesPrefix_def
    using m by (auto split: option.splits)
qed

lemma set_NewQuickIterator:
  assumes "\<And>m. middleKey = Some m \<Longrightarrow> prefix p m"
  shows "set (NewQuickIterator t p middleKey) = {e \<in> set t. prefix p (fst e)}"
proof (cases middleKey)
  case None
  then show ?thesis by (simp add: NewQuickIterator_def set_NewIteratorWithPrefix)
next
  case (Some m)
  then have "prefix p m" by (rule assms)
  from in_quick_range [OF this] Some show ?thesis by (auto simp: NewQuickIterator_def)
qed

lemma wf_NewQuickIterator: "wf_table t \<Longrightarrow> wf_table (NewQuickIterator t p middleKey)"
  unfolding NewQuickIterator_def NewIteratorWithPrefix_def
  by (fastforce simp: wf_iterate in_range_def split: option.split)

end
