(* ===== verification/LruCache.thy ===== *)
theory LruCache
  imports Prelude
begin

text \<open>
  The cache of recently used entries (\<^verbatim>\<open>common/cache/lru.go\<close>): a map from keys to elements of a
  linked list, most recently used first. An element is a number; the list holds the elements with their
  pairs. The cache refines a list of pairs that is cut to its capacity.
\<close>

section \<open>Linked lists\<close>

text \<open>The operations of Go's \<open>container/list\<close> that take an element do nothing if it is not in the list.\<close>

definition list_Remove :: "nat \<Rightarrow> (nat \<times> 'a) list \<Rightarrow> (nat \<times> 'a) list" where
  "list_Remove e xs = filter (\<lambda>x. fst x \<noteq> e) xs"

definition MoveToFront :: "nat \<Rightarrow> (nat \<times> 'a) list \<Rightarrow> (nat \<times> 'a) list" where
  "MoveToFront e xs = (case map_of xs e of None \<Rightarrow> xs | Some a \<Rightarrow> (e, a) # list_Remove e xs)"

section \<open>The cache\<close>

record ('k, 'v) LRUCache =
  capacity :: int
  cache :: "'k \<rightharpoonup> nat"
  lru :: "(nat \<times> 'k \<times> 'v) list"
  lru_next :: nat

definition NewLRUCache :: "int \<Rightarrow> ('k, 'v) LRUCache" where
  "NewLRUCache cap = \<lparr>capacity = cap, cache = Map.empty, lru = [], lru_next = 0\<rparr>"

definition lru_Get :: "('k, 'v) LRUCache \<Rightarrow> 'k \<Rightarrow> ('k, 'v) LRUCache \<times> 'v option" where
  "lru_Get c key =
     (case cache c key of
        Some elem \<Rightarrow> (c\<lparr>lru := MoveToFront elem (lru c)\<rparr>, map_option snd (map_of (lru c) elem))
      | None \<Rightarrow> (c, None))"

definition evict :: "('k, 'v) LRUCache \<Rightarrow> ('k, 'v) LRUCache" where
  "evict c =
     (if lru c = [] then c
      else case last (lru c) of
        (elem, key, value) \<Rightarrow> c\<lparr>lru := list_Remove elem (lru c), cache := (cache c)(key := None)\<rparr>)"

definition setValue :: "nat \<Rightarrow> 'v \<Rightarrow> (nat \<times> 'k \<times> 'v) list \<Rightarrow> (nat \<times> 'k \<times> 'v) list" where
  "setValue e v xs = map (\<lambda>(e', k, v'). (e', k, if e' = e then v else v')) xs"

definition lru_Add :: "('k, 'v) LRUCache \<Rightarrow> 'k \<Rightarrow> 'v \<Rightarrow> ('k, 'v) LRUCache \<times> bool" where
  "lru_Add c key value =
     (case cache c key of
        Some elem \<Rightarrow> (c\<lparr>lru := setValue elem value (MoveToFront elem (lru c))\<rparr>, False)
      | None \<Rightarrow>
          (let c1 = c\<lparr>lru := (lru_next c, key, value) # lru c, cache := (cache c)(key \<mapsto> lru_next c), lru_next := lru_next c + 1\<rparr>
           in if int (length (lru c1)) > capacity c1 then (evict c1, True) else (c1, False)))"

definition lru_Del :: "('k, 'v) LRUCache \<Rightarrow> 'k \<Rightarrow> ('k, 'v) LRUCache" where
  "lru_Del c key =
     (case cache c key of
        Some elem \<Rightarrow> c\<lparr>lru := list_Remove elem (lru c), cache := (cache c)(key := None)\<rparr>
      | None \<Rightarrow> c)"

definition lru_Len :: "('k, 'v) LRUCache \<Rightarrow> nat" where
  "lru_Len c = length (lru c)"

definition EnlargeCapacity :: "('k, 'v) LRUCache \<Rightarrow> int \<Rightarrow> ('k, 'v) LRUCache option" where
  "EnlargeCapacity c newCapacity = (if newCapacity < capacity c then None else Some (c\<lparr>capacity := newCapacity\<rparr>))"

section \<open>Refinement\<close>

text \<open>The map and the list agree, and the list is not longer than the capacity.\<close>

definition lru_wf :: "('k, 'v) LRUCache \<Rightarrow> bool" where
  "lru_wf c \<longleftrightarrow>
     distinct (map fst (lru c)) \<and> distinct (map (fst \<circ> snd) (lru c)) \<and>
     (\<forall>e \<in> set (map fst (lru c)). e < lru_next c) \<and>
     (\<forall>k e. cache c k = Some e \<longleftrightarrow> (\<exists>v. (e, k, v) \<in> set (lru c))) \<and>
     length (lru c) \<le> nat (capacity c)"

definition lru_pairs :: "('k, 'v) LRUCache \<Rightarrow> ('k \<times> 'v) list" where
  "lru_pairs c = map snd (lru c)"

definition touch :: "'k \<Rightarrow> ('k \<times> 'v) list \<Rightarrow> ('k \<times> 'v) list" where
  "touch k ps = (case map_of ps k of None \<Rightarrow> ps | Some v \<Rightarrow> (k, v) # filter (\<lambda>p. fst p \<noteq> k) ps)"

lemma lru_wf_ids: "lru_wf c \<Longrightarrow> (e, k, v) \<in> set (lru c) \<Longrightarrow> x \<in> set (lru c) \<Longrightarrow> fst x = e \<longleftrightarrow> fst (snd x) = k"
proof -
  assume c: "lru_wf c" and e: "(e, k, v) \<in> set (lru c)" and x: "x \<in> set (lru c)"
  have "inj_on fst (set (lru c))" "inj_on (fst \<circ> snd) (set (lru c))" using c by (simp_all add: lru_wf_def distinct_map)
  from inj_onD [OF this(1) _ x e] inj_onD [OF this(2) _ x e] show ?thesis by (cases x) auto
qed

lemma lru_hit:
  assumes "lru_wf c" "cache c k = Some e"
  obtains v where "(e, k, v) \<in> set (lru c)" "map_of (lru c) e = Some (k, v)" "map_of (lru_pairs c) k = Some v"
proof -
  from assms obtain v where v: "(e, k, v) \<in> set (lru c)" unfolding lru_wf_def by blast
  moreover have "map_of (lru c) e = Some (k, v)" using v assms(1) by (simp add: lru_wf_def)
  moreover have "map_of (lru_pairs c) k = Some v"
  proof (rule map_of_is_SomeI)
    show "distinct (map fst (lru_pairs c))" using assms(1) by (simp add: lru_wf_def lru_pairs_def)
    show "(k, v) \<in> set (lru_pairs c)" using v by (force simp: lru_pairs_def)
  qed
  ultimately show ?thesis by (rule that)
qed

lemma lru_miss:
  assumes "lru_wf c" "cache c k = None"
  shows "k \<notin> fst ` set (lru_pairs c)"
proof
  assume "k \<in> fst ` set (lru_pairs c)"
  then obtain e v where "(e, k, v) \<in> set (lru c)" by (auto simp: lru_pairs_def)
  then have "cache c k = Some e" using assms(1) unfolding lru_wf_def by blast
  then show False using assms(2) by simp
qed

lemma pairs_list_Remove:
  assumes "lru_wf c" "(e, k, v) \<in> set (lru c)"
  shows "map snd (list_Remove e (lru c)) = filter (\<lambda>p. fst p \<noteq> k) (lru_pairs c)"
proof -
  have "list_Remove e (lru c) = filter ((\<lambda>p. fst p \<noteq> k) \<circ> snd) (lru c)"
    unfolding list_Remove_def using lru_wf_ids [OF assms] by (intro filter_cong) auto
  then show ?thesis by (simp add: lru_pairs_def filter_map)
qed

lemma in_list_Remove:
  assumes "lru_wf c" "(e, k, v) \<in> set (lru c)"
  shows "(e', k', v') \<in> set (list_Remove e (lru c)) \<longleftrightarrow> (e', k', v') \<in> set (lru c) \<and> k' \<noteq> k"
  using lru_wf_ids [OF assms, of "(e', k', v')"] by (auto simp: list_Remove_def)

lemma lru_wf_mem: "lru_wf c \<Longrightarrow> cache c k = Some e \<longleftrightarrow> (\<exists>v. (e, k, v) \<in> set (lru c))"
  by (simp add: lru_wf_def)

lemma lru_wf_remove:
  assumes "lru_wf c" "(e, k, v) \<in> set (lru c)"
  shows "lru_wf (c\<lparr>lru := list_Remove e (lru c), cache := (cache c)(k := None)\<rparr>)"
proof -
  have mem: "((cache c)(k := None)) k' = Some e' \<longleftrightarrow> (\<exists>v. (e', k', v) \<in> set (list_Remove e (lru c)))" for k' e'
    by (simp add: in_list_Remove [OF assms] lru_wf_mem [OF assms(1)])
  have len: "length (list_Remove e (lru c)) \<le> nat (capacity c)"
    using assms(1) length_filter_le [of "\<lambda>x. fst x \<noteq> e" "lru c"] unfolding lru_wf_def list_Remove_def by linarith
  have rest: "distinct (map fst (list_Remove e (lru c)))" "distinct (map (fst \<circ> snd) (list_Remove e (lru c)))"
      "\<forall>e \<in> set (map fst (list_Remove e (lru c))). e < lru_next c"
    using assms(1) by (auto simp: lru_wf_def list_Remove_def distinct_map_filter)
  show ?thesis unfolding lru_wf_def using mem len rest by simp
qed

lemma MoveToFront_hit:
  assumes "lru_wf c" "(e, k, v) \<in> set (lru c)"
  shows "MoveToFront e (lru c) = (e, k, v) # list_Remove e (lru c)"
  using assms by (simp add: MoveToFront_def lru_wf_def)

lemma length_list_Remove:
  assumes "lru_wf c" "(e, k, v) \<in> set (lru c)"
  shows "Suc (length (list_Remove e (lru c))) = length (lru c)"
proof -
  have "Suc (length (filter (\<lambda>x. fst x \<noteq> e) xs)) = length xs" if "distinct (map fst xs)" "(e, a) \<in> set xs" for xs and a :: "'a \<times> 'b"
    using that by (induction xs) (auto intro!: arg_cong [where f = length] filter_True, force+)
  then show ?thesis using assms unfolding lru_wf_def list_Remove_def by blast
qed

lemma lru_wf_front:
  assumes "lru_wf c" "(e, k, v) \<in> set (lru c)"
  shows "lru_wf (c\<lparr>lru := (e, k, v') # list_Remove e (lru c)\<rparr>)"
proof -
  have mem: "cache c k' = Some e' \<longleftrightarrow> (\<exists>w. (e', k', w) \<in> set ((e, k, v') # list_Remove e (lru c)))" for k' e'
    using lru_wf_ids [OF assms, of "(e', k, w)" for w] assms(2)
    by (auto simp: in_list_Remove [OF assms] lru_wf_mem [OF assms(1)])
  have key: "k \<notin> (fst \<circ> snd) ` set (list_Remove e (lru c))"
    by (auto simp: in_list_Remove [OF assms])
  have rest: "distinct (map fst (list_Remove e (lru c)))" "distinct (map (fst \<circ> snd) (list_Remove e (lru c)))"
      "\<forall>e \<in> set (map fst (list_Remove e (lru c))). e < lru_next c" "e < lru_next c" "e \<notin> set (map fst (list_Remove e (lru c)))"
    using assms by (auto simp: lru_wf_def list_Remove_def distinct_map_filter)
  have len: "Suc (length (list_Remove e (lru c))) \<le> nat (capacity c)"
    using length_list_Remove [OF assms] assms(1) by (simp add: lru_wf_def)
  show ?thesis unfolding lru_wf_def using mem key rest len by (simp add: o_def)
qed

lemma NewLRUCache_wf [simp]: "lru_wf (NewLRUCache cap)" "lru_pairs (NewLRUCache cap) = []"
  by (simp_all add: NewLRUCache_def lru_wf_def lru_pairs_def)

text \<open>\<open>Get\<close> returns what the pairs hold and moves the key to the front.\<close>

lemma lru_Get_refines:
  assumes "lru_wf c"
  shows "lru_wf (fst (lru_Get c k))" "lru_pairs (fst (lru_Get c k)) = touch k (lru_pairs c)"
    "snd (lru_Get c k) = map_of (lru_pairs c) k"
proof -
  have "lru_wf (fst (lru_Get c k)) \<and> lru_pairs (fst (lru_Get c k)) = touch k (lru_pairs c) \<and>
      snd (lru_Get c k) = map_of (lru_pairs c) k"
  proof (cases "cache c k")
    case None
    then have "map_of (lru_pairs c) k = None" using lru_miss [OF assms] by (simp add: map_of_eq_None_iff)
    then show ?thesis using assms None by (simp add: lru_Get_def touch_def)
  next
    case (Some e)
    with assms obtain v where v: "(e, k, v) \<in> set (lru c)" "map_of (lru c) e = Some (k, v)" "map_of (lru_pairs c) k = Some v"
      by (rule lru_hit)
    then show ?thesis
      using Some lru_wf_front [OF assms v(1), of v] pairs_list_Remove [OF assms v(1)]
      by (simp add: lru_Get_def touch_def MoveToFront_hit [OF assms v(1)]) (simp add: lru_pairs_def)
  qed
  then show "lru_wf (fst (lru_Get c k))" "lru_pairs (fst (lru_Get c k)) = touch k (lru_pairs c)"
    "snd (lru_Get c k) = map_of (lru_pairs c) k" by simp_all
qed

lemma evict_pairs:
  assumes "distinct (map fst (lru c))"
  shows "lru (evict c) = butlast (lru c)"
proof (cases "lru c" rule: rev_cases)
  case (snoc xs x)
  then show ?thesis using assms by (cases x) (auto simp: evict_def list_Remove_def filter_id_conv)
qed (simp add: evict_def)

text \<open>\<open>Add\<close> puts the pair in front; the pairs beyond the capacity are dropped.\<close>

lemma lru_Add_pairs:
  assumes "lru_wf c"
  shows "lru_pairs (fst (lru_Add c k v)) = take (nat (capacity c)) ((k, v) # filter (\<lambda>p. fst p \<noteq> k) (lru_pairs c))"
proof (cases "cache c k")
  case None
  have fresh: "filter (\<lambda>p. fst p \<noteq> k) (lru_pairs c) = lru_pairs c"
    using lru_miss [OF assms None] by (auto simp: filter_id_conv)
  define c1 where "c1 = c\<lparr>lru := (lru_next c, k, v) # lru c, cache := (cache c)(k \<mapsto> lru_next c), lru_next := lru_next c + 1\<rparr>"
  have add: "lru_Add c k v = (if int (length (lru c1)) > capacity c1 then (evict c1, True) else (c1, False))"
    using None by (simp add: lru_Add_def c1_def Let_def)
  have c1: "lru_pairs c1 = (k, v) # lru_pairs c" "capacity c1 = capacity c" "length (lru c1) = Suc (length (lru_pairs c))"
    by (simp_all add: c1_def lru_pairs_def)
  have "distinct (map fst (lru c1))" using assms by (auto simp: lru_wf_def c1_def)
  then have ev: "lru_pairs (evict c1) = butlast ((k, v) # lru_pairs c)"
    using c1(1) by (simp add: evict_pairs lru_pairs_def map_butlast)
  have len: "length (lru_pairs c) \<le> nat (capacity c)" using assms by (simp add: lru_wf_def lru_pairs_def)
  show ?thesis
  proof (cases "int (length (lru c1)) > capacity c1")
    case True
    then have n: "length (lru_pairs c) = nat (capacity c)" using len c1 by simp
    have "lru_pairs (evict c1) = take (nat (capacity c)) ((k, v) # lru_pairs c)"
      unfolding ev by (simp add: butlast_conv_take n del: butlast.simps)
    then show ?thesis using add True fresh by simp
  next
    case False
    then show ?thesis using add fresh c1 by simp
  qed
next
  case (Some e)
  with assms obtain w where w: "(e, k, w) \<in> set (lru c)" by (rule lru_hit)
  have other: "setValue e v (list_Remove e (lru c)) = list_Remove e (lru c)"
    by (auto simp: setValue_def list_Remove_def intro!: map_idI)
  have "Suc (length (filter (\<lambda>p. fst p \<noteq> k) (lru_pairs c))) = length (lru c)"
    using length_list_Remove [OF assms w] arg_cong [OF pairs_list_Remove [OF assms w], of length] by simp
  then have "Suc (length (filter (\<lambda>p. fst p \<noteq> k) (lru_pairs c))) \<le> nat (capacity c)" using assms by (simp add: lru_wf_def)
  then show ?thesis
    using Some other pairs_list_Remove [OF assms w]
    by (simp add: lru_Add_def MoveToFront_hit [OF assms w] lru_pairs_def setValue_def)
qed

lemma lru_wf_capacity: "lru_wf (c\<lparr>capacity := x\<rparr>) \<Longrightarrow> length (lru c) \<le> nat (capacity c) \<Longrightarrow> lru_wf c"
  by (simp add: lru_wf_def)

lemma evict_wf:
  assumes "lru_wf c"
  shows "lru_wf (evict c)"
proof (cases "lru c = []")
  case False
  obtain e k v where last: "last (lru c) = (e, k, v)" by (cases "last (lru c)")
  then have "(e, k, v) \<in> set (lru c)" using last_in_set [OF False] by simp
  from lru_wf_remove [OF assms this] False last show ?thesis by (simp add: evict_def)
qed (simp add: evict_def assms)

lemma evict_capacity: "evict (c\<lparr>capacity := x\<rparr>) = (evict c)\<lparr>capacity := x\<rparr>"
  by (cases c) (simp add: evict_def split: prod.split)

lemma lru_Add_wf:
  assumes "lru_wf c"
  shows "lru_wf (fst (lru_Add c k v))"
proof (cases "cache c k")
  case None
  define c1 where "c1 = c\<lparr>lru := (lru_next c, k, v) # lru c, cache := (cache c)(k \<mapsto> lru_next c), lru_next := lru_next c + 1\<rparr>"
  have add: "lru_Add c k v = (if int (length (lru c1)) > capacity c1 then (evict c1, True) else (c1, False))"
    using None by (simp add: lru_Add_def c1_def Let_def)
  have mem: "cache c1 k' = Some e' \<longleftrightarrow> (\<exists>w. (e', k', w) \<in> set (lru c1))" for k' e'
    using lru_wf_mem [OF assms, of k'] None lru_wf_mem [OF assms, of k] by (auto simp: c1_def)
  have keys: "k \<notin> (fst \<circ> snd) ` set (lru c)" using lru_miss [OF assms None] by (force simp: lru_pairs_def)
  have big: "lru_wf (c1\<lparr>capacity := int (length (lru c1))\<rparr>)"
    unfolding lru_wf_def using assms keys mem by (auto simp: lru_wf_def c1_def)
  have len: "length (lru c) \<le> nat (capacity c)" using assms by (simp add: lru_wf_def)
  show ?thesis
  proof (cases "int (length (lru c1)) > capacity c1")
    case True
    have "distinct (map fst (lru c1))" using big by (simp add: lru_wf_def)
    then have "length (lru (evict c1)) \<le> nat (capacity (evict c1))"
      using len by (simp add: evict_pairs c1_def) (simp add: evict_def split: prod.split)
    moreover have "lru_wf ((evict c1)\<lparr>capacity := int (length (lru c1))\<rparr>)"
      using evict_wf [OF big] by (simp add: evict_capacity)
    ultimately show ?thesis using add True by (simp add: lru_wf_capacity)
  next
    case False
    then show ?thesis using add lru_wf_capacity [OF big] by simp
  qed
next
  case (Some e)
  with assms obtain w where w: "(e, k, w) \<in> set (lru c)" by (rule lru_hit)
  have "setValue e v (list_Remove e (lru c)) = list_Remove e (lru c)"
    by (auto simp: setValue_def list_Remove_def intro!: map_idI)
  then show ?thesis
    using Some lru_wf_front [OF assms w, of v] by (simp add: lru_Add_def MoveToFront_hit [OF assms w] setValue_def)
qed

lemma lru_Del_refines:
  assumes "lru_wf c"
  shows "lru_wf (lru_Del c k)" "lru_pairs (lru_Del c k) = filter (\<lambda>p. fst p \<noteq> k) (lru_pairs c)"
proof -
  have "lru_wf (lru_Del c k) \<and> lru_pairs (lru_Del c k) = filter (\<lambda>p. fst p \<noteq> k) (lru_pairs c)"
  proof (cases "cache c k")
    case None
    then show ?thesis using assms lru_miss [OF assms None] by (auto simp: lru_Del_def intro!: filter_True [symmetric])
  next
    case (Some e)
    with assms obtain w where w: "(e, k, w) \<in> set (lru c)" by (rule lru_hit)
    then show ?thesis
      using Some lru_wf_remove [OF assms w] pairs_list_Remove [OF assms w] by (simp add: lru_Del_def lru_pairs_def)
  qed
  then show "lru_wf (lru_Del c k)" "lru_pairs (lru_Del c k) = filter (\<lambda>p. fst p \<noteq> k) (lru_pairs c)" by simp_all
qed

text \<open>What a lookup finds after each operation.\<close>

lemma map_of_filter_other: "map_of (filter (\<lambda>p. fst p \<noteq> k) ps) k' = (if k' = k then None else map_of ps k')"
  by (induction ps) auto

lemma map_of_touch [simp]: "map_of (touch k ps) = map_of ps"
  by (auto simp: touch_def map_of_filter_other fun_eq_iff split: option.split)

lemma map_of_take: "distinct (map fst ps) \<Longrightarrow> map_of (take n ps) k = Some v \<Longrightarrow> map_of ps k = Some v"
  by (metis map_of_is_SomeI map_of_SomeD in_set_takeD)

lemma lru_pairs_distinct: "lru_wf c \<Longrightarrow> distinct (map fst (lru_pairs c))"
  by (simp add: lru_wf_def lru_pairs_def)

lemma lru_Add_lookup:
  assumes "lru_wf c" "map_of (lru_pairs (fst (lru_Add c k v))) k' = Some w"
  shows "if k' = k then w = v else map_of (lru_pairs c) k' = Some w"
proof -
  have "distinct (map fst ((k, v) # filter (\<lambda>p. fst p \<noteq> k) (lru_pairs c)))"
    using lru_pairs_distinct [OF assms(1)] by (auto simp: distinct_map_filter)
  from map_of_take [OF this, of "nat (capacity c)" k' w] assms
  have "map_of ((k, v) # filter (\<lambda>p. fst p \<noteq> k) (lru_pairs c)) k' = Some w" by (simp only: lru_Add_pairs)
  then show ?thesis by (simp add: map_of_filter_other split: if_splits)
qed

end
