(* ===== verification/Ledger.thy ===== *)
theory Ledger
  imports Transaction Kv LruCache
begin

text \<open>
  The ledger (\<^verbatim>\<open>ledger/ledger.go\<close>, \<^verbatim>\<open>branch_manage.go\<close>): blocks in a tree, one branch of which is the
  trunk, the confirmed transactions, and the caches in front of them. Writes are collected in a batch and take effect
  together, but the caches change at once. A table is a function from keys; the table of branches, which is iterated over,
  is a list of entries. Of the errors of the store only a missing key and a failing write are modelled. A loop that need not
  end is a partial function; \<open>None\<close> is a run that does not end.
\<close>

section \<open>Blocks and tables\<close>

record block_qc =
  bqc_ProposalId :: bytes
  bqc_ProposalMsg :: bytes
  bqc_Type :: int
  bqc_ViewNumber :: int
  bqc_SignInfos :: "(string \<times> string \<times> bytes) list option"

record internal_block =
  ib_Version :: int
  ib_Nonce :: int
  ib_Blockid :: bytes
  ib_PreHash :: bytes
  ib_Proposer :: bytes
  ib_Sign :: bytes
  ib_Pubkey :: bytes
  ib_MerkleRoot :: bytes
  ib_Height :: int
  ib_Timestamp :: int
  ib_Transactions :: "transaction list"
  ib_TxCount :: int
  ib_MerkleTree :: "bytes list"
  ib_CurTerm :: int
  ib_CurBlockNum :: int
  ib_FailedTxs :: "(string \<times> string) list"
  ib_TargetBits :: int
  ib_Justify :: "block_qc option"
  ib_InTrunk :: bool
  ib_NextHash :: bytes

record ledger_meta =
  RootBlockid :: bytes
  TipBlockid :: bytes
  lm_TrunkHeight :: int

datatype ledger_error =
    ErrBlockNotExist | ErrTxNotFound | ErrTxDuplicated | ErrRootBlockAlreadyExist | ErrTxNotConfirmed
  | LErrKV | LErrMerkle | LErrGenesis | LErrParam

record ledger_db =
  blocksTable :: "string \<rightharpoonup> internal_block"
  confirmedTable :: "string \<rightharpoonup> transaction"
  pendingTable :: "string \<rightharpoonup> internal_block"
  heightTable :: "int \<rightharpoonup> bytes"
  branchTable :: "int table"
  metaTable :: "ledger_meta option"

datatype ledger_op =
    PutBlock bytes internal_block | DelBlock bytes | PutHeight int bytes | DelHeight int | PutTxn bytes transaction
  | DelPending bytes | PutMeta ledger_meta | PutBranch bytes int | DelBranch bytes

fun apply_ledger_op :: "ledger_op \<Rightarrow> ledger_db \<Rightarrow> ledger_db" where
  "apply_ledger_op (PutBlock i b) d = d\<lparr>blocksTable := (blocksTable d)(elems i \<mapsto> b)\<rparr>"
| "apply_ledger_op (DelBlock i) d = d\<lparr>blocksTable := (blocksTable d)(elems i := None)\<rparr>"
| "apply_ledger_op (PutHeight h i) d = d\<lparr>heightTable := (heightTable d)(h \<mapsto> i)\<rparr>"
| "apply_ledger_op (DelHeight h) d = d\<lparr>heightTable := (heightTable d)(h := None)\<rparr>"
| "apply_ledger_op (PutTxn i t) d = d\<lparr>confirmedTable := (confirmedTable d)(elems i \<mapsto> t)\<rparr>"
| "apply_ledger_op (DelPending i) d = d\<lparr>pendingTable := (pendingTable d)(elems i := None)\<rparr>"
| "apply_ledger_op (PutMeta m) d = d\<lparr>metaTable := Some m\<rparr>"
| "apply_ledger_op (PutBranch i h) d = d\<lparr>branchTable := AList.update (elems i) h (branchTable d)\<rparr>"
| "apply_ledger_op (DelBranch i) d = d\<lparr>branchTable := AList.delete (elems i) (branchTable d)\<rparr>"

definition ledgerWrite :: "ledger_op list \<Rightarrow> ledger_db \<Rightarrow> ledger_db" where
  "ledgerWrite batch d = fold apply_ledger_op batch d"

section \<open>Genesis\<close>

text \<open>The configuration of the chain, read from the description of the first transaction. Reading its text is an argument.\<close>

record genesis_config =
  gc_Award :: string
  gc_HeightGap :: int
  gc_NoFee :: bool
  gc_MaxBlockSize :: string
  gc_NewAccountResourceAmount :: int
  gc_CpuRate :: int
  gc_MemRate :: int
  gc_DiskRate :: int
  gc_XfeeRate :: int
  gc_IrreversibleSlideWindow :: string

definition NewGenesisBlock :: "(string \<Rightarrow> genesis_config option) \<Rightarrow> bytes \<Rightarrow> genesis_config option" where
  "NewGenesisBlock parse genesisCfg =
     (if length (elems genesisCfg) < 1 then None
      else case parse (elems genesisCfg) of
        None \<Rightarrow> None
      | Some config \<Rightarrow>
          Some (if gc_NoFee config
                then config\<lparr>gc_Award := ''0'', gc_NewAccountResourceAmount := 0, gc_CpuRate := 0, gc_DiskRate := 0,
                       gc_MemRate := 0, gc_XfeeRate := 0\<rparr>
                else config))"

section \<open>The ledger\<close>

record ledger =
  ldb :: ledger_db
  lmeta :: ledger_meta
  lgenesis :: "genesis_config option"
  blkHeaderCache :: "(string, internal_block) LRUCache"
  blockCache :: "(string, internal_block) LRUCache"
  txCache :: "(string, transaction) LRUCache"

definition saveBlock :: "internal_block \<Rightarrow> ledger \<times> ledger_op list \<Rightarrow> ledger \<times> ledger_op list" where
  "saveBlock block lb =
     (case lb of (l, batch) \<Rightarrow>
        (l\<lparr>blkHeaderCache := fst (lru_Add (blkHeaderCache l) (elems (ib_Blockid block)) block)\<rparr>,
         batch @ [PutBlock (ib_Blockid block) block] @
           (if ib_InTrunk block then [PutHeight (ib_Height block) (ib_Blockid block)] else [])))"

definition fetchBlock :: "ledger \<Rightarrow> bytes \<Rightarrow> ledger \<times> internal_block option" where
  "fetchBlock l blockid =
     (case lru_Get (blkHeaderCache l) (elems blockid) of
        (c, Some blk) \<Rightarrow> (l\<lparr>blkHeaderCache := c\<rparr>, Some blk)
      | (c, None) \<Rightarrow>
          (case blocksTable (ldb l) (elems blockid) of
             None \<Rightarrow> (l\<lparr>blkHeaderCache := c\<rparr>, None)
           | Some block \<Rightarrow> (l\<lparr>blkHeaderCache := fst (lru_Add c (elems blockid) block)\<rparr>, Some block)))"

fun readTxs :: "ledger_db \<Rightarrow> bytes list \<Rightarrow> ledger_error + transaction list" where
  "readTxs d [] = Inr []"
| "readTxs d (txid # txids) =
     (case confirmedTable d (elems txid) of
        None \<Rightarrow> Inl LErrKV
      | Some tx \<Rightarrow> (case readTxs d txids of Inl e \<Rightarrow> Inl e | Inr txs \<Rightarrow> Inr (tx # txs)))"

text \<open>The identifiers of the transactions of a block are the first leaves of its tree; a count beyond the tree fails.\<close>

definition queryBlock :: "ledger_db \<Rightarrow> bytes \<Rightarrow> bool \<Rightarrow> ledger_error + internal_block" where
  "queryBlock d blockid needBody =
     (case blocksTable d (elems blockid) of
        None \<Rightarrow> Inl ErrBlockNotExist
      | Some block \<Rightarrow>
          if \<not> needBody then Inr block
          else if ib_TxCount block < 0 \<or> int (length (ib_MerkleTree block)) < ib_TxCount block then Inl LErrMerkle
          else case readTxs d (take (nat (ib_TxCount block)) (ib_MerkleTree block)) of
            Inl e \<Rightarrow> Inl e
          | Inr txs \<Rightarrow> Inr (block\<lparr>ib_Transactions := txs\<rparr>))"

definition loadGenesisBlock :: "(string \<Rightarrow> genesis_config option) \<Rightarrow> bool \<Rightarrow> bytes \<Rightarrow> ledger \<Rightarrow> ledger_error + ledger" where
  "loadGenesisBlock parse isEmptyLedger genesisCfg l =
     (let cfg = (if isEmptyLedger then Inr genesisCfg
                 else if elems (RootBlockid (lmeta l)) = [] then Inl ErrBlockNotExist
                 else case queryBlock (ldb l) (RootBlockid (lmeta l)) True of
                   Inl e \<Rightarrow> Inl e
                 | Inr rootIb \<Rightarrow>
                     (case filter Coinbase (ib_Transactions rootIb) of
                        [] \<Rightarrow> Inl LErrGenesis
                      | coinbaseTx # _ \<Rightarrow> Inr (Desc coinbaseTx)))
      in case cfg of
           Inl e \<Rightarrow> Inl e
         | Inr c \<Rightarrow> (case NewGenesisBlock parse c of None \<Rightarrow> Inl LErrGenesis | Some gb \<Rightarrow> Inr (l\<lparr>lgenesis := Some gb\<rparr>)))"

definition BlockCacheSize :: int where "BlockCacheSize = 1000"
definition TxCacheSize :: int where "TxCacheSize = 100000"

text \<open>
  Opening a ledger with configured cache sizes (0 for the default). The configured size of the transaction cache is assigned
  to the wrong variable, so that it has no effect. Creating the cryptography client afterwards is left out.
\<close>

definition newLedger :: "(string \<Rightarrow> genesis_config option) \<Rightarrow> ledger_db \<Rightarrow> int \<Rightarrow> int \<Rightarrow> bool \<Rightarrow> bytes \<Rightarrow> ledger_error + ledger" where
  "newLedger parse d cfgBlockCacheSize cfgTxCacheSize createIfMissing genesisCfg =
     (let size = (if cfgBlockCacheSize \<noteq> 0 then cfgBlockCacheSize else BlockCacheSize);
          empty = \<lparr>RootBlockid = None, TipBlockid = None, lm_TrunkHeight = 0\<rparr>;
          open_with = (\<lambda>d m isEmpty. loadGenesisBlock parse isEmpty genesisCfg
            \<lparr>ldb = d, lmeta = m, lgenesis = None, blkHeaderCache = NewLRUCache size, blockCache = NewLRUCache size,
             txCache = NewLRUCache TxCacheSize\<rparr>)
      in case metaTable d of
           None \<Rightarrow> if createIfMissing then open_with (d\<lparr>metaTable := Some empty\<rparr>) empty True else Inl LErrKV
         | Some m \<Rightarrow> open_with d m False)"

section \<open>Branches\<close>

definition updateBranchInfo :: "bytes \<Rightarrow> bytes \<Rightarrow> int \<Rightarrow> ledger_op list" where
  "updateBranchInfo addedBlockid deletedBlockid addedBlockHeight = [DelBranch deletedBlockid, PutBranch addedBlockid addedBlockHeight]"

text \<open>Entries are visited in the order of their keys.\<close>

definition GetBranchInfo :: "ledger_db \<Rightarrow> bytes \<Rightarrow> int \<Rightarrow> string list" where
  "GetBranchInfo d targetBlockid targetBlockHeight =
     [blkId. (blkId, blockHeight) \<leftarrow> NewIteratorWithPrefix (branchTable d) [],
        blkId \<noteq> [], blkId \<noteq> elems targetBlockid, blockHeight > targetBlockHeight]"

definition correctTxsBlockid :: "ledger_db \<Rightarrow> bytes \<Rightarrow> ledger_op list \<Rightarrow> ledger_error + ledger_op list" where
  "correctTxsBlockid d blockID batch =
     (case queryBlock d blockID True of
        Inl e \<Rightarrow> Inl e
      | Inr block \<Rightarrow>
          Inr (batch @ [PutTxn (Txid tx) (tx\<lparr>tx_Blockid := blockID\<rparr>). tx \<leftarrow> ib_Transactions block, \<not> bytes_Equal (tx_Blockid tx) blockID]))"

text \<open>The two branches are followed down in step until they meet.\<close>

partial_function (option) forkLoop ::
  "ledger \<Rightarrow> ledger_op list \<Rightarrow> bytes \<Rightarrow> bytes \<Rightarrow> bytes \<Rightarrow> (ledger \<times> ledger_op list \<times> (ledger_error + bytes \<times> bytes)) option" where
  "forkLoop l batch p q nextHash =
     (if bytes_Equal p q then Some (l, batch, Inr (q, nextHash))
      else case fetchBlock l p of
        (l1, None) \<Rightarrow> Some (l1, batch, Inl LErrKV)
      | (l1, Some pBlock) \<Rightarrow>
          (case fetchBlock l1 q of
             (l2, None) \<Rightarrow> Some (l2, batch, Inl LErrKV)
           | (l2, Some qBlock) \<Rightarrow>
               (case correctTxsBlockid (ldb l2) (ib_Blockid qBlock) batch of
                  Inl e \<Rightarrow> Some (l2, batch, Inl e)
                | Inr batch1 \<Rightarrow>
                    (case saveBlock (qBlock\<lparr>ib_InTrunk := True, ib_NextHash := nextHash\<rparr>)
                            (saveBlock (pBlock\<lparr>ib_InTrunk := False, ib_NextHash := Some []\<rparr>) (l2, batch1)) of
                       (l3, batch2) \<Rightarrow> forkLoop l3 batch2 (ib_PreHash pBlock) (ib_PreHash qBlock) q))))"

definition handleFork ::
  "ledger \<Rightarrow> ledger_op list \<Rightarrow> bytes \<Rightarrow> bytes \<Rightarrow> bytes \<Rightarrow> (ledger \<times> ledger_op list \<times> (ledger_error + internal_block)) option" where
  "handleFork l batch oldTip newTipPre nextHash =
     (case forkLoop l batch oldTip newTipPre nextHash of
        None \<Rightarrow> None
      | Some (l1, batch1, Inl e) \<Rightarrow> Some (l1, batch1, Inl e)
      | Some (l1, batch1, Inr (q, next)) \<Rightarrow>
          (case fetchBlock l1 q of
             (l2, None) \<Rightarrow> Some (l2, batch1, Inl LErrKV)
           | (l2, Some splitBlock) \<Rightarrow>
               (let splitBlock' = splitBlock\<lparr>ib_InTrunk := True, ib_NextHash := next\<rparr>
                in case saveBlock splitBlock' (l2, batch1) of (l3, batch2) \<Rightarrow> Some (l3, batch2, Inr splitBlock'))))"


section \<open>Confirming a block\<close>

record confirm_status =
  Succ :: bool
  Split :: bool
  Orphan :: bool
  TrunkSwitch :: bool
  cs_Error :: "ledger_error option"

definition noStatus :: confirm_status where
  "noStatus = \<lparr>Succ = False, Split = False, Orphan = False, TrunkSwitch = False, cs_Error = None\<rparr>"

text \<open>Where a block goes: the changed block, the new meta data, and the height up to which the trunk stays.\<close>

datatype placement =
    Placed ledger "ledger_op list" ledger_meta internal_block int confirm_status
  | Rejected ledger internal_block confirm_status

definition placeRoot :: "ledger \<Rightarrow> internal_block \<Rightarrow> placement" where
  "placeRoot l block =
     (if elems (ib_PreHash block) \<noteq> [] then Rejected l block noStatus
      else if elems (RootBlockid (lmeta l)) \<noteq> [] then Rejected l block (noStatus\<lparr>cs_Error := Some ErrRootBlockAlreadyExist\<rparr>)
      else Placed l [] ((lmeta l)\<lparr>RootBlockid := ib_Blockid block, lm_TrunkHeight := 0, TipBlockid := ib_Blockid block\<rparr>)
             (block\<lparr>ib_InTrunk := True, ib_Height := 0\<rparr>) (lm_TrunkHeight (lmeta l)) noStatus)"

definition placeNext :: "ledger \<Rightarrow> internal_block \<Rightarrow> placement option" where
  "placeNext l block =
     (let m = lmeta l
      in case fetchBlock l (ib_PreHash block) of
        (l1, None) \<Rightarrow> Some (Rejected l1 block noStatus)
      | (l1, Some preBlock) \<Rightarrow>
          (let block1 = block\<lparr>ib_Height := i64 (ib_Height preBlock + 1)\<rparr>
           in if bytes_Equal (ib_Blockid preBlock) (TipBlockid m) then
                case saveBlock (preBlock\<lparr>ib_NextHash := ib_Blockid block\<rparr>) (l1, []) of
                  (l2, batch) \<Rightarrow>
                    Some (Placed (l2\<lparr>blockCache := lru_Del (blockCache l2) (elems (ib_Blockid preBlock))\<rparr>) batch
                      (m\<lparr>TipBlockid := ib_Blockid block, lm_TrunkHeight := i64 (lm_TrunkHeight m + 1)\<rparr>)
                      (block1\<lparr>ib_InTrunk := True\<rparr>) (lm_TrunkHeight m) noStatus)
              else if i64 (ib_Height preBlock + 1) > lm_TrunkHeight m then
                case handleFork l1 [] (TipBlockid m) (ib_Blockid preBlock) (ib_Blockid block) of
                  None \<Rightarrow> None
                | Some (l2, batch, Inl e) \<Rightarrow> Some (Rejected l2 (block1\<lparr>ib_InTrunk := True\<rparr>) noStatus)
                | Some (l2, batch, Inr splitBlock) \<Rightarrow>
                    Some (Placed l2 batch (m\<lparr>lm_TrunkHeight := i64 (ib_Height preBlock + 1), TipBlockid := ib_Blockid block\<rparr>)
                      (block1\<lparr>ib_InTrunk := True\<rparr>) (ib_Height splitBlock) (noStatus\<lparr>Split := True, TrunkSwitch := True\<rparr>))
              else
                Some (Placed l1 [] m (block1\<lparr>ib_InTrunk := False\<rparr>) (lm_TrunkHeight m) (noStatus\<lparr>Split := True, Orphan := True\<rparr>))))"

text \<open>
  The transactions of the block, already marked with its identifier. A transaction that is confirmed in a block of the part
  of the trunk that stays is a duplicate. The tables are read as they were before the block.
\<close>

fun confirmTxs :: "ledger_db \<Rightarrow> internal_block \<Rightarrow> int \<Rightarrow> transaction list \<Rightarrow> nat \<Rightarrow> ledger_op list \<Rightarrow> ledger_error option + ledger_op list" where
  "confirmTxs d block splitHeight [] cbNum batch = Inr batch"
| "confirmTxs d block splitHeight (tx # txs) cbNum batch =
     (let cbNum' = (if Coinbase tx then cbNum + 1 else cbNum)
      in if cbNum' > 1 then Inl None
         else case confirmedTable d (elems (Txid tx)) of
           None \<Rightarrow> confirmTxs d block splitHeight txs cbNum' (batch @ [PutTxn (Txid tx) tx])
         | Some oldTx \<Rightarrow>
             (case blocksTable d (elems (tx_Blockid oldTx)) of
                None \<Rightarrow> confirmTxs d block splitHeight txs cbNum' (batch @ [PutTxn (Txid tx) tx])
              | Some oldBlock \<Rightarrow>
                  if ib_InTrunk oldBlock \<and> ib_InTrunk block \<and> ib_Height oldBlock \<le> splitHeight then Inl (Some ErrTxDuplicated)
                  else if ib_InTrunk block then confirmTxs d block splitHeight txs cbNum' (batch @ [PutTxn (Txid tx) tx])
                  else confirmTxs d block splitHeight txs cbNum' batch))"

definition cacheTxs :: "transaction list \<Rightarrow> ledger \<Rightarrow> ledger" where
  "cacheTxs txs l = l\<lparr>txCache := fold (\<lambda>tx c. fst (lru_Add c (elems (Txid tx)) tx)) txs (txCache l)\<rparr>"

text \<open>
  \<open>kvOk\<close> says whether the store takes the batch. The result has the block as it is left to the caller: the transactions are
  taken out of it at the start and put back at the end, which a rejected block does not reach.
\<close>

definition ConfirmBlock ::
  "(string \<Rightarrow> genesis_config option) \<Rightarrow> ledger \<Rightarrow> internal_block \<Rightarrow> bool \<Rightarrow> bool \<Rightarrow> (ledger \<times> internal_block \<times> confirm_status) option" where
  "ConfirmBlock parse l block isRoot kvOk =
     (let dummy = block\<lparr>ib_Transactions := []\<rparr>
      in case (if isRoot then Some (placeRoot l dummy) else placeNext l dummy) of
        None \<Rightarrow> None
      | Some (Rejected l1 block1 status) \<Rightarrow> Some (l1, block1, status)
      | Some (Placed l1 batch newMeta block1 splitHeight status) \<Rightarrow>
          (case saveBlock block1 (l1, batch) of
             (l2, batch1) \<Rightarrow>
               (let batch2 = batch1 @ updateBranchInfo (ib_Blockid block1) (ib_PreHash block1) (ib_Height block1);
                    txs = map (\<lambda>tx. tx\<lparr>tx_Blockid := ib_Blockid block1\<rparr>) (ib_Transactions block)
                in case confirmTxs (ldb l2) block1 splitHeight txs 0 batch2 of
                     Inl e \<Rightarrow> Some (l2, block1, status\<lparr>cs_Error := e\<rparr>)
                   | Inr batch3 \<Rightarrow>
                       (let batch4 = batch3 @ [DelPending (ib_Blockid block1), PutMeta newMeta];
                            l3 = (if kvOk then l2\<lparr>ldb := ledgerWrite batch4 (ldb l2), lmeta := newMeta\<rparr> else l2);
                            status1 = (if kvOk then status\<lparr>Succ := True\<rparr> else status\<lparr>cs_Error := Some LErrKV\<rparr>);
                            block2 = block1\<lparr>ib_Transactions := txs\<rparr>
                        in case (if isRoot then loadGenesisBlock parse False None l3 else Inr l3) of
                             Inl e \<Rightarrow> Some (cacheTxs txs (l3\<lparr>blockCache := fst (lru_Add (blockCache l3) (elems (ib_Blockid block1)) block2)\<rparr>),
                                        block2, status1\<lparr>Succ := False, cs_Error := Some e\<rparr>)
                           | Inr l4 \<Rightarrow> Some (cacheTxs txs (l4\<lparr>blockCache := fst (lru_Add (blockCache l4) (elems (ib_Blockid block1)) block2)\<rparr>),
                                        block2, status1)))))"

section \<open>Queries\<close>

definition ExistBlock :: "ledger \<Rightarrow> bytes \<Rightarrow> bool" where
  "ExistBlock l blockid \<longleftrightarrow> blocksTable (ldb l) (elems blockid) \<noteq> None"

definition QueryBlock :: "ledger \<Rightarrow> bytes \<Rightarrow> ledger \<times> (ledger_error + internal_block)" where
  "QueryBlock l blockid =
     (case lru_Get (blockCache l) (elems blockid) of
        (c, Some blk) \<Rightarrow> (l\<lparr>blockCache := c\<rparr>, Inr blk)
      | (c, None) \<Rightarrow>
          (case queryBlock (ldb l) blockid True of
             Inl e \<Rightarrow> (l\<lparr>blockCache := c\<rparr>, Inl e)
           | Inr blk \<Rightarrow> (l\<lparr>blockCache := fst (lru_Add c (elems blockid) blk)\<rparr>, Inr blk)))"

definition HasTransaction :: "ledger \<Rightarrow> bytes \<Rightarrow> ledger \<times> bool" where
  "HasTransaction l txid =
     (case lru_Get (txCache l) (elems txid) of
        (c, Some tx) \<Rightarrow> (l\<lparr>txCache := c\<rparr>, True)
      | (c, None) \<Rightarrow> (l\<lparr>txCache := c\<rparr>, confirmedTable (ldb l) (elems txid) \<noteq> None))"

definition QueryTransaction :: "ledger \<Rightarrow> bytes \<Rightarrow> ledger \<times> (ledger_error + transaction)" where
  "QueryTransaction l txid =
     (case lru_Get (txCache l) (elems txid) of
        (c, Some tx) \<Rightarrow> (l\<lparr>txCache := c\<rparr>, Inr tx)
      | (c, None) \<Rightarrow>
          (case confirmedTable (ldb l) (elems txid) of
             None \<Rightarrow> (l\<lparr>txCache := c\<rparr>, Inl ErrTxNotFound)
           | Some tx \<Rightarrow> (l\<lparr>txCache := fst (lru_Add c (elems txid) tx)\<rparr>, Inr tx)))"

definition IsTxInTrunk :: "ledger \<Rightarrow> bytes \<Rightarrow> ledger \<times> bool" where
  "IsTxInTrunk l txid =
     (case confirmedTable (ldb l) (elems txid) of
        None \<Rightarrow> (l, False)
      | Some tx \<Rightarrow>
          (case lru_Get (blockCache l) (elems (tx_Blockid tx)) of
             (c, Some blk) \<Rightarrow> (l\<lparr>blockCache := c\<rparr>, ib_InTrunk blk)
           | (c, None) \<Rightarrow>
               (l\<lparr>blockCache := c\<rparr>, case queryBlock (ldb l) (tx_Blockid tx) False of Inl e \<Rightarrow> False | Inr blk \<Rightarrow> ib_InTrunk blk)))"

definition QueryBlockByTxid :: "ledger \<Rightarrow> bytes \<Rightarrow> ledger \<times> (ledger_error + internal_block)" where
  "QueryBlockByTxid l txid =
     (case HasTransaction l txid of
        (l1, False) \<Rightarrow> (l1, Inl ErrTxNotConfirmed)
      | (l1, True) \<Rightarrow>
          (case QueryTransaction l1 txid of
             (l2, Inl e) \<Rightarrow> (l2, Inl e)
           | (l2, Inr tx) \<Rightarrow> (l2, queryBlock (ldb l2) (tx_Blockid tx) False)))"

definition QueryBlockByHeight :: "ledger \<Rightarrow> int \<Rightarrow> ledger \<times> (ledger_error + internal_block)" where
  "QueryBlockByHeight l height =
     (case heightTable (ldb l) height of None \<Rightarrow> (l, Inl ErrBlockNotExist) | Some blockID \<Rightarrow> QueryBlock l blockID)"

definition QueryHeaderByHeight :: "ledger \<Rightarrow> int \<Rightarrow> ledger \<times> (ledger_error + internal_block)" where
  "QueryHeaderByHeight l height =
     (case heightTable (ldb l) height of
        None \<Rightarrow> (l, Inl ErrBlockNotExist)
      | Some blockID \<Rightarrow> (case fetchBlock l blockID of (l1, None) \<Rightarrow> (l1, Inl LErrKV) | (l1, Some b) \<Rightarrow> (l1, Inr b)))"

definition SavePendingBlock :: "ledger \<Rightarrow> internal_block \<Rightarrow> ledger" where
  "SavePendingBlock l block = l\<lparr>ldb := (ldb l)\<lparr>pendingTable := (pendingTable (ldb l))(elems (ib_Blockid block) \<mapsto> block)\<rparr>\<rparr>"

definition GetPendingBlock :: "ledger \<Rightarrow> bytes \<Rightarrow> ledger_error + internal_block" where
  "GetPendingBlock l blockID =
     (case pendingTable (ldb l) (elems blockID) of None \<Rightarrow> Inl ErrBlockNotExist | Some block \<Rightarrow> Inr block)"

text \<open>
  \<open>UpdateBlockChainData\<close> takes the identifier in hexadecimal; an identifier that cannot be decoded is used as far as it was.
  The cached transaction is the one that is changed; the cache of blocks, which may share it, is not followed here.
\<close>

definition UpdateBlockChainData :: "ledger \<Rightarrow> string \<Rightarrow> string \<Rightarrow> bytes \<Rightarrow> string \<Rightarrow> string \<Rightarrow> int \<Rightarrow> ledger \<times> ledger_error option" where
  "UpdateBlockChainData l txid ptxid rawTxid publickey sig height =
     (if txid = [] \<or> ptxid = [] then (l, Some LErrParam)
      else case QueryTransaction l rawTxid of
        (l1, Inl e) \<Rightarrow> (l1, Some LErrParam)
      | (l1, Inr tx) \<Rightarrow>
          (let tx1 = tx\<lparr>ModifyBlock := Some \<lparr>Marked = True, EffectiveHeight = height, mb_PublicKey = publickey, mb_Sign = sig\<rparr>,
                         Desc := Some [], TxOutputsExt := Some []\<rparr>
           in (l1\<lparr>txCache := fst (lru_Add (txCache l1) (elems rawTxid) tx1),
                  ldb := (ldb l1)\<lparr>confirmedTable := (confirmedTable (ldb l1))(elems (Txid tx) \<mapsto> tx1)\<rparr>\<rparr>, None)))"


section \<open>Ways between two blocks\<close>

text \<open>The loop: blocks to undo and to do so far, the blocks visited, and the two current blocks.\<close>

partial_function (option) pathLoop ::
  "ledger_db \<Rightarrow> bytes \<Rightarrow> internal_block list \<Rightarrow> internal_block list \<Rightarrow> string set \<Rightarrow> internal_block \<Rightarrow> internal_block \<Rightarrow>
   (ledger_error + internal_block list \<times> internal_block list \<times> bytes) option" where
  "pathLoop d root undo todo visited oldTip newTip =
     (let oldPreHash = ib_PreHash oldTip;
          old = (if elems oldPreHash \<noteq> [] \<and> ib_Height oldTip \<ge> ib_Height newTip then Some (queryBlock d oldPreHash True) else None)
      in case old of
           Some (Inl e) \<Rightarrow> Some (Inl e)
         | _ \<Rightarrow>
             (let oldTip1 = (case old of Some (Inr b) \<Rightarrow> b | _ \<Rightarrow> oldTip);
                  undo1 = (case old of Some (Inr b) \<Rightarrow> undo @ [b] | _ \<Rightarrow> undo)
              in if old \<noteq> None \<and> elems (ib_Blockid oldTip1) \<in> visited then Some (Inr (undo, todo, ib_Blockid oldTip1))
                 else
                   let visited1 = (case old of None \<Rightarrow> visited | Some _ \<Rightarrow> insert (elems (ib_Blockid oldTip1)) visited);
                       newPreHash = ib_PreHash newTip;
                       new = (if elems newPreHash \<noteq> [] \<and> ib_Height newTip \<ge> ib_Height oldTip1 then Some (queryBlock d newPreHash True) else None)
                   in case new of
                        Some (Inl e) \<Rightarrow> Some (Inl e)
                      | _ \<Rightarrow>
                          (let newTip1 = (case new of Some (Inr b) \<Rightarrow> b | _ \<Rightarrow> newTip);
                               todo1 = (case new of Some (Inr b) \<Rightarrow> todo @ [b] | _ \<Rightarrow> todo)
                           in if new \<noteq> None \<and> elems (ib_Blockid newTip1) \<in> visited1 then Some (Inr (undo1, todo, ib_Blockid newTip1))
                              else if elems oldPreHash = [] \<and> elems newPreHash = [] then Some (Inr (undo1, todo1, root))
                              else pathLoop d root undo1 todo1
                                     (case new of None \<Rightarrow> visited1 | Some _ \<Rightarrow> insert (elems (ib_Blockid newTip1)) visited1) oldTip1 newTip1)))"

definition dropSplit :: "internal_block list \<Rightarrow> bytes \<Rightarrow> internal_block list" where
  "dropSplit blocks splitBlockID = (if bytes_Equal (ib_Blockid (last blocks)) splitBlockID then butlast blocks else blocks)"

definition FindUndoAndTodoBlocks ::
  "ledger \<Rightarrow> bytes \<Rightarrow> bytes \<Rightarrow> (ledger_error + internal_block list \<times> internal_block list) option" where
  "FindUndoAndTodoBlocks l curBlockid destBlockid =
     (if bytes_Equal destBlockid curBlockid then Some (Inr ([], []))
      else case queryBlock (ldb l) curBlockid True of
        Inl e \<Rightarrow> Some (Inl e)
      | Inr oldTip \<Rightarrow>
          (case queryBlock (ldb l) destBlockid True of
             Inl e \<Rightarrow> Some (Inl e)
           | Inr newTip \<Rightarrow>
               (case pathLoop (ldb l) (RootBlockid (lmeta l)) [oldTip] [newTip] {elems (ib_Blockid oldTip), elems (ib_Blockid newTip)} oldTip newTip of
                  None \<Rightarrow> None
                | Some (Inl e) \<Rightarrow> Some (Inl e)
                | Some (Inr (undo, todo, splitBlockID)) \<Rightarrow> Some (Inr (dropSplit undo splitBlockID, dropSplit todo splitBlockID)))))"

section \<open>Truncating\<close>

partial_function (option) removeLoop :: "ledger \<Rightarrow> internal_block \<Rightarrow> int \<Rightarrow> ledger_op list \<Rightarrow> (ledger \<times> ledger_op list) option" where
  "removeLoop l fromBlock toHeight batch =
     (if ib_Height fromBlock > toHeight then
        let l1 = l\<lparr>blkHeaderCache := lru_Del (blkHeaderCache l) (elems (ib_Blockid fromBlock)),
                   blockCache := lru_Del (blockCache l) (elems (ib_Blockid fromBlock))\<rparr>;
            batch1 = batch @ [DelBlock (ib_Blockid fromBlock)] @ (if ib_InTrunk fromBlock then [DelHeight (ib_Height fromBlock)] else [])
        in case fetchBlock l1 (ib_PreHash fromBlock) of
             (l2, None) \<Rightarrow> Some (l2, batch1)
           | (l2, Some fromBlock') \<Rightarrow> removeLoop l2 fromBlock' toHeight batch1
      else Some (l, batch))"

definition removeBlocks :: "ledger \<Rightarrow> bytes \<Rightarrow> bytes \<Rightarrow> ledger_op list \<Rightarrow> (ledger \<times> ledger_op list \<times> ledger_error option) option" where
  "removeBlocks l fromBlockid toBlockid batch =
     (case fetchBlock l fromBlockid of
        (l1, None) \<Rightarrow> Some (l1, batch, Some LErrKV)
      | (l1, Some fromBlock) \<Rightarrow>
          (case fetchBlock l1 toBlockid of
             (l2, None) \<Rightarrow> Some (l2, batch, Some LErrKV)
           | (l2, Some toBlock) \<Rightarrow> map_option (\<lambda>(l3, batch1). (l3, batch1, None)) (removeLoop l2 fromBlock (ib_Height toBlock) batch)))"

fun truncateBranches :: "ledger \<Rightarrow> internal_block \<Rightarrow> string list \<Rightarrow> ledger_op list \<Rightarrow> (ledger \<times> ledger_op list \<times> ledger_error option) option" where
  "truncateBranches l block [] batch = Some (l, batch, None)"
| "truncateBranches l block (branchTip # branchTips) batch =
     (case removeBlocks l (Some branchTip) (ib_Blockid block) batch of
        None \<Rightarrow> None
      | Some (l1, batch1, Some e) \<Rightarrow> Some (l1, batch1, Some e)
      | Some (l1, batch1, None) \<Rightarrow>
          truncateBranches l1 block branchTips (batch1 @ updateBranchInfo (ib_Blockid block) (Some branchTip) (ib_Height block)))"

definition Truncate :: "ledger \<Rightarrow> bytes \<Rightarrow> bool \<Rightarrow> (ledger \<times> ledger_error option) option" where
  "Truncate l utxovmLastID kvOk =
     (case fetchBlock l utxovmLastID of
        (l1, None) \<Rightarrow> Some (l1, Some LErrKV)
      | (l1, Some block) \<Rightarrow>
          (case truncateBranches l1 block (GetBranchInfo (ldb l1) (ib_Blockid block) (ib_Height block)) [] of
             None \<Rightarrow> None
           | Some (l2, batch, Some e) \<Rightarrow> Some (l2, Some e)
           | Some (l2, batch, None) \<Rightarrow>
               (let newMeta = (lmeta l1)\<lparr>TipBlockid := utxovmLastID, lm_TrunkHeight := ib_Height block\<rparr>
                in if kvOk then Some (l2\<lparr>ldb := ledgerWrite (batch @ [PutMeta newMeta]) (ldb l2), lmeta := newMeta\<rparr>, None)
                   else Some (l2, Some LErrKV))))"

section \<open>Pruning to another branch\<close>

partial_function (option) climb :: "ledger \<Rightarrow> internal_block \<Rightarrow> int \<Rightarrow> (ledger \<times> (ledger_error + internal_block)) option" where
  "climb l b h =
     (if ib_Height b > h then
        case QueryBlock l (ib_PreHash b) of
          (l1, Inl e) \<Rightarrow> Some (l1, Inl e)
        | (l1, Inr b') \<Rightarrow> climb l1 b' h
      else Some (l, Inr b))"

partial_function (option) meet :: "ledger \<Rightarrow> internal_block \<Rightarrow> internal_block \<Rightarrow> (ledger \<times> (ledger_error + bytes)) option" where
  "meet l a b =
     (if bytes_Equal (ib_Blockid a) (ib_Blockid b) then Some (l, Inr (ib_Blockid a))
      else case QueryBlock l (ib_PreHash a) of
        (l1, Inl e) \<Rightarrow> Some (l1, Inl e)
      | (l1, Inr a') \<Rightarrow>
          (case QueryBlock l1 (ib_PreHash b) of
             (l2, Inl e) \<Rightarrow> Some (l2, Inl e)
           | (l2, Inr b') \<Rightarrow> meet l2 a' b'))"

definition GetCommonParentBlockid :: "ledger \<Rightarrow> bytes \<Rightarrow> bytes \<Rightarrow> (ledger \<times> (ledger_error + bytes)) option" where
  "GetCommonParentBlockid l branch1Blockid branch2Blockid =
     (case QueryBlock l branch1Blockid of
        (l1, Inl e) \<Rightarrow> Some (l1, Inl e)
      | (l1, Inr branch1Block) \<Rightarrow>
          (case QueryBlock l1 branch2Blockid of
             (l2, Inl e) \<Rightarrow> Some (l2, Inl e)
           | (l2, Inr branch2Block) \<Rightarrow>
               (case climb l2 branch1Block (ib_Height branch2Block) of
                  None \<Rightarrow> None
                | Some (l3, Inl e) \<Rightarrow> Some (l3, Inl e)
                | Some (l3, Inr a) \<Rightarrow>
                    (case climb l3 branch2Block (ib_Height a) of
                       None \<Rightarrow> None
                     | Some (l4, Inl e) \<Rightarrow> Some (l4, Inl e)
                     | Some (l4, Inr b) \<Rightarrow> meet l4 a b))))"

text \<open>The old branch leaves the trunk.\<close>

partial_function (option) leaveTrunk :: "ledger \<Rightarrow> ledger_op list \<Rightarrow> bytes \<Rightarrow> bytes \<Rightarrow> (ledger \<times> ledger_op list \<times> ledger_error option) option" where
  "leaveTrunk l batch oldTip commonParentBlockid =
     (if bytes_Equal oldTip commonParentBlockid then Some (l, batch, None)
      else case fetchBlock l oldTip of
        (l1, None) \<Rightarrow> Some (l1, batch, Some LErrKV)
      | (l1, Some oldBlock) \<Rightarrow>
          (case saveBlock (oldBlock\<lparr>ib_InTrunk := False, ib_NextHash := Some []\<rparr>) (l1, batch) of
             (l2, batch1) \<Rightarrow> leaveTrunk l2 batch1 (ib_PreHash oldBlock) commonParentBlockid))"

text \<open>The new branch is meant to join it; the loop continues with the block it has just saved.\<close>

partial_function (option) joinTrunk ::
  "ledger \<Rightarrow> ledger_op list \<Rightarrow> bytes \<Rightarrow> bytes \<Rightarrow> bytes \<Rightarrow> (ledger \<times> ledger_op list \<times> ledger_error option) option" where
  "joinTrunk l batch newTip commonParentBlockid nextHash =
     (if bytes_Equal newTip commonParentBlockid then Some (l, batch, None)
      else case fetchBlock l newTip of
        (l1, None) \<Rightarrow> Some (l1, batch, Some LErrKV)
      | (l1, Some newBlock) \<Rightarrow>
          (case correctTxsBlockid (ldb l1) (ib_Blockid newBlock) batch of
             Inl e \<Rightarrow> Some (l1, batch, Some e)
           | Inr batch1 \<Rightarrow>
               (case saveBlock (newBlock\<lparr>ib_InTrunk := True, ib_NextHash := nextHash\<rparr>) (l1, batch1) of
                  (l2, batch2) \<Rightarrow> joinTrunk l2 batch2 (ib_Blockid newBlock) commonParentBlockid (ib_Blockid newBlock))))"

definition HandleFork :: "ledger \<Rightarrow> bytes \<Rightarrow> bytes \<Rightarrow> ledger_op list \<Rightarrow> (ledger \<times> ledger_op list \<times> (ledger_error + internal_block)) option" where
  "HandleFork l oldTip newTip batch =
     (case GetCommonParentBlockid l oldTip newTip of
        None \<Rightarrow> None
      | Some (l1, Inl e) \<Rightarrow> Some (l1, batch, Inl e)
      | Some (l1, Inr commonParentBlockid) \<Rightarrow>
          (case leaveTrunk l1 batch oldTip commonParentBlockid of
             None \<Rightarrow> None
           | Some (l2, batch1, Some e) \<Rightarrow> Some (l2, batch1, Inl e)
           | Some (l2, batch1, None) \<Rightarrow>
               (case fetchBlock l2 newTip of
                  (l3, None) \<Rightarrow> Some (l3, batch1, Inl LErrKV)
                | (l3, Some newBlock) \<Rightarrow>
                    (case joinTrunk l3 batch1 newTip commonParentBlockid (Some []) of
                       None \<Rightarrow> None
                     | Some (l4, batch2, Some e) \<Rightarrow> Some (l4, batch2, Inl e)
                     | Some (l4, batch2, None) \<Rightarrow>
                         (case fetchBlock l4 (ib_PreHash newBlock) of
                            (l5, None) \<Rightarrow> Some (l5, batch2, Inl LErrKV)
                          | (l5, Some b) \<Rightarrow> Some (l5, batch2, Inr b))))))"

end
