(* ===== verification/LedgerTrunk.thy ===== *)
theory LedgerTrunk
  imports Ledger
begin

text \<open>
  The shape of the ledger: the stored blocks are a tree, the trunk has one block at every height up to the tip, linked in
  both directions, and the cache of headers agrees with the tables. Confirming a block keeps this shape, also when another
  branch becomes the trunk.
\<close>

section \<open>Shape\<close>

definition hid :: "ledger_db \<Rightarrow> int \<Rightarrow> string option" where
  "hid d x = map_option elems (heightTable d x)"

definition block_tree :: "ledger_db \<Rightarrow> string \<Rightarrow> int \<Rightarrow> bool" where
  "block_tree d r n \<longleftrightarrow>
     (\<exists>b. blocksTable d r = Some b \<and> ib_Height b = 0 \<and> elems (ib_PreHash b) = []) \<and>
     (\<forall>k b. blocksTable d k = Some b \<longrightarrow>
        elems (ib_Blockid b) = k \<and> k \<noteq> [] \<and> 0 \<le> ib_Height b \<and> ib_Height b \<le> n \<and>
        (k \<noteq> r \<longrightarrow> (\<exists>p. blocksTable d (elems (ib_PreHash b)) = Some p \<and> ib_Height p = ib_Height b - 1)))"

text \<open>The trunk, with an exception at the height \<open>h\<close>, where a change of branches is under way.\<close>

definition trunk_but :: "ledger_db \<Rightarrow> int \<Rightarrow> int \<Rightarrow> bool" where
  "trunk_but d n h \<longleftrightarrow>
     (\<forall>x. 0 \<le> x \<and> x \<le> n \<longrightarrow> (\<exists>i b. hid d x = Some i \<and> blocksTable d i = Some b \<and> ib_InTrunk b \<and> ib_Height b = x)) \<and>
     (\<forall>x i. hid d x = Some i \<longrightarrow> 0 \<le> x \<and> x \<le> n) \<and>
     (\<forall>k b. blocksTable d k = Some b \<and> ib_InTrunk b \<longrightarrow> hid d (ib_Height b) = Some k) \<and>
     (\<forall>k b. blocksTable d k = Some b \<and> ib_InTrunk b \<and> 0 < ib_Height b \<and> ib_Height b \<noteq> h + 1 \<longrightarrow>
        hid d (ib_Height b - 1) = Some (elems (ib_PreHash b))) \<and>
     (\<forall>k b. blocksTable d k = Some b \<and> ib_InTrunk b \<and> ib_Height b < n \<and> ib_Height b \<noteq> h \<longrightarrow>
        hid d (ib_Height b + 1) = Some (elems (ib_NextHash b)))"

definition trunk :: "ledger_db \<Rightarrow> int \<Rightarrow> bool" where
  "trunk d n = trunk_but d n (- 1)"

text \<open>The transactions of every block can be read.\<close>

definition bodies :: "ledger_db \<Rightarrow> bool" where
  "bodies d \<longleftrightarrow> (\<forall>k b. blocksTable d k = Some b \<longrightarrow>
     0 \<le> ib_TxCount b \<and> ib_TxCount b \<le> int (length (ib_MerkleTree b)) \<and>
     (\<forall>i \<in> set (take (nat (ib_TxCount b)) (ib_MerkleTree b)). confirmedTable d (elems i) \<noteq> None))"

text \<open>Every block without a successor is known as the tip of a branch, and nothing else is.\<close>

definition branches_known :: "ledger_db \<Rightarrow> bool" where
  "branches_known d \<longleftrightarrow>
     wf_table (branchTable d) \<and>
     (\<forall>k h. map_of (branchTable d) k = Some h \<longrightarrow> (\<exists>b. blocksTable d k = Some b \<and> ib_Height b = h)) \<and>
     (\<forall>k b. blocksTable d k = Some b \<longrightarrow>
        map_of (branchTable d) k = Some (ib_Height b) \<or> (\<exists>k' b'. blocksTable d k' = Some b' \<and> elems (ib_PreHash b') = k \<and> ib_Height b' = ib_Height b + 1))"

definition hit :: "('k, 'v) LRUCache \<Rightarrow> 'k \<Rightarrow> 'v option" where
  "hit c k = map_of (lru_pairs c) k"

definition coherent :: "ledger \<Rightarrow> (string \<rightharpoonup> internal_block) \<Rightarrow> bool" where
  "coherent l B \<longleftrightarrow> lru_wf (blkHeaderCache l) \<and> (\<forall>k b. hit (blkHeaderCache l) k = Some b \<longrightarrow> B k = Some b)"

definition ledger_wf :: "ledger \<Rightarrow> bool" where
  "ledger_wf l \<longleftrightarrow>
     (let d = ldb l; m = lmeta l; r = elems (RootBlockid m)
      in metaTable d = Some m \<and> block_tree d r (lm_TrunkHeight m) \<and> trunk d (lm_TrunkHeight m) \<and>
         hid d (lm_TrunkHeight m) = Some (elems (TipBlockid m)) \<and> bodies d \<and> coherent l (blocksTable d))"

section \<open>Reading and saving headers\<close>

lemma ledgerWrite_simps [simp]:
  "ledgerWrite [] d = d" "ledgerWrite (x # xs) d = ledgerWrite xs (apply_ledger_op x d)" "ledgerWrite (xs @ ys) d = ledgerWrite ys (ledgerWrite xs d)"
  by (simp_all add: ledgerWrite_def)

lemma coherent_Get:
  assumes "coherent l B"
  shows "coherent (l\<lparr>blkHeaderCache := fst (lru_Get (blkHeaderCache l) k)\<rparr>) B"
    "snd (lru_Get (blkHeaderCache l) k) = hit (blkHeaderCache l) k"
  using assms by (auto simp: coherent_def lru_Get_refines hit_def)

lemma coherent_Add:
  assumes "coherent l B"
  shows "coherent (l\<lparr>blkHeaderCache := fst (lru_Add (blkHeaderCache l) k b)\<rparr>) (B(k \<mapsto> b))"
  using assms lru_Add_lookup [of "blkHeaderCache l" k b] by (fastforce simp: coherent_def lru_Add_wf hit_def split: if_splits)

lemma coherent_update: "coherent l B \<Longrightarrow> B k = Some b \<Longrightarrow> coherent (l\<lparr>blkHeaderCache := fst (lru_Add (blkHeaderCache l) k b)\<rparr>) B"
  using coherent_Add [of l B k b] by (simp add: fun_upd_idem)

text \<open>A header that the batch has not changed is read as the store with the batch has it.\<close>

lemma fetchBlock_coherent:
  assumes "coherent l B" "blocksTable (ldb l) (elems i) = B (elems i)"
  obtains c where "fetchBlock l i = (l\<lparr>blkHeaderCache := c\<rparr>, B (elems i))" "coherent (l\<lparr>blkHeaderCache := c\<rparr>) B"
proof -
  obtain c v where g: "lru_Get (blkHeaderCache l) (elems i) = (c, v)" by fastforce
  note get = coherent_Get [OF assms(1), of "elems i", unfolded g fst_conv snd_conv]
  show ?thesis
  proof (cases v)
    case (Some b)
    then have "B (elems i) = Some b" using get(2) assms(1) by (simp add: coherent_def)
    then show ?thesis using g Some get(1) by (intro that [of c]) (simp_all add: fetchBlock_def)
  next
    case None
    show ?thesis
    proof (cases "B (elems i)")
      case None
      then show ?thesis using g \<open>v = None\<close> get(1) assms(2) by (intro that [of c]) (simp_all add: fetchBlock_def)
    next
      case (Some b)
      have "coherent (l\<lparr>blkHeaderCache := fst (lru_Add c (elems i) b)\<rparr>) B"
        using coherent_update [OF get(1) Some] by simp
      then show ?thesis using g \<open>v = None\<close> Some assms(2) by (intro that [of "fst (lru_Add c (elems i) b)"]) (simp_all add: fetchBlock_def)
    qed
  qed
qed

lemma saveBlock_effect:
  assumes "coherent l B" "saveBlock b (l, batch) = (l', batch')"
  shows "\<exists>c. l' = l\<lparr>blkHeaderCache := c\<rparr>" "coherent l' (B(elems (ib_Blockid b) \<mapsto> b))"
    "ledgerWrite batch' d = (let v = ledgerWrite batch d
       in v\<lparr>blocksTable := (blocksTable v)(elems (ib_Blockid b) \<mapsto> b),
            heightTable := (if ib_InTrunk b then (heightTable v)(ib_Height b \<mapsto> ib_Blockid b) else heightTable v)\<rparr>)"
  using assms coherent_Add [OF assms(1)] by (auto simp: saveBlock_def Let_def)


section \<open>Another branch becomes the trunk\<close>

lemma block_treeD:
  assumes "block_tree d r n" "blocksTable d k = Some b"
  shows "elems (ib_Blockid b) = k" "k \<noteq> []" "0 \<le> ib_Height b" "ib_Height b \<le> n"
    "k \<noteq> r \<Longrightarrow> \<exists>p. blocksTable d (elems (ib_PreHash b)) = Some p \<and> ib_Height p = ib_Height b - 1"
  using assms unfolding block_tree_def by blast+

lemma block_tree_root:
  assumes "block_tree d r n" "blocksTable d k = Some b"
  shows "ib_Height b = 0 \<longleftrightarrow> k = r" "elems (ib_PreHash b) = [] \<longleftrightarrow> k = r"
proof -
  obtain rb where rb: "blocksTable d r = Some rb" "ib_Height rb = 0" "elems (ib_PreHash rb) = []" using assms(1) unfolding block_tree_def by blast
  have up: "0 < ib_Height b \<and> elems (ib_PreHash b) \<noteq> []" if "k \<noteq> r"
  proof -
    from block_treeD(5) [OF assms that] obtain p where "blocksTable d (elems (ib_PreHash b)) = Some p" "ib_Height p = ib_Height b - 1" by blast
    then show ?thesis using block_treeD(2,3) [OF assms(1), of "elems (ib_PreHash b)" p] by auto
  qed
  show "ib_Height b = 0 \<longleftrightarrow> k = r" "elems (ib_PreHash b) = [] \<longleftrightarrow> k = r"
    by (cases "k = r"; use up rb assms(2) in auto)+
qed

lemma trunk_butD:
  assumes "trunk_but d n h"
  shows "0 \<le> x \<Longrightarrow> x \<le> n \<Longrightarrow> \<exists>i b. hid d x = Some i \<and> blocksTable d i = Some b \<and> ib_InTrunk b \<and> ib_Height b = x"
    "hid d x = Some i \<Longrightarrow> 0 \<le> x \<and> x \<le> n"
    "blocksTable d k = Some b \<Longrightarrow> ib_InTrunk b \<Longrightarrow> hid d (ib_Height b) = Some k"
    "blocksTable d k = Some b \<Longrightarrow> ib_InTrunk b \<Longrightarrow> 0 < ib_Height b \<Longrightarrow> ib_Height b \<noteq> h + 1 \<Longrightarrow> hid d (ib_Height b - 1) = Some (elems (ib_PreHash b))"
    "blocksTable d k = Some b \<Longrightarrow> ib_InTrunk b \<Longrightarrow> ib_Height b < n \<Longrightarrow> ib_Height b \<noteq> h \<Longrightarrow> hid d (ib_Height b + 1) = Some (elems (ib_NextHash b))"
  using assms unfolding trunk_but_def by blast+

lemma trunk_but_at:
  assumes "trunk_but d n h" "hid d x = Some i"
  obtains b where "blocksTable d i = Some b" "ib_InTrunk b" "ib_Height b = x"
  using trunk_butD(1,2) [OF assms(1), of x] assms(2) by fastforce

text \<open>Above the joint the trunk is the new branch already, below it is still the old one.\<close>

definition joint :: "ledger_db \<Rightarrow> int \<Rightarrow> int \<Rightarrow> string \<Rightarrow> string \<Rightarrow> string \<Rightarrow> string \<Rightarrow> bool" where
  "joint d n h q nx nid tq \<longleftrightarrow> trunk_but d n h \<and>
     (if h = n then nx = nid \<and> q = tq
      else hid d n = Some tq \<and> hid d (h + 1) = Some nx \<and> (\<forall>b. blocksTable d nx = Some b \<longrightarrow> elems (ib_PreHash b) = q) \<and>
        (\<forall>i b. hid d n = Some i \<and> blocksTable d i = Some b \<longrightarrow> elems (ib_NextHash b) = nid))"

lemma joint_step:
  assumes tree: "block_tree d r n" and j: "joint d n h q nx nid tq" and h: "h \<le> n"
    and p: "hid d h = Some p" "blocksTable d p = Some pb" and q: "blocksTable d q = Some qb" "ib_Height qb = h" "p \<noteq> q"
    and pb': "pb' = pb\<lparr>ib_InTrunk := False, ib_NextHash := Some []\<rparr>"
    and qb': "qb' = qb\<lparr>ib_InTrunk := True, ib_NextHash := nxb\<rparr>" "elems nxb = nx"
    and d': "blocksTable d' = (blocksTable d)(p \<mapsto> pb', q \<mapsto> qb')" "heightTable d' = (heightTable d)(h \<mapsto> i)" "elems i = q"
  shows "0 < h" "block_tree d' r n" "joint d' n (h - 1) (elems (ib_PreHash qb)) q nid tq" "hid d' (h - 1) = Some (elems (ib_PreHash pb))"
proof -
  have t: "trunk_but d n h" using j by (simp add: joint_def)
  have ph: "ib_InTrunk pb" "ib_Height pb = h" using trunk_but_at [OF t p(1)] p(2) by auto
  have h0: "0 \<le> h" using block_treeD(3) [OF tree q(1)] q(2) by simp
  show pos: "0 < h"
  proof (rule ccontr)
    assume "\<not> 0 < h"
    then have "h = 0" using h0 by simp
    then show False using block_tree_root(1) [OF tree p(2)] block_tree_root(1) [OF tree q(1)] ph q by simp
  qed
  have hid': "hid d' x = (if x = h then Some q else hid d x)" for x by (simp add: hid_def d'(2,3))
  have other: "blocksTable d' k = blocksTable d k" if "k \<noteq> p" "k \<noteq> q" for k using that by (simp add: d'(1))
  have off: "blocksTable d' k = Some b" if "blocksTable d k = Some b" "ib_Height b \<noteq> h" for k b
  proof -
    have "k \<noteq> p" "k \<noteq> q" using that ph(2) p(2) q(1,2) by auto
    then show ?thesis using that(1) by (simp add: other)
  qed
  have new: "k = q \<and> b = qb' \<or> k = p \<and> b = pb' \<or> k \<noteq> p \<and> k \<noteq> q \<and> blocksTable d k = Some b" if "blocksTable d' k = Some b" for k b
    using that q(3) by (auto simp: d'(1) split: if_splits)
  show "block_tree d' r n"
    unfolding block_tree_def
  proof (intro conjI allI impI)
    show "\<exists>b. blocksTable d' r = Some b \<and> ib_Height b = 0 \<and> elems (ib_PreHash b) = []"
      using tree pos off [of r] unfolding block_tree_def by fastforce
    fix k b assume b: "blocksTable d' k = Some b"
    then obtain b0 where b0: "blocksTable d k = Some b0" "ib_Blockid b = ib_Blockid b0" "ib_Height b = ib_Height b0" "ib_PreHash b = ib_PreHash b0"
      using new [OF b] p(2) q(1) by (auto simp: pb' qb')
    note old = block_treeD [OF tree b0(1)]
    show "elems (ib_Blockid b) = k" "k \<noteq> []" "0 \<le> ib_Height b" "ib_Height b \<le> n" using old b0 by simp_all
    assume "k \<noteq> r"
    then obtain c where c: "blocksTable d (elems (ib_PreHash b)) = Some c" "ib_Height c = ib_Height b - 1" using old(5) b0 by auto
    then have "\<exists>c'. blocksTable d' (elems (ib_PreHash b)) = Some c' \<and> ib_Height c' = ib_Height c"
      using p(2) q(1,3) by (auto simp: d'(1) pb' qb')
    with c(2) show "\<exists>p. blocksTable d' (elems (ib_PreHash b)) = Some p \<and> ib_Height p = ib_Height b - 1" by auto
  qed
  show prev: "hid d' (h - 1) = Some (elems (ib_PreHash pb))" using trunk_butD(4) [OF t p(2)] ph pos by (simp add: hid')
  have "trunk_but d' n (h - 1)"
    unfolding trunk_but_def
  proof (intro conjI allI impI)
    fix x assume x: "0 \<le> x \<and> x \<le> n"
    show "\<exists>i b. hid d' x = Some i \<and> blocksTable d' i = Some b \<and> ib_InTrunk b \<and> ib_Height b = x"
    proof (cases "x = h")
      case True
      then show ?thesis using q(2) by (simp add: hid' d'(1) qb')
    next
      case False
      then show ?thesis using trunk_butD(1) [OF t, of x] x off by (fastforce simp: hid')
    qed
  next
    fix x i assume "hid d' x = Some i"
    then show "0 \<le> x" "x \<le> n" using trunk_butD(2) [OF t, of x] h h0 by (auto simp: hid' split: if_splits)
  next
    fix k b assume b: "blocksTable d' k = Some b \<and> ib_InTrunk b"
    then show "hid d' (ib_Height b) = Some k"
      using new [of k b] trunk_butD(3) [OF t, of k b] p(1) q(2) by (auto simp: hid' pb' qb')
  next
    fix k b assume b: "blocksTable d' k = Some b \<and> ib_InTrunk b \<and> 0 < ib_Height b \<and> ib_Height b \<noteq> h - 1 + 1"
    then have old: "blocksTable d k = Some b" using new [of k b] q(2) by (auto simp: pb' qb')
    show "hid d' (ib_Height b - 1) = Some (elems (ib_PreHash b))"
    proof (cases "ib_Height b = h + 1")
      case True
      then have "h \<noteq> n" using block_treeD(4) [OF tree old] by simp
      then show ?thesis using True trunk_butD(3) [OF t old] b j old by (simp add: hid' joint_def)
    next
      case False
      then show ?thesis using trunk_butD(4) [OF t old] b by (simp add: hid')
    qed
  next
    fix k b assume b: "blocksTable d' k = Some b \<and> ib_InTrunk b \<and> ib_Height b < n \<and> ib_Height b \<noteq> h - 1"
    show "hid d' (ib_Height b + 1) = Some (elems (ib_NextHash b))"
    proof (cases "ib_Height b = h")
      case True
      then have "k = q" "b = qb'" using new [of k b] b trunk_butD(3) [OF t, of k b] p(1) by (auto simp: pb')
      then show ?thesis using True b j qb'(2) by (simp add: hid' joint_def qb'(1))
    next
      case False
      then have "blocksTable d k = Some b" using new [of k b] b q(2) by (auto simp: pb' qb')
      then show ?thesis using trunk_butD(5) [OF t, of k b] b False by (simp add: hid')
    qed
  qed
  moreover have "elems (ib_NextHash b) = nid" if tip: "hid d' n = Some i" "blocksTable d' i = Some b" for i b
  proof (cases "h = n")
    case True
    then show ?thesis using tip j qb'(2) by (auto simp: hid' d'(1) qb'(1) joint_def)
  next
    case False
    then have i: "hid d n = Some i" using tip(1) by (simp add: hid')
    then obtain b0 where "blocksTable d i = Some b0" "ib_Height b0 = n" using trunk_but_at [OF t i] by metis
    moreover have "blocksTable d' i = Some b0" using off [OF calculation(1)] calculation(2) False by simp
    ultimately show ?thesis using j i False tip(2) by (simp add: joint_def)
  qed
  ultimately show "joint d' n (h - 1) (elems (ib_PreHash qb)) q nid tq"
    using h j by (auto simp: joint_def hid' d'(1) qb'(1) split: if_splits)
qed


text \<open>A batch that changes nothing of a block but its place in the trunk, and forgets no transaction.\<close>

definition core_block :: "internal_block \<Rightarrow> internal_block" where
  "core_block b = b\<lparr>ib_InTrunk := False, ib_NextHash := None\<rparr>"

definition same_blocks :: "ledger_db \<Rightarrow> ledger_db \<Rightarrow> bool" where
  "same_blocks d v \<longleftrightarrow> (\<forall>k. map_option core_block (blocksTable v k) = map_option core_block (blocksTable d k)) \<and>
     metaTable v = metaTable d \<and> branchTable v = branchTable d \<and> (\<forall>k. confirmedTable d k \<noteq> None \<longrightarrow> confirmedTable v k \<noteq> None)"

lemma core_block_fields:
  assumes "core_block b = core_block c"
  shows "ib_Blockid b = ib_Blockid c" "ib_PreHash b = ib_PreHash c" "ib_Height b = ib_Height c" "ib_TxCount b = ib_TxCount c"
    "ib_MerkleTree b = ib_MerkleTree c"
proof -
  show "ib_Blockid b = ib_Blockid c" using arg_cong [OF assms, of ib_Blockid] by (simp add: core_block_def)
  show "ib_PreHash b = ib_PreHash c" using arg_cong [OF assms, of ib_PreHash] by (simp add: core_block_def)
  show "ib_Height b = ib_Height c" using arg_cong [OF assms, of ib_Height] by (simp add: core_block_def)
  show "ib_TxCount b = ib_TxCount c" using arg_cong [OF assms, of ib_TxCount] by (simp add: core_block_def)
  show "ib_MerkleTree b = ib_MerkleTree c" using arg_cong [OF assms, of ib_MerkleTree] by (simp add: core_block_def)
qed

lemma core_block_update [simp]: "core_block (b\<lparr>ib_InTrunk := t, ib_NextHash := x\<rparr>) = core_block b" "core_block (b\<lparr>ib_NextHash := x\<rparr>) = core_block b"
  "core_block (b\<lparr>ib_InTrunk := t\<rparr>) = core_block b"
  by (simp_all add: core_block_def)

lemma same_blocks_refl [simp]: "same_blocks d d" by (simp add: same_blocks_def)

lemma same_blocks_back:
  assumes "same_blocks d v" "blocksTable v k = Some b"
  obtains b0 where "blocksTable d k = Some b0" "core_block b = core_block b0"
proof -
  have "map_option core_block (blocksTable d k) = Some (core_block b)"
    using assms unfolding same_blocks_def by (metis option.map(2))
  then show ?thesis using that by (cases "blocksTable d k") simp_all
qed

lemma same_blocks_put:
  assumes "same_blocks d v" "blocksTable v k = Some b0" "core_block b = core_block b0" "blocksTable w = (blocksTable v)(k \<mapsto> b)"
    "metaTable w = metaTable v" "branchTable w = branchTable v" "confirmedTable w = confirmedTable v"
  shows "same_blocks d w"
proof -
  have "map_option core_block (blocksTable w x) = map_option core_block (blocksTable v x)" for x using assms(2-4) by simp
  then show ?thesis using assms(1,5-7) by (simp add: same_blocks_def)
qed

lemma block_tree_same:
  assumes "block_tree d r n" "same_blocks d v"
  shows "block_tree v r n"
proof -
  have fwd: "\<exists>b. blocksTable v k = Some b \<and> ib_Height b = ib_Height b0 \<and> ib_PreHash b = ib_PreHash b0" if "blocksTable d k = Some b0" for k b0
  proof -
    have "map_option core_block (blocksTable v k) = Some (core_block b0)" using assms(2) that unfolding same_blocks_def by (metis option.map(2))
    then obtain b where b: "blocksTable v k = Some b" "core_block b = core_block b0" by (cases "blocksTable v k") simp_all
    show ?thesis using b(1) core_block_fields(2,3) [OF b(2)] by simp
  qed
  show ?thesis
    unfolding block_tree_def
  proof (intro conjI allI impI)
    show "\<exists>b. blocksTable v r = Some b \<and> ib_Height b = 0 \<and> elems (ib_PreHash b) = []"
      using assms(1) fwd [of r] unfolding block_tree_def by force
    fix k b assume "blocksTable v k = Some b"
    with assms(2) obtain b0 where b0: "blocksTable d k = Some b0" "core_block b = core_block b0" by (rule same_blocks_back)
    note f = core_block_fields [OF b0(2)] and old = block_treeD [OF assms(1) b0(1)]
    show "elems (ib_Blockid b) = k" "k \<noteq> []" "0 \<le> ib_Height b" "ib_Height b \<le> n" using f old by simp_all
    assume "k \<noteq> r"
    then obtain p where "blocksTable d (elems (ib_PreHash b0)) = Some p" "ib_Height p = ib_Height b0 - 1" using old(5) by blast
    then show "\<exists>p. blocksTable v (elems (ib_PreHash b)) = Some p \<and> ib_Height p = ib_Height b - 1" using fwd f by fastforce
  qed
qed

lemma bodies_same:
  assumes "bodies d" "same_blocks d v"
  shows "bodies v"
  unfolding bodies_def
proof (intro allI impI)
  fix k b assume "blocksTable v k = Some b"
  with assms(2) obtain b0 where b0: "blocksTable d k = Some b0" "core_block b = core_block b0" by (rule same_blocks_back)
  from core_block_fields [OF b0(2)] b0(1) assms show "0 \<le> ib_TxCount b \<and> ib_TxCount b \<le> int (length (ib_MerkleTree b)) \<and>
     (\<forall>i \<in> set (take (nat (ib_TxCount b)) (ib_MerkleTree b)). confirmedTable v (elems i) \<noteq> None)"
    unfolding bodies_def same_blocks_def by simp
qed

lemma readTxs_ok: "\<forall>i \<in> set is. confirmedTable d (elems i) \<noteq> None \<Longrightarrow> \<exists>txs. readTxs d is = Inr txs"
  by (induction "is") auto

lemma queryBlock_body:
  assumes "bodies d" "blocksTable d (elems i) = Some b"
  obtains txs where "queryBlock d i True = Inr (b\<lparr>ib_Transactions := txs\<rparr>)"
proof -
  have "0 \<le> ib_TxCount b" "ib_TxCount b \<le> int (length (ib_MerkleTree b))"
      "\<forall>i \<in> set (take (nat (ib_TxCount b)) (ib_MerkleTree b)). confirmedTable d (elems i) \<noteq> None"
    using assms unfolding bodies_def by blast+
  with readTxs_ok [OF this(3)] assms(2) that show ?thesis by (auto simp: queryBlock_def)
qed

lemma write_txns:
  "\<exists>C. ledgerWrite [PutTxn (f t) (g t). t \<leftarrow> ts, Q t] v = v\<lparr>confirmedTable := C\<rparr> \<and> (\<forall>k. confirmedTable v k \<noteq> None \<longrightarrow> C k \<noteq> None)"
proof (induction ts arbitrary: v)
  case Nil
  show ?case by (intro exI [of _ "confirmedTable v"]) simp
next
  case (Cons t ts)
  show ?case
  proof (cases "Q t")
    case True
    from Cons [of "apply_ledger_op (PutTxn (f t) (g t)) v"] obtain C where
      "ledgerWrite [PutTxn (f t) (g t). t \<leftarrow> ts, Q t] (apply_ledger_op (PutTxn (f t) (g t)) v) = v\<lparr>confirmedTable := C\<rparr>"
      "\<forall>k. confirmedTable (apply_ledger_op (PutTxn (f t) (g t)) v) k \<noteq> None \<longrightarrow> C k \<noteq> None" by auto
    then show ?thesis using True by (intro exI [of _ C]) auto
  next
    case False
    then show ?thesis using Cons [of v] by simp
  qed
qed

lemma correctTxsBlockid_ok:
  assumes "bodies d" "blocksTable d (elems i) = Some b"
  obtains batch' C where "correctTxsBlockid d i batch = Inr batch'"
    "ledgerWrite batch' d = (ledgerWrite batch d)\<lparr>confirmedTable := C\<rparr>" "\<forall>k. confirmedTable (ledgerWrite batch d) k \<noteq> None \<longrightarrow> C k \<noteq> None"
proof -
  obtain txs where q: "queryBlock d i True = Inr (b\<lparr>ib_Transactions := txs\<rparr>)" using assms by (rule queryBlock_body)
  obtain C where C: "ledgerWrite [PutTxn (Txid tx) (tx\<lparr>tx_Blockid := i\<rparr>). tx \<leftarrow> txs, \<not> bytes_Equal (tx_Blockid tx) i] (ledgerWrite batch d) =
      (ledgerWrite batch d)\<lparr>confirmedTable := C\<rparr>" "\<forall>k. confirmedTable (ledgerWrite batch d) k \<noteq> None \<longrightarrow> C k \<noteq> None"
    using write_txns [where f = Txid and g = "\<lambda>tx. tx\<lparr>tx_Blockid := i\<rparr>" and Q = "\<lambda>tx. \<not> bytes_Equal (tx_Blockid tx) i"] by blast
  show ?thesis
    by (rule that [OF _ _ C(2), of "batch @ [PutTxn (Txid tx) (tx\<lparr>tx_Blockid := i\<rparr>). tx \<leftarrow> txs, \<not> bytes_Equal (tx_Blockid tx) i]"])
      (simp add: correctTxsBlockid_def q, simp only: ledgerWrite_simps(3) C(1))
qed


definition switching :: "ledger \<Rightarrow> ledger_op list \<Rightarrow> string \<Rightarrow> int \<Rightarrow> int \<Rightarrow> bytes \<Rightarrow> bytes \<Rightarrow> bytes \<Rightarrow> string \<Rightarrow> string \<Rightarrow> bool" where
  "switching l batch r n h p q nx nid tq \<longleftrightarrow>
     (let d = ldb l; v = ledgerWrite batch d
      in block_tree v r n \<and> same_blocks d v \<and> coherent l (blocksTable v) \<and> joint v n h (elems q) (elems nx) nid tq \<and> h \<le> n \<and>
         hid v h = Some (elems p) \<and> (\<exists>qb. blocksTable v (elems q) = Some qb \<and> ib_Height qb = h) \<and>
         (\<forall>k b. blocksTable v k = Some b \<and> ib_Height b \<le> h \<longrightarrow> blocksTable d k = Some b))"

lemma switching_step:
  assumes "switching l batch r n h p q nx nid tq" "bodies (ldb l)" "\<not> bytes_Equal p q"
  obtains c batch' p' q' where "forkLoop l batch p q nx = forkLoop (l\<lparr>blkHeaderCache := c\<rparr>) batch' p' q' q"
    "switching (l\<lparr>blkHeaderCache := c\<rparr>) batch' r n (h - 1) p' q' q nid tq" "0 < h"
proof -
  define d where "d = ldb l"
  define v where "v = ledgerWrite batch d"
  have sw: "block_tree v r n" "same_blocks d v" "coherent l (blocksTable v)" "joint v n h (elems q) (elems nx) nid tq" "h \<le> n" "hid v h = Some (elems p)"
    and below: "\<And>k b. blocksTable v k = Some b \<Longrightarrow> ib_Height b \<le> h \<Longrightarrow> blocksTable d k = Some b"
    using assms(1) unfolding switching_def Let_def d_def v_def by blast+
  obtain qb where qb: "blocksTable v (elems q) = Some qb" "ib_Height qb = h" using assms(1) unfolding switching_def Let_def d_def v_def by blast
  have t: "trunk_but v n h" using sw(4) by (simp add: joint_def)
  obtain pb where pb: "blocksTable v (elems p) = Some pb" "ib_Height pb = h" using trunk_but_at [OF t sw(6)] by blast
  have inD: "blocksTable d (elems p) = Some pb" "blocksTable d (elems q) = Some qb" using below pb qb by simp_all
  have ids: "elems (ib_Blockid pb) = elems p" "elems (ib_Blockid qb) = elems q" using block_treeD(1) [OF sw(1)] pb(1) qb(1) by simp_all
  have ne: "elems p \<noteq> elems q" using assms(3) by (simp add: bytes_Equal_def)
  obtain c1 where c1: "fetchBlock l p = (l\<lparr>blkHeaderCache := c1\<rparr>, Some pb)" "coherent (l\<lparr>blkHeaderCache := c1\<rparr>) (blocksTable v)"
    using fetchBlock_coherent [OF sw(3), of p] inD(1) pb(1) by (simp add: d_def) metis
  obtain c2 where c2: "fetchBlock (l\<lparr>blkHeaderCache := c1\<rparr>) q = (l\<lparr>blkHeaderCache := c2\<rparr>, Some qb)" "coherent (l\<lparr>blkHeaderCache := c2\<rparr>) (blocksTable v)"
    using fetchBlock_coherent [OF c1(2), of q] inD(2) qb(1) by (simp add: d_def) metis
  obtain batch1 C where b1: "correctTxsBlockid d (ib_Blockid qb) batch = Inr batch1" "ledgerWrite batch1 d = v\<lparr>confirmedTable := C\<rparr>"
      "\<forall>k. confirmedTable v k \<noteq> None \<longrightarrow> C k \<noteq> None"
    using correctTxsBlockid_ok [of d "ib_Blockid qb" qb batch] assms(2) inD(2) ids(2) unfolding v_def d_def by metis
  define pb' where "pb' = pb\<lparr>ib_InTrunk := False, ib_NextHash := Some []\<rparr>"
  define qb' where "qb' = qb\<lparr>ib_InTrunk := True, ib_NextHash := nx\<rparr>"
  obtain l3 batch3 where s1: "saveBlock pb' (l\<lparr>blkHeaderCache := c2\<rparr>, batch1) = (l3, batch3)" by fastforce
  note e1 = saveBlock_effect [OF c2(2) s1]
  obtain c3 where l3: "l3 = l\<lparr>blkHeaderCache := c3\<rparr>" using e1(1) by auto
  obtain l4 batch4 where s2: "saveBlock qb' (l3, batch3) = (l4, batch4)" by fastforce
  note e2 = saveBlock_effect [OF e1(2) s2]
  obtain c4 where l4: "l4 = l\<lparr>blkHeaderCache := c4\<rparr>" using e2(1) l3 by auto
  define w where "w = ledgerWrite batch4 d"
  have w: "blocksTable w = (blocksTable v)(elems p \<mapsto> pb', elems q \<mapsto> qb')" "heightTable w = (heightTable v)(h \<mapsto> ib_Blockid qb)"
      "confirmedTable w = C" "metaTable w = metaTable v" "branchTable w = branchTable v"
    unfolding w_def e2(3) e1(3) b1(2) Let_def by (simp_all add: pb'_def qb'_def ids qb(2))
  note js = joint_step [OF sw(1,4,5,6) pb(1) qb ne pb'_def qb'_def refl w(1,2) ids(2)]
  have loop: "forkLoop l batch p q nx = forkLoop l4 batch4 (ib_PreHash pb) (ib_PreHash qb) q"
    by (subst forkLoop.simps) (use assms(3) c1(1) c2(1) b1(1) s1 s2 in \<open>simp add: d_def pb'_def qb'_def\<close>)
  have "same_blocks d (w\<lparr>blocksTable := blocksTable v\<rparr>)" using sw(2) b1(3) w by (simp add: same_blocks_def)
  then have "same_blocks d (w\<lparr>blocksTable := (blocksTable v)(elems p \<mapsto> pb')\<rparr>)"
    by (rule same_blocks_put [where k = "elems p" and b = pb' and ?b0.0 = pb]) (simp_all add: pb(1), simp add: pb'_def)
  then have same: "same_blocks d w"
    by (rule same_blocks_put [where k = "elems q" and b = qb' and ?b0.0 = qb]) (simp_all add: qb(1) ne [symmetric] w(1), simp add: qb'_def)
  have pre: "\<exists>b. blocksTable w (elems (ib_PreHash qb)) = Some b \<and> ib_Height b = h - 1"
  proof -
    have "elems q \<noteq> r" using block_tree_root(1) [OF sw(1) qb(1)] qb(2) js(1) by simp
    then obtain b where b: "blocksTable v (elems (ib_PreHash qb)) = Some b" "ib_Height b = h - 1" using block_treeD(5) [OF sw(1) qb(1)] qb(2) by auto
    then have "elems (ib_PreHash qb) \<noteq> elems p" "elems (ib_PreHash qb) \<noteq> elems q" using pb qb by auto
    with b show ?thesis by (simp add: w(1))
  qed
  have "blocksTable d k = Some b" if "blocksTable w k = Some b" "ib_Height b \<le> h - 1" for k b
    using that below [of k b] pb(2) qb(2) by (auto simp: w(1) pb'_def qb'_def split: if_splits)
  then have "switching l4 batch4 r n (h - 1) (ib_PreHash pb) (ib_PreHash qb) q nid tq"
    unfolding switching_def Let_def using js(2-4) same pre e2(2) sw(5) c2(2)
    by (simp add: l4 d_def [symmetric] w_def [symmetric] w(1) ids pb'_def qb'_def)
  with loop js(1) that show ?thesis unfolding l4 by blast
qed


lemma forkLoop_ends:
  assumes "switching l batch r n h p q nx nid tq" "bodies (ldb l)"
  obtains c batch' q' nx' h' where "forkLoop l batch p q nx = Some (l\<lparr>blkHeaderCache := c\<rparr>, batch', Inr (q', nx'))"
    "switching (l\<lparr>blkHeaderCache := c\<rparr>) batch' r n h' q' q' nx' nid tq" "h' \<le> h" "bytes_Equal p q \<or> h' < h"
proof -
  have "\<exists>c batch' q' nx' h'. forkLoop l batch p q nx = Some (l\<lparr>blkHeaderCache := c\<rparr>, batch', Inr (q', nx')) \<and>
      switching (l\<lparr>blkHeaderCache := c\<rparr>) batch' r n h' q' q' nx' nid tq \<and> h' \<le> h \<and> (bytes_Equal p q \<or> h' < h)"
    using assms
  proof (induction "nat h" arbitrary: l batch h p q nx rule: less_induct)
    case less
    show ?case
    proof (cases "bytes_Equal p q")
      case True
      have "forkLoop l batch p q nx = Some (l\<lparr>blkHeaderCache := blkHeaderCache l\<rparr>, batch, Inr (q, nx))"
        using True by (subst forkLoop.simps) simp
      moreover have "switching (l\<lparr>blkHeaderCache := blkHeaderCache l\<rparr>) batch r n h q q nx nid tq"
        using less.prems(1) True by (simp add: switching_def bytes_Equal_def)
      ultimately show ?thesis using True by blast
    next
      case False
      obtain c batch' p' q' where s: "forkLoop l batch p q nx = forkLoop (l\<lparr>blkHeaderCache := c\<rparr>) batch' p' q' q"
          "switching (l\<lparr>blkHeaderCache := c\<rparr>) batch' r n (h - 1) p' q' q nid tq" "0 < h"
        using less.prems False by (rule switching_step)
      obtain c2 batch2 q2 nx2 h2 where "forkLoop (l\<lparr>blkHeaderCache := c\<rparr>) batch' p' q' q = Some (l\<lparr>blkHeaderCache := c2\<rparr>, batch2, Inr (q2, nx2))"
          "switching (l\<lparr>blkHeaderCache := c2\<rparr>) batch2 r n h2 q2 q2 nx2 nid tq" "h2 \<le> h - 1"
        using less.hyps [OF _ s(2)] s(3) less.prems(2) by auto
      then show ?thesis using s(1) by (intro exI [of _ c2] exI [of _ batch2] exI [of _ q2] exI [of _ nx2] exI [of _ h2]) simp
    qed
  qed
  then show ?thesis using that by blast
qed

text \<open>Giving a block of the trunk another successor keeps the trunk where the successor matters not, or is right.\<close>

lemma trunk_set_next:
  assumes "block_tree d r n" "trunk_but d n h" "hid d h' = Some k" "blocksTable d k = Some b"
    and "h = h' \<or> h = - 1" "h' = n \<or> hid d (h' + 1) = Some (elems x)" "h < n \<longrightarrow> 0 \<le> h \<longrightarrow> (\<forall>nb. blocksTable d (elems x) = Some nb \<longrightarrow> elems (ib_PreHash nb) = k)"
    and d': "blocksTable d' = (blocksTable d)(k \<mapsto> b\<lparr>ib_InTrunk := True, ib_NextHash := x\<rparr>)" "\<And>y. hid d' y = hid d y"
  shows "trunk d' n"
proof -
  have b: "ib_InTrunk b" "ib_Height b = h'" using trunk_but_at [OF assms(2,3)] assms(4) by auto
  have bk: "\<exists>b0. blocksTable d j = Some b0 \<and> ib_InTrunk b0 = ib_InTrunk c \<and> ib_Height b0 = ib_Height c \<and> ib_PreHash b0 = ib_PreHash c \<and>
      (j \<noteq> k \<longrightarrow> b0 = c) \<and> (j = k \<longrightarrow> ib_NextHash c = x)" if "blocksTable d' j = Some c" for j c
    using that assms(4) b by (auto simp: d'(1) split: if_splits)
  show ?thesis
    unfolding trunk_def trunk_but_def d'(2)
  proof (intro conjI allI impI)
    fix y assume "0 \<le> y \<and> y \<le> n"
    then obtain i c where c: "hid d y = Some i" "blocksTable d i = Some c" "ib_InTrunk c" "ib_Height c = y" using trunk_butD(1) [OF assms(2), of y] by blast
    show "\<exists>i c. hid d y = Some i \<and> blocksTable d' i = Some c \<and> ib_InTrunk c \<and> ib_Height c = y"
      using c b assms(4) by (cases "i = k") (simp_all add: d'(1))
  next
    fix y i assume "hid d y = Some i"
    then show "0 \<le> y" "y \<le> n" using trunk_butD(2) [OF assms(2)] by blast+
  next
    fix j c assume c: "blocksTable d' j = Some c \<and> ib_InTrunk c"
    then show "hid d (ib_Height c) = Some j" using bk [of j c] trunk_butD(3) [OF assms(2), of j] by auto
  next
    fix j c assume c: "blocksTable d' j = Some c \<and> ib_InTrunk c \<and> 0 < ib_Height c \<and> ib_Height c \<noteq> - 1 + 1"
    then obtain b0 where b0: "blocksTable d j = Some b0" "ib_InTrunk b0" "ib_Height b0 = ib_Height c" "ib_PreHash b0 = ib_PreHash c" using bk [of j c] by auto
    show "hid d (ib_Height c - 1) = Some (elems (ib_PreHash c))"
    proof (cases "ib_Height c = h + 1")
      case True
      then have hh: "h = h'" "0 \<le> h" "h < n" using assms(5) c block_treeD(4) [OF assms(1) b0(1)] b0(3) trunk_butD(2) [OF assms(2,3)] by auto
      have "hid d (h + 1) = Some j" using trunk_butD(3) [OF assms(2) b0(1,2)] b0(3) True by simp
      then show ?thesis using assms(3,6,7) hh True b0 by auto
    next
      case False
      then show ?thesis using trunk_butD(4) [OF assms(2) b0(1,2)] b0(3,4) c by simp
    qed
  next
    fix j c assume c: "blocksTable d' j = Some c \<and> ib_InTrunk c \<and> ib_Height c < n \<and> ib_Height c \<noteq> - 1"
    then obtain b0 where b0: "blocksTable d j = Some b0" "ib_InTrunk b0" "ib_Height b0 = ib_Height c" "j \<noteq> k \<longrightarrow> b0 = c" "j = k \<longrightarrow> ib_NextHash c = x"
      using bk [of j c] by auto
    show "hid d (ib_Height c + 1) = Some (elems (ib_NextHash c))"
    proof (cases "j = k")
      case True
      then show ?thesis using b0 c b assms(4,6) by auto
    next
      case False
      then have "ib_Height c \<noteq> h'" using trunk_butD(3) [OF assms(2) b0(1,2)] b0(3) assms(3) by auto
      then show ?thesis using trunk_butD(5) [OF assms(2) b0(1,2)] b0(3,4) False c assms(5) by auto
    qed
  qed
qed


section \<open>Confirming a block\<close>

lemma trunk_weaken: "block_tree d r n \<Longrightarrow> trunk d n \<Longrightarrow> trunk_but d n h"
  unfolding trunk_def trunk_but_def by (fastforce dest: block_treeD(3))

lemma trunk_at_tip:
  assumes "block_tree d r n" "trunk d n"
  shows "0 \<le> n"
proof -
  obtain rb where "blocksTable d r = Some rb" using assms(1) unfolding block_tree_def by blast
  from block_treeD(3,4) [OF assms(1) this] show ?thesis by simp
qed

lemma tree_add:
  assumes "block_tree d r n" "blocksTable d k = None" "k \<noteq> []" "elems (ib_Blockid b) = k"
    and "blocksTable d (elems (ib_PreHash b)) = Some pb" "ib_Height b = ib_Height pb + 1" "ib_Height b \<le> n'" "n \<le> n'"
    and d': "blocksTable d' = (blocksTable d)(k \<mapsto> b)"
  shows "block_tree d' r n'"
  unfolding block_tree_def
proof (intro conjI allI impI)
  have r: "blocksTable d r \<noteq> None" using assms(1) by (auto simp: block_tree_def)
  then have "blocksTable d' r = blocksTable d r" using assms(2) by (auto simp: d')
  then show "\<exists>b. blocksTable d' r = Some b \<and> ib_Height b = 0 \<and> elems (ib_PreHash b) = []" using assms(1) by (simp add: block_tree_def)
  have par: "blocksTable d' (elems (ib_PreHash c)) = Some p" if "blocksTable d (elems (ib_PreHash c)) = Some p" for c p
    using that assms(2) by (auto simp: d')
  fix j c assume c: "blocksTable d' j = Some c"
  have "j = k \<and> c = b \<or> j \<noteq> k \<and> blocksTable d j = Some c" using c by (auto simp: d' split: if_splits)
  then have cases: "j = k \<and> c = b \<or> blocksTable d j = Some c" by blast
  have pb: "0 \<le> ib_Height pb" using block_treeD(3) [OF assms(1,5)] .
  show "elems (ib_Blockid c) = j" "j \<noteq> []" "0 \<le> ib_Height c" "ib_Height c \<le> n'"
    using cases block_treeD(1-4) [OF assms(1), of j c] assms(3,4,6-8) pb by auto
  assume "j \<noteq> r"
  then show "\<exists>p. blocksTable d' (elems (ib_PreHash c)) = Some p \<and> ib_Height p = ib_Height c - 1"
    using cases block_treeD(5) [OF assms(1), of j c] par [of c] assms(5,6) by auto
qed

lemma trunk_add:
  assumes "block_tree d r n" "trunk d n" "hid d n = Some p" "blocksTable d p = Some pb" "elems (ib_NextHash pb) = k"
    and "blocksTable d k = None" "ib_InTrunk b" "ib_Height b = n + 1" "elems (ib_PreHash b) = p"
    and d': "blocksTable d' = (blocksTable d)(k \<mapsto> b)" "heightTable d' = (heightTable d)(n + 1 \<mapsto> i)" "elems i = k"
  shows "trunk d' (n + 1)" "hid d' (n + 1) = Some k"
proof -
  note n0 = trunk_at_tip [OF assms(1,2)]
  note t = assms(2) [unfolded trunk_def]
  have hid': "hid d' x = (if x = n + 1 then Some k else hid d x)" for x by (simp add: hid_def d'(2,3))
  show "hid d' (n + 1) = Some k" by (simp add: hid')
  have cases: "j = k \<and> c = b \<or> j \<noteq> k \<and> blocksTable d j = Some c" if "blocksTable d' j = Some c" for j c
    using that by (auto simp: d'(1) split: if_splits)
  show "trunk d' (n + 1)"
    unfolding trunk_def trunk_but_def
  proof (intro conjI allI impI)
    fix x assume x: "0 \<le> x \<and> x \<le> n + 1"
    show "\<exists>i b. hid d' x = Some i \<and> blocksTable d' i = Some b \<and> ib_InTrunk b \<and> ib_Height b = x"
    proof (cases "x = n + 1")
      case False
      then obtain i c where "hid d x = Some i" "blocksTable d i = Some c" "ib_InTrunk c" "ib_Height c = x" using trunk_butD(1) [OF t, of x] x by auto
      moreover have "i \<noteq> k" using calculation(2) assms(6) by auto
      ultimately show ?thesis using False by (simp add: hid' d'(1))
    qed (simp add: hid' d'(1) assms)
  next
    fix x i assume "hid d' x = Some i"
    then show "0 \<le> x" "x \<le> n + 1" using trunk_butD(2) [OF t, of x i] n0 by (auto simp: hid' split: if_splits)
  next
    fix j c assume "blocksTable d' j = Some c \<and> ib_InTrunk c"
    then show "hid d' (ib_Height c) = Some j"
      using cases [of j c] trunk_butD(3) [OF t, of j c] block_treeD(4) [OF assms(1), of j c] assms(8) by (auto simp: hid')
  next
    fix j c assume "blocksTable d' j = Some c \<and> ib_InTrunk c \<and> 0 < ib_Height c \<and> ib_Height c \<noteq> - 1 + 1"
    then show "hid d' (ib_Height c - 1) = Some (elems (ib_PreHash c))"
      using cases [of j c] trunk_butD(4) [OF t, of j c] block_treeD(4) [OF assms(1), of j c] assms(3,8,9) by (auto simp: hid')
  next
    fix j c assume c: "blocksTable d' j = Some c \<and> ib_InTrunk c \<and> ib_Height c < n + 1 \<and> ib_Height c \<noteq> - 1"
    then have old: "blocksTable d j = Some c" using cases [of j c] assms(8) by auto
    show "hid d' (ib_Height c + 1) = Some (elems (ib_NextHash c))"
    proof (cases "ib_Height c = n")
      case True
      then have "j = p" using trunk_butD(3) [OF t old] c assms(3) by simp
      then show ?thesis using True old assms(4,5) by (simp add: hid')
    next
      case False
      then show ?thesis using trunk_butD(5) [OF t old] c by (simp add: hid')
    qed
  qed
qed

lemma trunk_branch:
  assumes "trunk d n" "blocksTable d k = None" "\<not> ib_InTrunk b"
    and d': "blocksTable d' = (blocksTable d)(k \<mapsto> b)" "heightTable d' = heightTable d"
  shows "trunk d' n"
proof -
  have hid': "hid d' x = hid d x" for x by (simp add: hid_def d'(2))
  have old: "blocksTable d j = Some c" if "blocksTable d' j = Some c" "ib_InTrunk c" for j c
    using that assms(3) by (auto simp: d'(1) split: if_splits)
  have keep: "blocksTable d' j = Some c" if "blocksTable d j = Some c" for j c using that assms(2) by (auto simp: d'(1))
  note t = assms(1) [unfolded trunk_def]
  show ?thesis
    unfolding trunk_def trunk_but_def hid'
  proof (intro conjI allI impI)
    fix x assume "0 \<le> x \<and> x \<le> n"
    then show "\<exists>i b. hid d x = Some i \<and> blocksTable d' i = Some b \<and> ib_InTrunk b \<and> ib_Height b = x"
      using trunk_butD(1) [OF t, of x] keep by blast
  qed (use trunk_butD(2-5) [OF t] old in blast)+
qed


lemma ledger_wfD:
  assumes "ledger_wf l"
  shows "metaTable (ldb l) = Some (lmeta l)" "block_tree (ldb l) (elems (RootBlockid (lmeta l))) (lm_TrunkHeight (lmeta l))"
    "trunk (ldb l) (lm_TrunkHeight (lmeta l))" "hid (ldb l) (lm_TrunkHeight (lmeta l)) = Some (elems (TipBlockid (lmeta l)))"
    "bodies (ldb l)" "coherent l (blocksTable (ldb l))"
  using assms by (simp_all add: ledger_wf_def Let_def)

text \<open>
  What is ready to be written for a block that was placed: the block extends the trunk as it will be, or it is on a branch
  and nothing else changes.
\<close>

definition ready :: "ledger \<Rightarrow> ledger \<Rightarrow> ledger_op list \<Rightarrow> ledger_meta \<Rightarrow> internal_block \<Rightarrow> bool" where
  "ready l l1 batch m b \<longleftrightarrow>
     (let d = ldb l; v = ledgerWrite batch d; n = lm_TrunkHeight (lmeta l)
      in ldb l1 = d \<and> lmeta l1 = lmeta l \<and> same_blocks d v \<and> coherent l1 (blocksTable v) \<and> block_tree v (elems (RootBlockid (lmeta l))) n \<and> trunk v n \<and>
         (\<exists>pb. blocksTable v (elems (ib_PreHash b)) = Some pb \<and> ib_Height b = ib_Height pb + 1 \<and>
            (if ib_InTrunk b
             then m = (lmeta l)\<lparr>TipBlockid := ib_Blockid b, lm_TrunkHeight := n + 1\<rparr> \<and> ib_Height b = n + 1 \<and>
                  hid v n = Some (elems (ib_PreHash b)) \<and> elems (ib_NextHash pb) = elems (ib_Blockid b)
             else m = lmeta l \<and> ib_Height b \<le> n \<and> hid v n = Some (elems (TipBlockid (lmeta l))))))"


lemma switching_start:
  assumes "ledger_wf l" "blocksTable (ldb l) (elems q) = Some qb" "ib_Height qb = lm_TrunkHeight (lmeta l)"
    and "coherent l1 (blocksTable (ldb l))" "ldb l1 = ldb l"
  shows "switching l1 [] (elems (RootBlockid (lmeta l))) (lm_TrunkHeight (lmeta l)) (lm_TrunkHeight (lmeta l)) (TipBlockid (lmeta l)) q nx (elems nx) (elems q)"
  unfolding switching_def Let_def joint_def
  using ledger_wfD [OF assms(1)] assms(2-5) trunk_weaken by simp

lemma handleFork_ready:
  assumes sw: "switching l1 [] r n n p q nx (elems nx) (elems q)" and bd: "bodies (ldb l1)" and ne: "\<not> bytes_Equal p q"
  obtains c batch sb where "handleFork l1 [] p q nx = Some (l1\<lparr>blkHeaderCache := c\<rparr>, batch, Inr sb)"
    "coherent (l1\<lparr>blkHeaderCache := c\<rparr>) (blocksTable (ledgerWrite batch (ldb l1)))" "same_blocks (ldb l1) (ledgerWrite batch (ldb l1))"
    "block_tree (ledgerWrite batch (ldb l1)) r n" "trunk (ledgerWrite batch (ldb l1)) n"
    "hid (ledgerWrite batch (ldb l1)) n = Some (elems q)"
    "\<exists>tb. blocksTable (ledgerWrite batch (ldb l1)) (elems q) = Some tb \<and> elems (ib_NextHash tb) = elems nx"
proof -
  obtain c batch q' nx' h where fl: "forkLoop l1 [] p q nx = Some (l1\<lparr>blkHeaderCache := c\<rparr>, batch, Inr (q', nx'))"
      "switching (l1\<lparr>blkHeaderCache := c\<rparr>) batch r n h q' q' nx' (elems nx) (elems q)" "h \<le> n" "bytes_Equal p q \<or> h < n"
    using sw bd by (rule forkLoop_ends)
  have hn: "h < n" using fl(4) ne by simp
  define d where "d = ldb l1"
  define v where "v = ledgerWrite batch d"
  have sv: "block_tree v r n" "same_blocks d v" "coherent (l1\<lparr>blkHeaderCache := c\<rparr>) (blocksTable v)" "joint v n h (elems q') (elems nx') (elems nx) (elems q)"
      "hid v h = Some (elems q')"
    and below: "\<And>k b. blocksTable v k = Some b \<Longrightarrow> ib_Height b \<le> h \<Longrightarrow> blocksTable d k = Some b"
    using fl(2) unfolding switching_def Let_def d_def v_def by auto
  have t: "trunk_but v n h" using sv(4) by (simp add: joint_def)
  obtain sb where sb: "blocksTable v (elems q') = Some sb" "ib_InTrunk sb" "ib_Height sb = h" using trunk_but_at [OF t sv(5)] by blast
  obtain c1 where c1: "fetchBlock (l1\<lparr>blkHeaderCache := c\<rparr>) q' = (l1\<lparr>blkHeaderCache := c1\<rparr>, Some sb)" "coherent (l1\<lparr>blkHeaderCache := c1\<rparr>) (blocksTable v)"
    using fetchBlock_coherent [OF sv(3), of q'] below [OF sb(1)] sb by (simp add: d_def) metis
  define sb' where "sb' = sb\<lparr>ib_InTrunk := True, ib_NextHash := nx'\<rparr>"
  have ids: "elems (ib_Blockid sb) = elems q'" using block_treeD(1) [OF sv(1) sb(1)] .
  obtain l2 batch2 where s: "saveBlock sb' (l1\<lparr>blkHeaderCache := c1\<rparr>, batch) = (l2, batch2)" by fastforce
  note e = saveBlock_effect [OF c1(2) s]
  obtain c2 where l2: "l2 = l1\<lparr>blkHeaderCache := c2\<rparr>" using e(1) by auto
  define w where "w = ledgerWrite batch2 d"
  have w: "blocksTable w = (blocksTable v)(elems q' \<mapsto> sb')" "metaTable w = metaTable v" "branchTable w = branchTable v" "confirmedTable w = confirmedTable v"
      "heightTable w = (heightTable v)(h \<mapsto> ib_Blockid sb)"
    unfolding w_def e(3) v_def [symmetric] Let_def by (simp_all add: sb'_def ids sb(3))
  have hidw: "hid w y = hid v y" for y using sv(5) ids by (cases "y = h") (auto simp: hid_def w(5))
  have joint: "hid v n = Some (elems q)" "hid v (h + 1) = Some (elems nx')" "\<And>b. blocksTable v (elems nx') = Some b \<Longrightarrow> elems (ib_PreHash b) = elems q'"
      "\<And>b. blocksTable v (elems q) = Some b \<Longrightarrow> elems (ib_NextHash b) = elems nx"
    using sv(4) hn by (auto simp: joint_def)
  have same: "same_blocks d w" by (rule same_blocks_put [OF sv(2) sb(1) _ w(1-4)]) (simp add: sb'_def)
  have trunk: "trunk w n" by (rule trunk_set_next [OF sv(1) t sv(5) sb(1), of nx']) (use joint in \<open>auto simp: w(1) sb'_def hidw\<close>)
  have "same_blocks v w" by (rule same_blocks_put [OF same_blocks_refl sb(1) _ w(1-4)]) (simp add: sb'_def)
  then have tree: "block_tree w r n" by (rule block_tree_same [OF sv(1)])
  obtain tb where tb: "blocksTable v (elems q) = Some tb" "ib_Height tb = n" using trunk_but_at [OF t joint(1)] by blast
  then have "elems q \<noteq> elems q'" using sb hn by auto
  then have tip: "\<exists>tb. blocksTable w (elems q) = Some tb \<and> elems (ib_NextHash tb) = elems nx" using tb joint(4) by (simp add: w(1))
  have "handleFork l1 [] p q nx = Some (l1\<lparr>blkHeaderCache := c2\<rparr>, batch2, Inr sb')"
    unfolding handleFork_def fl(1) by (simp add: c1(1) Let_def sb'_def [symmetric] s l2)
  moreover have "coherent (l1\<lparr>blkHeaderCache := c2\<rparr>) (blocksTable w)" using e(2) by (simp add: l2 w(1) ids sb'_def)
  ultimately show ?thesis using that same tree trunk joint(1) tip unfolding w_def d_def hidw [unfolded w_def d_def, symmetric] by blast
qed


lemma placeNext_ready:
  assumes "ledger_wf l" "lm_TrunkHeight (lmeta l) < 2 ^ 63 - 1"
    and pre: "blocksTable (ldb l) (elems (ib_PreHash b)) = Some pb"
  obtains l1 batch m sh st where
    "placeNext l b = Some (Placed l1 batch m (b\<lparr>ib_Height := ib_Height pb + 1, ib_InTrunk := ib_Height pb = lm_TrunkHeight (lmeta l)\<rparr>) sh st)"
    "ready l l1 batch m (b\<lparr>ib_Height := ib_Height pb + 1, ib_InTrunk := ib_Height pb = lm_TrunkHeight (lmeta l)\<rparr>)"
    "blockCache l1 = blockCache l \<or> blockCache l1 = lru_Del (blockCache l) (elems (ib_PreHash b))" "txCache l1 = txCache l" "lgenesis l1 = lgenesis l"
    "\<not> Succ st" "cs_Error st = None"
proof -
  define m where "m = lmeta l"
  define n where "n = lm_TrunkHeight m"
  define d where "d = ldb l"
  note wf = ledger_wfD [OF assms(1), folded m_def, folded n_def d_def]
  have pbd: "elems (ib_Blockid pb) = elems (ib_PreHash b)" "0 \<le> ib_Height pb" "ib_Height pb \<le> n"
    using block_treeD [OF wf(2)] pre unfolding d_def by blast+
  have i64: "i64 (ib_Height pb + 1) = ib_Height pb + 1" "i64 (n + 1) = n + 1"
    using assms(2) pbd trunk_at_tip [OF wf(2,3)] by (simp_all add: i64_id in_i64_def m_def n_def)
  obtain c where c: "fetchBlock l (ib_PreHash b) = (l\<lparr>blkHeaderCache := c\<rparr>, Some pb)" "coherent (l\<lparr>blkHeaderCache := c\<rparr>) (blocksTable d)"
    using fetchBlock_coherent [OF wf(6), of "ib_PreHash b"] pre by (simp add: d_def) metis
  have tipn: "ib_Height pb = n" if "elems (ib_PreHash b) = elems (TipBlockid m)"
    using trunk_but_at [OF wf(3) [unfolded trunk_def] wf(4)] that pre by (auto simp: d_def)
  consider (extend) "elems (ib_PreHash b) = elems (TipBlockid m)" | (fork) "elems (ib_PreHash b) \<noteq> elems (TipBlockid m)" "ib_Height pb = n"
    | (branch) "elems (ib_PreHash b) \<noteq> elems (TipBlockid m)" "ib_Height pb < n" using pbd(3) by linarith
  then show ?thesis
  proof cases
    case extend
    define pb' where "pb' = pb\<lparr>ib_NextHash := ib_Blockid b\<rparr>"
    obtain l2 batch where s: "saveBlock pb' (l\<lparr>blkHeaderCache := c\<rparr>, []) = (l2, batch)" by fastforce
    note e = saveBlock_effect [OF c(2) s]
    obtain c2 where l2: "l2 = l\<lparr>blkHeaderCache := c2\<rparr>" using e(1) by auto
    define v where "v = ledgerWrite batch d"
    have inT: "ib_InTrunk pb" "ib_Height pb = n" using trunk_but_at [OF wf(3) [unfolded trunk_def] wf(4)] extend pre by (auto simp: d_def)
    have v: "blocksTable v = (blocksTable d)(elems (ib_PreHash b) \<mapsto> pb')" "metaTable v = metaTable d" "branchTable v = branchTable d"
        "confirmedTable v = confirmedTable d" "heightTable v = (heightTable d)(n \<mapsto> ib_Blockid pb)"
      unfolding v_def e(3) by (simp_all add: pb'_def pbd inT)
    have hidv: "hid v y = hid d y" for y using wf(4) extend pbd(1) by (cases "y = n") (auto simp: hid_def v(5))
    have same: "same_blocks d v" by (rule same_blocks_put [OF same_blocks_refl pre [folded d_def] _ v(1-4)]) (simp add: pb'_def)
    have full: "pb' = pb\<lparr>ib_InTrunk := True, ib_NextHash := ib_Blockid b\<rparr>" using inT(1) by (cases pb) (simp add: pb'_def)
    have "trunk v n"
      by (rule trunk_set_next [OF wf(2) wf(3) [unfolded trunk_def], of n "elems (ib_PreHash b)" pb "ib_Blockid b"])
        (use wf(4) extend pre in \<open>auto simp: d_def v(1) full hidv\<close>)
    moreover have "block_tree v (elems (RootBlockid m)) n" by (rule block_tree_same [OF wf(2) same])
    ultimately have rd: "ready l (l2\<lparr>blockCache := lru_Del (blockCache l2) (elems (ib_PreHash b))\<rparr>) batch
        (m\<lparr>TipBlockid := ib_Blockid b, lm_TrunkHeight := n + 1\<rparr>) (b\<lparr>ib_Height := ib_Height pb + 1, ib_InTrunk := ib_Height pb = n\<rparr>)"
      unfolding ready_def Let_def m_def [symmetric] d_def [symmetric] v_def [symmetric] n_def [symmetric]
      using same e(2) inT wf(4) extend by (auto simp: l2 d_def coherent_def v(1) pb'_def pbd hidv m_def)
    have pl: "placeNext l b = Some (Placed (l2\<lparr>blockCache := lru_Del (blockCache l2) (elems (ib_PreHash b))\<rparr>) batch
        (m\<lparr>TipBlockid := ib_Blockid b, lm_TrunkHeight := n + 1\<rparr>) (b\<lparr>ib_Height := ib_Height pb + 1, ib_InTrunk := ib_Height pb = n\<rparr>) n noStatus)"
      unfolding placeNext_def Let_def c(1)
      using s extend i64 inT pbd by (simp add: bytes_Equal_def m_def [symmetric] n_def [symmetric] pb'_def)
    show ?thesis by (rule that [OF pl [unfolded n_def m_def] rd [unfolded n_def m_def]]) (simp_all add: l2 noStatus_def)
  next
    case fork
    have ne: "\<not> bytes_Equal (TipBlockid m) (ib_Blockid pb)" using fork(1) pbd(1) by (simp add: bytes_Equal_def)
    have "switching (l\<lparr>blkHeaderCache := c\<rparr>) [] (elems (RootBlockid m)) n n (TipBlockid m) (ib_Blockid pb) (ib_Blockid b) (elems (ib_Blockid b)) (elems (ib_Blockid pb))"
      unfolding m_def n_def by (rule switching_start [OF assms(1)]) (use pre pbd(1) fork(2) c(2) in \<open>simp_all add: m_def n_def d_def\<close>)
    then obtain c2 batch sb where hf: "handleFork (l\<lparr>blkHeaderCache := c\<rparr>) [] (TipBlockid m) (ib_Blockid pb) (ib_Blockid b) = Some (l\<lparr>blkHeaderCache := c2\<rparr>, batch, Inr sb)"
        "coherent (l\<lparr>blkHeaderCache := c2\<rparr>) (blocksTable (ledgerWrite batch d))" "same_blocks d (ledgerWrite batch d)"
        "block_tree (ledgerWrite batch d) (elems (RootBlockid m)) n" "trunk (ledgerWrite batch d) n"
        "hid (ledgerWrite batch d) n = Some (elems (ib_Blockid pb))"
        "\<exists>tb. blocksTable (ledgerWrite batch d) (elems (ib_Blockid pb)) = Some tb \<and> elems (ib_NextHash tb) = elems (ib_Blockid b)"
      by (rule handleFork_ready) (use wf(5) ne in \<open>simp_all add: d_def\<close>)
    obtain tb where tb: "blocksTable (ledgerWrite batch d) (elems (ib_PreHash b)) = Some tb" "elems (ib_NextHash tb) = elems (ib_Blockid b)"
      using hf(7) pbd(1) by auto
    have tbn: "ib_Height tb = n" using trunk_but_at [OF hf(5) [unfolded trunk_def] hf(6)] tb(1) pbd(1) by auto
    have rd: "ready l (l\<lparr>blkHeaderCache := c2\<rparr>) batch
        (m\<lparr>lm_TrunkHeight := n + 1, TipBlockid := ib_Blockid b\<rparr>) (b\<lparr>ib_Height := ib_Height pb + 1, ib_InTrunk := ib_Height pb = n\<rparr>)"
      unfolding ready_def Let_def m_def [symmetric] d_def [symmetric] n_def [symmetric]
      using hf tb tbn fork(2) pbd(1) by (simp add: d_def m_def)
    have pl: "placeNext l b = Some (Placed (l\<lparr>blkHeaderCache := c2\<rparr>) batch (m\<lparr>lm_TrunkHeight := n + 1, TipBlockid := ib_Blockid b\<rparr>)
        (b\<lparr>ib_Height := ib_Height pb + 1, ib_InTrunk := ib_Height pb = n\<rparr>) (ib_Height sb) (noStatus\<lparr>Split := True, TrunkSwitch := True\<rparr>))"
      unfolding placeNext_def Let_def c(1)
      using hf(1) fork pbd(1) i64 by (simp add: bytes_Equal_def m_def [symmetric] n_def [symmetric])
    show ?thesis by (rule that [OF pl [unfolded n_def m_def] rd [unfolded n_def m_def]]) (simp_all add: noStatus_def)
  next
    case branch
    have rd: "ready l (l\<lparr>blkHeaderCache := c\<rparr>) [] m (b\<lparr>ib_Height := ib_Height pb + 1, ib_InTrunk := ib_Height pb = n\<rparr>)"
      unfolding ready_def Let_def m_def [symmetric] d_def [symmetric] n_def [symmetric]
      using c(2) wf pre branch by (simp add: d_def m_def)
    have pl: "placeNext l b = Some (Placed (l\<lparr>blkHeaderCache := c\<rparr>) [] m
        (b\<lparr>ib_Height := ib_Height pb + 1, ib_InTrunk := ib_Height pb = n\<rparr>) n (noStatus\<lparr>Split := True, Orphan := True\<rparr>))"
      unfolding placeNext_def Let_def c(1)
      using branch pbd(1) i64 by (simp add: bytes_Equal_def m_def [symmetric] n_def [symmetric])
    show ?thesis by (rule that [OF pl [unfolded n_def m_def] rd [unfolded n_def m_def]]) (simp_all add: noStatus_def)
  qed
qed


lemma confirmTxs_effect:
  assumes "confirmTxs d b sh txs cb batch = Inr batch'" "\<And>k. confirmedTable d k \<noteq> None \<Longrightarrow> confirmedTable (ledgerWrite batch d) k \<noteq> None"
  shows "\<exists>C. ledgerWrite batch' d = (ledgerWrite batch d)\<lparr>confirmedTable := C\<rparr> \<and> (\<forall>k. confirmedTable (ledgerWrite batch d) k \<noteq> None \<longrightarrow> C k \<noteq> None) \<and>
     (\<forall>tx \<in> set txs. C (elems (Txid tx)) \<noteq> None)"
  using assms
proof (induction txs arbitrary: cb batch)
  case Nil
  then show ?case by (intro exI [of _ "confirmedTable (ledgerWrite batch d)"]) simp
next
  case (Cons tx txs)
  define cb' where "cb' = (if Coinbase tx then cb + 1 else cb)"
  define put where "put = batch @ [PutTxn (Txid tx) tx]"
  consider (new) "confirmTxs d b sh txs cb' put = Inr batch'" | (old) "confirmTxs d b sh txs cb' batch = Inr batch'" "confirmedTable d (elems (Txid tx)) \<noteq> None"
    using Cons.prems(1) by (auto simp: Let_def cb'_def put_def split: if_splits option.splits)
  then show ?case
  proof cases
    case new
    have w: "ledgerWrite put d = (ledgerWrite batch d)\<lparr>confirmedTable := (confirmedTable (ledgerWrite batch d))(elems (Txid tx) \<mapsto> tx)\<rparr>" by (simp add: put_def)
    have "confirmedTable (ledgerWrite put d) k \<noteq> None" if "confirmedTable d k \<noteq> None" for k using Cons.prems(2) [OF that] by (simp add: w)
    from Cons.IH [OF new this] obtain C where C: "ledgerWrite batch' d = (ledgerWrite put d)\<lparr>confirmedTable := C\<rparr>"
        "\<And>k. confirmedTable (ledgerWrite put d) k \<noteq> None \<Longrightarrow> C k \<noteq> None" "\<forall>tx \<in> set txs. C (elems (Txid tx)) \<noteq> None" by blast
    have "C k \<noteq> None" if "confirmedTable (ledgerWrite batch d) k \<noteq> None \<or> k = elems (Txid tx)" for k using C(2) [of k] that by (auto simp: w)
    then show ?thesis using C(1,3) by (intro exI [of _ C]) (simp add: w)
  next
    case old
    from Cons.IH [OF old(1) Cons.prems(2)] obtain C where C: "ledgerWrite batch' d = (ledgerWrite batch d)\<lparr>confirmedTable := C\<rparr>"
        "\<And>k. confirmedTable (ledgerWrite batch d) k \<noteq> None \<Longrightarrow> C k \<noteq> None" "\<forall>tx \<in> set txs. C (elems (Txid tx)) \<noteq> None" by blast
    then show ?thesis using C(2) [OF Cons.prems(2) [OF old(2)]] by (intro exI [of _ C]) simp
  qed
qed

text \<open>A block that the ledger does not have yet and whose tree starts with its transactions.\<close>

definition fresh_block :: "ledger \<Rightarrow> internal_block \<Rightarrow> bool" where
  "fresh_block l b \<longleftrightarrow> elems (ib_Blockid b) \<noteq> [] \<and> \<not> ExistBlock l (ib_Blockid b) \<and>
     0 \<le> ib_TxCount b \<and> ib_TxCount b \<le> int (length (ib_MerkleTree b)) \<and>
     map elems (take (nat (ib_TxCount b)) (ib_MerkleTree b)) = map (elems \<circ> Txid) (ib_Transactions b)"

lemma cacheTxs_fields [simp]:
  "ldb (cacheTxs txs l) = ldb l" "lmeta (cacheTxs txs l) = lmeta l" "blkHeaderCache (cacheTxs txs l) = blkHeaderCache l" "coherent (cacheTxs txs l) B = coherent l B"
  by (simp_all add: cacheTxs_def coherent_def)

text \<open>Writing a block that is ready gives a ledger of the right shape again.\<close>

lemma ready_written:
  assumes "ledger_wf l" "ready l l1 batch m b" "fresh_block l blk" "b = blk\<lparr>ib_Transactions := [], ib_Height := h, ib_InTrunk := t\<rparr>"
    and s: "saveBlock b (l1, batch) = (l2, batch1)"
    and txs: "confirmTxs (ldb l2) b sh (map (\<lambda>tx. tx\<lparr>tx_Blockid := ib_Blockid b\<rparr>) (ib_Transactions blk)) 0
      (batch1 @ updateBranchInfo (ib_Blockid b) (ib_PreHash b) (ib_Height b)) = Inr batch3"
    and l': "ldb l' = ledgerWrite (batch3 @ [DelPending (ib_Blockid b), PutMeta m]) (ldb l2)" "lmeta l' = m" "blkHeaderCache l' = blkHeaderCache l2"
  shows "ledger_wf l'" "blocksTable (ldb l') (elems (ib_Blockid b)) = Some b" "ldb l2 = ldb l"
    "\<And>k. k \<noteq> elems (ib_Blockid b) \<Longrightarrow> map_option core_block (blocksTable (ldb l') k) = map_option core_block (blocksTable (ldb l) k)"
    "branchTable (ldb l') = AList.update (elems (ib_Blockid b)) (ib_Height b) (AList.delete (elems (ib_PreHash b)) (branchTable (ldb l)))"
proof -
  define d where "d = ldb l"
  define v where "v = ledgerWrite batch d"
  define n where "n = lm_TrunkHeight (lmeta l)"
  define r where "r = elems (RootBlockid (lmeta l))"
  define k where "k = elems (ib_Blockid b)"
  note wf = ledger_wfD [OF assms(1), folded d_def n_def r_def]
  obtain pb where rd: "ldb l1 = d" "same_blocks d v" "coherent l1 (blocksTable v)" "block_tree v r n" "trunk v n"
      "blocksTable v (elems (ib_PreHash b)) = Some pb" "ib_Height b = ib_Height pb + 1"
      "if ib_InTrunk b then m = (lmeta l)\<lparr>TipBlockid := ib_Blockid b, lm_TrunkHeight := n + 1\<rparr> \<and> ib_Height b = n + 1 \<and>
          hid v n = Some (elems (ib_PreHash b)) \<and> elems (ib_NextHash pb) = k
       else m = lmeta l \<and> ib_Height b \<le> n \<and> hid v n = Some (elems (TipBlockid (lmeta l)))"
    using assms(2) unfolding ready_def Let_def d_def v_def n_def r_def k_def by blast
  have fb: "k \<noteq> []" "blocksTable d k = None" "0 \<le> ib_TxCount b" "ib_TxCount b \<le> int (length (ib_MerkleTree b))"
      "map elems (take (nat (ib_TxCount b)) (ib_MerkleTree b)) = map (elems \<circ> Txid) (ib_Transactions blk)"
    using assms(3,4) by (simp_all add: fresh_block_def ExistBlock_def k_def d_def)
  note e = saveBlock_effect [OF rd(3) s]
  show l2: "ldb l2 = ldb l" using e(1) rd(1) d_def by auto
  define w where "w = ledgerWrite batch1 d"
  have w: "blocksTable w = (blocksTable v)(k \<mapsto> b)" "heightTable w = (if ib_InTrunk b then (heightTable v)(ib_Height b \<mapsto> ib_Blockid b) else heightTable v)"
      "confirmedTable w = confirmedTable v" "metaTable w = metaTable v" "branchTable w = branchTable v"
    unfolding w_def e(3) Let_def v_def [symmetric] by (simp_all add: k_def)
  define batch2 where "batch2 = batch1 @ updateBranchInfo (ib_Blockid b) (ib_PreHash b) (ib_Height b)"
  have w2: "ledgerWrite batch2 d = w\<lparr>branchTable := AList.update k (ib_Height b) (AList.delete (elems (ib_PreHash b)) (branchTable w))\<rparr>"
    by (simp add: batch2_def updateBranchInfo_def w_def k_def)
  have sup: "confirmedTable (ledgerWrite batch2 d) x \<noteq> None" if "confirmedTable d x \<noteq> None" for x
    using rd(2) that by (simp add: w2 w(3) same_blocks_def)
  obtain C where C: "ledgerWrite batch3 d = (ledgerWrite batch2 d)\<lparr>confirmedTable := C\<rparr>" "\<And>x. confirmedTable w x \<noteq> None \<Longrightarrow> C x \<noteq> None"
      "\<And>tx. tx \<in> set (ib_Transactions blk) \<Longrightarrow> C (elems (Txid tx)) \<noteq> None"
    using confirmTxs_effect [OF txs [unfolded l2 batch2_def [symmetric], folded d_def] sup] by (auto simp: w2)
  define f where "f = ldb l'"
  have f: "blocksTable f = blocksTable w" "heightTable f = heightTable w" "confirmedTable f = C" "metaTable f = Some m"
      "branchTable f = AList.update k (ib_Height b) (AList.delete (elems (ib_PreHash b)) (branchTable w))"
    unfolding f_def l'(1) l2 d_def [symmetric] ledgerWrite_simps(3) C(1) w2 by simp_all
  have vk: "blocksTable v k = None"
  proof (cases "blocksTable v k")
    case (Some x)
    then show ?thesis using same_blocks_back [OF rd(2) Some] fb(2) by auto
  qed
  show "blocksTable (ldb l') (elems (ib_Blockid b)) = Some b" using f(1) w(1) by (simp add: f_def k_def)
  show "map_option core_block (blocksTable (ldb l') x) = map_option core_block (blocksTable (ldb l) x)" if "x \<noteq> elems (ib_Blockid b)" for x
    using that f(1) w(1) rd(2) by (simp add: f_def k_def same_blocks_def d_def)
  show "branchTable (ldb l') = AList.update (elems (ib_Blockid b)) (ib_Height b) (AList.delete (elems (ib_PreHash b)) (branchTable (ldb l)))"
    using f(5) w(5) rd(2) by (simp add: f_def k_def same_blocks_def d_def)
  have "coherent l' (blocksTable f)" using e(2) l'(3) by (simp add: f(1) w(1) coherent_def k_def)
  moreover have "bodies f"
    unfolding bodies_def
  proof (intro allI impI)
    fix x c assume c: "blocksTable f x = Some c"
    show "0 \<le> ib_TxCount c \<and> ib_TxCount c \<le> int (length (ib_MerkleTree c)) \<and>
       (\<forall>i \<in> set (take (nat (ib_TxCount c)) (ib_MerkleTree c)). confirmedTable f (elems i) \<noteq> None)"
    proof (cases "x = k")
      case True
      then have "c = b" using c by (simp add: f(1) w(1))
      moreover have "C (elems i) \<noteq> None" if "i \<in> set (take (nat (ib_TxCount b)) (ib_MerkleTree b))" for i
      proof -
        have "elems i \<in> set (map (elems \<circ> Txid) (ib_Transactions blk))" unfolding fb(5) [symmetric] using that by simp
        then obtain tx where "tx \<in> set (ib_Transactions blk)" "elems i = elems (Txid tx)" by auto
        then show ?thesis using C(3) by simp
      qed
      ultimately show ?thesis using fb(3,4) by (simp add: f(3))
    next
      case False
      then have "blocksTable v x = Some c" using c by (simp add: f(1) w(1))
      then show ?thesis using bodies_same [OF wf(5) rd(2)] C(2) unfolding bodies_def f(3) w(3) by blast
    qed
  qed
  moreover have "block_tree f r (lm_TrunkHeight m) \<and> trunk f (lm_TrunkHeight m) \<and> hid f (lm_TrunkHeight m) = Some (elems (TipBlockid m))"
  proof (cases "ib_InTrunk b")
    case True
    then have i: "m = (lmeta l)\<lparr>TipBlockid := ib_Blockid b, lm_TrunkHeight := n + 1\<rparr>" "ib_Height b = n + 1" "hid v n = Some (elems (ib_PreHash b))" "elems (ib_NextHash pb) = k"
      using rd(8) by simp_all
    have "block_tree f r (n + 1)" by (rule tree_add [OF rd(4) vk fb(1) _ rd(6,7)]) (simp_all add: k_def i(2) f(1) w(1))
    moreover have "trunk f (n + 1)" "hid f (n + 1) = Some k"
      by (rule trunk_add [OF rd(4,5) i(3) rd(6) i(4) vk True i(2)]; simp add: f(1,2) w(1,2) True i(2) k_def)+
    ultimately show ?thesis by (simp add: i(1) k_def)
  next
    case False
    then have i: "m = lmeta l" "ib_Height b \<le> n" "hid v n = Some (elems (TipBlockid (lmeta l)))" using rd(8) by simp_all
    have "block_tree f r n" by (rule tree_add [OF rd(4) vk fb(1) _ rd(6,7) i(2)]) (simp_all add: k_def f(1) w(1))
    moreover have "trunk f n" by (rule trunk_branch [OF rd(5) vk False]) (simp_all add: f(1,2) w(1,2) False)
    moreover have "hid f n = hid v n" by (simp add: hid_def f(2) w(2) False)
    ultimately show ?thesis using i by (simp add: n_def [symmetric])
  qed
  moreover have "r = elems (RootBlockid m)" using rd(8) by (auto simp: r_def split: if_splits)
  ultimately show "ledger_wf l'" unfolding ledger_wf_def Let_def l'(2) f_def [symmetric] using f(4) by simp
qed

end
