(* ===== verification/LedgerProofs.thy ===== *)
theory LedgerProofs
  imports LedgerTrunk
begin

text \<open>
  What the ledger promises: a confirmation is a whole step or none, the shape of the ledger holds after every run of
  confirmations, rejections and restarts, and the way between two blocks is found and is the shortest one.
\<close>

section \<open>Confirming a block\<close>

text \<open>A new block on a stored parent: the step succeeds and keeps the shape, or the tables stay as they were.\<close>

definition confirmed :: "ledger \<Rightarrow> internal_block \<Rightarrow> internal_block \<Rightarrow> ledger \<Rightarrow> bool" where
  "confirmed l pb blk l' \<longleftrightarrow>
     (let b = blk\<lparr>ib_Transactions := [], ib_Height := ib_Height pb + 1, ib_InTrunk := ib_Height pb = lm_TrunkHeight (lmeta l)\<rparr>;
          k = elems (ib_Blockid blk)
      in ledger_wf l' \<and> blocksTable (ldb l') k = Some b \<and> RootBlockid (lmeta l') = RootBlockid (lmeta l) \<and>
         (\<forall>x. x \<noteq> k \<longrightarrow> map_option core_block (blocksTable (ldb l') x) = map_option core_block (blocksTable (ldb l) x)) \<and>
         branchTable (ldb l') = AList.update k (ib_Height b) (AList.delete (elems (ib_PreHash blk)) (branchTable (ldb l))) \<and>
         lmeta l' = (if ib_InTrunk b then (lmeta l)\<lparr>TipBlockid := ib_Blockid blk, lm_TrunkHeight := lm_TrunkHeight (lmeta l) + 1\<rparr> else lmeta l))"

lemma ConfirmBlock_step:
  assumes wf: "ledger_wf l" "lm_TrunkHeight (lmeta l) < 2 ^ 63 - 1" "fresh_block l blk"
    and pre: "blocksTable (ldb l) (elems (ib_PreHash blk)) = Some pb"
  obtains l' blk' st where "ConfirmBlock parse l blk False kvOk = Some (l', blk', st)"
    "if Succ st then kvOk \<and> confirmed l pb blk l' else ldb l' = ldb l \<and> lmeta l' = lmeta l"
proof -
  define b0 where "b0 = blk\<lparr>ib_Transactions := []\<rparr>"
  define b where "b = b0\<lparr>ib_Height := ib_Height pb + 1, ib_InTrunk := ib_Height pb = lm_TrunkHeight (lmeta l)\<rparr>"
  have bd: "b = blk\<lparr>ib_Transactions := [], ib_Height := ib_Height pb + 1, ib_InTrunk := ib_Height pb = lm_TrunkHeight (lmeta l)\<rparr>"
    by (simp add: b_def b0_def)
  have "blocksTable (ldb l) (elems (ib_PreHash b0)) = Some pb" using pre by (simp add: b0_def)
  from placeNext_ready [OF wf(1,2) this, folded b_def] obtain l1 batch m sh st where p:
    "placeNext l b0 = Some (Placed l1 batch m b sh st)" "ready l l1 batch m b" "\<not> Succ st" by metis
  obtain l2 batch1 where s: "saveBlock b (l1, batch) = (l2, batch1)" by fastforce
  define txs where "txs = map (\<lambda>tx. tx\<lparr>tx_Blockid := ib_Blockid b\<rparr>) (ib_Transactions blk)"
  define batch2 where "batch2 = batch1 @ updateBranchInfo (ib_Blockid b) (ib_PreHash b) (ib_Height b)"
  have l1: "ldb l1 = ldb l" "lmeta l1 = lmeta l" using p(2) by (auto simp: ready_def Let_def)
  have l2: "ldb l2 = ldb l" "lmeta l2 = lmeta l" using s l1 by (auto simp: saveBlock_def Let_def)
  note C = ConfirmBlock_def [of parse l blk False kvOk, unfolded Let_def, folded b0_def, simplified, unfolded p(1), simplified, unfolded s, simplified,
      folded txs_def batch2_def, unfolded l2(1)]
  show ?thesis
  proof (cases "confirmTxs (ldb l) b sh txs 0 batch2")
    case (Inl e)
    show ?thesis using p(3) l2 by (intro that [of l2 b "st\<lparr>cs_Error := e\<rparr>"]) (simp_all add: C Inl)
  next
    case (Inr batch3)
    show ?thesis
    proof (cases kvOk)
      case False
      have "ConfirmBlock parse l blk False kvOk =
          Some (cacheTxs txs (l2\<lparr>blockCache := fst (lru_Add (blockCache l2) (elems (ib_Blockid b)) (b\<lparr>ib_Transactions := txs\<rparr>))\<rparr>),
            b\<lparr>ib_Transactions := txs\<rparr>, st\<lparr>cs_Error := Some LErrKV\<rparr>)"
        unfolding C using False by (simp add: Inr)
      then show ?thesis by (rule that) (simp add: p(3) l2)
    next
      case True
      define l' where "l' = cacheTxs txs (l2\<lparr>ldb := ledgerWrite (batch3 @ [DelPending (ib_Blockid b), PutMeta m]) (ldb l), lmeta := m,
        blockCache := fst (lru_Add (blockCache l2) (elems (ib_Blockid b)) (b\<lparr>ib_Transactions := txs\<rparr>))\<rparr>)"
      have r: "ConfirmBlock parse l blk False kvOk = Some (l', b\<lparr>ib_Transactions := txs\<rparr>, st\<lparr>Succ := True\<rparr>)"
        unfolding C using True by (simp add: Inr l'_def)
      have f: "ldb l' = ledgerWrite (batch3 @ [DelPending (ib_Blockid b), PutMeta m]) (ldb l2)" "lmeta l' = m" "blkHeaderCache l' = blkHeaderCache l2"
        by (simp_all add: l'_def l2)
      note w = ready_written [OF wf(1) p(2) wf(3) bd s Inr [unfolded txs_def batch2_def, folded l2(1)] f]
      have ids: "ib_Blockid b = ib_Blockid blk" "ib_PreHash b = ib_PreHash blk" by (simp_all add: bd)
      have mm: "m = (if ib_InTrunk b then (lmeta l)\<lparr>TipBlockid := ib_Blockid blk, lm_TrunkHeight := lm_TrunkHeight (lmeta l) + 1\<rparr> else lmeta l)"
        using p(2) by (auto simp: ready_def Let_def ids split: if_splits)
      have "confirmed l pb blk l'"
        unfolding confirmed_def Let_def bd [symmetric] using w(1,2,4,5) mm f(2) by (simp add: ids)
      then have "if Succ (st\<lparr>Succ := True\<rparr>) then kvOk \<and> confirmed l pb blk l' else ldb l' = ldb l \<and> lmeta l' = lmeta l" using True by simp
      with r show ?thesis by (rule that)
    qed
  qed
qed

text \<open>A block whose parent is not stored is rejected, and nothing changes but the order of the cache.\<close>

lemma ConfirmBlock_orphan:
  assumes wf: "ledger_wf l" and pre: "blocksTable (ldb l) (elems (ib_PreHash blk)) = None"
  obtains c st where "ConfirmBlock parse l blk False kvOk = Some (l\<lparr>blkHeaderCache := c\<rparr>, blk\<lparr>ib_Transactions := []\<rparr>, st)"
    "\<not> Succ st" "ledger_wf (l\<lparr>blkHeaderCache := c\<rparr>)"
proof -
  obtain c where c: "fetchBlock l (ib_PreHash blk) = (l\<lparr>blkHeaderCache := c\<rparr>, None)" "coherent (l\<lparr>blkHeaderCache := c\<rparr>) (blocksTable (ldb l))"
    using fetchBlock_coherent [OF ledger_wfD(6) [OF wf], of "ib_PreHash blk"] pre by metis
  have w: "ledger_wf (l\<lparr>blkHeaderCache := c\<rparr>)" using wf c(2) by (simp add: ledger_wf_def Let_def coherent_def)
  have "ConfirmBlock parse l blk False kvOk = Some (l\<lparr>blkHeaderCache := c\<rparr>, blk\<lparr>ib_Transactions := []\<rparr>, noStatus)"
    by (simp add: ConfirmBlock_def placeNext_def c(1) Let_def)
  moreover have "\<not> Succ noStatus" by (simp add: noStatus_def)
  ultimately show ?thesis using w by (rule that)
qed


section \<open>The tips of the branches\<close>

lemma branches_known_confirmed:
  assumes bk: "branches_known (ldb l)" and wf: "ledger_wf l" and fb: "fresh_block l blk"
    and pre: "blocksTable (ldb l) (elems (ib_PreHash blk)) = Some pb" and c: "confirmed l pb blk l'"
  shows "branches_known (ldb l')"
proof -
  define d where "d = ldb l"
  define f where "f = ldb l'"
  define k where "k = elems (ib_Blockid blk)"
  define p where "p = elems (ib_PreHash blk)"
  define b where "b = blk\<lparr>ib_Transactions := [], ib_Height := ib_Height pb + 1, ib_InTrunk := ib_Height pb = lm_TrunkHeight (lmeta l)\<rparr>"
  have new: "blocksTable d k = None" using fb by (simp add: fresh_block_def ExistBlock_def d_def k_def)
  have cc: "blocksTable f k = Some b" "\<And>x. x \<noteq> k \<Longrightarrow> map_option core_block (blocksTable f x) = map_option core_block (blocksTable d x)"
      "branchTable f = AList.update k (ib_Height pb + 1) (AList.delete p (branchTable d))"
    using c unfolding confirmed_def Let_def b_def f_def d_def k_def p_def by auto
  have bh: "ib_Height b = ib_Height pb + 1" "ib_PreHash b = ib_PreHash blk" by (simp_all add: b_def)
  have pk: "p \<noteq> k" using pre new by (auto simp: p_def d_def)
  have old: "\<exists>y. blocksTable d x = Some y \<and> core_block y = core_block z" if "blocksTable f x = Some z" "x \<noteq> k" for x z
    using cc(2) [OF that(2)] that(1) by (cases "blocksTable d x") auto
  have keep: "\<exists>z. blocksTable f x = Some z \<and> core_block y = core_block z" if "blocksTable d x = Some y" for x y
  proof -
    have "x \<noteq> k" using that new by auto
    from cc(2) [OF this] that show ?thesis by (cases "blocksTable f x") auto
  qed
  have at: "map_of (branchTable f) x = (if x = k then Some (ib_Height pb + 1) else if x = p then None else map_of (branchTable d) x)" for x
    by (simp add: cc(3) AList.update_conv' AList.delete_conv')
  note bk = bk [unfolded branches_known_def, folded d_def]
  show ?thesis
    unfolding branches_known_def f_def [symmetric]
  proof (intro conjI allI impI)
    show "wf_table (branchTable f)" using bk by (simp add: cc(3) distinct_update distinct_delete)
  next
    fix x h assume x: "map_of (branchTable f) x = Some h"
    show "\<exists>b. blocksTable f x = Some b \<and> ib_Height b = h"
    proof (cases "x = k")
      case True
      then show ?thesis using x cc(1) by (simp add: at b_def)
    next
      case False
      then have "map_of (branchTable d) x = Some h" using x by (simp add: at split: if_splits)
      then obtain y where "blocksTable d x = Some y" "ib_Height y = h" using bk by blast
      then show ?thesis using keep core_block_fields(3) by metis
    qed
  next
    fix x z assume z: "blocksTable f x = Some z"
    show "map_of (branchTable f) x = Some (ib_Height z) \<or> (\<exists>k' b'. blocksTable f k' = Some b' \<and> elems (ib_PreHash b') = x \<and> ib_Height b' = ib_Height z + 1)"
    proof (cases "x = k \<or> x = p")
      case True
      show ?thesis
      proof (cases "x = k")
        case True
        then have "z = b" using z cc(1) by simp
        then show ?thesis using True bh by (simp add: at)
      next
        case False
        with True have xp: "x = p" by simp
        obtain y where "blocksTable d x = Some y" "core_block y = core_block z" using old [OF z False] by blast
        then have "ib_Height z = ib_Height pb" using pre core_block_fields(3) [of y z] by (simp add: xp p_def d_def)
        then show ?thesis using cc(1) xp by (intro disjI2 exI [of _ k] exI [of _ b]) (simp add: bh p_def)
      qed
    next
      case False
      then obtain y where y: "blocksTable d x = Some y" "core_block y = core_block z" using old [OF z] by blast
      then have h: "ib_Height z = ib_Height y" using core_block_fields(3) by metis
      from bk y(1) consider "map_of (branchTable d) x = Some (ib_Height y)"
        | k' b' where "blocksTable d k' = Some b'" "elems (ib_PreHash b') = x" "ib_Height b' = ib_Height y + 1" by blast
      then show ?thesis
      proof cases
        case 1
        then show ?thesis using False h by (simp add: at)
      next
        case 2
        then obtain z' where "blocksTable f k' = Some z'" "core_block b' = core_block z'" using keep by blast
        then show ?thesis using 2 h core_block_fields(2,3) [of b' z'] by metis
      qed
    qed
  qed
qed

section \<open>Opening\<close>

lemma loadGenesisBlock_fields:
  assumes "loadGenesisBlock parse e cfg l = Inr l'"
  obtains g where "l' = l\<lparr>lgenesis := g\<rparr>"
  using assms that unfolding loadGenesisBlock_def Let_def by (auto split: sum.splits option.splits)

lemma newLedger_reopen:
  assumes "metaTable d = Some m" "newLedger parse d bs ts cm cfg = Inr l"
  shows "ldb l = d" "lmeta l = m" "coherent l B"
  using assms unfolding newLedger_def Let_def by (auto elim!: loadGenesisBlock_fields simp: coherent_def hit_def)

lemma reopen_wf: "ledger_wf l \<Longrightarrow> ldb l1 = ldb l \<Longrightarrow> newLedger parse (ldb l1) bs ts cm cfg = Inr l' \<Longrightarrow> ledger_wf l' \<and> ldb l' = ldb l \<and> lmeta l' = lmeta l"
  using newLedger_reopen [of "ldb l" "lmeta l" parse bs ts cm cfg l'] ledger_wfD(1) [of l] by (simp add: ledger_wf_def Let_def)

definition noTables :: ledger_db where
  "noTables = \<lparr>blocksTable = Map.empty, confirmedTable = Map.empty, pendingTable = Map.empty, heightTable = Map.empty, branchTable = [], metaTable = None\<rparr>"

lemma newLedger_create:
  assumes "newLedger parse noTables bs ts True cfg = Inr l"
  shows "ldb l = noTables\<lparr>metaTable := Some \<lparr>RootBlockid = None, TipBlockid = None, lm_TrunkHeight = 0\<rparr>\<rparr>"
    "lmeta l = \<lparr>RootBlockid = None, TipBlockid = None, lm_TrunkHeight = 0\<rparr>" "coherent l B"
proof -
  have "metaTable noTables = None" by (simp add: noTables_def)
  with assms obtain g where "l = \<lparr>ldb = noTables\<lparr>metaTable := Some \<lparr>RootBlockid = None, TipBlockid = None, lm_TrunkHeight = 0\<rparr>\<rparr>,
      lmeta = \<lparr>RootBlockid = None, TipBlockid = None, lm_TrunkHeight = 0\<rparr>, lgenesis = g,
      blkHeaderCache = NewLRUCache (if bs \<noteq> 0 then bs else BlockCacheSize), blockCache = NewLRUCache (if bs \<noteq> 0 then bs else BlockCacheSize),
      txCache = NewLRUCache TxCacheSize\<rparr>"
    unfolding newLedger_def Let_def by (auto elim!: loadGenesisBlock_fields)
  then show "ldb l = noTables\<lparr>metaTable := Some \<lparr>RootBlockid = None, TipBlockid = None, lm_TrunkHeight = 0\<rparr>\<rparr>"
    "lmeta l = \<lparr>RootBlockid = None, TipBlockid = None, lm_TrunkHeight = 0\<rparr>" "coherent l B" by (simp_all add: coherent_def hit_def)
qed


section \<open>The first block\<close>

lemma ConfirmBlock_root:
  assumes new: "newLedger parse noTables bs ts True cfg = Inr l0" and fb: "fresh_block l0 blk"
    and r: "ConfirmBlock parse l0 blk True kvOk = Some (l, blk', st)" "Succ st"
  shows "ledger_wf l" "branches_known (ldb l)" "lm_TrunkHeight (lmeta l) = 0"
proof -
  define b where "b = blk\<lparr>ib_Transactions := [], ib_InTrunk := True, ib_Height := 0\<rparr>"
  define k where "k = elems (ib_Blockid blk)"
  define m where "m = \<lparr>RootBlockid = ib_Blockid blk, TipBlockid = ib_Blockid blk, lm_TrunkHeight = 0\<rparr>"
  define d where "d = ldb l0"
  note nl = newLedger_create [OF new]
  have bf: "ib_Blockid b = ib_Blockid blk" "ib_PreHash b = ib_PreHash blk" "ib_Height b = 0" "ib_InTrunk b" "ib_TxCount b = ib_TxCount blk"
    "ib_MerkleTree b = ib_MerkleTree blk" by (simp_all add: b_def)
  have root: "elems (ib_PreHash blk) = []"
  proof (rule ccontr)
    assume "elems (ib_PreHash blk) \<noteq> []"
    then have "ConfirmBlock parse l0 blk True kvOk = Some (l0, blk\<lparr>ib_Transactions := []\<rparr>, noStatus)" by (simp add: ConfirmBlock_def placeRoot_def Let_def)
    then have "st = noStatus" using r(1) by simp
    then show False using r(2) by (simp add: noStatus_def)
  qed
  then have pr: "placeRoot l0 (blk\<lparr>ib_Transactions := []\<rparr>) = Placed l0 [] m b 0 noStatus" by (simp add: placeRoot_def nl(2) m_def b_def)
  obtain l2 batch1 where s: "saveBlock b (l0, []) = (l2, batch1)" by fastforce
  note e = saveBlock_effect [OF nl(3) [of "blocksTable d"] s]
  have l2: "ldb l2 = d" using e(1) d_def by auto
  define txs where "txs = map (\<lambda>tx. tx\<lparr>tx_Blockid := ib_Blockid b\<rparr>) (ib_Transactions blk)"
  define batch2 where "batch2 = batch1 @ updateBranchInfo (ib_Blockid b) (ib_PreHash b) (ib_Height b)"
  note C = ConfirmBlock_def [of parse l0 blk True kvOk, unfolded Let_def pr, simplified, unfolded s, simplified, folded txs_def batch2_def, unfolded l2]
  obtain batch3 where b3: "confirmTxs d b 0 txs 0 batch2 = Inr batch3"
    using r unfolding C by (cases "confirmTxs d b 0 txs 0 batch2") (auto simp: noStatus_def)
  define l3 where "l3 = (if kvOk then l2\<lparr>ldb := ledgerWrite (batch3 @ [DelPending (ib_Blockid b), PutMeta m]) d, lmeta := m\<rparr> else l2)"
  obtain l4 where l4: "loadGenesisBlock parse False None l3 = Inr l4"
    using r unfolding C b3 by (cases "loadGenesisBlock parse False None l3") (auto simp: l3_def)
  then obtain g where g: "l4 = l3\<lparr>lgenesis := g\<rparr>" by (rule loadGenesisBlock_fields)
  have kv: kvOk using r l4 unfolding C b3 by (auto simp: l3_def noStatus_def split: if_splits)
  have ll: "l = cacheTxs txs (l4\<lparr>blockCache := fst (lru_Add (blockCache l4) (elems (ib_Blockid b)) (b\<lparr>ib_Transactions := txs\<rparr>))\<rparr>)"
    using r l4 kv unfolding C b3 by (auto simp: l3_def split: if_splits)
  define f where "f = ldb l"
  have lf: "f = ledgerWrite (batch3 @ [DelPending (ib_Blockid b), PutMeta m]) d" "lmeta l = m" "blkHeaderCache l = blkHeaderCache l2"
    unfolding f_def ll g l3_def using kv by simp_all
  have d: "d = noTables\<lparr>metaTable := Some \<lparr>RootBlockid = None, TipBlockid = None, lm_TrunkHeight = 0\<rparr>\<rparr>" using nl(1) by (simp add: d_def)
  define w where "w = ledgerWrite batch2 d"
  have w: "blocksTable w = [k \<mapsto> b]" "heightTable w = [0 \<mapsto> ib_Blockid blk]" "branchTable w = [(k, 0)]"
    unfolding w_def batch2_def ledgerWrite_simps(3) e(3) Let_def by (simp_all add: updateBranchInfo_def bf d noTables_def k_def)
  have sup: "confirmedTable (ledgerWrite batch2 d) x \<noteq> None" if "confirmedTable d x \<noteq> None" for x using that by (simp add: d noTables_def)
  from confirmTxs_effect [OF b3 sup] obtain C where Cc: "ledgerWrite batch3 d = w\<lparr>confirmedTable := C\<rparr>" "\<And>tx. tx \<in> set txs \<Longrightarrow> C (elems (Txid tx)) \<noteq> None"
    unfolding w_def by blast
  have f: "blocksTable f = [k \<mapsto> b]" "heightTable f = [0 \<mapsto> ib_Blockid blk]" "branchTable f = [(k, 0)]" "confirmedTable f = C" "metaTable f = Some m"
    by (simp_all add: lf(1) Cc w)
  have k: "k \<noteq> []" "0 \<le> ib_TxCount b" "ib_TxCount b \<le> int (length (ib_MerkleTree b))"
      "map elems (take (nat (ib_TxCount b)) (ib_MerkleTree b)) = map (elems \<circ> Txid) (ib_Transactions blk)"
    using fb by (simp_all add: fresh_block_def k_def bf)
  have body: "C (elems i) \<noteq> None" if "i \<in> set (take (nat (ib_TxCount b)) (ib_MerkleTree b))" for i
  proof -
    have "elems i \<in> set (map (elems \<circ> Txid) (ib_Transactions blk))" unfolding k(4) [symmetric] using that by simp
    then obtain tx where "tx \<in> set (ib_Transactions blk)" "elems i = elems (Txid tx)" by auto
    then show ?thesis using Cc(2) [of "tx\<lparr>tx_Blockid := ib_Blockid b\<rparr>"] by (simp add: txs_def)
  qed
  have "block_tree f k 0" by (simp add: block_tree_def f k(1) bf root k_def [symmetric])
  moreover have "trunk f 0" by (simp add: trunk_def trunk_but_def hid_def f bf k_def)
  moreover have "hid f 0 = Some k" by (simp add: hid_def f k_def)
  moreover have "bodies f" using k(2,3) body by (simp add: bodies_def f)
  moreover have "coherent l (blocksTable f)" using e(2) lf(3) by (simp add: coherent_def f d noTables_def bf k_def)
  ultimately show "ledger_wf l" unfolding ledger_wf_def Let_def f_def [symmetric] lf(2) by (simp add: m_def f k_def)
  show "branches_known (ldb l)" unfolding f_def [symmetric] by (simp add: branches_known_def f bf)
  show "lm_TrunkHeight (lmeta l) = 0" by (simp add: lf(2) m_def)
qed

section \<open>Runs\<close>

text \<open>
  What happens to a ledger: a new block is confirmed; a block without its parent is refused; a block is refused later on, or
  the store does not take the batch, and the node starts again; the node starts again; headers are read and a block is put aside.
\<close>

inductive trunk_step :: "(string \<Rightarrow> genesis_config option) \<Rightarrow> ledger \<Rightarrow> ledger \<Rightarrow> bool" for parse where
  confirm: "fresh_block l blk \<Longrightarrow> lm_TrunkHeight (lmeta l) < 2 ^ 63 - 1 \<Longrightarrow> ConfirmBlock parse l blk False kvOk = Some (l', blk', st) \<Longrightarrow> Succ st \<Longrightarrow>
    trunk_step parse l l'"
| orphan: "\<not> ExistBlock l (ib_PreHash blk) \<Longrightarrow> ConfirmBlock parse l blk False kvOk = Some (l', blk', st) \<Longrightarrow> trunk_step parse l l'"
| refuse: "fresh_block l blk \<Longrightarrow> lm_TrunkHeight (lmeta l) < 2 ^ 63 - 1 \<Longrightarrow> ConfirmBlock parse l blk False kvOk = Some (l1, blk', st) \<Longrightarrow> \<not> Succ st \<Longrightarrow>
    newLedger parse (ldb l1) bs ts False None = Inr l' \<Longrightarrow> trunk_step parse l l'"
| restart: "newLedger parse (ldb l) bs ts False None = Inr l' \<Longrightarrow> trunk_step parse l l'"
| header: "QueryHeaderByHeight l h = (l', res) \<Longrightarrow> trunk_step parse l l'"
| block: "QueryBlock l i = (l', res) \<Longrightarrow> trunk_step parse l l'"
| pending: "trunk_step parse l (SavePendingBlock l blk)"

inductive trunk_run :: "(string \<Rightarrow> genesis_config option) \<Rightarrow> ledger \<Rightarrow> bool" for parse where
  root: "newLedger parse noTables bs ts True cfg = Inr l0 \<Longrightarrow> fresh_block l0 blk \<Longrightarrow>
    ConfirmBlock parse l0 blk True kvOk = Some (l, blk', st) \<Longrightarrow> Succ st \<Longrightarrow> trunk_run parse l"
| step: "trunk_run parse l \<Longrightarrow> trunk_step parse l l' \<Longrightarrow> trunk_run parse l'"

lemma confirm_cases:
  assumes wf: "ledger_wf l" "lm_TrunkHeight (lmeta l) < 2 ^ 63 - 1" "fresh_block l blk" and r: "ConfirmBlock parse l blk False kvOk = Some (l', blk', st)"
  obtains (taken) pb where "Succ st" "blocksTable (ldb l) (elems (ib_PreHash blk)) = Some pb" "confirmed l pb blk l'"
  | (refused) "\<not> Succ st" "ldb l' = ldb l" "lmeta l' = lmeta l"
proof (cases "blocksTable (ldb l) (elems (ib_PreHash blk))")
  case None
  obtain c st0 where "ConfirmBlock parse l blk False kvOk = Some (l\<lparr>blkHeaderCache := c\<rparr>, blk\<lparr>ib_Transactions := []\<rparr>, st0)" "\<not> Succ st0"
    using ConfirmBlock_orphan [OF wf(1) None] by metis
  then show ?thesis using r by (intro refused) auto
next
  case (Some pb)
  obtain l1 b1 st1 where "ConfirmBlock parse l blk False kvOk = Some (l1, b1, st1)"
      and e: "if Succ st1 then kvOk \<and> confirmed l pb blk l1 else ldb l1 = ldb l \<and> lmeta l1 = lmeta l"
    by (rule ConfirmBlock_step [OF wf Some])
  then have "l1 = l'" "st1 = st" using r by simp_all
  then show ?thesis using e taken [OF _ Some] refused by (cases "Succ st") simp_all
qed

lemma QueryHeaderByHeight_wf:
  assumes "ledger_wf l" "QueryHeaderByHeight l h = (l', res)"
  shows "ledger_wf l'" "ldb l' = ldb l"
proof -
  have "ledger_wf l' \<and> ldb l' = ldb l"
  proof (cases "heightTable (ldb l) h")
    case None
    then show ?thesis using assms by (simp add: QueryHeaderByHeight_def)
  next
    case (Some i)
    obtain c where c: "fetchBlock l i = (l\<lparr>blkHeaderCache := c\<rparr>, blocksTable (ldb l) (elems i))" "coherent (l\<lparr>blkHeaderCache := c\<rparr>) (blocksTable (ldb l))"
      using fetchBlock_coherent [OF ledger_wfD(6) [OF assms(1)], of i] by metis
    have "l' = l\<lparr>blkHeaderCache := c\<rparr>" using assms(2) Some c(1) by (auto simp: QueryHeaderByHeight_def split: option.splits)
    then show ?thesis using assms(1) c(2) by (simp add: ledger_wf_def Let_def coherent_def)
  qed
  then show "ledger_wf l'" "ldb l' = ldb l" by simp_all
qed

lemma pendingTable_irrelevant:
  "hid (d\<lparr>pendingTable := P\<rparr>) = hid d" "block_tree (d\<lparr>pendingTable := P\<rparr>) = block_tree d" "bodies (d\<lparr>pendingTable := P\<rparr>) = bodies d"
  "branches_known (d\<lparr>pendingTable := P\<rparr>) = branches_known d"
  by (simp_all add: fun_eq_iff hid_def block_tree_def bodies_def branches_known_def)

lemma SavePendingBlock_wf: "ledger_wf (SavePendingBlock l blk) = ledger_wf l" "branches_known (ldb (SavePendingBlock l blk)) = branches_known (ldb l)"
  by (simp_all add: SavePendingBlock_def ledger_wf_def Let_def coherent_def trunk_def trunk_but_def pendingTable_irrelevant)

lemma trunk_step_keeps:
  assumes "trunk_step parse l l'" "ledger_wf l" "branches_known (ldb l)"
  shows "ledger_wf l' \<and> branches_known (ldb l')"
  using assms(1)
proof cases
  case (confirm blk kvOk blk' st)
  from assms(2) confirm(2,1,3) show ?thesis
  proof (cases rule: confirm_cases)
    case (taken pb)
    then show ?thesis using branches_known_confirmed [OF assms(3,2) confirm(1)] by (simp add: confirmed_def Let_def)
  next
    case refused
    then show ?thesis using confirm(4) by simp
  qed
next
  case (orphan blk kvOk blk' st)
  then have "blocksTable (ldb l) (elems (ib_PreHash blk)) = None" by (simp add: ExistBlock_def)
  then obtain c where "l' = l\<lparr>blkHeaderCache := c\<rparr>" "ledger_wf (l\<lparr>blkHeaderCache := c\<rparr>)"
    using ConfirmBlock_orphan [OF assms(2)] orphan(2) by (metis option.inject prod.inject)
  then show ?thesis using assms(3) by simp
next
  case (refuse blk kvOk l1 blk' st bs ts)
  from assms(2) refuse(2,1,3) show ?thesis
  proof (cases rule: confirm_cases)
    case (taken pb)
    then show ?thesis using refuse(4) by simp
  next
    case refused
    then show ?thesis using reopen_wf [OF assms(2) refused(2) refuse(5)] assms(3) by simp
  qed
next
  case (restart bs ts)
  then show ?thesis using reopen_wf [OF assms(2) refl] assms(3) by auto
next
  case (header h res)
  then show ?thesis using QueryHeaderByHeight_wf [OF assms(2)] assms(3) by simp
next
  case (block i res)
  then have "\<exists>c. l' = l\<lparr>blockCache := c\<rparr>" by (auto simp: QueryBlock_def split: prod.splits option.splits sum.splits)
  then show ?thesis using assms(2,3) by (auto simp: ledger_wf_def Let_def coherent_def)
next
  case (pending blk)
  then show ?thesis using assms(2,3) by (simp add: SavePendingBlock_wf)
qed

lemma trunk_run_wf: "trunk_run parse l \<Longrightarrow> ledger_wf l \<and> branches_known (ldb l)"
proof (induction rule: trunk_run.induct)
  case (root bs ts cfg l0 blk kvOk l blk' st)
  then show ?case using ConfirmBlock_root by metis
next
  case (step l l')
  then show ?case using trunk_step_keeps by metis
qed

end
