(* ===== verification/TxHash.thy ===== *)
theory TxHash
  imports Transaction
begin

text \<open>
  What a transaction's identifier and digest cover (\<^verbatim>\<open>state/txhash/encode.go\<close>). Version 3
  writes every field with its length in front, so that the written bytes determine the fields. The
  interface \<open>code\<close> is that of a self-delimiting encoding: what is read back from the front of a
  text is unique, up to a view that forgets what the encoding does not show.
\<close>

section \<open>The encoder\<close>

definition EncodeInt64 :: "int \<Rightarrow> string" where
  "EncodeInt64 x = map (\<lambda>k. char_of (nat (x div 256 ^ k mod 256))) [7, 6, 5, 4, 3, 2, 1, 0]"

definition EncodeString :: "string \<Rightarrow> string" where
  "EncodeString s = EncodeInt64 (int (length s)) @ s"

definition EncodeBytes :: "bytes \<Rightarrow> string" where
  "EncodeBytes b = EncodeInt64 (int (length (elems b))) @ elems b"

definition EncodeBool :: "bool \<Rightarrow> string" where
  "EncodeBool v = (if v then EncodeInt64 1 else EncodeInt64 0)"

text \<open>A length and then the elements, as \<open>HashTx\<close> writes its lists.\<close>

definition EncodeAll :: "('a \<Rightarrow> string) \<Rightarrow> 'a list \<Rightarrow> string" where
  "EncodeAll enc xs = EncodeInt64 (int (length xs)) @ concat (map enc xs)"

definition EncodeMap :: "(string \<times> bytes) list \<Rightarrow> string" where
  "EncodeMap m = EncodeAll (\<lambda>(key, v). EncodeString key @ EncodeBytes v) (sort_key fst m)"

definition encodeInput :: "tx_input \<Rightarrow> string" where
  "encodeInput input = EncodeBytes (RefTxid input) @ EncodeInt64 (RefOffset input) @ EncodeBytes (FromAddr input) @
     EncodeBytes (in_Amount input) @ EncodeInt64 (in_FrozenHeight input)"

definition encodeOutput :: "tx_output \<Rightarrow> string" where
  "encodeOutput output = EncodeBytes (out_Amount output) @ EncodeBytes (ToAddr output) @ EncodeInt64 (out_FrozenHeight output)"

definition encodeInputExt :: "tx_input_ext \<Rightarrow> string" where
  "encodeInputExt input = EncodeString (xin_Bucket input) @ EncodeBytes (xin_Key input) @ EncodeBytes (xin_RefTxid input) @
     EncodeInt64 (xin_RefOffset input)"

definition encodeOutputExt :: "tx_output_ext \<Rightarrow> string" where
  "encodeOutputExt output = EncodeString (xout_Bucket output) @ EncodeBytes (xout_Key output) @ EncodeBytes (xout_Value output)"

definition encodeRequest :: "invoke_request \<Rightarrow> string" where
  "encodeRequest req = EncodeString (ModuleName req) @ EncodeString (req_ContractName req) @ EncodeString (MethodName req) @
     EncodeMap (req_Args req) @ EncodeAll (\<lambda>(tp, limit). EncodeInt64 tp @ EncodeInt64 limit) (ResourceLimits req) @
     EncodeString (req_Amount req)"

definition encodeSig :: "signature_info \<Rightarrow> string" where
  "encodeSig s = EncodeString (PublicKey s) @ EncodeBytes (Sign s)"

definition GetPublicKeys :: "xuper_signature option \<Rightarrow> bytes list" where
  "GetPublicKeys x = (case x of None \<Rightarrow> [] | Some s \<Rightarrow> PublicKeys s)"

definition GetSignature :: "xuper_signature option \<Rightarrow> bytes" where
  "GetSignature x = (case x of None \<Rightarrow> None | Some s \<Rightarrow> Signature s)"

definition GetHdPublicKey :: "hd_info option \<Rightarrow> bytes" where
  "GetHdPublicKey x = (case x of None \<Rightarrow> None | Some h \<Rightarrow> HdPublicKey h)"

definition GetOriginalHash :: "hd_info option \<Rightarrow> bytes" where
  "GetOriginalHash x = (case x of None \<Rightarrow> None | Some h \<Rightarrow> OriginalHash h)"

text \<open>The bytes that \<open>HashTx\<close> writes to the hash.\<close>

definition encodeTx :: "transaction \<Rightarrow> bool \<Rightarrow> string" where
  "encodeTx tx includeSigns =
     EncodeAll encodeInput (TxInputs tx) @
     EncodeAll encodeOutput (TxOutputs tx) @
     EncodeBytes (Desc tx) @ EncodeBool (Coinbase tx) @ EncodeString (Nonce tx) @
     EncodeInt64 (Timestamp tx) @ EncodeInt64 (Version tx) @ EncodeBool (Autogen tx) @
     EncodeAll encodeInputExt (elems (TxInputsExt tx)) @
     EncodeAll encodeOutputExt (elems (TxOutputsExt tx)) @
     EncodeAll encodeRequest (elems (ContractRequests tx)) @
     EncodeString (tx_Initiator tx) @
     EncodeAll EncodeString (AuthRequire tx) @
     (if includeSigns then
        EncodeAll encodeSig (InitiatorSigns tx) @ EncodeAll encodeSig (AuthRequireSigns tx) @
        EncodeAll EncodeBytes (GetPublicKeys (XuperSign tx)) @ EncodeBytes (GetSignature (XuperSign tx))
      else []) @
     EncodeBytes (GetHdPublicKey (HDInfo tx)) @ EncodeBytes (GetOriginalHash (HDInfo tx))"

definition HashTx :: "(string \<Rightarrow> string) \<Rightarrow> transaction \<Rightarrow> bool \<Rightarrow> string" where
  "HashTx sha256 tx includeSigns = sha256 (sha256 (encodeTx tx includeSigns))"

section \<open>Self-delimiting encodings\<close>

locale code =
  fixes enc :: "'a \<Rightarrow> string" and view :: "'a \<Rightarrow> 'v" and ok :: "'a \<Rightarrow> bool"
  assumes cut: "ok x \<Longrightarrow> ok y \<Longrightarrow> enc x @ r = enc y @ s \<longleftrightarrow> view x = view y \<and> r = s"
begin

lemma enc_eq: "ok x \<Longrightarrow> ok y \<Longrightarrow> enc x = enc y \<longleftrightarrow> view x = view y"
  using cut [of x y "[]" "[]"] by simp

end

lemma digits_value:
  "foldl (\<lambda>acc c. acc * 256 + int (of_char c)) acc (map (\<lambda>k. char_of (nat (x div 256 ^ k mod 256))) (rev [0..<n])) =
     acc * 256 ^ n + x mod 256 ^ n"
proof (induction n arbitrary: acc)
  case (Suc n)
  have digit: "int (of_char (char_of (nat (y mod 256)) :: char)) = y mod 256" for y :: int
    by (simp add: nat_less_iff)
  have "x mod 256 ^ Suc n = 256 ^ n * (x div 256 ^ n mod 256) + x mod 256 ^ n"
    using zmod_zmult2_eq [of 256 x "256 ^ n"] by (simp add: mult.commute)
  then show ?case by (simp add: Suc.IH digit distrib_right)
qed simp

lemma EncodeInt64_value: "foldl (\<lambda>acc c. acc * 256 + int (of_char c)) 0 (EncodeInt64 x) = x mod 2 ^ 64"
proof -
  have "[7, 6, 5, 4, 3, 2, 1, 0] = rev [0..<8 :: nat]" by (simp add: upt_rec)
  then show ?thesis unfolding EncodeInt64_def using digits_value [of 0 x 8] by simp
qed

lemma length_EncodeInt64 [simp]: "length (EncodeInt64 x) = 8"
  by (simp add: EncodeInt64_def)

interpretation int_code: code EncodeInt64 id in_i64
proof
  fix x y r s
  assume ok: "in_i64 x" "in_i64 y"
  have "x = y" if "EncodeInt64 x = EncodeInt64 y"
  proof -
    have "x mod 2 ^ 64 = y mod 2 ^ 64" using that EncodeInt64_value by metis
    then have "i64 x = i64 y" unfolding i64_def by (metis mod_add_left_eq)
    then show "x = y" using ok by (simp add: i64_id)
  qed
  then show "EncodeInt64 x @ r = EncodeInt64 y @ s \<longleftrightarrow> id x = id y \<and> r = s" by auto
qed

lemma EncodeInt64_eq [simp]: "in_i64 x \<Longrightarrow> in_i64 y \<Longrightarrow> EncodeInt64 x = EncodeInt64 y \<longleftrightarrow> x = y"
  by (simp add: int_code.enc_eq)

definition small :: "'a list \<Rightarrow> bool" where
  "small xs \<longleftrightarrow> length xs < 2 ^ 63"

lemma small_i64 [simp]: "small xs \<Longrightarrow> in_i64 (int (length xs))"
  by (simp add: small_def in_i64_def)

interpretation string_code: code EncodeString id small
  by unfold_locales (auto simp: EncodeString_def int_code.cut)

interpretation bytes_code: code EncodeBytes elems "\<lambda>b. small (elems b)"
  by unfold_locales (auto simp: EncodeBytes_def int_code.cut)

interpretation bool_code: code EncodeBool id "\<lambda>v. True"
  by unfold_locales (auto simp: EncodeBool_def int_code.cut in_i64_def)

context code
begin

lemma cut_concat:
  assumes "length xs = length ys" "list_all ok xs" "list_all ok ys"
  shows "concat (map enc xs) @ r = concat (map enc ys) @ s \<longleftrightarrow> map view xs = map view ys \<and> r = s"
  using assms by (induction xs ys rule: list_induct2) (auto simp: cut)

lemma EncodeAll_code: "code (EncodeAll enc) (map view) (\<lambda>xs. small xs \<and> list_all ok xs)"
proof
  fix xs ys r s
  assume "small xs \<and> list_all ok xs" "small ys \<and> list_all ok ys"
  then show "EncodeAll enc xs @ r = EncodeAll enc ys @ s \<longleftrightarrow> map view xs = map view ys \<and> r = s"
    using cut_concat [of xs ys r s] map_eq_imp_length_eq [of view xs view ys]
    by (auto simp: EncodeAll_def int_code.cut)
qed

end


section \<open>Encodings of the parts\<close>

text \<open>A byte string without the difference between \<open>nil\<close> and empty.\<close>

definition bare :: "bytes \<Rightarrow> bytes" where
  "bare b = Some (elems b)"

definition fits :: "bytes \<Rightarrow> bool" where
  "fits b \<longleftrightarrow> small (elems b)"

definition bareInput :: "tx_input \<Rightarrow> tx_input" where
  "bareInput i = \<lparr>RefTxid = bare (RefTxid i), RefOffset = RefOffset i, FromAddr = bare (FromAddr i),
     in_Amount = bare (in_Amount i), in_FrozenHeight = in_FrozenHeight i\<rparr>"

definition input_fits :: "tx_input \<Rightarrow> bool" where
  "input_fits i \<longleftrightarrow> fits (RefTxid i) \<and> in_i64 (RefOffset i) \<and> fits (FromAddr i) \<and> fits (in_Amount i) \<and> in_i64 (in_FrozenHeight i)"

definition bareOutput :: "tx_output \<Rightarrow> tx_output" where
  "bareOutput x = \<lparr>out_Amount = bare (out_Amount x), ToAddr = bare (ToAddr x), out_FrozenHeight = out_FrozenHeight x\<rparr>"

definition output_fits :: "tx_output \<Rightarrow> bool" where
  "output_fits x \<longleftrightarrow> fits (out_Amount x) \<and> fits (ToAddr x) \<and> in_i64 (out_FrozenHeight x)"

definition bareInputExt :: "tx_input_ext \<Rightarrow> tx_input_ext" where
  "bareInputExt x = \<lparr>xin_Bucket = xin_Bucket x, xin_Key = bare (xin_Key x), xin_RefTxid = bare (xin_RefTxid x),
     xin_RefOffset = xin_RefOffset x\<rparr>"

definition input_ext_fits :: "tx_input_ext \<Rightarrow> bool" where
  "input_ext_fits x \<longleftrightarrow> small (xin_Bucket x) \<and> fits (xin_Key x) \<and> fits (xin_RefTxid x) \<and> in_i64 (xin_RefOffset x)"

definition bareOutputExt :: "tx_output_ext \<Rightarrow> tx_output_ext" where
  "bareOutputExt x = \<lparr>xout_Bucket = xout_Bucket x, xout_Key = bare (xout_Key x), xout_Value = bare (xout_Value x)\<rparr>"

definition output_ext_fits :: "tx_output_ext \<Rightarrow> bool" where
  "output_ext_fits x \<longleftrightarrow> small (xout_Bucket x) \<and> fits (xout_Key x) \<and> fits (xout_Value x)"

definition bareArgs :: "(string \<times> bytes) list \<Rightarrow> (string \<times> bytes) list" where
  "bareArgs m = map (apsnd bare) (sort_key fst m)"

definition args_fit :: "(string \<times> bytes) list \<Rightarrow> bool" where
  "args_fit m \<longleftrightarrow> small m \<and> list_all (\<lambda>(k, v). small k \<and> fits v) m"

definition bareRequest :: "invoke_request \<Rightarrow> invoke_request" where
  "bareRequest q = q\<lparr>req_Args := bareArgs (req_Args q)\<rparr>"

definition request_fits :: "invoke_request \<Rightarrow> bool" where
  "request_fits q \<longleftrightarrow> small (ModuleName q) \<and> small (req_ContractName q) \<and> small (MethodName q) \<and> args_fit (req_Args q) \<and>
     small (ResourceLimits q) \<and> list_all (\<lambda>(t, l). in_i64 t \<and> in_i64 l) (ResourceLimits q) \<and> small (req_Amount q)"

definition bareSig :: "signature_info \<Rightarrow> signature_info" where
  "bareSig x = \<lparr>PublicKey = PublicKey x, Sign = bare (Sign x)\<rparr>"

definition sig_fits :: "signature_info \<Rightarrow> bool" where
  "sig_fits x \<longleftrightarrow> small (PublicKey x) \<and> fits (Sign x)"

lemma bytes_cut: "fits a \<Longrightarrow> fits b \<Longrightarrow> EncodeBytes a @ r = EncodeBytes b @ s \<longleftrightarrow> bare a = bare b \<and> r = s"
  using bytes_code.cut [of a b r s] by (simp add: fits_def bare_def)

lemmas cuts = bytes_cut int_code.cut string_code.cut bool_code.cut

interpretation bare_code: code EncodeBytes bare fits
  by unfold_locales (rule bytes_cut)

interpretation input_code: code encodeInput bareInput input_fits
  by unfold_locales (auto simp: encodeInput_def bareInput_def input_fits_def cuts)

interpretation output_code: code encodeOutput bareOutput output_fits
  by unfold_locales (auto simp: encodeOutput_def bareOutput_def output_fits_def cuts)

interpretation input_ext_code: code encodeInputExt bareInputExt input_ext_fits
  by unfold_locales (auto simp: encodeInputExt_def bareInputExt_def input_ext_fits_def cuts)

interpretation output_ext_code: code encodeOutputExt bareOutputExt output_ext_fits
  by unfold_locales (auto simp: encodeOutputExt_def bareOutputExt_def output_ext_fits_def cuts)

interpretation sig_code: code encodeSig bareSig sig_fits
  by unfold_locales (auto simp: encodeSig_def bareSig_def sig_fits_def cuts)

interpretation entry_code: code "\<lambda>(key, v). EncodeString key @ EncodeBytes v" "apsnd bare" "\<lambda>(k, v). small k \<and> fits v"
  by unfold_locales (auto simp: cuts bare_code.enc_eq)

interpretation limit_code: code "\<lambda>(tp, limit). EncodeInt64 tp @ EncodeInt64 limit" id "\<lambda>(t, l). in_i64 t \<and> in_i64 l"
  by unfold_locales (auto simp: cuts)

interpretation entries: code "EncodeAll (\<lambda>(key, v). EncodeString key @ EncodeBytes v)" "map (apsnd bare)"
    "\<lambda>xs. small xs \<and> list_all (\<lambda>(k, v). small k \<and> fits v) xs"
  by (rule entry_code.EncodeAll_code)

interpretation limit_list: code "EncodeAll (\<lambda>(tp, limit). EncodeInt64 tp @ EncodeInt64 limit)" "map id"
    "\<lambda>xs. small xs \<and> list_all (\<lambda>(t, l). in_i64 t \<and> in_i64 l) xs"
  by (rule limit_code.EncodeAll_code)

interpretation map_code: code EncodeMap bareArgs args_fit
proof
  fix x y :: "(string \<times> bytes) list" and r s
  assume "args_fit x" "args_fit y"
  then show "EncodeMap x @ r = EncodeMap y @ s \<longleftrightarrow> bareArgs x = bareArgs y \<and> r = s"
    unfolding EncodeMap_def bareArgs_def
    by (intro entries.cut) (simp_all add: args_fit_def small_def list_all_iff)
qed

interpretation request_code: code encodeRequest bareRequest request_fits
proof
  fix x y r s
  assume "request_fits x" "request_fits y"
  then show "encodeRequest x @ r = encodeRequest y @ s \<longleftrightarrow> bareRequest x = bareRequest y \<and> r = s"
    by (cases x; cases y) (auto simp: encodeRequest_def bareRequest_def request_fits_def cuts map_code.cut limit_list.cut)
qed


interpretation inputs: code "EncodeAll encodeInput" "map bareInput" "\<lambda>xs. small xs \<and> list_all input_fits xs"
  by (rule input_code.EncodeAll_code)

interpretation outputs: code "EncodeAll encodeOutput" "map bareOutput" "\<lambda>xs. small xs \<and> list_all output_fits xs"
  by (rule output_code.EncodeAll_code)

interpretation inputs_ext: code "EncodeAll encodeInputExt" "map bareInputExt" "\<lambda>xs. small xs \<and> list_all input_ext_fits xs"
  by (rule input_ext_code.EncodeAll_code)

interpretation outputs_ext: code "EncodeAll encodeOutputExt" "map bareOutputExt" "\<lambda>xs. small xs \<and> list_all output_ext_fits xs"
  by (rule output_ext_code.EncodeAll_code)

interpretation requests: code "EncodeAll encodeRequest" "map bareRequest" "\<lambda>xs. small xs \<and> list_all request_fits xs"
  by (rule request_code.EncodeAll_code)

interpretation strings: code "EncodeAll EncodeString" "map id" "\<lambda>xs. small xs \<and> list_all small xs"
  by (rule string_code.EncodeAll_code)

interpretation sigs: code "EncodeAll encodeSig" "map bareSig" "\<lambda>xs. small xs \<and> list_all sig_fits xs"
  by (rule sig_code.EncodeAll_code)

interpretation keys: code "EncodeAll EncodeBytes" "map bare" "\<lambda>xs. small xs \<and> list_all fits xs"
  by (rule bare_code.EncodeAll_code)

section \<open>The content of a transaction\<close>

text \<open>
  What is left of a transaction when the identifier, the block, the time of arrival and the mark of
  a later modification are taken away, with the signatures or without.
\<close>

definition content :: "bool \<Rightarrow> transaction \<Rightarrow> transaction" where
  "content signs tx =
     \<lparr>Txid = None, tx_Blockid = None, TxInputs = map bareInput (TxInputs tx), TxOutputs = map bareOutput (TxOutputs tx),
      Desc = bare (Desc tx), Coinbase = Coinbase tx, Nonce = Nonce tx, Timestamp = Timestamp tx, Version = Version tx,
      Autogen = Autogen tx, TxInputsExt = Some (map bareInputExt (elems (TxInputsExt tx))),
      TxOutputsExt = Some (map bareOutputExt (elems (TxOutputsExt tx))),
      ContractRequests = Some (map bareRequest (elems (ContractRequests tx))), tx_Initiator = tx_Initiator tx,
      AuthRequire = AuthRequire tx, InitiatorSigns = (if signs then map bareSig (InitiatorSigns tx) else []),
      AuthRequireSigns = (if signs then map bareSig (AuthRequireSigns tx) else []), ReceivedTimestamp = 0,
      XuperSign = (if signs then Some \<lparr>PublicKeys = map bare (GetPublicKeys (XuperSign tx)), Signature = bare (GetSignature (XuperSign tx))\<rparr>
                   else None),
      ModifyBlock = None,
      HDInfo = Some \<lparr>HdPublicKey = bare (GetHdPublicKey (HDInfo tx)), OriginalHash = bare (GetOriginalHash (HDInfo tx))\<rparr>\<rparr>"

text \<open>Sizes and numbers within 64 bits, as in every transaction that fits in memory.\<close>

definition tx_fits :: "transaction \<Rightarrow> bool" where
  "tx_fits tx \<longleftrightarrow>
     small (TxInputs tx) \<and> list_all input_fits (TxInputs tx) \<and> small (TxOutputs tx) \<and> list_all output_fits (TxOutputs tx) \<and>
     fits (Desc tx) \<and> small (Nonce tx) \<and> in_i64 (Timestamp tx) \<and> in_i64 (Version tx) \<and>
     small (elems (TxInputsExt tx)) \<and> list_all input_ext_fits (elems (TxInputsExt tx)) \<and>
     small (elems (TxOutputsExt tx)) \<and> list_all output_ext_fits (elems (TxOutputsExt tx)) \<and>
     small (elems (ContractRequests tx)) \<and> list_all request_fits (elems (ContractRequests tx)) \<and>
     small (tx_Initiator tx) \<and> small (AuthRequire tx) \<and> list_all small (AuthRequire tx) \<and>
     small (InitiatorSigns tx) \<and> list_all sig_fits (InitiatorSigns tx) \<and>
     small (AuthRequireSigns tx) \<and> list_all sig_fits (AuthRequireSigns tx) \<and>
     small (GetPublicKeys (XuperSign tx)) \<and> list_all fits (GetPublicKeys (XuperSign tx)) \<and> fits (GetSignature (XuperSign tx)) \<and>
     fits (GetHdPublicKey (HDInfo tx)) \<and> fits (GetOriginalHash (HDInfo tx))"

lemma encodeTx_content:
  assumes "tx_fits tx" "tx_fits tx'"
  shows "encodeTx tx signs = encodeTx tx' signs \<longleftrightarrow> content signs tx = content signs tx'"
  using assms
  by (auto simp: tx_fits_def encodeTx_def content_def cuts inputs.cut outputs.cut inputs_ext.cut outputs_ext.cut requests.cut
      strings.cut sigs.cut keys.cut bare_code.enc_eq)



text \<open>A transaction, and the same one as another node stores it.\<close>

definition plain_tx :: transaction where
  "plain_tx = \<lparr>Txid = None, tx_Blockid = None,
     TxInputs = [\<lparr>RefTxid = Some ''t1'', RefOffset = 0, FromAddr = Some ''alice'', in_Amount = Some ''5'', in_FrozenHeight = 0\<rparr>],
     TxOutputs = [\<lparr>out_Amount = Some ''5'', ToAddr = Some ''bob'', out_FrozenHeight = 0\<rparr>],
     Desc = None, Coinbase = False, Nonce = ''n'', Timestamp = 7, Version = 3, Autogen = False,
     TxInputsExt = None, TxOutputsExt = None, ContractRequests = None, tx_Initiator = ''alice'',
     AuthRequire = [''alice''], InitiatorSigns = [\<lparr>PublicKey = ''pk'', Sign = Some ''s''\<rparr>],
     AuthRequireSigns = [\<lparr>PublicKey = ''pk'', Sign = Some ''s''\<rparr>], ReceivedTimestamp = 9, XuperSign = None,
     ModifyBlock = None, HDInfo = None\<rparr>"

lemma plain_tx_fits:
  "tx_fits plain_tx" "tx_fits (plain_tx\<lparr>Txid := Some ''id'', ReceivedTimestamp := 11, Desc := Some []\<rparr>)"
  by (simp_all add: tx_fits_def plain_tx_def small_def fits_def input_fits_def output_fits_def sig_fits_def in_i64_def
      GetPublicKeys_def GetSignature_def GetHdPublicKey_def GetOriginalHash_def)


section \<open>Identifier and digest\<close>

text \<open>
  Before version 3 the fields are written as JSON texts, one per line, and empty ones are left out.
  \<open>json\<close> is the text of one value.
\<close>

datatype json_value =
    JsonBytes string
  | JsonInt int
  | JsonString string
  | JsonBool bool
  | JsonOutputs "tx_output list"
  | JsonRequests "invoke_request slice"
  | JsonStrings "string list"
  | JsonSigs "signature_info list"
  | JsonXuperSign xuper_signature
  | JsonHDInfo "hd_info option"

definition unlessEmpty :: "bytes \<Rightarrow> json_value list" where
  "unlessEmpty b = (if length (elems b) > 0 then [JsonBytes (elems b)] else [])"

definition encodeTxInput :: "tx_input \<Rightarrow> json_value list" where
  "encodeTxInput i = unlessEmpty (RefTxid i) @ [JsonInt (RefOffset i)] @ unlessEmpty (FromAddr i) @
     unlessEmpty (in_Amount i) @ [JsonInt (in_FrozenHeight i)]"

definition encodeTxInputExt :: "tx_input_ext \<Rightarrow> json_value list" where
  "encodeTxInputExt i = [JsonString (xin_Bucket i)] @ unlessEmpty (xin_Key i) @ unlessEmpty (xin_RefTxid i) @ [JsonInt (xin_RefOffset i)]"

definition encodeTxOutputExt :: "tx_output_ext \<Rightarrow> json_value list" where
  "encodeTxOutputExt x = [JsonString (xout_Bucket x)] @ unlessEmpty (xout_Key x) @ unlessEmpty (xout_Value x)"

definition encodeTxData :: "transaction \<Rightarrow> bool \<Rightarrow> json_value list" where
  "encodeTxData tx includeSigns =
     concat (map encodeTxInput (TxInputs tx)) @ [JsonOutputs (TxOutputs tx)] @ unlessEmpty (Desc tx) @
     [JsonString (Nonce tx), JsonInt (Timestamp tx), JsonInt (Version tx)] @
     concat (map encodeTxInputExt (elems (TxInputsExt tx))) @ concat (map encodeTxOutputExt (elems (TxOutputsExt tx))) @
     [JsonRequests (ContractRequests tx), JsonString (tx_Initiator tx), JsonStrings (AuthRequire tx)] @
     (if includeSigns then
        [JsonSigs (InitiatorSigns tx), JsonSigs (AuthRequireSigns tx)] @
        (case XuperSign tx of None \<Rightarrow> [] | Some x \<Rightarrow> [JsonXuperSign x])
      else []) @
     [JsonBool (Coinbase tx), JsonBool (Autogen tx)] @
     (if Version tx \<ge> 2 then [JsonHDInfo (HDInfo tx)] else [])"

definition DoubleSha256 :: "(string \<Rightarrow> string) \<Rightarrow> string \<Rightarrow> string" where
  "DoubleSha256 sha256 text = sha256 (sha256 text)"

definition MakeTxID :: "(string \<Rightarrow> string) \<Rightarrow> (json_value \<Rightarrow> string) \<Rightarrow> transaction \<Rightarrow> string" where
  "MakeTxID sha256 json tx =
     (if Version tx \<ge> 3 then HashTx sha256 tx True
      else DoubleSha256 sha256 (concat (map json (encodeTxData tx True))))"

definition MakeTxDigestHash :: "(string \<Rightarrow> string) \<Rightarrow> (json_value \<Rightarrow> string) \<Rightarrow> transaction \<Rightarrow> string" where
  "MakeTxDigestHash sha256 json tx =
     (if Version tx \<ge> 3 then HashTx sha256 tx False
      else DoubleSha256 sha256 (concat (map json (encodeTxData tx False))))"

text \<open>
  Before version 3 the digest does not determine the content: a write of the value \<open>v\<close> under an
  empty key and a write of nothing under the key \<open>v\<close> have the same digest and identifier.
\<close>

lemma old_digest_ambiguous:
  assumes "Version tx < 3" "elems key = []" "elems nothing = []"
  shows "MakeTxID sha256 json (tx\<lparr>TxOutputsExt := Some [\<lparr>xout_Bucket = b, xout_Key = key, xout_Value = v\<rparr>]\<rparr>) =
         MakeTxID sha256 json (tx\<lparr>TxOutputsExt := Some [\<lparr>xout_Bucket = b, xout_Key = v, xout_Value = nothing\<rparr>]\<rparr>)"
  using assms by (simp add: MakeTxID_def encodeTxData_def encodeTxOutputExt_def unlessEmpty_def)

end
