(* ===== verification/Float64.thy ===== *)
theory Float64
  imports Prelude
begin

text \<open>
  The sums and comparisons of \<open>float64\<close> that the weights of permissions need. Every finite
  \<open>float64\<close> is a multiple of \<open>2 ^ -1074\<close>, and \<open>Fin n\<close> is the number \<open>n * 2 ^ -1074\<close>. A sum is
  rounded to 53 significant bits, to even in the middle, and becomes infinite from \<open>2 ^ 1024\<close> on.
  The sign of zero, which comparisons ignore, is left out.
\<close>

datatype f64 = Fin int | PosInf | NegInf | NaN

text \<open>The number of binary digits.\<close>

fun bitlen :: "int \<Rightarrow> nat" where
  "bitlen n = (if n \<le> 0 then 0 else Suc (bitlen (n div 2)))"

declare bitlen.simps [simp del]

definition round53 :: "int \<Rightarrow> int" where
  "round53 n =
     (let s = bitlen n - 53;
          q = n div 2 ^ s;
          r = n mod 2 ^ s
      in (if 2 * r > 2 ^ s \<or> 2 * r = 2 ^ s \<and> s > 0 \<and> odd q then q + 1 else q) * 2 ^ s)"

definition f64_one :: nat where "f64_one = 1074"
definition f64_top :: nat where "f64_top = 2098"

definition f64_round :: "int \<Rightarrow> f64" where
  "f64_round n =
     (let r = round53 \<bar>n\<bar>
      in if r \<ge> 2 ^ f64_top then (if n < 0 then NegInf else PosInf) else Fin (if n < 0 then - r else r))"

fun f64_add :: "f64 \<Rightarrow> f64 \<Rightarrow> f64" where
  "f64_add (Fin a) (Fin b) = f64_round (a + b)"
| "f64_add (Fin a) y = y"
| "f64_add PosInf (Fin b) = PosInf"
| "f64_add PosInf PosInf = PosInf"
| "f64_add NegInf (Fin b) = NegInf"
| "f64_add NegInf NegInf = NegInf"
| "f64_add _ _ = NaN"

fun f64_ge :: "f64 \<Rightarrow> f64 \<Rightarrow> bool" where
  "f64_ge (Fin a) (Fin b) \<longleftrightarrow> a \<ge> b"
| "f64_ge PosInf NaN \<longleftrightarrow> False"
| "f64_ge PosInf y \<longleftrightarrow> True"
| "f64_ge (Fin a) NegInf \<longleftrightarrow> True"
| "f64_ge NegInf NegInf \<longleftrightarrow> True"
| "f64_ge _ _ \<longleftrightarrow> False"

definition f64_of_int :: "int \<Rightarrow> f64" where
  "f64_of_int k = Fin (k * 2 ^ f64_one)"

section \<open>Small whole numbers\<close>

lemma bitlen_shift: "0 < k \<Longrightarrow> bitlen (k * 2 ^ c) = bitlen k + c"
proof (induction c)
  case (Suc c)
  then have "bitlen (k * 2 ^ Suc c) = Suc (bitlen (k * 2 ^ c))"
    by (subst bitlen.simps) (simp add: mult.left_commute mult_le_0_iff)
  with Suc show ?case by simp
qed simp

lemma bitlen_le: "k < 2 ^ b \<Longrightarrow> bitlen k \<le> b"
proof (induction b arbitrary: k)
  case (Suc b)
  then have "k div 2 < 2 ^ b" by simp
  then have "bitlen (k div 2) \<le> b" by (rule Suc.IH)
  then show ?case by (subst bitlen.simps) simp
qed (simp add: bitlen.simps)

lemma round53_exact:
  assumes "0 \<le> k" "k < 2 ^ 53"
  shows "round53 (k * 2 ^ c) = k * 2 ^ c"
proof (cases "k = 0")
  case False
  then have k: "0 < k" using assms by simp
  have "bitlen k \<le> 53" by (rule bitlen_le [OF assms(2)])
  then have "bitlen (k * 2 ^ c) - 53 \<le> c" using k by (simp add: bitlen_shift)
  then have "2 ^ (bitlen (k * 2 ^ c) - 53) dvd k * 2 ^ c" by (simp add: le_imp_power_dvd)
  then show ?thesis by (auto simp: round53_def Let_def dvd_div_mult_self)
qed (simp add: round53_def bitlen.simps)

lemma f64_add_of_int:
  assumes "\<bar>a + b\<bar> < 2 ^ 53"
  shows "f64_add (f64_of_int a) (f64_of_int b) = f64_of_int (a + b)"
proof -
  have sum_eq: "a * 2 ^ f64_one + b * 2 ^ f64_one = (a + b) * 2 ^ f64_one" by (simp add: distrib_right)
  have r: "round53 \<bar>(a + b) * 2 ^ f64_one\<bar> = \<bar>a + b\<bar> * 2 ^ f64_one"
    using round53_exact [of "\<bar>a + b\<bar>" f64_one] assms by (simp add: abs_mult)
  have "\<bar>a + b\<bar> * 2 ^ f64_one < 2 ^ 53 * (2 ^ f64_one :: int)"
    using assms by (intro mult_strict_right_mono) simp_all
  also have "\<dots> = 2 ^ (53 + f64_one)" by (rule power_add [symmetric])
  also have "\<dots> \<le> 2 ^ f64_top" by (intro power_increasing) (simp_all add: f64_one_def f64_top_def)
  finally have "\<not> 2 ^ f64_top \<le> \<bar>a + b\<bar> * 2 ^ f64_one" by simp
  moreover have "(if (a + b) * 2 ^ f64_one < 0 then - (\<bar>a + b\<bar> * 2 ^ f64_one) else \<bar>a + b\<bar> * 2 ^ f64_one) = (a + b) * 2 ^ f64_one"
  proof (cases "a + b < 0")
    case True
    then have "- (\<bar>a + b\<bar> * 2 ^ f64_one) = (a + b) * 2 ^ f64_one" by (simp only: abs_of_neg minus_mult_left minus_minus)
    with True show ?thesis by (simp only: mult_less_0_iff) simp
  qed (simp add: mult_less_0_iff)
  ultimately show ?thesis
    unfolding f64_of_int_def f64_add.simps sum_eq f64_round_def r Let_def by simp
qed

lemma f64_ge_of_int [simp]: "f64_ge (f64_of_int a) (f64_of_int b) \<longleftrightarrow> a \<ge> b"
  by (simp add: f64_of_int_def)

lemma f64_add_zero: "\<bar>a\<bar> < 2 ^ 53 \<Longrightarrow> f64_add (Fin 0) (f64_of_int a) = f64_of_int a"
  using f64_add_of_int [of 0 a] by (simp add: f64_of_int_def)

end
