(* ===== verification/Acl.thy ===== *)
theory Acl
  imports Float64 "HOL-Library.Char_ord"
begin

text \<open>
  Access control lists (\<^verbatim>\<open>permission/base\<close>, \<^verbatim>\<open>permission/rule\<close>, \<^verbatim>\<open>permission/utils.go\<close>).
  An account or a contract method has a list of members, keys or other accounts, that must sign
  for it: with weights and a threshold, or as sets of which one must sign completely. Signatures
  are presented as paths \<open>account/.../key\<close>; \<open>IdentifyAccount\<close> collects them in a tree and
  evaluates it from the leaves to the root.
\<close>

section \<open>Names\<close>

definition accountSize :: nat where "accountSize = 16"
definition accountPrefix :: string where "accountPrefix = ''XC''"
definition accountBcnameSep :: char where "accountBcnameSep = CHR ''@''"

text \<open>\<open>strings.Split\<close> with a separator of one byte.\<close>

fun Split :: "char \<Rightarrow> string \<Rightarrow> string list" where
  "Split c [] = [[]]"
| "Split c (x # xs) =
     (if x = c then [] # Split c xs
      else case Split c xs of [] \<Rightarrow> [[x]] | w # ws \<Rightarrow> (x # w) # ws)"

definition HasPrefix :: "string \<Rightarrow> string \<Rightarrow> bool" where
  "HasPrefix s p \<longleftrightarrow> take (length p) s = p"

definition ValidRawAccount :: "string \<Rightarrow> bool" where
  "ValidRawAccount accountName \<longleftrightarrow>
     accountName \<noteq> [] \<and> length accountName = accountSize \<and>
     (\<forall>c \<in> set accountName. CHR ''0'' \<le> c \<and> c \<le> CHR ''9'')"

definition IsAccount :: "string \<Rightarrow> int" where
  "IsAccount name =
     (if name = [] then - 1
      else if \<not> HasPrefix name accountPrefix then 0
      else if \<not> ValidRawAccount (drop (length accountPrefix) (hd (Split accountBcnameSep name))) then 0
      else 1)"

section \<open>Lists and trees\<close>

definition SIGN_THRESHOLD :: int where "SIGN_THRESHOLD = 1"
definition SIGN_AKSET :: int where "SIGN_AKSET = 2"

record permission_model =
  Rule :: int
  AcceptValue :: f64

text \<open>
  The status of a node, which validation writes, is kept apart from the tree: \<open>statuses\<close> is a store
  that is addressed by the position of the node, the list of child indices from the root.
  Pointers and maps may be \<open>nil\<close>, down to the sets of keys. A map is the list of its entries in
  the order in which Go iterates over it.
\<close>

record acl =
  Pm :: "permission_model option"
  AksWeight :: "(string \<times> f64) list option"
  AkSets :: "(string \<times> string list option) slice option"

datatype ValidateStatus = NotVerified | Success | Failed

datatype PermNode = PermNode (node_Name: string) (node_ACL: "acl option") (Children: "PermNode list")

type_synonym position = "nat list"
type_synonym statuses = "position \<Rightarrow> ValidateStatus"

definition NewPermNode :: "string \<Rightarrow> acl option \<Rightarrow> PermNode" where
  "NewPermNode akName a = PermNode akName a []"

datatype acl_error = ErrAclQuery | ErrInvalidName | ErrEmptyPm | ErrNotImplemented | ErrUnknownRule

text \<open>\<open>APanic\<close>: the code dereferences \<open>nil\<close>.\<close>

datatype 'a acl_res = AOk 'a | AErr acl_error | APanic

record AclManager =
  GetAccountACL :: "string \<Rightarrow> acl_error + acl option"
  GetContractMethodACL :: "string \<Rightarrow> string \<Rightarrow> acl_error + acl option"

section \<open>Building the tree\<close>

text \<open>
  The inner loop of \<open>buildPermTree\<close>: from a node it follows a path and adds the nodes that are
  missing. \<open>FindChild\<close> is the search in the list of children.
\<close>

fun addPath :: "AclManager \<Rightarrow> string list \<Rightarrow> PermNode \<Rightarrow> acl_error + PermNode"
  and addChild :: "AclManager \<Rightarrow> string \<Rightarrow> string list \<Rightarrow> PermNode list \<Rightarrow> acl_error + PermNode list" where
  "addPath m [] pnode = Inr pnode"
| "addPath m (akname # rest) (PermNode name a children) =
     (case addChild m akname rest children of
        Inl e \<Rightarrow> Inl e
      | Inr children' \<Rightarrow> Inr (PermNode name a children'))"
| "addChild m akname rest [] =
     (case GetAccountACL m akname of
        Inl e \<Rightarrow> Inl e
      | Inr accountACL \<Rightarrow>
          (case addPath m rest (NewPermNode akname accountACL) of
             Inl e \<Rightarrow> Inl e
           | Inr newNode \<Rightarrow> Inr [newNode]))"
| "addChild m akname rest (c # cs) =
     (if node_Name c = akname then
        (case addPath m rest c of Inl e \<Rightarrow> Inl e | Inr c' \<Rightarrow> Inr (c' # cs))
      else case addChild m akname rest cs of Inl e \<Rightarrow> Inl e | Inr cs' \<Rightarrow> Inr (c # cs'))"

fun buildPermTree :: "PermNode \<Rightarrow> AclManager \<Rightarrow> string list \<Rightarrow> bool \<Rightarrow> acl_error + PermNode" where
  "buildPermTree root m [] rootIsAccount = Inr root"
| "buildPermTree root m (akuri # aksuri) rootIsAccount =
     (let aklist = Split (CHR ''/'') akuri
      in if rootIsAccount \<and> (length aklist < 2 \<or> hd aklist \<noteq> node_Name root)
         then buildPermTree root m aksuri rootIsAccount
         else case addPath m (if rootIsAccount then tl aklist else aklist) root of
                Inl e \<Rightarrow> Inl e
              | Inr root' \<Rightarrow> buildPermTree root' m aksuri rootIsAccount)"

definition BuildAccountPermTree :: "AclManager \<Rightarrow> string \<Rightarrow> string list \<Rightarrow> acl_error + PermNode" where
  "BuildAccountPermTree m account aksuri =
     (case GetAccountACL m account of
        Inl e \<Rightarrow> Inl e
      | Inr accountACL \<Rightarrow> buildPermTree (NewPermNode account accountACL) m aksuri True)"

definition BuildMethodPermTree :: "AclManager \<Rightarrow> string \<Rightarrow> string \<Rightarrow> string list \<Rightarrow> acl_error + PermNode" where
  "BuildMethodPermTree m contractName methodName aksuri =
     (case GetContractMethodACL m contractName methodName of
        Inl e \<Rightarrow> Inl e
      | Inr methodACL \<Rightarrow> buildPermTree (NewPermNode methodName methodACL) m aksuri False)"

section \<open>Validating one node\<close>

definition findWeightInACL :: "string \<Rightarrow> acl option \<Rightarrow> f64" where
  "findWeightInACL name a =
     (case a of
        None \<Rightarrow> Fin 0
      | Some l \<Rightarrow>
          if Pm l = None \<or> elems (AksWeight l) = [] then Fin 0
          else case map_of (elems (AksWeight l)) name of None \<Rightarrow> Fin 0 | Some weight \<Rightarrow> weight)"

text \<open>The children with their statuses, as the validators read them.\<close>

type_synonym signed_aks = "(string \<times> ValidateStatus) list"

fun weightSum :: "acl option \<Rightarrow> f64 \<Rightarrow> signed_aks \<Rightarrow> f64" where
  "weightSum a acc [] = acc"
| "weightSum a acc ((name, s) # rest) =
     weightSum a (if s \<noteq> Success then acc else f64_add acc (findWeightInACL name a)) rest"

definition ThresholdValidate :: "acl option \<Rightarrow> signed_aks \<Rightarrow> bool acl_res" where
  "ThresholdValidate a children =
     (case Option.bind a Pm of
        None \<Rightarrow> APanic
      | Some pm \<Rightarrow> AOk (f64_ge (weightSum a (Fin 0) children) (AcceptValue pm)))"

definition validateAkSet :: "string list option \<Rightarrow> signed_aks \<Rightarrow> bool acl_res" where
  "validateAkSet akset signedAks =
     (case akset of
        None \<Rightarrow> APanic
      | Some aks \<Rightarrow> AOk (aks \<noteq> [] \<and> signedAks \<noteq> [] \<and> (\<forall>ak \<in> set aks. map_of signedAks ak = Some Success)))"

fun validateAkSets :: "(string \<times> string list option) list \<Rightarrow> signed_aks \<Rightarrow> bool acl_res" where
  "validateAkSets [] signedAks = AOk False"
| "validateAkSets ((k, akset) # rest) signedAks =
     (case validateAkSet akset signedAks of
        AOk isValid \<Rightarrow> if isValid then AOk True else validateAkSets rest signedAks
      | r \<Rightarrow> r)"

definition AKSetsValidate :: "acl option \<Rightarrow> signed_aks \<Rightarrow> bool acl_res" where
  "AKSetsValidate a children =
     (case a of
        None \<Rightarrow> AOk True
      | Some l \<Rightarrow>
          (case AkSets l of
             None \<Rightarrow> AOk False
           | Some sets \<Rightarrow> if elems sets = [] then AOk False else validateAkSets (elems sets) children))"

datatype ACLValidator = ThresholdValidator | AKSetsValidator

definition GetACLValidator :: "int \<Rightarrow> acl_error + ACLValidator" where
  "GetACLValidator pr =
     (if pr = SIGN_THRESHOLD then Inr ThresholdValidator
      else if pr = SIGN_AKSET then Inr AKSetsValidator
      else if pr = 3 \<or> pr = 4 \<or> pr = 5 \<or> pr = 6 then Inl ErrNotImplemented
      else Inl ErrUnknownRule)"

definition Validate :: "ACLValidator \<Rightarrow> acl option \<Rightarrow> signed_aks \<Rightarrow> bool acl_res" where
  "Validate v a children =
     (case v of ThresholdValidator \<Rightarrow> ThresholdValidate a children | AKSetsValidator \<Rightarrow> AKSetsValidate a children)"

text \<open>The body of the loop of \<open>validatePermTree\<close>; \<open>isMethod\<close> holds for the root of a method's tree.\<close>

definition checkNode :: "bool \<Rightarrow> string \<Rightarrow> acl option \<Rightarrow> signed_aks \<Rightarrow> bool acl_res" where
  "checkNode isMethod name a children =
     (if IsAccount name < 0 \<or> IsAccount name > 1 then AErr ErrInvalidName
      else let nameCheck = (if isMethod then 1 else IsAccount name)
           in if nameCheck = 0 then AOk True
              else case a of
                None \<Rightarrow> AOk True
              | Some l \<Rightarrow>
                  (case Pm l of
                     None \<Rightarrow> AErr ErrEmptyPm
                   | Some pm \<Rightarrow>
                       (case GetACLValidator (Rule pm) of
                          Inl e \<Rightarrow> AErr e
                        | Inr validator \<Rightarrow> Validate validator a children)))"

section \<open>Validating the tree\<close>

fun node_at :: "PermNode \<Rightarrow> position \<Rightarrow> PermNode" where
  "node_at n [] = n"
| "node_at n (i # p) = node_at (Children n ! i) p"

fun node_count :: "PermNode \<Rightarrow> nat" where
  "node_count (PermNode name a children) = Suc (sum_list (map node_count children))"

text \<open>\<open>GetPermTreeList\<close>: the list it grows while it walks along it is a queue of the nodes still to visit.\<close>

function visit :: "(position \<times> PermNode) list \<Rightarrow> position list" where
  "visit [] = []"
| "visit ((p, n) # queue) = p # visit (queue @ map (\<lambda>(i, c). (p @ [i], c)) (enumerate 0 (Children n)))"
  by pat_completeness auto

lemma sum_node_count: "(\<Sum>x\<leftarrow>enumerate k cs. node_count (snd x)) = sum_list (map node_count cs)"
  by (induction cs arbitrary: k) simp_all

termination visit
proof (relation "measure (\<lambda>q. \<Sum>(p, n)\<leftarrow>q. node_count n)")
  fix p n and queue :: "(position \<times> PermNode) list"
  show "(queue @ map (\<lambda>(i, c). (p @ [i], c)) (enumerate 0 (Children n)), (p, n) # queue)
      \<in> measure (\<lambda>q. \<Sum>(p, n)\<leftarrow>q. node_count n)"
    by (cases n) (simp add: o_def case_prod_unfold sum_node_count)
qed simp

definition GetPermTreeList :: "PermNode \<Rightarrow> position list" where
  "GetPermTreeList rootNode = visit [([], rootNode)]"

definition children_at :: "PermNode \<Rightarrow> statuses \<Rightarrow> position \<Rightarrow> signed_aks" where
  "children_at rootNode st p =
     map (\<lambda>(i, c). (node_Name c, st (p @ [i]))) (enumerate 0 (Children (node_at rootNode p)))"

fun validateNodes :: "PermNode \<Rightarrow> bool \<Rightarrow> position list \<Rightarrow> statuses \<Rightarrow> statuses acl_res" where
  "validateNodes rootNode isAccount [] st = AOk st"
| "validateNodes rootNode isAccount (p # ps) st =
     (case checkNode (p = [] \<and> \<not> isAccount) (node_Name (node_at rootNode p)) (node_ACL (node_at rootNode p))
             (children_at rootNode st p) of
        AOk checkResult \<Rightarrow> validateNodes rootNode isAccount ps (st(p := if checkResult then Success else Failed))
      | AErr e \<Rightarrow> AErr e
      | APanic \<Rightarrow> APanic)"

definition validatePermTree :: "PermNode \<Rightarrow> bool \<Rightarrow> bool acl_res" where
  "validatePermTree rootNode isAccount =
     (case validateNodes rootNode isAccount (rev (GetPermTreeList rootNode)) (\<lambda>p. NotVerified) of
        AOk st \<Rightarrow> AOk (st [] = Success)
      | AErr e \<Rightarrow> AErr e
      | APanic \<Rightarrow> APanic)"

definition IdentifyAccount :: "AclManager \<Rightarrow> string \<Rightarrow> string list \<Rightarrow> bool acl_res" where
  "IdentifyAccount aclMgr account aksuri =
     (case BuildAccountPermTree aclMgr account aksuri of
        Inl e \<Rightarrow> AErr e
      | Inr pnode \<Rightarrow> validatePermTree pnode True)"

definition CheckContractMethodPerm :: "AclManager \<Rightarrow> string list \<Rightarrow> string \<Rightarrow> string \<Rightarrow> bool acl_res" where
  "CheckContractMethodPerm aclMgr aksuri contractName methodName =
     (case BuildMethodPermTree aclMgr contractName methodName aksuri of
        Inl e \<Rightarrow> AErr e
      | Inr pnode \<Rightarrow> validatePermTree pnode False)"

end
