(* ===== verification/AclProofs.thy ===== *)
theory AclProofs
  imports Acl
begin

text \<open>
  What the evaluation of permissions decides. Walking the tree backwards in breadth-first order
  gives each node the verdict that the recursive evaluation from the leaves gives it; and if every
  key that occurs on a path has signed, a positive verdict means that enough members have signed.
  A key in the inside of a path counts as having signed, which is not so.
\<close>

section \<open>Evaluation from the leaves\<close>

definition is_ok :: "'a acl_res \<Rightarrow> bool" where
  "is_ok r \<longleftrightarrow> (\<exists>x. r = AOk x)"

definition status_of :: "bool acl_res \<Rightarrow> ValidateStatus" where
  "status_of r = (if r = AOk True then Success else Failed)"

fun verdict :: "bool \<Rightarrow> PermNode \<Rightarrow> bool acl_res" where
  "verdict isMethod (PermNode name a children) =
     checkNode isMethod name a (map (\<lambda>c. (node_Name c, status_of (verdict False c))) children)"

definition verdict_at :: "PermNode \<Rightarrow> bool \<Rightarrow> position \<Rightarrow> bool acl_res" where
  "verdict_at t isAccount p = verdict (p = [] \<and> \<not> isAccount) (node_at t p)"

lemma node_at_append [simp]: "node_at n (p @ q) = node_at (node_at n p) q"
  by (induction p arbitrary: n) simp_all

text \<open>Every node is listed before its children.\<close>

fun parents_first :: "PermNode \<Rightarrow> position list \<Rightarrow> bool" where
  "parents_first t [] \<longleftrightarrow> True"
| "parents_first t (p # ps) \<longleftrightarrow>
     (\<forall>i < length (Children (node_at t p)). p @ [i] \<in> set ps) \<and> parents_first t ps"

lemma visit_queue: "(p, n) \<in> set q \<Longrightarrow> p \<in> set (visit q)"
  by (induction q rule: visit.induct) auto

lemma visit_parents_first: "\<forall>(p, n) \<in> set q. n = node_at t p \<Longrightarrow> parents_first t (visit q)"
proof (induction q rule: visit.induct)
  case (2 p n q)
  let ?q = "q @ map (\<lambda>(i, c). (p @ [i], c)) (enumerate 0 (Children n))"
  have "\<forall>(p, n) \<in> set ?q. n = node_at t p" using 2(2) by (auto simp: in_set_enumerate_eq)
  then have "parents_first t (visit ?q)" by (rule 2(1))
  moreover have "p @ [i] \<in> set (visit ?q)" if "i < length (Children n)" for i
    using that by (intro visit_queue [of _ "Children n ! i"]) (force simp: in_set_enumerate_eq)
  ultimately show ?case using 2(2) by simp
qed simp

lemma visit_first: "q \<noteq> [] \<Longrightarrow> \<exists>ps. visit q = fst (hd q) # ps"
  by (cases q) auto

lemma validateNodes_append:
  "validateNodes t isAccount (ps @ qs) st =
     (case validateNodes t isAccount ps st of
        AOk st' \<Rightarrow> validateNodes t isAccount qs st'
      | AErr e \<Rightarrow> AErr e
      | APanic \<Rightarrow> APanic)"
  by (induction ps arbitrary: st) (simp_all split: acl_res.split)

lemma children_at_verdicts:
  assumes "\<forall>i < length (Children (node_at t p)). st (p @ [i]) = status_of (verdict_at t isAccount (p @ [i]))"
  shows "checkNode isMethod (node_Name (node_at t p)) (node_ACL (node_at t p)) (children_at t st p) =
     verdict isMethod (node_at t p)"
proof (cases "node_at t p")
  case (PermNode name a cs)
  then have "children_at t st p = map (\<lambda>c. (node_Name c, status_of (verdict False c))) cs"
    using assms by (auto simp: children_at_def verdict_at_def list_eq_iff_nth_eq nth_enumerate_eq)
  with PermNode show ?thesis by simp
qed

definition first_failure :: "bool acl_res list \<Rightarrow> bool acl_res option" where
  "first_failure rs = find (\<lambda>r. \<not> is_ok r) rs"

lemma first_failure_append [simp]:
  "first_failure (rs @ [r]) = (case first_failure rs of None \<Rightarrow> if is_ok r then None else Some r | Some e \<Rightarrow> Some e)"
  by (induction rs) (simp_all add: first_failure_def)

lemma validateNodes_verdicts:
  assumes "parents_first t ps"
  shows "case first_failure (map (verdict_at t isAccount) (rev ps)) of
      None \<Rightarrow> \<exists>st'. validateNodes t isAccount (rev ps) st = AOk st' \<and>
        (\<forall>p \<in> set ps. st' p = status_of (verdict_at t isAccount p))
    | Some (AErr e) \<Rightarrow> validateNodes t isAccount (rev ps) st = AErr e
    | Some APanic \<Rightarrow> validateNodes t isAccount (rev ps) st = APanic
    | Some (AOk b) \<Rightarrow> False"
  using assms
proof (induction ps)
  case Nil
  then show ?case by (simp add: first_failure_def)
next
  case (Cons p ps)
  note IH = Cons.IH [OF Cons.prems [simplified, THEN conjunct2]]
  show ?case
  proof (cases "first_failure (map (verdict_at t isAccount) (rev ps))")
    case None
    then obtain st' where run: "validateNodes t isAccount (rev ps) st = AOk st'"
      and st': "\<forall>p \<in> set ps. st' p = status_of (verdict_at t isAccount p)" using IH by auto
    have check: "checkNode (p = [] \<and> \<not> isAccount) (node_Name (node_at t p)) (node_ACL (node_at t p)) (children_at t st' p) =
        verdict_at t isAccount p"
      unfolding verdict_at_def using Cons.prems st' by (intro children_at_verdicts [where isAccount = isAccount]) auto
    show ?thesis
      using None run check st'
      by (cases "verdict_at t isAccount p") (auto simp: validateNodes_append is_ok_def status_of_def)
  next
    case (Some r)
    then show ?thesis using IH by (cases r) (auto simp: validateNodes_append)
  qed
qed

text \<open>
  Validation is evaluation from the leaves. Going backwards through the breadth-first list of
  the tree and writing the status of each node, \<open>validatePermTree\<close> returns the error of the last
  node in the list that has one, and otherwise the verdict that the recursive evaluation gives
  to the root.
\<close>

lemma validatePermTree_verdict:
  "validatePermTree t isAccount =
     (case first_failure (map (verdict_at t isAccount) (rev (GetPermTreeList t))) of
        Some failure \<Rightarrow> failure
      | None \<Rightarrow> verdict (\<not> isAccount) t)"
proof -
  have first: "parents_first t (GetPermTreeList t)"
    unfolding GetPermTreeList_def by (rule visit_parents_first) simp
  have root: "[] \<in> set (GetPermTreeList t)"
    unfolding GetPermTreeList_def by (rule visit_queue [of _ t]) simp
  show ?thesis
  proof (cases "first_failure (map (verdict_at t isAccount) (rev (GetPermTreeList t)))")
    case None
    then obtain st where run: "validateNodes t isAccount (rev (GetPermTreeList t)) (\<lambda>p. NotVerified) = AOk st"
      and st: "st [] = status_of (verdict_at t isAccount [])"
      using validateNodes_verdicts [OF first, of isAccount "\<lambda>p. NotVerified"] root by auto
    have "is_ok (verdict_at t isAccount [])"
      using None root unfolding first_failure_def find_None_iff by auto
    then show ?thesis
      using None run st by (auto simp: validatePermTree_def verdict_at_def is_ok_def status_of_def)
  next
    case (Some r)
    then show ?thesis
      using validateNodes_verdicts [OF first, of isAccount "\<lambda>p. NotVerified"]
      by (cases r) (simp_all add: validatePermTree_def)
  qed
qed


lemma find_SomeD: "find P xs = Some x \<Longrightarrow> P x"
  by (induction xs) (auto split: if_splits)

lemma validatePermTree_ok: "validatePermTree t isAccount = AOk b \<Longrightarrow> verdict (\<not> isAccount) t = AOk b"
  unfolding validatePermTree_verdict first_failure_def
  by (auto simp: is_ok_def dest!: find_SomeD split: option.splits)

section \<open>Who has signed\<close>

text \<open>
  The permission of an account, given the keys that have signed: a key must have signed itself;
  an account without list is open to everyone; with a threshold, distinct members that have
  permission must weigh enough; with sets of keys, one set must be complete.
\<close>

fun weigh :: "acl \<Rightarrow> f64 \<Rightarrow> string list \<Rightarrow> f64" where
  "weigh l acc [] = acc"
| "weigh l acc (name # names) = weigh l (f64_add acc (findWeightInACL name (Some l))) names"

definition enough :: "acl option \<Rightarrow> (string \<Rightarrow> bool) \<Rightarrow> bool" where
  "enough a permitted \<longleftrightarrow>
     (case a of
        None \<Rightarrow> True
      | Some l \<Rightarrow>
          (case Pm l of
             None \<Rightarrow> False
           | Some pm \<Rightarrow>
               Rule pm = SIGN_THRESHOLD \<and>
                 (\<exists>names. distinct names \<and> (\<forall>x \<in> set names. permitted x) \<and> f64_ge (weigh l (Fin 0) names) (AcceptValue pm)) \<or>
               Rule pm = SIGN_AKSET \<and>
                 (\<exists>sets k aks. AkSets l = Some sets \<and> (k, Some aks) \<in> set (elems sets) \<and> aks \<noteq> [] \<and> (\<forall>x \<in> set aks. permitted x))))"

lemma enough_threshold:
  assumes "Pm l = Some pm" "Rule pm = SIGN_THRESHOLD" "distinct names" "\<forall>x \<in> set names. P x"
    and "f64_ge (weigh l (Fin 0) names) (AcceptValue pm)"
  shows "enough (Some l) P"
  unfolding enough_def option.case assms(1) using assms(2-) by blast

lemma enough_akset:
  assumes "Pm l = Some pm" "Rule pm = SIGN_AKSET" "AkSets l = Some sets" "(k, Some aks) \<in> set (elems sets)"
    and "aks \<noteq> []" "\<forall>x \<in> set aks. P x"
  shows "enough (Some l) P"
  unfolding enough_def option.case assms(1) using assms(2-) by blast

lemma enough_mono [mono]: "P \<le> Q \<Longrightarrow> enough a P \<longrightarrow> enough a Q"
  by (fastforce simp: enough_def le_fun_def split: option.splits)

inductive permitted :: "AclManager \<Rightarrow> string set \<Rightarrow> string \<Rightarrow> bool" for m S where
  key: "IsAccount name = 0 \<Longrightarrow> name \<in> S \<Longrightarrow> permitted m S name"
| account: "IsAccount name = 1 \<Longrightarrow> GetAccountACL m name = Inr a \<Longrightarrow> enough a (permitted m S) \<Longrightarrow> permitted m S name"

text \<open>The trees that are built from paths on which every key has signed.\<close>

fun tree_ok :: "AclManager \<Rightarrow> string set \<Rightarrow> PermNode \<Rightarrow> bool" where
  "tree_ok m S (PermNode name a cs) \<longleftrightarrow>
     GetAccountACL m name = Inr a \<and> (IsAccount name = 0 \<longrightarrow> name \<in> S) \<and>
     distinct (map node_Name cs) \<and> (\<forall>c \<in> set cs. tree_ok m S c)"

definition forest_ok :: "AclManager \<Rightarrow> string set \<Rightarrow> PermNode list \<Rightarrow> bool" where
  "forest_ok m S cs \<longleftrightarrow> distinct (map node_Name cs) \<and> (\<forall>c \<in> set cs. tree_ok m S c)"

definition keys_signed :: "string set \<Rightarrow> string list \<Rightarrow> bool" where
  "keys_signed S names \<longleftrightarrow> (\<forall>name \<in> set names. IsAccount name = 0 \<longrightarrow> name \<in> S)"

lemma tree_ok_iff:
  "tree_ok m S n \<longleftrightarrow>
     GetAccountACL m (node_Name n) = Inr (node_ACL n) \<and> (IsAccount (node_Name n) = 0 \<longrightarrow> node_Name n \<in> S) \<and>
     forest_ok m S (Children n)"
  by (cases n) (auto simp: forest_ok_def)

lemma forest_ok_Cons:
  "forest_ok m S (c # cs) \<longleftrightarrow> tree_ok m S c \<and> node_Name c \<notin> set (map node_Name cs) \<and> forest_ok m S cs"
  by (auto simp: forest_ok_def)

lemma forest_ok_Nil [simp]: "forest_ok m S []"
  by (simp add: forest_ok_def)

lemma keys_signed_Cons [simp]:
  "keys_signed S (name # names) \<longleftrightarrow> (IsAccount name = 0 \<longrightarrow> name \<in> S) \<and> keys_signed S names"
  by (auto simp: keys_signed_def)

lemma addPath_keeps:
  "addPath m names n = Inr n' \<Longrightarrow> keys_signed S names \<Longrightarrow> forest_ok m S (Children n) \<Longrightarrow>
     forest_ok m S (Children n') \<and> node_Name n' = node_Name n \<and> node_ACL n' = node_ACL n"
  "addChild m name names cs = Inr cs' \<Longrightarrow> keys_signed S (name # names) \<Longrightarrow> forest_ok m S cs \<Longrightarrow>
     forest_ok m S cs' \<and> set (map node_Name cs') = insert name (set (map node_Name cs))"
proof (induction m names n and m name names cs arbitrary: n' and cs' rule: addPath_addChild.induct)
  case (3 m akname rest)
  then show ?case
    by (auto simp: forest_ok_Cons tree_ok_iff NewPermNode_def split: sum.splits)
next
  case (4 m akname rest c cs)
  show ?case
  proof (cases "node_Name c = akname")
    case True
    then obtain c' where c': "addPath m rest c = Inr c'" "cs' = c' # cs" using 4(3) by (auto split: sum.splits)
    then show ?thesis using 4(1) [OF True c'(1)] 4(4,5) True by (auto simp: forest_ok_Cons tree_ok_iff)
  next
    case False
    then obtain cs'' where cs'': "addChild m akname rest cs = Inr cs''" "cs' = c # cs''"
      using 4(3) by (auto split: sum.splits)
    then show ?thesis using 4(2) [OF False cs''(1)] 4(4,5) False by (auto simp: forest_ok_Cons)
  qed
qed (auto split: sum.splits)

lemma buildPermTree_keeps:
  "buildPermTree t m uris isAccount = Inr t' \<Longrightarrow> \<forall>uri \<in> set uris. keys_signed S (Split (CHR ''/'') uri) \<Longrightarrow>
     forest_ok m S (Children t) \<Longrightarrow>
     forest_ok m S (Children t') \<and> node_Name t' = node_Name t \<and> node_ACL t' = node_ACL t"
proof (induction t m uris isAccount rule: buildPermTree.induct)
  case (2 t m uri uris isAccount)
  let ?path = "Split (CHR ''/'') uri"
  show ?case
  proof (cases "isAccount \<and> (length ?path < 2 \<or> hd ?path \<noteq> node_Name t)")
    case True
    then show ?thesis using 2 by (simp add: Let_def)
  next
    case False
    then obtain t1 where t1: "addPath m (if isAccount then tl ?path else ?path) t = Inr t1"
      and rest: "buildPermTree t1 m uris isAccount = Inr t'"
      using 2(3) by (auto simp: Let_def split: sum.splits)
    have "keys_signed S (if isAccount then tl ?path else ?path)"
      using 2(4) by (cases ?path) auto
    from addPath_keeps(1) [OF t1 this 2(5)] 2(2) [OF refl False t1 rest] 2(4) show ?thesis by simp
  qed
qed simp


lemma weightSum_weigh:
  "weightSum (Some l) acc xs = weigh l acc (map fst (filter (\<lambda>x. snd x = Success) xs))"
  by (induction xs arbitrary: acc) auto

lemma validateAkSets_true:
  "validateAkSets sets xs = AOk True \<Longrightarrow>
     \<exists>k aks. (k, Some aks) \<in> set sets \<and> aks \<noteq> [] \<and> (\<forall>x \<in> set aks. map_of xs x = Some Success)"
proof (induction sets)
  case (Cons e sets)
  obtain k akset where e: "e = (k, akset)" by force
  obtain aks where aks: "akset = Some aks" using Cons.prems e by (cases akset) (simp_all add: validateAkSet_def)
  show ?case
  proof (cases "validateAkSet akset xs = AOk True")
    case True
    then have "aks \<noteq> [] \<and> (\<forall>x \<in> set aks. map_of xs x = Some Success)" using aks by (simp add: validateAkSet_def)
    then show ?thesis using e aks by auto
  next
    case False
    then have "validateAkSets sets xs = AOk True" using Cons.prems e aks by (simp add: validateAkSet_def split: if_splits)
    from Cons.IH [OF this] show ?thesis by auto
  qed
qed simp

lemma checkNode_enough:
  assumes "checkNode isMethod name a xs = AOk True" "isMethod \<or> IsAccount name \<noteq> 0"
    and "distinct (map fst xs)" "\<forall>(n, s) \<in> set xs. s = Success \<longrightarrow> P n"
  shows "enough a P"
proof (cases a)
  case (Some l)
  then obtain pm v where pm: "Pm l = Some pm" "GetACLValidator (Rule pm) = Inr v" "Validate v a xs = AOk True"
    using assms(1,2) by (auto simp: checkNode_def Let_def split: if_splits option.splits sum.splits)
  show ?thesis
  proof (cases v)
    case ThresholdValidator
    let ?names = "map fst (filter (\<lambda>x. snd x = Success) xs)"
    have "Rule pm = SIGN_THRESHOLD" using pm(2) ThresholdValidator by (auto simp: GetACLValidator_def split: if_splits)
    moreover have "f64_ge (weigh l (Fin 0) ?names) (AcceptValue pm)"
      using pm Some ThresholdValidator by (simp add: Validate_def ThresholdValidate_def weightSum_weigh)
    moreover have "distinct ?names" "\<forall>x \<in> set ?names. P x"
      using assms(3,4) by (auto simp: distinct_map_filter)
    ultimately show ?thesis unfolding Some using enough_threshold [OF pm(1)] by blast
  next
    case AKSetsValidator
    have "Rule pm = SIGN_AKSET" using pm(2) AKSetsValidator by (auto simp: GetACLValidator_def split: if_splits)
    moreover obtain sets k aks where "AkSets l = Some sets" "(k, Some aks) \<in> set (elems sets)" "aks \<noteq> []"
        "\<forall>x \<in> set aks. map_of xs x = Some Success"
      using pm(3) Some AKSetsValidator validateAkSets_true
      by (fastforce simp: Validate_def AKSetsValidate_def split: option.splits if_splits)
    moreover from this(4) have "\<forall>x \<in> set aks. P x" using assms(4) by (fastforce dest: map_of_SomeD)
    ultimately show ?thesis unfolding Some using enough_akset [OF pm(1)] by blast
  qed
qed (simp add: enough_def)

lemma IsAccount_cases: "IsAccount name = - 1 \<or> IsAccount name = 0 \<or> IsAccount name = 1"
  by (simp add: IsAccount_def)

lemma children_permitted:
  assumes "forest_ok m S cs" "\<forall>c \<in> set cs. verdict False c = AOk True \<longrightarrow> P (node_Name c)"
  defines "xs \<equiv> map (\<lambda>c. (node_Name c, status_of (verdict False c))) cs"
  shows "distinct (map fst xs)" "\<forall>(n, s) \<in> set xs. s = Success \<longrightarrow> P n"
  using assms by (auto simp: forest_ok_def xs_def o_def status_of_def split: if_splits)

lemma verdict_permitted: "verdict False n = AOk True \<Longrightarrow> tree_ok m S n \<Longrightarrow> permitted m S (node_Name n)"
proof (induction n)
  case (PermNode name a cs)
  then have ok: "forest_ok m S cs" "GetAccountACL m name = Inr a" "IsAccount name = 0 \<longrightarrow> name \<in> S"
    by (simp_all add: forest_ok_def)
  consider "IsAccount name = 0" | "IsAccount name = 1" | "IsAccount name = - 1" using IsAccount_cases by blast
  then show ?case
  proof cases
    case 1
    then show ?thesis using ok by (simp add: permitted.key)
  next
    case 2
    have "\<forall>c \<in> set cs. verdict False c = AOk True \<longrightarrow> permitted m S (node_Name c)"
      using PermNode ok by (auto simp: forest_ok_def)
    from children_permitted [OF ok(1) this] 2 PermNode.prems(1) have "enough a (permitted m S)"
      by (intro checkNode_enough [of False name]) (simp_all only: verdict.simps, simp_all)
    with 2 ok show ?thesis by (auto intro: permitted.account)
  next
    case 3
    then show ?thesis using PermNode.prems(1) by (simp add: checkNode_def)
  qed
qed


lemma IdentifyAccount_permitted:
  assumes "\<forall>uri \<in> set uris. keys_signed S (Split (CHR ''/'') uri)"
    and "IsAccount account = 1" "IdentifyAccount m account uris = AOk True"
  shows "permitted m S account"
proof -
  obtain a t where a: "GetAccountACL m account = Inr a"
    and t: "buildPermTree (NewPermNode account a) m uris True = Inr t" "validatePermTree t True = AOk True"
    using assms(3) by (auto simp: IdentifyAccount_def BuildAccountPermTree_def split: sum.splits)
  note keeps = buildPermTree_keeps [OF t(1) assms(1)]
  have "tree_ok m S t" using keeps a assms(2) by (simp add: tree_ok_iff NewPermNode_def)
  moreover have "node_Name t = account" using keeps by (simp add: NewPermNode_def)
  ultimately show ?thesis
    using verdict_permitted [of t m S] validatePermTree_ok [OF t(2)] by simp
qed

lemma CheckContractMethodPerm_enough:
  assumes "\<forall>uri \<in> set uris. keys_signed S (Split (CHR ''/'') uri)" "CheckContractMethodPerm m uris contract f = AOk True"
  shows "\<exists>a. GetContractMethodACL m contract f = Inr a \<and> enough a (permitted m S)"
proof -
  obtain a t where a: "GetContractMethodACL m contract f = Inr a"
    and t: "buildPermTree (NewPermNode f a) m uris False = Inr t" "validatePermTree t False = AOk True"
    using assms(2) by (auto simp: CheckContractMethodPerm_def BuildMethodPermTree_def split: sum.splits)
  have keeps: "forest_ok m S (Children t)" "node_ACL t = a"
    using buildPermTree_keeps [OF t(1) assms(1)] by (simp_all add: NewPermNode_def)
  have "\<forall>c \<in> set (Children t). verdict False c = AOk True \<longrightarrow> permitted m S (node_Name c)"
    using keeps by (auto simp: forest_ok_def intro: verdict_permitted)
  note children = children_permitted [OF keeps(1) this]
  have "checkNode True (node_Name t) a (map (\<lambda>c. (node_Name c, status_of (verdict False c))) (Children t)) = AOk True"
    using validatePermTree_ok [OF t(2)] keeps(2) by (cases t) simp
  then have "enough a (permitted m S)" by (rule checkNode_enough) (use children in simp_all)
  with a show ?thesis by blast
qed

text \<open>C8. A positive verdict is earned by signatures. Let every key that is named on a path be
  among the keys \<open>S\<close> that have signed. If \<open>IdentifyAccount\<close> accepts the paths for an account,
  the account is permitted by \<open>S\<close>: distinct permitted members reach its threshold, or one of its
  sets consists of permitted members, and so on down to keys of \<open>S\<close>, where an account without a
  list is open. If \<open>CheckContractMethodPerm\<close> accepts them for a method, the list of the method is
  satisfied in the same sense.\<close>

theorem identify_sound:
  assumes "\<forall>uri \<in> set uris. \<forall>name \<in> set (Split (CHR ''/'') uri). IsAccount name = 0 \<longrightarrow> name \<in> S"
  shows "(IsAccount account = 1 \<and> IdentifyAccount m account uris = AOk True \<longrightarrow> permitted m S account) \<and>
     (CheckContractMethodPerm m uris contract f = AOk True \<longrightarrow>
        (\<exists>a. GetContractMethodACL m contract f = Inr a \<and> enough a (permitted m S)))"
  using assms IdentifyAccount_permitted CheckContractMethodPerm_enough by (metis keys_signed_def)

section \<open>Keys inside a path\<close>

lemma Split_one: "c \<notin> set a \<Longrightarrow> Split c a = [a]"
  by (induction a) auto

lemma Split_append: "c \<notin> set a \<Longrightarrow> Split c (a @ c # s) = a # Split c s"
  by (induction a) auto

fun subnodes :: "PermNode \<Rightarrow> PermNode set" where
  "subnodes (PermNode name a cs) = insert (PermNode name a cs) (\<Union>c \<in> set cs. subnodes c)"

lemma subnodes_self: "n \<in> subnodes n"
  by (cases n) simp

lemma subnodes_child: "c \<in> set (Children n) \<Longrightarrow> subnodes c \<subseteq> subnodes n"
  by (cases n) auto

lemma visit_subnodes:
  "p \<in> set (visit q) \<Longrightarrow> \<forall>(p, n) \<in> set q. n = node_at t p \<and> n \<in> subnodes t \<Longrightarrow> node_at t p \<in> subnodes t"
proof (induction q rule: visit.induct)
  case (2 p' n q)
  let ?q = "q @ map (\<lambda>(i, c). (p' @ [i], c)) (enumerate 0 (Children n))"
  have sub: "\<forall>c \<in> set (Children n). c \<in> subnodes t" if "n \<in> subnodes t"
    using that by (induction t) (use subnodes_self subnodes_child in fastforce)
  have "\<forall>(p, n) \<in> set ?q. n = node_at t p \<and> n \<in> subnodes t"
    using 2(3) sub by (auto simp: in_set_enumerate_eq)
  then show ?case using 2(1,2,3) by auto
qed simp

lemma validate_all_ok:
  assumes "\<forall>n \<in> subnodes t. is_ok (verdict False n)"
  shows "validatePermTree t True = verdict False t"
proof -
  have "is_ok (verdict_at t True p)" if "p \<in> set (GetPermTreeList t)" for p
    using visit_subnodes [of p "[([], t)]" t] that assms subnodes_self [of t]
    by (simp add: GetPermTreeList_def verdict_at_def)
  then have "first_failure (map (verdict_at t True) (rev (GetPermTreeList t))) = None"
    by (auto simp: first_failure_def find_None_iff)
  then show ?thesis by (simp add: validatePermTree_verdict)
qed


text \<open>The path that claims a signature of \<open>k\<close> for the account, and is signed by \<open>signer\<close>.\<close>

definition claim_path :: "string \<Rightarrow> string \<Rightarrow> string \<Rightarrow> string" where
  "claim_path account signer k = account @ ''/'' @ k @ ''/'' @ signer"

definition no_slash :: "string \<Rightarrow> bool" where
  "no_slash s \<longleftrightarrow> CHR ''/'' \<notin> set s"

lemma Split_claim_path:
  "no_slash account \<Longrightarrow> no_slash k \<Longrightarrow> no_slash signer \<Longrightarrow>
     Split (CHR ''/'') (claim_path account signer k) = [account, k, signer]"
  by (simp add: claim_path_def no_slash_def Split_append Split_one)

text \<open>The tree of such paths.\<close>

definition claimed :: "(string \<Rightarrow> acl option) \<Rightarrow> string \<Rightarrow> string \<Rightarrow> PermNode" where
  "claimed acls signer k = PermNode k (acls k) [PermNode signer (acls signer) []]"

lemma addChild_new:
  assumes "k \<notin> node_Name ` set cs" "GetAccountACL m k = Inr (acls k)" "GetAccountACL m signer = Inr (acls signer)"
  shows "addChild m k [signer] cs = Inr (cs @ [claimed acls signer k])"
  using assms(1)
proof (induction cs)
  case (Cons c cs)
  then show ?case by auto
qed (simp add: assms claimed_def NewPermNode_def)

lemma build_claimed:
  assumes "no_slash account" "no_slash signer" "GetAccountACL m signer = Inr (acls signer)"
  shows "\<forall>k \<in> set ks. no_slash k \<and> GetAccountACL m k = Inr (acls k) \<Longrightarrow> distinct ks \<Longrightarrow>
     node_Name ` set cs \<inter> set ks = {} \<Longrightarrow>
     buildPermTree (PermNode account a cs) m (map (claim_path account signer) ks) True =
       Inr (PermNode account a (cs @ map (claimed acls signer) ks))"
proof (induction ks arbitrary: cs)
  case (Cons k ks)
  have "addChild m k [signer] cs = Inr (cs @ [claimed acls signer k])"
    using Cons.prems assms(3) by (intro addChild_new) auto
  moreover have "buildPermTree (PermNode account a (cs @ [claimed acls signer k])) m (map (claim_path account signer) ks) True =
      Inr (PermNode account a ((cs @ [claimed acls signer k]) @ map (claimed acls signer) ks))"
    using Cons.prems by (intro Cons.IH) (auto simp: claimed_def)
  ultimately show ?case
    using Cons.prems(1) assms by (simp add: Split_claim_path Let_def)
qed simp

lemma weightSum_all: "weightSum (Some l) acc (map (\<lambda>k. (k, Success)) ks) = weigh l acc ks"
  by (induction ks arbitrary: acc) simp_all

text \<open>C26. A key inside a path counts as if it had signed. Whoever signs with any key of their own
  is accepted for any account with a threshold whose members include keys that weigh enough: it is
  enough to put the name of each such key between the account and one's own key.\<close>

theorem inner_key_bypass:
  assumes "IsAccount account = 1" "no_slash account" "GetAccountACL m account = Inr (Some l)"
    and "Pm l = Some pm" "Rule pm = SIGN_THRESHOLD"
    and "distinct ks" "f64_ge (weigh l (Fin 0) ks) (AcceptValue pm)"
    and "\<forall>k \<in> set (signer # ks). IsAccount k = 0 \<and> no_slash k \<and> (\<exists>a. GetAccountACL m k = Inr a)"
  shows "IdentifyAccount m account (map (claim_path account signer) ks) = AOk True"
proof -
  define acls where "acls k = projr (GetAccountACL m k)" for k
  have acls: "GetAccountACL m k = Inr (acls k)" if "k \<in> set (signer # ks)" for k
    using assms(8) that by (fastforce simp: acls_def)
  let ?t = "PermNode account (Some l) (map (claimed acls signer) ks)"
  have build: "BuildAccountPermTree m account (map (claim_path account signer) ks) = Inr ?t"
    using build_claimed [of account signer m acls ks "[]" "Some l"] acls assms
    by (auto simp: BuildAccountPermTree_def NewPermNode_def)
  have leaf: "verdict False (PermNode k a cs) = AOk True" if "k \<in> set (signer # ks)" for k a cs
    using assms(8) that by (auto simp: checkNode_def)
  have "map (\<lambda>c. (node_Name c, status_of (verdict False c))) (map (claimed acls signer) ks) = map (\<lambda>k. (k, Success)) ks"
    using leaf by (auto simp: claimed_def status_of_def simp del: verdict.simps)
  then have top: "verdict False ?t = AOk True"
    using assms(1,4,5,7)
    by (simp add: checkNode_def GetACLValidator_def Validate_def ThresholdValidate_def weightSum_all SIGN_THRESHOLD_def
        del: map_map)
  have "is_ok (verdict False n)" if "n \<in> subnodes ?t" for n
    using that leaf top by (auto simp: claimed_def is_ok_def simp del: verdict.simps)
  then show ?thesis
    using build top validate_all_ok [of ?t] by (simp add: IdentifyAccount_def del: verdict.simps)
qed


section \<open>An example\<close>

definition shared_account :: string where "shared_account = ''XC1111111111111111@core''"
definition joint_account :: string where "joint_account = ''XC2222222222222222@core''"

definition shared_acl :: acl where
  "shared_acl = \<lparr>Pm = Some \<lparr>Rule = SIGN_THRESHOLD, AcceptValue = f64_of_int 2\<rparr>,
     AksWeight = Some [(''alice'', f64_of_int 1), (''bob'', f64_of_int 1), (''carol'', f64_of_int 1)], AkSets = None\<rparr>"

definition joint_acl :: acl where
  "joint_acl = \<lparr>Pm = Some \<lparr>Rule = SIGN_AKSET, AcceptValue = Fin 0\<rparr>,
     AksWeight = None, AkSets = Some (Some [(''1'', Some [''alice'', ''bob'']), (''2'', Some [''carol''])])\<rparr>"

definition demo_acls :: AclManager where
  "demo_acls = \<lparr>GetAccountACL = \<lambda>name. Inr (if name = shared_account then Some shared_acl
       else if name = joint_account then Some joint_acl else None),
     GetContractMethodACL = \<lambda>c f. Inr (Some joint_acl)\<rparr>"

theorem identify_sound_witness:
  "permitted demo_acls {''alice'', ''bob''} joint_account \<and>
   (\<exists>a. GetContractMethodACL demo_acls ''counter'' ''increase'' = Inr a \<and> enough a (permitted demo_acls {''alice'', ''bob''}))"
proof -
  let ?account_uris = "[joint_account @ ''/alice'', joint_account @ ''/bob'']" and ?uris = "[''alice'', ''bob'']"
  have "IsAccount joint_account = 1 \<and> IdentifyAccount demo_acls joint_account ?account_uris = AOk True" by code_simp
  moreover have "\<forall>uri \<in> set ?account_uris. \<forall>name \<in> set (Split (CHR ''/'') uri). IsAccount name = 0 \<longrightarrow> name \<in> {''alice'', ''bob''}"
    by code_simp
  moreover have "CheckContractMethodPerm demo_acls ?uris ''counter'' ''increase'' = AOk True" by code_simp
  moreover have "\<forall>uri \<in> set ?uris. \<forall>name \<in> set (Split (CHR ''/'') uri). IsAccount name = 0 \<longrightarrow> name \<in> {''alice'', ''bob''}"
    by code_simp
  ultimately show ?thesis using identify_sound by blast
qed

theorem inner_key_bypass_witness:
  "IdentifyAccount demo_acls shared_account (map (claim_path shared_account ''mallory'') [''alice'', ''bob'']) = AOk True"
proof (rule inner_key_bypass [where l = shared_acl and pm = "\<lparr>Rule = SIGN_THRESHOLD, AcceptValue = f64_of_int 2\<rparr>"])
  show "IsAccount shared_account = 1" "no_slash shared_account" by code_simp+
  have "IsAccount k = 0 \<and> no_slash k" if "k \<in> {''mallory'', ''alice'', ''bob''}" for k
  proof -
    have "\<forall>k \<in> {''mallory'', ''alice'', ''bob''}. IsAccount k = 0 \<and> no_slash k" by code_simp
    with that show ?thesis by blast
  qed
  then show "\<forall>k \<in> set [''mallory'', ''alice'', ''bob'']. IsAccount k = 0 \<and> no_slash k \<and> (\<exists>a. GetAccountACL demo_acls k = Inr a)"
    by (simp add: demo_acls_def)
  show "f64_ge (weigh shared_acl (Fin 0) [''alice'', ''bob'']) (AcceptValue \<lparr>Rule = SIGN_THRESHOLD, AcceptValue = f64_of_int 2\<rparr>)"
    by (simp add: shared_acl_def findWeightInACL_def f64_add_zero f64_add_of_int)
qed (simp_all add: demo_acls_def shared_acl_def)

end
