(* ===== verification/VerifyTx.thy ===== *)
theory VerifyTx
  imports TxHash AclProofs Limits Decimal "HOL-Library.Product_Lexorder"
begin

text \<open>
  The verification of a transaction (\<^verbatim>\<open>state/state_verify.go\<close>, \<^verbatim>\<open>state/reserved_args.go\<close>,
  with helpers of \<^verbatim>\<open>state/model\<close>, \<^verbatim>\<open>state/utxo\<close>, \<^verbatim>\<open>ledger/tx\<close> and
  \<^verbatim>\<open>permission/utils.go\<close>). The cryptography, the stored state, the decoder of messages, the
  templates of reserved calls and the machines that run contracts are arguments, collected in the
  record \<open>verifier\<close>.
\<close>

section \<open>Results and surroundings\<close>

definition BetaTxVersion :: int where "BetaTxVersion = 3"
definition RootTxVersion :: int where "RootTxVersion = 0"

datatype verify_error =
    ErrVersionInvalid | ErrInvalidAutogenTx | ErrTxTooLarge | ErrTxidMismatch | ErrInvalidSignature
  | ErrACLNotEnough | ErrParseContractUtxos | ErrInvalidAccount | ErrContractTxAmout | ErrRWSetInvalid
  | ErrGasNotEnough | ErrInvalidTxExt | ErrGetReservedContracts | ErrRawKey | ErrOther

text \<open>\<open>VPanic\<close>: a pointer of an access control list is \<open>nil\<close>.\<close>

datatype 'a vres = VOk 'a | VFail verify_error | VPanic

definition vbind :: "'a vres \<Rightarrow> ('a \<Rightarrow> 'b vres) \<Rightarrow> 'b vres" where
  "vbind r f = (case r of VOk x \<Rightarrow> f x | VFail e \<Rightarrow> VFail e | VPanic \<Rightarrow> VPanic)"

definition require :: "bool \<Rightarrow> verify_error \<Rightarrow> unit vres" where
  "require b e = (if b then VOk () else VFail e)"

text \<open>The callers of the permission checks replace every error by one of their own.\<close>

definition granted :: "bool acl_res \<Rightarrow> verify_error \<Rightarrow> unit vres" where
  "granted r e = (case r of AOk ok \<Rightarrow> require ok e | AErr _ \<Rightarrow> VFail e | APanic \<Rightarrow> VPanic)"

text \<open>A public key is represented by its text; \<open>None\<close> stands for an error.\<close>

record crypto =
  GetEcdsaPublicKeyFromJsonStr :: "string \<Rightarrow> string option"
  GetAddressFromPublicKey :: "string \<Rightarrow> string option"
  VerifyAddressUsingPublicKey :: "string \<Rightarrow> string \<Rightarrow> bool"
  VerifyECDSA :: "string \<Rightarrow> bytes \<Rightarrow> string \<Rightarrow> bool option"
  VerifyXuperSignature :: "string list \<Rightarrow> bytes \<Rightarrow> string \<Rightarrow> bool option"

record versioned =
  vd_RefTxid :: bytes
  vd_RefOffset :: int
  vd_Data :: tx_output_ext

record call_config =
  cfg_Request :: invoke_request
  cfg_Initiator :: string
  cfg_AuthRequire :: "string list"
  cfg_Limits :: limits
  cfg_TransferAmount :: string
  cfg_TxInBlock :: bool

text \<open>What \<open>NewContext\<close> and \<open>Invoke\<close> come to: no context (because the contract is not found, or otherwise), an error, a gas error, or a status.\<close>

datatype call_result = ContextNotFound | ContextFailed | InvokeFailed | InvokeNoGas | Invoked int

record 'x contract_mgr =
  NewStateSandbox :: "versioned list \<Rightarrow> tx_output_ext list \<Rightarrow> tx_input list \<Rightarrow> 'x option"
  callContract :: "call_config \<Rightarrow> 'x \<Rightarrow> 'x \<times> call_result"
  sandbox_Flush :: "'x \<Rightarrow> 'x option"
  sandbox_WSet :: "'x \<Rightarrow> tx_output_ext list"

record 'x verifier =
  Crypt :: crypto
  AclMgr :: AclManager
  sha256 :: "string \<Rightarrow> string"
  json :: "json_value \<Rightarrow> string"
  MaxBlockSize :: int
  proto_Size :: "transaction \<Rightarrow> int"
  ReservedContracts :: "invoke_request slice"
  ReservedWhitelistAccount :: string
  render :: "string \<Rightarrow> string \<Rightarrow> string"
  GasPrice :: gas_price
  GetWithTxStatus :: "string \<Rightarrow> string \<Rightarrow> (bytes option \<times> bool) option"
  xm_Get :: "tx_input_ext \<Rightarrow> versioned option"
  xm_GetFromLedger :: "tx_input_ext \<Rightarrow> versioned option"
  UnmsarshalMessages :: "string \<Rightarrow> tx_input list option"
  ContractMgr :: "'x contract_mgr"
  QueryTransaction :: "bytes \<Rightarrow> transaction option"
  QueryBlock :: "bytes \<Rightarrow> int option"
  GetTimerTx :: "int \<Rightarrow> transaction option"
  ModifyBlockAddr :: string
  hex_Decode :: "string \<Rightarrow> bytes option"

section \<open>Signatures\<close>

definition VerifySign :: "crypto \<Rightarrow> string \<Rightarrow> signature_info \<Rightarrow> string \<Rightarrow> bool option" where
  "VerifySign c ak si data =
     (case GetEcdsaPublicKeyFromJsonStr c (PublicKey si) of
        None \<Rightarrow> None
      | Some ecdsaKey \<Rightarrow>
          if \<not> VerifyAddressUsingPublicKey c ak ecdsaKey then None
          else VerifyECDSA c ecdsaKey (Sign si) data)"

definition IdentifyAK :: "crypto \<Rightarrow> string \<Rightarrow> signature_info \<Rightarrow> string \<Rightarrow> bool option" where
  "IdentifyAK c akuri sign msg = VerifySign c (last (Split (CHR ''/'') akuri)) sign msg"

fun initiatorAddrs :: "crypto \<Rightarrow> string \<Rightarrow> signature_info list \<Rightarrow> string list option" where
  "initiatorAddrs c digestHash [] = Some []"
| "initiatorAddrs c digestHash (sign # signs) =
     (case Option.bind (GetEcdsaPublicKeyFromJsonStr c (PublicKey sign)) (GetAddressFromPublicKey c) of
        None \<Rightarrow> None
      | Some addr \<Rightarrow>
          if IdentifyAK c addr sign digestHash \<noteq> Some True then None
          else map_option ((#) addr) (initiatorAddrs c digestHash signs))"

fun authAddrs :: "crypto \<Rightarrow> string \<Rightarrow> (string \<times> signature_info) list \<Rightarrow> string set \<Rightarrow> string set option" where
  "authAddrs c digestHash [] verifiedAddr = Some verifiedAddr"
| "authAddrs c digestHash ((authReq, signInfo) # rest) verifiedAddr =
     (let addr = last (Split (CHR ''/'') authReq)
      in if addr \<in> verifiedAddr then authAddrs c digestHash rest verifiedAddr
         else if IdentifyAK c addr signInfo digestHash \<noteq> Some True then None
         else authAddrs c digestHash rest (insert addr verifiedAddr))"

fun xuperAddrs :: "string list \<Rightarrow> string list \<Rightarrow> string list" where
  "xuperAddrs addrList [] = addrList"
| "xuperAddrs addrList (authReq # rest) =
     (let addr = last (Split (CHR ''/'') authReq)
      in xuperAddrs (if addr \<in> set addrList then addrList else addrList @ [addr]) rest)"

definition verifyXuperSign :: "crypto \<Rightarrow> transaction \<Rightarrow> string \<Rightarrow> string set vres" where
  "verifyXuperSign c tx digestHash =
     (let addrList = xuperAddrs [tx_Initiator tx] (AuthRequire tx);
          keys = map (GetEcdsaPublicKeyFromJsonStr c \<circ> elems) (GetPublicKeys (XuperSign tx))
      in if length addrList \<noteq> length (GetPublicKeys (XuperSign tx)) then VFail ErrInvalidSignature
         else if None \<in> set keys then VFail ErrInvalidSignature
         else let pubkeys = map the keys
         in if \<exists>(addr, pubkey) \<in> set (zip addrList pubkeys). \<not> VerifyAddressUsingPublicKey c addr pubkey
            then VFail ErrInvalidSignature
            else if VerifyXuperSignature c pubkeys (GetSignature (XuperSign tx)) digestHash \<noteq> Some True
            then VFail ErrInvalidSignature
            else VOk (set addrList))"

definition verifySignatures :: "crypto \<Rightarrow> AclManager \<Rightarrow> transaction \<Rightarrow> string \<Rightarrow> string set vres" where
  "verifySignatures c m tx digestHash =
     (if XuperSign tx \<noteq> None then verifyXuperSign c tx digestHash
      else if length (InitiatorSigns tx) < 1 \<or> length (AuthRequire tx) \<noteq> length (AuthRequireSigns tx)
      then VFail ErrInvalidSignature
      else
        vbind
          (if IsAccount (tx_Initiator tx) = 0 then
             (if IdentifyAK c (tx_Initiator tx) (hd (InitiatorSigns tx)) digestHash \<noteq> Some True
              then VFail ErrInvalidSignature else VOk {tx_Initiator tx})
           else if IsAccount (tx_Initiator tx) = 1 then
             (case initiatorAddrs c digestHash (InitiatorSigns tx) of
                None \<Rightarrow> VFail ErrInvalidSignature
              | Some addrs \<Rightarrow>
                  vbind (granted (IdentifyAccount m (tx_Initiator tx) (map (\<lambda>addr. tx_Initiator tx @ ''/'' @ addr) addrs))
                           ErrInvalidSignature)
                    (\<lambda>_. VOk (set addrs)))
           else VFail ErrInvalidSignature)
          (\<lambda>verifiedAddr.
             case authAddrs c digestHash (zip (AuthRequire tx) (AuthRequireSigns tx)) verifiedAddr of
               None \<Rightarrow> VFail ErrInvalidSignature
             | Some verified \<Rightarrow> VOk verified))"


section \<open>Inputs\<close>

definition model_TransientBucket :: string where "model_TransientBucket = ''$transient''"
definition model_contractUtxoInputKey :: string where "model_contractUtxoInputKey = ''ContractUtxo.Inputs''"

text \<open>The last value under the key counts.\<close>

definition ParseContractUtxoInputs :: "'x verifier \<Rightarrow> transaction \<Rightarrow> tx_input list option" where
  "ParseContractUtxoInputs v tx =
     (let found = filter (\<lambda>x. xout_Bucket x = model_TransientBucket \<and> elems (xout_Key x) = model_contractUtxoInputKey) (elems (TxOutputsExt tx))
      in if found = [] then Some []
         else case xout_Value (last found) of None \<Rightarrow> Some [] | Some extInput \<Rightarrow> UnmsarshalMessages v extInput)"

definition GenUtxoKey :: "bytes \<Rightarrow> bytes \<Rightarrow> int \<Rightarrow> string" where
  "GenUtxoKey addr txid offset = elems addr @ ''_'' @ F txid @ ''_'' @ dec_string offset"

definition inputKey :: "tx_input \<Rightarrow> string" where
  "inputKey i = GenUtxoKey (FromAddr i) (RefTxid i) (RefOffset i)"

fun verifyInputs :: "'x verifier \<Rightarrow> transaction \<Rightarrow> string set \<Rightarrow> tx_input list \<Rightarrow> string set \<Rightarrow> string set vres" where
  "verifyInputs v tx conUtxoInputs [] verifiedID = VOk verifiedID"
| "verifyInputs v tx conUtxoInputs (txInput # rest) verifiedID =
     (let name = elems (FromAddr txInput)
      in if inputKey txInput \<in> conUtxoInputs then verifyInputs v tx conUtxoInputs rest verifiedID
         else if name \<in> verifiedID then verifyInputs v tx conUtxoInputs rest verifiedID
         else if IsAccount name = 1 then
           (case GetAccountACL (AclMgr v) name of
              Inr (Some acl) \<Rightarrow>
                vbind (granted (IdentifyAccount (AclMgr v) name (AuthRequire tx)) ErrACLNotEnough)
                  (\<lambda>_. verifyInputs v tx conUtxoInputs rest (insert name verifiedID))
            | _ \<Rightarrow> VFail ErrInvalidAccount)
         else if IsAccount name = 0 then VFail ErrInvalidSignature
         else VFail ErrInvalidAccount)"

definition verifyUTXOPermission :: "'x verifier \<Rightarrow> transaction \<Rightarrow> string set \<Rightarrow> string set vres" where
  "verifyUTXOPermission v tx verifiedID =
     (case ParseContractUtxoInputs v tx of
        None \<Rightarrow> VFail ErrParseContractUtxos
      | Some conUtxoInputs \<Rightarrow> verifyInputs v tx (set (map inputKey conUtxoInputs)) (TxInputs tx) verifiedID)"

section \<open>Writes\<close>

definition accountBucket :: string where "accountBucket = ''XCAccount''"
definition contractBucket :: string where "contractBucket = ''XCContract''"
definition contract2AccountBucket :: string where "contract2AccountBucket = ''XCContract2Account''"
definition aclSeparator :: char where "aclSeparator = CHR 0x01"

text \<open>The account is identified, unless it is among the verified ones already.\<close>

definition identified :: "'x verifier \<Rightarrow> transaction \<Rightarrow> string \<Rightarrow> string set \<Rightarrow> string set vres" where
  "identified v tx accountName verifiedID =
     (if accountName \<in> verifiedID then VOk verifiedID
      else vbind (granted (IdentifyAccount (AclMgr v) accountName (AuthRequire tx)) ErrACLNotEnough)
             (\<lambda>_. VOk (insert accountName verifiedID)))"

definition verifyContractOwnerPermission :: "'x verifier \<Rightarrow> string \<Rightarrow> transaction \<Rightarrow> string set \<Rightarrow> string set vres" where
  "verifyContractOwnerPermission v contractName tx verifiedID =
     (case GetWithTxStatus v contract2AccountBucket contractName of
        None \<Rightarrow> VFail ErrACLNotEnough
      | Some (pureData, confirmed) \<Rightarrow>
          (case pureData of
             None \<Rightarrow> VFail ErrACLNotEnough
           | Some accountName \<Rightarrow>
               if \<not> confirmed then VFail ErrACLNotEnough else identified v tx (elems accountName) verifiedID))"

fun verifyWrites :: "'x verifier \<Rightarrow> transaction \<Rightarrow> tx_output_ext list \<Rightarrow> string set \<Rightarrow> string set vres" where
  "verifyWrites v tx [] verifiedID = VOk verifiedID"
| "verifyWrites v tx (ele # rest) verifiedID =
     (let key = elems (xout_Key ele)
      in vbind
        (if xout_Bucket ele = accountBucket then identified v tx key verifiedID
         else if xout_Bucket ele = contractBucket then
           (if aclSeparator \<notin> set key then VFail ErrRawKey
            else verifyContractOwnerPermission v (takeWhile (\<lambda>c. c \<noteq> aclSeparator) key) tx verifiedID)
         else if xout_Bucket ele = contract2AccountBucket then
           (case xout_Value ele of None \<Rightarrow> VFail ErrACLNotEnough | Some accountValue \<Rightarrow> identified v tx accountValue verifiedID)
         else VOk verifiedID)
        (verifyWrites v tx rest))"

definition verifyRWSetPermission :: "'x verifier \<Rightarrow> transaction \<Rightarrow> string set \<Rightarrow> string set vres" where
  "verifyRWSetPermission v tx verifiedID =
     (if ContractRequests tx = None then VOk verifiedID else verifyWrites v tx (elems (TxOutputsExt tx)) verifiedID)"

section \<open>Contract calls\<close>

fun removeDuplicates :: "string set \<Rightarrow> string list \<Rightarrow> string list" where
  "removeDuplicates dupCheck [] = []"
| "removeDuplicates dupCheck (user # rest) =
     (if user \<in> dupCheck then removeDuplicates dupCheck rest else user # removeDuplicates (insert user dupCheck) rest)"

definition removeDuplicateUser :: "string \<Rightarrow> string list \<Rightarrow> string list" where
  "removeDuplicateUser initiator authRequire =
     (if IsAccount initiator = 0 then initiator # removeDuplicates {initiator} authRequire
      else removeDuplicates {} authRequire)"

definition VerifyContractPermission :: "AclManager \<Rightarrow> string \<Rightarrow> string list \<Rightarrow> string \<Rightarrow> string \<Rightarrow> bool acl_res" where
  "VerifyContractPermission m initiator authRequire contractName methodName =
     CheckContractMethodPerm m (removeDuplicateUser initiator authRequire) contractName methodName"

fun verifyRequests :: "AclManager \<Rightarrow> string list \<Rightarrow> invoke_request list \<Rightarrow> unit vres" where
  "verifyRequests m allUsers [] = VOk ()"
| "verifyRequests m allUsers (tmpReq # rest) =
     vbind (granted (CheckContractMethodPerm m allUsers (req_ContractName tmpReq) (MethodName tmpReq)) ErrACLNotEnough)
       (\<lambda>_. verifyRequests m allUsers rest)"

definition verifyContractPermission :: "AclManager \<Rightarrow> transaction \<Rightarrow> string list \<Rightarrow> unit vres" where
  "verifyContractPermission m tx allUsers = verifyRequests m allUsers (elems (ContractRequests tx))"

text \<open>\<open>SetBytes\<close> of a big integer.\<close>

definition SetBytes :: "bytes \<Rightarrow> int" where
  "SetBytes b = foldl (\<lambda>acc c. acc * 256 + of_char c) 0 (elems b)"

fun parseTransfers :: "invoke_request list \<Rightarrow> bool \<Rightarrow> string \<times> int \<Rightarrow> (string \<times> int) option" where
  "parseTransfers [] found r = Some r"
| "parseTransfers (req # rest) found r =
     (if req_Amount req = [] then parseTransfers rest found r
      else if found then None
      else case SetString (req_Amount req) of
        (amount, ok) \<Rightarrow> if \<not> ok then None else parseTransfers rest True (req_ContractName req, amount))"

definition ParseContractTransferRequest :: "invoke_request list \<Rightarrow> (string \<times> int) option" where
  "ParseContractTransferRequest requests = parseTransfers requests False ([], 0)"

definition verifyContractTxAmount :: "transaction \<Rightarrow> unit vres" where
  "verifyContractTxAmount tx =
     (case ParseContractTransferRequest (elems (ContractRequests tx)) of
        None \<Rightarrow> VFail ErrContractTxAmout
      | Some (contractName, amountCon) \<Rightarrow>
          require ((\<Sum>txOutput \<leftarrow> filter (\<lambda>x. elems (ToAddr x) = contractName) (TxOutputs tx). SetBytes (out_Amount txOutput)) = amountCon)
            ErrContractTxAmout)"

definition FeePlaceholder :: string where "FeePlaceholder = ''$''"

text \<open>\<open>Int64\<close> of a big integer takes its low 64 bits. The first fee output counts.\<close>

definition getGasLimitFromTx :: "transaction \<Rightarrow> int option" where
  "getGasLimitFromTx tx =
     (case filter (\<lambda>x. elems (ToAddr x) = FeePlaceholder) (TxOutputs tx) of
        [] \<Rightarrow> Some 0
      | output # _ \<Rightarrow>
          (let gasLimit = i64 (SetBytes (out_Amount output)) in if gasLimit \<le> 0 then None else Some gasLimit))"


section \<open>Reserved calls\<close>

text \<open>The first input is read even if there is none.\<close>

definition VerifyReservedWhitelist :: "'x verifier \<Rightarrow> transaction \<Rightarrow> bool vres" where
  "VerifyReservedWhitelist v tx =
     (if elems (ReservedContracts v) = [] \<or> ReservedWhitelistAccount v = [] then VOk False
      else case GetAccountACL (AclMgr v) (ReservedWhitelistAccount v) of
        Inr (Some acl) \<Rightarrow>
          if Desc tx \<noteq> None \<or> ContractRequests tx \<noteq> None \<or> TxInputsExt tx \<noteq> None \<or> TxOutputsExt tx \<noteq> None then VOk False
          else if TxInputs tx = [] \<and> TxOutputs tx = [] then VOk True
          else if TxInputs tx = [] then VPanic
          else let fromAddr = elems (FromAddr (hd (TxInputs tx)));
                   toAddrs = set (filter (\<lambda>a. a \<noteq> FeePlaceholder) (map (elems \<circ> ToAddr) (TxOutputs tx)))
               in VOk ((\<forall>i \<in> set (TxInputs tx). elems (FromAddr i) = fromAddr) \<and> card toAddrs \<le> 2 \<and>
                       (\<forall>k \<in> toAddrs. k = fromAddr \<or> k \<in> fst ` set (elems (AksWeight acl))))
      | _ \<Rightarrow> VOk False)"

definition getReservedArgs :: "invoke_request list \<Rightarrow> string" where
  "getReservedArgs req = (if req = [] then [] else foldl (\<lambda>acc q. acc @ '','' @ req_ContractName q) (req_ContractName (hd req)) (tl req))"

definition GetReservedContractRequests :: "'x verifier \<Rightarrow> invoke_request list \<Rightarrow> bool \<Rightarrow> invoke_request list option" where
  "GetReservedContractRequests v req isPreExec =
     (case ReservedContracts v of
        None \<Rightarrow> Some []
      | Some tpl \<Rightarrow>
          if \<not> isPreExec \<and> tpl \<noteq> [] \<and> length req < length tpl then None
          else let names = (if isPreExec \<or> tpl = [] then getReservedArgs req else getReservedArgs (drop (length tpl) req))
               in Some (map (\<lambda>rc. rc\<lparr>req_Args := map (\<lambda>(k, t). (k, Some (render v (elems t) names))) (req_Args rc)\<rparr>) tpl))"

definition argOf :: "invoke_request \<Rightarrow> string \<Rightarrow> string" where
  "argOf q k = (case map_of (req_Args q) k of None \<Rightarrow> [] | Some b \<Rightarrow> elems b)"

text \<open>Only the arguments that the transaction gives are compared.\<close>

definition VerifyReservedContractRequests :: "invoke_request list \<Rightarrow> invoke_request list \<Rightarrow> bool" where
  "VerifyReservedContractRequests reservedReqs txReqs \<longleftrightarrow>
     length reservedReqs \<le> length txReqs \<and>
     (\<forall>(r, t) \<in> set (zip reservedReqs txReqs).
        ModuleName r = ModuleName t \<and> req_ContractName r = req_ContractName t \<and> MethodName r = MethodName t \<and>
        (\<forall>(k, val) \<in> set (req_Args t). argOf r k = elems val))"

section \<open>Reads and writes\<close>

definition versionOf :: "bytes \<Rightarrow> int \<Rightarrow> string" where
  "versionOf txid offset = (if txid = None then [] else F txid @ ''_'' @ dec_string offset)"

fun GenRWSetFromTx :: "'x verifier \<Rightarrow> bool \<Rightarrow> tx_input_ext list \<Rightarrow> versioned list option" where
  "GenRWSetFromTx v inBlock [] = Some []"
| "GenRWSetFromTx v inBlock (txIn # rest) =
     (case (if inBlock then xm_GetFromLedger v txIn else xm_Get v txIn) of
        None \<Rightarrow> None
      | Some verData \<Rightarrow>
          if versionOf (vd_RefTxid verData) (vd_RefOffset verData) \<noteq> versionOf (xin_RefTxid txIn) (xin_RefOffset txIn) then None
          else map_option ((#) verData) (GenRWSetFromTx v inBlock rest))"

definition rawWrite :: "tx_output_ext \<Rightarrow> string \<times> string" where
  "rawWrite x = (xout_Bucket x @ ''/'' @ elems (xout_Key x), elems (xout_Value x))"

definition Equal :: "tx_output_ext list \<Rightarrow> tx_output_ext list \<Rightarrow> bool" where
  "Equal pd vpd \<longleftrightarrow> sort (map rawWrite pd) = sort (map rawWrite vpd)"

definition resourceType :: "int \<Rightarrow> resource_type" where
  "resourceType tp = (if tp = 0 then RCPU else if tp = 1 then RMEMORY else if tp = 2 then RDISK else if tp = 3 then RXFEE else ROther)"

text \<open>
  The calls of \<open>verifyTxRWSets\<close>; \<open>i\<close> counts them, and the first \<open>reserved\<close> of them are free.
  \<open>gasLimit\<close> is what is left.
\<close>

fun runRequests ::
    "'x verifier \<Rightarrow> transaction \<Rightarrow> nat \<Rightarrow> string \<times> int \<Rightarrow> nat \<Rightarrow> int \<Rightarrow> invoke_request list \<Rightarrow> 'x \<Rightarrow> 'x vres" where
  "runRequests v tx reserved transfer i gasLimit [] sandBox = VOk sandBox"
| "runRequests v tx reserved transfer i gasLimit (tmpReq # rest) sandBox =
     (let limits = FromPbLimits (map (\<lambda>(tp, limit). (resourceType tp, limit)) (ResourceLimits tmpReq));
          gasLeft = (if i \<ge> reserved then i64 (gasLimit - TotalGas limits (GasPrice v)) else gasLimit)
      in if gasLeft < 0 then VFail ErrRWSetInvalid
         else case callContract (ContractMgr v)
                \<lparr>cfg_Request = tmpReq, cfg_Initiator = tx_Initiator tx, cfg_AuthRequire = AuthRequire tx, cfg_Limits = limits,
                 cfg_TransferAmount = (if fst transfer = req_ContractName tmpReq then dec_string (snd transfer) else []),
                 cfg_TxInBlock = (elems (tx_Blockid tx) \<noteq> [])\<rparr> sandBox of
           (sandBox', r) \<Rightarrow>
             (case r of
                ContextNotFound \<Rightarrow>
                  if i < reserved then runRequests v tx reserved transfer (i + 1) gasLeft rest sandBox' else VFail ErrRWSetInvalid
              | ContextFailed \<Rightarrow> VFail ErrRWSetInvalid
              | InvokeFailed \<Rightarrow> VFail ErrRWSetInvalid
              | InvokeNoGas \<Rightarrow> VFail ErrGasNotEnough
              | Invoked status \<Rightarrow>
                  if status \<ge> 400 \<and> i < reserved then VFail ErrRWSetInvalid
                  else runRequests v tx reserved transfer (i + 1) gasLeft rest sandBox'))"

text \<open>Every error is one of the two that \<open>ImmediateVerifyTx\<close> makes of it.\<close>

definition verifyTxRWSets :: "'x verifier \<Rightarrow> transaction \<Rightarrow> unit vres" where
  "verifyTxRWSets v tx =
     vbind (VerifyReservedWhitelist v tx) (\<lambda>listed.
       if listed then VOk ()
       else let req = elems (ContractRequests tx)
       in case GetReservedContractRequests v req False of
            None \<Rightarrow> VFail ErrRWSetInvalid
          | Some reservedRequests \<Rightarrow>
              if \<not> VerifyReservedContractRequests reservedRequests req then VFail ErrRWSetInvalid
              else if ContractRequests tx = None then
                require (TxInputsExt tx = None \<and> TxOutputsExt tx = None) ErrRWSetInvalid
              else case (GenRWSetFromTx v (elems (tx_Blockid tx) \<noteq> []) (elems (TxInputsExt tx)), ParseContractUtxoInputs v tx) of
                (Some rset, Some utxoInput) \<Rightarrow>
                  (case NewStateSandbox (ContractMgr v) rset (elems (TxOutputsExt tx)) utxoInput of
                     None \<Rightarrow> VFail ErrRWSetInvalid
                   | Some sandBox \<Rightarrow>
                       (case (ParseContractTransferRequest req, getGasLimitFromTx tx) of
                          (Some transfer, Some gasLimit) \<Rightarrow>
                            vbind (runRequests v tx (length reservedRequests) transfer 0 gasLimit req sandBox) (\<lambda>sandBox'.
                              case sandbox_Flush (ContractMgr v) sandBox' of
                                None \<Rightarrow> VFail ErrRWSetInvalid
                              | Some flushed \<Rightarrow> require (Equal (elems (TxOutputsExt tx)) (sandbox_WSet (ContractMgr v) flushed)) ErrRWSetInvalid)
                        | _ \<Rightarrow> VFail ErrRWSetInvalid))
              | _ \<Rightarrow> VFail ErrRWSetInvalid)"


section \<open>A transaction\<close>

text \<open>
  \<open>int(float64(maxBlkSize) * TxSizePercent)\<close>: the factor 0.8 is the number \<open>7205759403792794 / 2 ^ 53\<close>,
  and the product is rounded to 53 bits before the fraction is dropped.
\<close>

definition MaxTxSizePerBlock :: "'x verifier \<Rightarrow> int" where
  "MaxTxSizePerBlock v = round53 (round53 (MaxBlockSize v) * 7205759403792794) div 2 ^ 53"

definition ImmediateVerifyTx :: "'x verifier \<Rightarrow> transaction \<Rightarrow> bool \<Rightarrow> unit vres" where
  "ImmediateVerifyTx v tx isRootTx =
     (if \<not> isRootTx \<and> Version tx = RootTxVersion then VFail ErrVersionInvalid
      else if Version tx > BetaTxVersion \<or> Version tx < RootTxVersion then VFail ErrVersionInvalid
      else if Autogen tx then VFail ErrInvalidAutogenTx
      else if proto_Size v tx > MaxTxSizePerBlock v then VFail ErrTxTooLarge
      else if Version tx > RootTxVersion then
        (if elems (Txid tx) \<noteq> MakeTxID (sha256 v) (json v) tx then VFail ErrTxidMismatch
         else
           vbind (verifySignatures (Crypt v) (AclMgr v) tx (MakeTxDigestHash (sha256 v) (json v) tx)) (\<lambda>verifiedID.
           let authUsers = removeDuplicateUser (tx_Initiator tx) (AuthRequire tx)
           in vbind (verifyUTXOPermission v tx verifiedID) (\<lambda>verifiedID1.
              vbind (verifyContractPermission (AclMgr v) tx authUsers) (\<lambda>_.
              vbind (verifyContractTxAmount tx) (\<lambda>_.
              vbind (verifyRWSetPermission v tx verifiedID1) (\<lambda>verifiedID2.
              verifyTxRWSets v tx))))))
      else VOk ())"

text \<open>A transaction that the node generates itself is compared with the one it would generate; the
  JSON texts that are compared leave out empty fields.\<close>

definition ImmediateVerifyAutoTx :: "'x verifier \<Rightarrow> int \<Rightarrow> transaction \<Rightarrow> bool \<Rightarrow> unit vres" where
  "ImmediateVerifyAutoTx v blockHeight tx isRootTx =
     (case GetTimerTx v blockHeight of
        None \<Rightarrow> VFail ErrOther
      | Some autoTx \<Rightarrow>
          if \<not> isRootTx \<and> Version tx = RootTxVersion then VFail ErrVersionInvalid
          else if Version tx > BetaTxVersion \<or> Version tx < RootTxVersion then VFail ErrVersionInvalid
          else if proto_Size v tx > MaxTxSizePerBlock v then VFail ErrTxTooLarge
          else if Version tx > RootTxVersion then
            (if elems (Txid tx) \<noteq> MakeTxID (sha256 v) (json v) tx then VFail ErrTxidMismatch
             else if map_option (map bareInputExt) (TxInputsExt tx) \<noteq> map_option (map bareInputExt) (TxInputsExt autoTx)
             then VFail ErrRWSetInvalid
             else if map_option (map bareOutputExt) (TxOutputsExt tx) \<noteq> map_option (map bareOutputExt) (TxOutputsExt autoTx)
             then VFail ErrRWSetInvalid
             else VOk ())
          else VOk ())"

section \<open>The transactions of a block\<close>

text \<open>
  A transaction may be marked by a supervisor. The three values returned are whether the check is
  passed, whether the transaction is or relies on a marked one, and whether there is an error.
\<close>

definition checkRelyOnMarkedTxid :: "'x verifier \<Rightarrow> bytes \<Rightarrow> bytes \<Rightarrow> bool \<times> bool \<times> bool" where
  "checkRelyOnMarkedTxid v reftxid blockid =
     (case QueryTransaction v reftxid of
        None \<Rightarrow> (True, False, False)
      | Some reftx \<Rightarrow>
          (case ModifyBlock reftx of
             None \<Rightarrow> (True, False, False)
           | Some mb \<Rightarrow>
               if \<not> Marked mb then (True, False, False)
               else if elems blockid \<noteq> [] then
                 (case QueryBlock v blockid of
                    None \<Rightarrow> (False, True, True)
                  | Some height \<Rightarrow> if height \<le> EffectiveHeight mb then (True, True, False) else (False, True, False))
               else (False, True, False)))"

text \<open>The second value of a check that is passed is not kept.\<close>

fun verifyRelyOnMarkedTxs :: "'x verifier \<Rightarrow> bytes \<Rightarrow> bytes list \<Rightarrow> bool \<times> bool \<times> bool" where
  "verifyRelyOnMarkedTxs v blockid [] = (True, False, False)"
| "verifyRelyOnMarkedTxs v blockid (reftxid # rest) =
     (if elems reftxid = [] then verifyRelyOnMarkedTxs v blockid rest
      else case checkRelyOnMarkedTxid v reftxid blockid of
        (ok, isRely, err) \<Rightarrow> if err \<or> \<not> ok then (ok, isRely, err) else verifyRelyOnMarkedTxs v blockid rest)"

text \<open>Whether \<open>verifyMarkedTx\<close> returns an error; a signature that is wrong is none.\<close>

definition verifyMarkedTx :: "'x verifier \<Rightarrow> modify_block \<Rightarrow> transaction \<Rightarrow> bool" where
  "verifyMarkedTx v mb tx =
     (case GetEcdsaPublicKeyFromJsonStr (Crypt v) (mb_PublicKey mb) of
        None \<Rightarrow> True
      | Some ecdsaKey \<Rightarrow>
          if \<not> VerifyAddressUsingPublicKey (Crypt v) (ModifyBlockAddr v) ecdsaKey then True
          else case hex_Decode v (mb_Sign mb) of
            None \<Rightarrow> True
          | Some bytesign \<Rightarrow>
              VerifyECDSA (Crypt v) ecdsaKey bytesign (MakeTxDigestHash (sha256 v) (json v) (tx\<lparr>ModifyBlock := Some
                \<lparr>Marked = False, EffectiveHeight = 0, mb_PublicKey = [], mb_Sign = []\<rparr>\<rparr>)) = None)"

definition verifyMarked :: "'x verifier \<Rightarrow> transaction \<Rightarrow> bool \<times> bool \<times> bool" where
  "verifyMarked v tx =
     (case ModifyBlock tx of
        Some mb \<Rightarrow>
          if Marked mb then (let err = verifyMarkedTx v mb tx in (\<not> err, True, err))
          else verifyRelyOnMarkedTxs v (tx_Blockid tx) (map RefTxid (TxInputs tx) @ map xin_RefTxid (elems (TxInputsExt tx)))
      | None \<Rightarrow> verifyRelyOnMarkedTxs v (tx_Blockid tx) (map RefTxid (TxInputs tx) @ map xin_RefTxid (elems (TxInputsExt tx))))"

definition verifyAutogenTxValid :: "transaction \<Rightarrow> bool" where
  "verifyAutogenTxValid tx \<longleftrightarrow>
     Autogen tx \<and> \<not> (length (elems (TxInputsExt tx)) = 0 \<and> length (elems (TxOutputsExt tx)) = 0)"

definition verifyDAGTx :: "'x verifier \<Rightarrow> int \<Rightarrow> bool \<Rightarrow> (string \<Rightarrow> bool) \<Rightarrow> transaction \<Rightarrow> unit vres" where
  "verifyDAGTx v blockHeight isRootTx unconfirmToConfirm tx =
     (if unconfirmToConfirm (elems (Txid tx)) then VOk ()
      else if verifyAutogenTxValid tx \<and> ImmediateVerifyAutoTx v blockHeight tx isRootTx \<noteq> VOk () then VFail ErrOther
      else if \<not> Autogen tx \<and> \<not> Coinbase tx then
        (case ImmediateVerifyTx v tx isRootTx of
           VOk u \<Rightarrow> VOk ()
         | VPanic \<Rightarrow> VPanic
         | VFail e \<Rightarrow>
             (case verifyMarked v tx of
                (ok, isRelyOnMarkedTx, err) \<Rightarrow>
                  if isRelyOnMarkedTx then (if err then VFail ErrOther else VOk ()) else VFail ErrOther))
      else VOk ())"

text \<open>
  \<open>verifyDAGTxs\<close>. A transaction that is passed because of a mark ends the loop: the ones after it
  are not looked at.
\<close>

fun verifyDAGTxs :: "'x verifier \<Rightarrow> int \<Rightarrow> transaction list \<Rightarrow> bool \<Rightarrow> (string \<Rightarrow> bool) \<Rightarrow> unit vres" where
  "verifyDAGTxs v blockHeight [] isRootTx unconfirmToConfirm = VOk ()"
| "verifyDAGTxs v blockHeight (tx # txs) isRootTx unconfirmToConfirm =
     (case verifyDAGTx v blockHeight isRootTx unconfirmToConfirm tx of
        VOk u \<Rightarrow>
          if \<not> unconfirmToConfirm (elems (Txid tx)) \<and> \<not> Autogen tx \<and> \<not> Coinbase tx \<and> ImmediateVerifyTx v tx isRootTx \<noteq> VOk ()
          then VOk () else verifyDAGTxs v blockHeight txs isRootTx unconfirmToConfirm
      | r \<Rightarrow> r)"

end
