(* ===== verification/Utxo.thy ===== *)
theory Utxo
  imports VerifyTx LruCache Kv
begin

text \<open>
  Unspent outputs (\<^verbatim>\<open>state/utxo\<close>): the table of the store, the cache of recent outputs, the
  outputs of the batch that is being written, temporary locks, balances, and the selection of outputs
  for a payment. The stored JSON texts are represented by the items they encode.
\<close>

section \<open>The store\<close>

record UtxoItem =
  ui_Amount :: int
  ui_FrozenHeight :: int

text \<open>
  The tables of the state: unspent outputs, the versions of keys, the versions of deleted keys,
  unconfirmed transactions and meta data. A batch collects writes; the number tells batches apart as their
  addresses do.
\<close>

record state_db =
  utxoTable :: "UtxoItem table"
  extUtxoTable :: "string table"
  extUtxoDelTable :: "string table"
  unconfirmTable :: "transaction table"
  db_total :: "int option"
  db_pointer :: bytes
  db_irreversible :: "int option"

datatype db_op =
    PutUtxo string UtxoItem | DelUtxo string
  | PutExt string string | DelExt string | PutExtDel string string | DelExtDel string
  | PutUnconfirmed string transaction | DelUnconfirmed string
  | PutTotal int | PutPointer bytes | PutIrreversible int

record batch =
  batch_id :: nat
  batch_ops :: "db_op list"

fun apply_op :: "state_db \<Rightarrow> db_op \<Rightarrow> state_db" where
  "apply_op db (PutUtxo k v) = db\<lparr>utxoTable := AList.update k v (utxoTable db)\<rparr>"
| "apply_op db (DelUtxo k) = db\<lparr>utxoTable := AList.delete k (utxoTable db)\<rparr>"
| "apply_op db (PutExt k v) = db\<lparr>extUtxoTable := AList.update k v (extUtxoTable db)\<rparr>"
| "apply_op db (DelExt k) = db\<lparr>extUtxoTable := AList.delete k (extUtxoTable db)\<rparr>"
| "apply_op db (PutExtDel k v) = db\<lparr>extUtxoDelTable := AList.update k v (extUtxoDelTable db)\<rparr>"
| "apply_op db (DelExtDel k) = db\<lparr>extUtxoDelTable := AList.delete k (extUtxoDelTable db)\<rparr>"
| "apply_op db (PutUnconfirmed k v) = db\<lparr>unconfirmTable := AList.update k v (unconfirmTable db)\<rparr>"
| "apply_op db (DelUnconfirmed k) = db\<lparr>unconfirmTable := AList.delete k (unconfirmTable db)\<rparr>"
| "apply_op db (PutTotal n) = db\<lparr>db_total := Some n\<rparr>"
| "apply_op db (PutPointer b) = db\<lparr>db_pointer := b\<rparr>"
| "apply_op db (PutIrreversible n) = db\<lparr>db_irreversible := Some n\<rparr>"

definition batch_Put :: "batch \<Rightarrow> db_op \<Rightarrow> batch" where
  "batch_Put b w = b\<lparr>batch_ops := batch_ops b @ [w]\<rparr>"

definition batch_Write :: "state_db \<Rightarrow> batch \<Rightarrow> state_db" where
  "batch_Write db b = foldl apply_op db (batch_ops b)"

section \<open>Numbers and keys\<close>

text \<open>\<open>Bytes\<close> of a big integer: its absolute value, big-endian, without leading zeros.\<close>

function natBytes :: "nat \<Rightarrow> string" where
  "natBytes n = (if n = 0 then [] else natBytes (n div 256) @ [char_of (n mod 256)])"
  by pat_completeness auto
termination by (relation "measure id") auto

declare natBytes.simps [simp del]

definition big_Bytes :: "int \<Rightarrow> string" where
  "big_Bytes n = natBytes (nat \<bar>n\<bar>)"

definition UTXOTablePrefix :: string where "UTXOTablePrefix = ''U''"

definition GenUtxoKeyWithPrefix :: "bytes \<Rightarrow> bytes \<Rightarrow> int \<Rightarrow> string" where
  "GenUtxoKeyWithPrefix addr txid offset = UTXOTablePrefix @ GenUtxoKey addr txid offset"

definition i32 :: "int \<Rightarrow> int" where
  "i32 x = (x + 2 ^ 31) mod 2 ^ 32 - 2 ^ 31"

definition Atoi :: "string \<Rightarrow> int option" where
  "Atoi s = (case SetString s of (n, ok) \<Rightarrow> if ok \<and> in_i64 n then Some n else None)"

datatype utxo_error =
    ErrNoEnoughUTXO | ErrUTXONotFound | ErrInputOutputNotEqual | ErrUnexpected | ErrNegativeAmount
  | ErrUTXOFrozen | ErrUTXODuplicated | ErrHex | ErrAtoi

definition parseUtxoKeys :: "string \<Rightarrow> utxo_error + bytes \<times> int" where
  "parseUtxoKeys uKey =
     (let keyTuple = Split (CHR ''_'') (drop 1 uKey); n = length keyTuple
      in if n < 2 then Inl ErrUnexpected
         else case hex_DecodeString (keyTuple ! (n - 2)) of
           None \<Rightarrow> Inl ErrHex
         | Some refTxid \<Rightarrow>
             (case Atoi (keyTuple ! (n - 1)) of None \<Rightarrow> Inl ErrAtoi | Some offset \<Rightarrow> Inr (Some refTxid, offset)))"

section \<open>The cache of outputs\<close>

record cache_item =
  ci_Item :: UtxoItem
  ci_ele :: nat

text \<open>An address has a table of items in \<open>Available\<close> and in \<open>All\<close>; the list orders the keys by age.\<close>

record UtxoCache =
  Available :: "string \<rightharpoonup> cache_item table"
  All :: "string \<rightharpoonup> cache_item table"
  uc_List :: "(nat \<times> string \<times> string) list"
  uc_Limit :: int
  uc_next :: nat

definition NewUtxoCache :: "int \<Rightarrow> UtxoCache" where
  "NewUtxoCache limit = \<lparr>Available = Map.empty, All = Map.empty, uc_List = [], uc_Limit = limit, uc_next = 0\<rparr>"

definition level2 :: "(string \<rightharpoonup> cache_item table) \<Rightarrow> string \<Rightarrow> cache_item table" where
  "level2 m addr = (case m addr of None \<Rightarrow> [] | Some l2 \<Rightarrow> l2)"

definition uc_Remove :: "string \<Rightarrow> string \<Rightarrow> UtxoCache \<Rightarrow> UtxoCache" where
  "uc_Remove address utxoKey uv =
     (let uv1 = (case All uv address of
                   None \<Rightarrow> uv
                 | Some l2 \<Rightarrow>
                     (let l2' = AList.delete utxoKey l2;
                          lst = (case map_of l2 utxoKey of None \<Rightarrow> uc_List uv | Some ci \<Rightarrow> list_Remove (ci_ele ci) (uc_List uv));
                          uv0 = uv\<lparr>All := (All uv)(address \<mapsto> l2'), uc_List := lst\<rparr>
                      in if l2' = [] then uv0\<lparr>All := (All uv0)(address := None), Available := (Available uv0)(address := None)\<rparr> else uv0))
      in case Available uv1 address of
           None \<Rightarrow> uv1
         | Some l2 \<Rightarrow> uv1\<lparr>Available := (Available uv1)(address \<mapsto> AList.delete utxoKey l2)\<rparr>)"

definition uc_Insert :: "string \<Rightarrow> string \<Rightarrow> UtxoItem \<Rightarrow> UtxoCache \<Rightarrow> UtxoCache" where
  "uc_Insert addr utxoKey item uv =
     (let uv0 = (if All uv addr = None then uv\<lparr>Available := (Available uv)(addr \<mapsto> []), All := (All uv)(addr \<mapsto> [])\<rparr> else uv);
          ci = \<lparr>ci_Item = item, ci_ele = uc_next uv\<rparr>;
          uv1 = uv0\<lparr>uc_List := (uc_next uv, addr, utxoKey) # uc_List uv0, uc_next := uc_next uv + 1,
                    Available := (Available uv0)(addr \<mapsto> AList.update utxoKey ci (level2 (Available uv0) addr)),
                    All := (All uv0)(addr \<mapsto> AList.update utxoKey ci (level2 (All uv0) addr))\<rparr>
      in if int (length (uc_List uv1)) > uc_Limit uv1
         then (case last (uc_List uv1) of (e, a, k) \<Rightarrow> uc_Remove a k uv1) else uv1)"

definition uc_Use :: "string \<Rightarrow> string \<Rightarrow> UtxoCache \<Rightarrow> UtxoCache" where
  "uc_Use address utxoKey uv =
     (case Available uv address of
        None \<Rightarrow> uv
      | Some l2 \<Rightarrow> uv\<lparr>Available := (Available uv)(address \<mapsto> AList.delete utxoKey l2)\<rparr>)"

section \<open>The state in memory\<close>

text \<open>A lock has the time it was taken and its place in the list of locks.\<close>

record UtxoVM =
  lockKeys :: "string \<rightharpoonup> int \<times> nat"
  lockKeyList :: "(nat \<times> string) list"
  lock_next :: nat
  lockExpireTime :: int
  vm_Cache :: UtxoCache
  PrevFoundKeyCache :: "(string, string) LRUCache"
  utxoTotal :: int
  BalanceCache :: "(string, int) LRUCache"
  BalanceViewDirty :: "string \<Rightarrow> int"
  batchCache :: "string \<rightharpoonup> UtxoItem"
  lastBatch :: "nat option"

definition MakeUtxo :: "int \<Rightarrow> int \<Rightarrow> state_db \<Rightarrow> UtxoVM" where
  "MakeUtxo cachesize tmplockSeconds db =
     \<lparr>lockKeys = Map.empty, lockKeyList = [], lock_next = 0, lockExpireTime = tmplockSeconds,
      vm_Cache = NewUtxoCache cachesize, PrevFoundKeyCache = NewLRUCache cachesize,
      utxoTotal = (case db_total db of None \<Rightarrow> 0 | Some n \<Rightarrow> n),
      BalanceCache = NewLRUCache cachesize, BalanceViewDirty = (\<lambda>_. 0), batchCache = Map.empty, lastBatch = None\<rparr>"

definition CleanBatchCache :: "batch \<Rightarrow> UtxoVM \<Rightarrow> UtxoVM" where
  "CleanBatchCache newBatch uv =
     (if lastBatch uv \<noteq> Some (batch_id newBatch)
      then uv\<lparr>batchCache := Map.empty, lastBatch := Some (batch_id newBatch)\<rparr> else uv)"

definition InsertBatchCache :: "string \<Rightarrow> UtxoItem \<Rightarrow> UtxoVM \<Rightarrow> UtxoVM" where
  "InsertBatchCache key value uv = uv\<lparr>batchCache := (batchCache uv)(key \<mapsto> value)\<rparr>"

definition RemoveBatchCache :: "string \<Rightarrow> UtxoVM \<Rightarrow> UtxoVM" where
  "RemoveBatchCache key uv = uv\<lparr>batchCache := (batchCache uv)(key := None)\<rparr>"

definition UpdateUtxoTotal :: "int \<Rightarrow> batch \<Rightarrow> bool \<Rightarrow> UtxoVM \<Rightarrow> UtxoVM \<times> batch" where
  "UpdateUtxoTotal delta b inc uv =
     (let n = (if inc then utxoTotal uv + delta else utxoTotal uv - delta)
      in (uv\<lparr>utxoTotal := n\<rparr>, batch_Put b (PutTotal \<bar>n\<bar>)))"

definition GetTotal :: "UtxoVM \<Rightarrow> int" where
  "GetTotal uv = \<bar>utxoTotal uv\<bar>"

section \<open>Inputs and outputs of a transaction\<close>

text \<open>Where an output is looked up: in the cache, in the current batch, in the table.\<close>

definition findUtxo :: "UtxoVM \<Rightarrow> state_db \<Rightarrow> batch \<Rightarrow> tx_input \<Rightarrow> UtxoItem option" where
  "findUtxo uv db b i =
     (let key = GenUtxoKeyWithPrefix (FromAddr i) (RefTxid i) (RefOffset i)
      in case Option.bind (All (vm_Cache uv) (elems (FromAddr i))) (\<lambda>l2. map_of l2 key) of
           Some ci \<Rightarrow> Some (ci_Item ci)
         | None \<Rightarrow>
             (case (if Some (batch_id b) = lastBatch uv then batchCache uv key else None) of
                Some item \<Rightarrow> Some item
              | None \<Rightarrow> map_of (utxoTable db) key))"

fun checkInputs ::
    "UtxoVM \<Rightarrow> state_db \<Rightarrow> batch \<Rightarrow> int \<Rightarrow> tx_input list \<Rightarrow> string set \<Rightarrow> int \<Rightarrow> utxo_error + int" where
  "checkInputs uv db b curLedgerHeight [] utxoDedup inputSum = Inr inputSum"
| "checkInputs uv db b curLedgerHeight (txInput # rest) utxoDedup inputSum =
     (if inputKey txInput \<in> utxoDedup then Inl ErrUTXODuplicated
      else case findUtxo uv db b txInput of
        None \<Rightarrow> Inl ErrUTXONotFound
      | Some uItem \<Rightarrow>
          if big_Bytes (ui_Amount uItem) \<noteq> elems (in_Amount txInput) then Inl ErrUnexpected
          else if ui_FrozenHeight uItem > curLedgerHeight \<or> ui_FrozenHeight uItem = - 1 then Inl ErrUTXOFrozen
          else checkInputs uv db b curLedgerHeight rest (insert (inputKey txInput) utxoDedup) (inputSum + ui_Amount uItem))"

definition outputSum :: "tx_output list \<Rightarrow> int" where
  "outputSum txOutputs = (\<Sum>txOutput \<leftarrow> txOutputs. SetBytes (out_Amount txOutput))"

text \<open>No amount is negative, as amounts are byte strings without a sign: the error \<open>ErrNegativeAmount\<close> does not arise.\<close>

definition CheckInputEqualOutput :: "UtxoVM \<Rightarrow> state_db \<Rightarrow> batch \<Rightarrow> int \<Rightarrow> transaction \<Rightarrow> utxo_error option" where
  "CheckInputEqualOutput uv db b curLedgerHeight tx =
     (if \<exists>txOutput \<in> set (TxOutputs tx). SetBytes (out_Amount txOutput) < 0 then Some ErrNegativeAmount
      else case checkInputs uv db b curLedgerHeight (TxInputs tx) {} 0 of
        Inl e \<Rightarrow> Some e
      | Inr inputSum \<Rightarrow>
          if inputSum = outputSum (TxOutputs tx) then None
          else if inputSum = 0 \<and> Coinbase tx then None
          else Some ErrInputOutputNotEqual)"

section \<open>Locks\<close>

definition isLocked :: "string \<Rightarrow> UtxoVM \<Rightarrow> bool" where
  "isLocked utxoKey uv \<longleftrightarrow> lockKeys uv utxoKey \<noteq> None"

definition UnlockKey :: "string \<Rightarrow> UtxoVM \<Rightarrow> UtxoVM" where
  "UnlockKey utxoKey uv =
     (case lockKeys uv utxoKey of
        None \<Rightarrow> uv
      | Some (timestamp, holder) \<Rightarrow>
          uv\<lparr>lockKeyList := list_Remove holder (lockKeyList uv), lockKeys := (lockKeys uv)(utxoKey := None)\<rparr>)"

definition tryLockKey :: "int \<Rightarrow> string \<Rightarrow> UtxoVM \<Rightarrow> UtxoVM \<times> bool" where
  "tryLockKey now key uv =
     (if lockKeys uv key = None
      then (uv\<lparr>lockKeyList := lockKeyList uv @ [(lock_next uv, key)],
               lockKeys := (lockKeys uv)(key \<mapsto> (now, lock_next uv)), lock_next := lock_next uv + 1\<rparr>, True)
      else (uv, False))"

fun clearExpired :: "int \<Rightarrow> int \<Rightarrow> (string \<rightharpoonup> int \<times> nat) \<Rightarrow> (nat \<times> string) list \<Rightarrow> (string \<rightharpoonup> int \<times> nat) \<times> (nat \<times> string) list" where
  "clearExpired now expire keys [] = (keys, [])"
| "clearExpired now expire keys ((holder, topKey) # rest) =
     (case keys topKey of
        None \<Rightarrow> clearExpired now expire keys rest
      | Some (timestamp, h) \<Rightarrow>
          if i64 (timestamp + expire) \<le> now then clearExpired now expire (keys(topKey := None)) rest
          else (keys, (holder, topKey) # rest))"

definition clearExpiredLocks :: "int \<Rightarrow> UtxoVM \<Rightarrow> UtxoVM" where
  "clearExpiredLocks now uv =
     (case clearExpired now (lockExpireTime uv) (lockKeys uv) (lockKeyList uv) of
        (keys, lst) \<Rightarrow> uv\<lparr>lockKeys := keys, lockKeyList := lst\<rparr>)"

section \<open>Selecting outputs\<close>

text \<open>
  \<open>SelectUtxos\<close> first goes through the cache and then through the table. The surroundings of a
  selection: the time, the height of the ledger, which transactions are confirmed, and the order in which Go
  iterates over a map.
\<close>

record select_env =
  env_now :: int
  TrunkHeight :: int
  IsTxInTrunk :: "bytes \<Rightarrow> bool"
  map_order :: "cache_item table \<Rightarrow> cache_item table"

record selection =
  sel_vm :: UtxoVM
  willLockKeys :: "string list"
  sel_total :: int
  txInputs :: "tx_input list"
  cacheKeys :: "string set"
  foundEnough :: bool

text \<open>The body that both loops share: skip the output, or take it as an input.\<close>

datatype attempt = Skip selection | Take selection | Abort selection utxo_error

definition trySelect :: "select_env \<Rightarrow> string \<Rightarrow> bool \<Rightarrow> bool \<Rightarrow> string \<Rightarrow> UtxoItem \<Rightarrow> selection \<Rightarrow> attempt" where
  "trySelect env fromAddr needLock excludeUnconfirmed uKey uItem s =
     (if ui_FrozenHeight uItem > TrunkHeight env \<or> ui_FrozenHeight uItem = - 1 then Skip s
      else case parseUtxoKeys uKey of
        Inl e \<Rightarrow> Abort s e
      | Inr (refTxid, offset) \<Rightarrow>
          (case (if needLock then tryLockKey (env_now env) uKey (sel_vm s) else (sel_vm s, \<not> isLocked uKey (sel_vm s))) of
             (vm, free) \<Rightarrow>
               if \<not> free then Skip s
               else let s1 = s\<lparr>sel_vm := vm, willLockKeys := willLockKeys s @ (if needLock then [uKey] else [])\<rparr>
               in if excludeUnconfirmed \<and> \<not> IsTxInTrunk env refTxid then Skip s1
                  else Take (s1\<lparr>sel_total := sel_total s + ui_Amount uItem,
                                txInputs := txInputs s @ [\<lparr>RefTxid = refTxid, RefOffset = i32 offset, FromAddr = Some fromAddr,
                                  in_Amount = Some (big_Bytes (ui_Amount uItem)), in_FrozenHeight = ui_FrozenHeight uItem\<rparr>]\<rparr>)))"

fun selectCached :: "select_env \<Rightarrow> string \<Rightarrow> int \<Rightarrow> bool \<Rightarrow> bool \<Rightarrow> cache_item table \<Rightarrow> selection \<Rightarrow> selection \<times> utxo_error option" where
  "selectCached env fromAddr totalNeed needLock excludeUnconfirmed [] s = (s, None)"
| "selectCached env fromAddr totalNeed needLock excludeUnconfirmed ((uKey, ci) # rest) s =
     (case trySelect env fromAddr needLock excludeUnconfirmed uKey (ci_Item ci) s of
        Skip s' \<Rightarrow> selectCached env fromAddr totalNeed needLock excludeUnconfirmed rest s'
      | Abort s' e \<Rightarrow> (s', Some e)
      | Take s' \<Rightarrow>
          (let s2 = s'\<lparr>sel_vm := (sel_vm s')\<lparr>vm_Cache := uc_Use fromAddr uKey (vm_Cache (sel_vm s'))\<rparr>,
                       cacheKeys := insert uKey (cacheKeys s')\<rparr>
           in if sel_total s2 \<ge> totalNeed then (s2\<lparr>foundEnough := True\<rparr>, None)
              else selectCached env fromAddr totalNeed needLock excludeUnconfirmed rest s2))"

fun selectStored :: "select_env \<Rightarrow> string \<Rightarrow> int \<Rightarrow> bool \<Rightarrow> bool \<Rightarrow> UtxoItem table \<Rightarrow> selection \<Rightarrow> selection \<times> utxo_error option" where
  "selectStored env fromAddr totalNeed needLock excludeUnconfirmed [] s = (s, None)"
| "selectStored env fromAddr totalNeed needLock excludeUnconfirmed ((key, uItem) # rest) s =
     (if key \<in> cacheKeys s then selectStored env fromAddr totalNeed needLock excludeUnconfirmed rest s
      else case trySelect env fromAddr needLock excludeUnconfirmed key uItem s of
        Skip s' \<Rightarrow> selectStored env fromAddr totalNeed needLock excludeUnconfirmed rest s'
      | Abort s' e \<Rightarrow> (s', Some e)
      | Take s' \<Rightarrow>
          (if sel_total s' \<ge> totalNeed
           then (s'\<lparr>sel_vm := (sel_vm s')\<lparr>PrevFoundKeyCache := fst (lru_Add (PrevFoundKeyCache (sel_vm s')) fromAddr key)\<rparr>,
                    foundEnough := True\<rparr>, None)
           else selectStored env fromAddr totalNeed needLock excludeUnconfirmed rest s'))"

definition SelectUtxos ::
    "select_env \<Rightarrow> state_db \<Rightarrow> string \<Rightarrow> int \<Rightarrow> bool \<Rightarrow> bool \<Rightarrow> UtxoVM \<Rightarrow>
     UtxoVM \<times> (utxo_error + tx_input list \<times> string list \<times> int)" where
  "SelectUtxos env db fromAddr totalNeed needLock excludeUnconfirmed uv =
     (if totalNeed = 0 then (uv, Inr ([], [], 0))
      else
        let s0 = \<lparr>sel_vm = clearExpiredLocks (env_now env) uv, willLockKeys = [], sel_total = 0, txInputs = [], cacheKeys = {}, foundEnough = False\<rparr>;
            (s1, err1) = selectCached env fromAddr totalNeed needLock excludeUnconfirmed
                           (map_order env (level2 (Available (vm_Cache (sel_vm s0))) fromAddr)) s0
        in case err1 of
             Some e \<Rightarrow> (sel_vm s1, Inl e)
           | None \<Rightarrow>
               (let (s2, err2) =
                  (if foundEnough s1 then (s1, None)
                   else let (prev, middleKey) = lru_Get (PrevFoundKeyCache (sel_vm s1)) fromAddr
                        in selectStored env fromAddr totalNeed needLock excludeUnconfirmed
                             (NewQuickIterator (utxoTable db) (UTXOTablePrefix @ fromAddr @ ''_'') middleKey)
                             (s1\<lparr>sel_vm := (sel_vm s1)\<lparr>PrevFoundKeyCache := prev\<rparr>\<rparr>))
                in case err2 of
                     Some e \<Rightarrow> (sel_vm s2, Inl e)
                   | None \<Rightarrow>
                       if foundEnough s2 then (sel_vm s2, Inr (txInputs s2, willLockKeys s2, sel_total s2))
                       else (foldl (\<lambda>vm lk. UnlockKey lk vm) (sel_vm s2) (willLockKeys s2), Inl ErrNoEnoughUTXO)))"

section \<open>Balances\<close>

text \<open>The cached balance is changed in place; an address without one is marked as changed instead.\<close>

definition addDelta :: "string \<Rightarrow> int \<Rightarrow> UtxoVM \<Rightarrow> UtxoVM" where
  "addDelta addr delta uv =
     (case lru_Get (BalanceCache uv) addr of
        (bc, Some balance) \<Rightarrow>
          uv\<lparr>BalanceCache := bc\<lparr>lru := setValue (the (cache bc addr)) (balance + delta) (lru bc)\<rparr>\<rparr>
      | (bc, None) \<Rightarrow>
          uv\<lparr>BalanceCache := bc, BalanceViewDirty := (BalanceViewDirty uv)(addr := BalanceViewDirty uv addr + 1)\<rparr>)"

definition AddBalance :: "bytes \<Rightarrow> int \<Rightarrow> UtxoVM \<Rightarrow> UtxoVM" where
  "AddBalance addr delta = addDelta (elems addr) delta"

definition SubBalance :: "bytes \<Rightarrow> int \<Rightarrow> UtxoVM \<Rightarrow> UtxoVM" where
  "SubBalance addr delta = addDelta (elems addr) (- delta)"

definition scanBalance :: "state_db \<Rightarrow> string \<Rightarrow> int" where
  "scanBalance db addr = (\<Sum>(k, uItem) \<leftarrow> NewIteratorWithPrefix (utxoTable db) (UTXOTablePrefix @ addr @ ''_''). ui_Amount uItem)"

text \<open>
  \<open>GetBalance\<close> takes no lock while it scans the table. It is split where other operations may come in
  between: \<open>GetBalanceView\<close> looks into the cache and notes the mark of the address, then the table is
  scanned, and \<open>GetBalanceFill\<close> fills the cache unless the mark has changed.
\<close>

definition GetBalanceView :: "string \<Rightarrow> UtxoVM \<Rightarrow> UtxoVM \<times> (int + int)" where
  "GetBalanceView addr uv =
     (case lru_Get (BalanceCache uv) addr of
        (bc, Some balance) \<Rightarrow> (uv\<lparr>BalanceCache := bc\<rparr>, Inl balance)
      | (bc, None) \<Rightarrow> (uv\<lparr>BalanceCache := bc\<rparr>, Inr (BalanceViewDirty uv addr)))"

definition GetBalanceFill :: "string \<Rightarrow> int \<Rightarrow> int \<Rightarrow> UtxoVM \<Rightarrow> UtxoVM" where
  "GetBalanceFill addr myBalanceView scanned uv =
     (if myBalanceView \<noteq> BalanceViewDirty uv addr then uv
      else case lru_Get (BalanceCache uv) addr of
        (bc, Some balance) \<Rightarrow> uv\<lparr>BalanceCache := bc\<rparr>
      | (bc, None) \<Rightarrow>
          uv\<lparr>BalanceCache := fst (lru_Add bc addr scanned), BalanceViewDirty := (BalanceViewDirty uv)(addr := 0)\<rparr>)"

definition GetBalance :: "state_db \<Rightarrow> string \<Rightarrow> UtxoVM \<Rightarrow> UtxoVM \<times> int" where
  "GetBalance db addr uv =
     (case GetBalanceView addr uv of
        (uv1, Inl balance) \<Rightarrow> (uv1, balance)
      | (uv1, Inr view) \<Rightarrow> (GetBalanceFill addr view (scanBalance db addr) uv1, scanBalance db addr))"

text \<open>\<open>GetFrozenBalance\<close> and the two sums of \<open>GetBalanceDetail\<close>.\<close>

definition frozen_at :: "int \<Rightarrow> UtxoItem \<Rightarrow> bool" where
  "frozen_at curHeight uItem \<longleftrightarrow> \<not> (ui_FrozenHeight uItem \<le> curHeight \<and> ui_FrozenHeight uItem \<noteq> - 1)"

definition GetFrozenBalance :: "state_db \<Rightarrow> int \<Rightarrow> string \<Rightarrow> int" where
  "GetFrozenBalance db curHeight addr =
     (\<Sum>(k, uItem) \<leftarrow> filter (\<lambda>e. frozen_at curHeight (snd e)) (NewIteratorWithPrefix (utxoTable db) (UTXOTablePrefix @ addr @ ''_'')).
        ui_Amount uItem)"

definition GetBalanceDetail :: "state_db \<Rightarrow> int \<Rightarrow> string \<Rightarrow> int \<times> int" where
  "GetBalanceDetail db curHeight addr =
     (GetFrozenBalance db curHeight addr,
      \<Sum>(k, uItem) \<leftarrow> filter (\<lambda>e. \<not> frozen_at curHeight (snd e)) (NewIteratorWithPrefix (utxoTable db) (UTXOTablePrefix @ addr @ ''_'')).
        ui_Amount uItem)"

end
