(* ===== verification/XModel.thy ===== *)
theory XModel
  imports Utxo
begin

text \<open>
  The extended state (\<^verbatim>\<open>state/model\<close>): the tables map a key to the version of its value, the
  transaction and the position of the output that wrote it; values are fetched from that transaction. A transaction
  states the versions it has read, and is applied only if they are the current ones.
\<close>

section \<open>Versions\<close>

definition xm_DelFlag :: string where "xm_DelFlag = [CHR 0x00]"

definition isDelFlag :: "bytes \<Rightarrow> bool" where
  "isDelFlag value \<longleftrightarrow> elems value = xm_DelFlag"

definition xm_makeRawKey :: "string \<Rightarrow> bytes \<Rightarrow> string" where
  "xm_makeRawKey bucket key = bucket @ ''/'' @ elems key"

definition MakeVersion :: "bytes \<Rightarrow> int \<Rightarrow> string" where
  "MakeVersion txid offset = F txid @ ''_'' @ dec_string offset"

definition GetVersion :: "versioned \<Rightarrow> string" where
  "GetVersion vd = (if vd_RefTxid vd = None then [] else MakeVersion (vd_RefTxid vd) (vd_RefOffset vd))"

definition GetVersionOfTxInput :: "tx_input_ext \<Rightarrow> string" where
  "GetVersionOfTxInput txIn = (if xin_RefTxid txIn = None then [] else MakeVersion (xin_RefTxid txIn) (xin_RefOffset txIn))"

text \<open>The scan of \<open>%x_%d\<close>: pairs of hexadecimal digits, at least one, an underscore and a number.\<close>

definition parseVersion :: "string \<Rightarrow> (bytes \<times> int) option" where
  "parseVersion version =
     (let digits = takeWhile (\<lambda>c. unhex c \<noteq> None) version; rest = dropWhile (\<lambda>c. unhex c \<noteq> None) version
      in if digits = [] then None
         else case (hex_DecodeString digits, rest) of
           (Some txid, c # number) \<Rightarrow>
             if c \<noteq> CHR ''_'' then None else map_option (Pair (Some txid)) (Atoi number)
         | _ \<Rightarrow> None)"

definition makeEmptyVersionedData :: "string \<Rightarrow> bytes \<Rightarrow> versioned" where
  "makeEmptyVersionedData bucket key =
     \<lparr>vd_RefTxid = None, vd_RefOffset = 0, vd_Data = \<lparr>xout_Bucket = bucket, xout_Key = key, xout_Value = None\<rparr>\<rparr>"

definition GetTxInputs :: "versioned list \<Rightarrow> tx_input_ext list" where
  "GetTxInputs vds = map (\<lambda>vd. \<lparr>xin_Bucket = xout_Bucket (vd_Data vd), xin_Key = xout_Key (vd_Data vd),
     xin_RefTxid = vd_RefTxid vd, xin_RefOffset = vd_RefOffset vd\<rparr>) vds"

section \<open>The model\<close>

datatype xm_error = ErrXmParse | ErrXmQuery | ErrXmOffset | ErrXmVersion | ErrXmNoInput | ErrXmNoValue | ErrXmPanic

text \<open>
  The ledger is an argument: its confirmed transactions. \<open>xm_batchCache\<close> holds the versions that
  the current batch has written, \<open>extUtxoCache\<close> for each bucket the values of recent versions.
\<close>

record XModel =
  xm_batchCache :: "string \<rightharpoonup> string"
  xm_lastBatch :: "nat option"
  extUtxoCache :: "string \<Rightarrow> (string, versioned) LRUCache"

definition bucketExtUTXOCacheSize :: int where "bucketExtUTXOCacheSize = 1024"

definition NewXModel :: XModel where
  "NewXModel = \<lparr>xm_batchCache = Map.empty, xm_lastBatch = None, extUtxoCache = (\<lambda>_. NewLRUCache bucketExtUTXOCacheSize)\<rparr>"

definition cleanCache :: "nat option \<Rightarrow> XModel \<Rightarrow> XModel" where
  "cleanCache newBatch s = (if newBatch \<noteq> xm_lastBatch s then s\<lparr>xm_batchCache := Map.empty, xm_lastBatch := newBatch\<rparr> else s)"

definition bucketCacheStore :: "string \<Rightarrow> string \<Rightarrow> versioned \<Rightarrow> XModel \<Rightarrow> XModel" where
  "bucketCacheStore bucket version value s =
     s\<lparr>extUtxoCache := (extUtxoCache s)(bucket := fst (lru_Add (extUtxoCache s bucket) version value))\<rparr>"

definition bucketCacheGet :: "string \<Rightarrow> string \<Rightarrow> XModel \<Rightarrow> XModel \<times> versioned option" where
  "bucketCacheGet bucket version s =
     (case lru_Get (extUtxoCache s bucket) version of
        (c, value) \<Rightarrow> (s\<lparr>extUtxoCache := (extUtxoCache s)(bucket := c)\<rparr>, value))"

definition queryTx :: "(string \<Rightarrow> transaction option) \<Rightarrow> state_db \<Rightarrow> bytes \<Rightarrow> (transaction \<times> bool) option" where
  "queryTx ledger db txid =
     (case map_of (unconfirmTable db) (elems txid) of
        Some tx \<Rightarrow> Some (tx, False)
      | None \<Rightarrow> map_option (\<lambda>tx. (tx, True)) (ledger (elems txid)))"

text \<open>A negative offset is an index out of range.\<close>

definition outputAt :: "bytes \<Rightarrow> int \<Rightarrow> transaction \<Rightarrow> xm_error + versioned" where
  "outputAt txid offset tx =
     (if offset \<ge> int (length (elems (TxOutputsExt tx))) then Inl ErrXmOffset
      else if offset < 0 then Inl ErrXmPanic
      else Inr \<lparr>vd_RefTxid = txid, vd_RefOffset = i32 offset, vd_Data = elems (TxOutputsExt tx) ! nat offset\<rparr>)"

definition fetchVersionedData ::
    "(string \<Rightarrow> transaction option) \<Rightarrow> state_db \<Rightarrow> string \<Rightarrow> string \<Rightarrow> XModel \<Rightarrow> XModel \<times> (xm_error + versioned)" where
  "fetchVersionedData ledger db bucket version s =
     (case bucketCacheGet bucket version s of
        (s1, Some value) \<Rightarrow> (s1, Inr value)
      | (s1, None) \<Rightarrow>
          (case parseVersion version of
             None \<Rightarrow> (s1, Inl ErrXmParse)
           | Some (txid, offset) \<Rightarrow>
               (case queryTx ledger db txid of
                  None \<Rightarrow> (s1, Inl ErrXmQuery)
                | Some (tx, confirmed) \<Rightarrow>
                    (case outputAt txid offset tx of
                       Inl e \<Rightarrow> (s1, Inl e)
                     | Inr value \<Rightarrow> (bucketCacheStore bucket version value s1, Inr value)))))"

definition xmGet :: "(string \<Rightarrow> transaction option) \<Rightarrow> state_db \<Rightarrow> string \<Rightarrow> bytes \<Rightarrow> XModel \<Rightarrow> XModel \<times> (xm_error + versioned)" where
  "xmGet ledger db bucket key s =
     (let rawKey = xm_makeRawKey bucket key
      in case map_of (extUtxoTable db) rawKey of
           Some version \<Rightarrow> fetchVersionedData ledger db bucket version s
         | None \<Rightarrow>
             (case map_of (extUtxoDelTable db) rawKey of
                Some version \<Rightarrow> fetchVersionedData ledger db bucket version s
              | None \<Rightarrow> (s, Inr (makeEmptyVersionedData bucket key))))"

definition GetUncommited :: "(string \<Rightarrow> transaction option) \<Rightarrow> state_db \<Rightarrow> string \<Rightarrow> bytes \<Rightarrow> XModel \<Rightarrow> XModel \<times> (xm_error + versioned)" where
  "GetUncommited ledger db bucket key s =
     (case xm_batchCache s (xm_makeRawKey bucket key) of
        Some version \<Rightarrow>
          if version = [] then (s, Inr (makeEmptyVersionedData bucket key))
          else fetchVersionedData ledger db bucket version s
      | None \<Rightarrow> xmGet ledger db bucket key s)"

definition GetFromLedger :: "(string \<Rightarrow> transaction option) \<Rightarrow> state_db \<Rightarrow> tx_input_ext \<Rightarrow> XModel \<Rightarrow> XModel \<times> (xm_error + versioned)" where
  "GetFromLedger ledger db txin s =
     (if xin_RefTxid txin = None then (s, Inr (makeEmptyVersionedData (xin_Bucket txin) (xin_Key txin)))
      else fetchVersionedData ledger db (xin_Bucket txin) (MakeVersion (xin_RefTxid txin) (xin_RefOffset txin)) s)"

section \<open>Applying a transaction\<close>

fun xm_verifyInputs ::
    "(string \<Rightarrow> transaction option) \<Rightarrow> state_db \<Rightarrow> bool \<Rightarrow> tx_input_ext list \<Rightarrow> XModel \<Rightarrow> XModel \<times> xm_error option" where
  "xm_verifyInputs ledger db inBlock [] s = (s, None)"
| "xm_verifyInputs ledger db inBlock (txIn # rest) s =
     (case (if inBlock then GetUncommited ledger db (xin_Bucket txIn) (xin_Key txIn) s
            else xmGet ledger db (xin_Bucket txIn) (xin_Key txIn) s) of
        (s1, Inl e) \<Rightarrow> (s1, Some e)
      | (s1, Inr verData) \<Rightarrow>
          if GetVersion verData \<noteq> GetVersionOfTxInput txIn then (s1, Some ErrXmVersion)
          else xm_verifyInputs ledger db inBlock rest s1)"

definition rawIn :: "tx_input_ext \<Rightarrow> string" where
  "rawIn txIn = xm_makeRawKey (xin_Bucket txIn) (xin_Key txIn)"

definition rawOut :: "tx_output_ext \<Rightarrow> string" where
  "rawOut txOut = xm_makeRawKey (xout_Bucket txOut) (xout_Key txOut)"

fun xm_verifyOutputs :: "string set \<Rightarrow> tx_output_ext list \<Rightarrow> xm_error option" where
  "xm_verifyOutputs inputKeys [] = None"
| "xm_verifyOutputs inputKeys (txOut # rest) =
     (if xout_Bucket txOut = model_TransientBucket then xm_verifyOutputs inputKeys rest
      else if rawOut txOut \<notin> inputKeys then Some ErrXmNoInput
      else if xout_Value txOut = None then Some ErrXmNoValue
      else xm_verifyOutputs inputKeys rest)"

fun updateExtUtxo :: "transaction \<Rightarrow> nat \<Rightarrow> tx_output_ext list \<Rightarrow> XModel \<times> batch \<Rightarrow> XModel \<times> batch" where
  "updateExtUtxo tx offset [] (s, b) = (s, b)"
| "updateExtUtxo tx offset (txOut # rest) (s, b) =
     (if xout_Bucket txOut = model_TransientBucket then updateExtUtxo tx (offset + 1) rest (s, b)
      else
        let bucketAndKey = rawOut txOut; valueVersion = MakeVersion (Txid tx) (i32 (int offset));
            b1 = (if isDelFlag (xout_Value txOut)
                  then batch_Put (batch_Put b (DelExt bucketAndKey)) (PutExtDel bucketAndKey valueVersion)
                  else batch_Put b (PutExt bucketAndKey valueVersion));
            s1 = (if elems (tx_Blockid tx) \<noteq> [] then s\<lparr>xm_batchCache := (xm_batchCache s)(bucketAndKey \<mapsto> valueVersion)\<rparr> else s)
        in updateExtUtxo tx (offset + 1) rest
             (bucketCacheStore (xout_Bucket txOut) valueVersion
                \<lparr>vd_RefTxid = Txid tx, vd_RefOffset = i32 (int offset), vd_Data = txOut\<rparr> s1, b1))"

definition xmDoTx ::
    "(string \<Rightarrow> transaction option) \<Rightarrow> state_db \<Rightarrow> transaction \<Rightarrow> XModel \<times> batch \<Rightarrow> (XModel \<times> batch) \<times> xm_error option" where
  "xmDoTx ledger db tx sb =
     (let (s, b) = sb; inBlock = (elems (tx_Blockid tx) \<noteq> []);
          s0 = (if inBlock then cleanCache (Some (batch_id b)) s else s)
      in case xm_verifyInputs ledger db inBlock (elems (TxInputsExt tx)) s0 of
           (s1, Some e) \<Rightarrow> ((s1, b), Some e)
         | (s1, None) \<Rightarrow>
             (case xm_verifyOutputs (set (map rawIn (elems (TxInputsExt tx)))) (elems (TxOutputsExt tx)) of
                Some e \<Rightarrow> ((s1, b), Some e)
              | None \<Rightarrow> (updateExtUtxo tx 0 (elems (TxOutputsExt tx)) (s1, b), None)))"

section \<open>Undoing a transaction\<close>

text \<open>The last input under a key counts.\<close>

definition inputVersion :: "tx_input_ext list \<Rightarrow> string \<Rightarrow> string" where
  "inputVersion txIns rawKey =
     (case map_of (rev (map (\<lambda>txIn. (rawIn txIn, GetVersionOfTxInput txIn)) txIns)) rawKey of None \<Rightarrow> [] | Some v \<Rightarrow> v)"

fun undoExtUtxo ::
    "(string \<Rightarrow> transaction option) \<Rightarrow> state_db \<Rightarrow> tx_input_ext list \<Rightarrow> tx_output_ext list \<Rightarrow> XModel \<times> batch \<Rightarrow> (XModel \<times> batch) \<times> xm_error option" where
  "undoExtUtxo ledger db txIns [] sb = (sb, None)"
| "undoExtUtxo ledger db txIns (txOut # rest) (s, b) =
     (if xout_Bucket txOut = model_TransientBucket then undoExtUtxo ledger db txIns rest (s, b)
      else
        let bucketAndKey = rawOut txOut; previousVersion = inputVersion txIns bucketAndKey
        in if previousVersion = [] then
             undoExtUtxo ledger db txIns rest
               (s\<lparr>xm_batchCache := (xm_batchCache s)(bucketAndKey \<mapsto> [])\<rparr>, batch_Put b (DelExt bucketAndKey))
           else case fetchVersionedData ledger db (xout_Bucket txOut) previousVersion s of
             (s1, Inl e) \<Rightarrow> ((s1, b), Some e)
           | (s1, Inr verData) \<Rightarrow>
               undoExtUtxo ledger db txIns rest
                 (s1\<lparr>xm_batchCache := (xm_batchCache s1)(bucketAndKey \<mapsto> previousVersion)\<rparr>,
                  if isDelFlag (xout_Value (vd_Data verData))
                  then batch_Put (batch_Put b (PutExtDel bucketAndKey previousVersion)) (DelExt bucketAndKey)
                  else if isDelFlag (xout_Value txOut)
                  then batch_Put (batch_Put b (PutExt bucketAndKey previousVersion)) (DelExtDel bucketAndKey)
                  else batch_Put b (PutExt bucketAndKey previousVersion)))"

definition xmUndoTx ::
    "(string \<Rightarrow> transaction option) \<Rightarrow> state_db \<Rightarrow> transaction \<Rightarrow> XModel \<times> batch \<Rightarrow> (XModel \<times> batch) \<times> xm_error option" where
  "xmUndoTx ledger db tx sb =
     (let (s, b) = sb
      in undoExtUtxo ledger db (elems (TxInputsExt tx)) (elems (TxOutputsExt tx)) (cleanCache (Some (batch_id b)) s, b))"

end
