(* ===== verification/SpinLock.thy ===== *)
theory SpinLock
  imports VerifyTx
begin

text \<open>
  Locks on the keys of a transaction (\<^verbatim>\<open>state/utxo/spin_lock.go\<close>). Transactions that are posted
  at the same time run concurrently, and each first takes locks on the outputs it spends and creates, on the keys it
  writes (exclusive) and on the keys it only reads (shared). Locking and unlocking are not atomic: threads
  interleave at every access to the map of locks and to the counter of shared locks.
\<close>

section \<open>Locks\<close>

datatype lock_type = sharedLock | exclusiveLock

record LockKey =
  lockType :: lock_type
  lk_key :: string

record SpinLock =
  sp_m :: "string \<rightharpoonup> lock_type"
  ctMap :: "string \<Rightarrow> int"

definition NewSpinLock :: SpinLock where
  "NewSpinLock = \<lparr>sp_m = Map.empty, ctMap = (\<lambda>_. 0)\<rparr>"

definition exclusive :: "string \<Rightarrow> LockKey" where
  "exclusive k = \<lparr>lockType = exclusiveLock, lk_key = k\<rparr>"

definition shared :: "string \<Rightarrow> LockKey" where
  "shared k = \<lparr>lockType = sharedLock, lk_key = k\<rparr>"

fun dedupKeys :: "LockKey list \<Rightarrow> LockKey list" where
  "dedupKeys (a # b # ks) = (if lk_key a = lk_key b then dedupKeys (a # ks) else a # dedupKeys (b # ks))"
| "dedupKeys ks = ks"

definition spendLocks :: "transaction \<Rightarrow> LockKey list" where
  "spendLocks tx = map (\<lambda>i. exclusive (elems (RefTxid i) @ ''_'' @ dec_string (RefOffset i))) (TxInputs tx)"

definition createLocks :: "transaction \<Rightarrow> LockKey list" where
  "createLocks tx = map (\<lambda>offset. exclusive (elems (Txid tx) @ ''_'' @ dec_string (int offset))) [0..<length (TxOutputs tx)]"

definition writeKeys :: "transaction \<Rightarrow> string list" where
  "writeKeys tx =
     remdups (map (\<lambda>x. xout_Bucket x @ ''/'' @ elems (xout_Key x))
       (filter (\<lambda>x. xout_Bucket x \<noteq> model_TransientBucket) (elems (TxOutputsExt tx))))"

definition readKeys :: "transaction \<Rightarrow> string list" where
  "readKeys tx =
     filter (\<lambda>k. k \<notin> set (writeKeys tx)) (remdups (map (\<lambda>x. xin_Bucket x @ ''/'' @ elems (xin_Key x)) (elems (TxInputsExt tx))))"

text \<open>The keys are sorted, and of equal ones the first is kept.\<close>

definition ExtractLockKeys :: "transaction \<Rightarrow> LockKey list" where
  "ExtractLockKeys tx =
     dedupKeys (sort_key lk_key (spendLocks tx @ createLocks tx @ map shared (readKeys tx) @ map exclusive (writeKeys tx)))"

section \<open>Locking without interruption\<close>

definition refAdd :: "string \<Rightarrow> SpinLock \<Rightarrow> SpinLock" where
  "refAdd k sp = sp\<lparr>ctMap := (ctMap sp)(k := ctMap sp k + 1)\<rparr>"

definition refRelease :: "string \<Rightarrow> SpinLock \<Rightarrow> SpinLock" where
  "refRelease k sp = sp\<lparr>ctMap := (ctMap sp)(k := ctMap sp k - 1)\<rparr>"

definition lockDelete :: "string \<Rightarrow> SpinLock \<Rightarrow> SpinLock" where
  "lockDelete k sp = sp\<lparr>sp_m := (sp_m sp)(k := None)\<rparr>"

text \<open>\<open>LoadOrStore\<close>: what is there, or the new entry. The flag tells whether the lock is obtained.\<close>

definition acquire :: "LockKey \<Rightarrow> SpinLock \<Rightarrow> SpinLock \<times> bool" where
  "acquire k sp =
     (case sp_m sp (lk_key k) of
        None \<Rightarrow> (sp\<lparr>sp_m := (sp_m sp)(lk_key k \<mapsto> lockType k)\<rparr>, True)
      | Some t \<Rightarrow> (sp, t = sharedLock \<and> lockType k = sharedLock))"

fun TryLock :: "LockKey list \<Rightarrow> LockKey list \<Rightarrow> SpinLock \<Rightarrow> SpinLock \<times> LockKey list \<times> bool" where
  "TryLock [] succLocked sp = (sp, succLocked, True)"
| "TryLock (k # ks) succLocked sp =
     (case acquire k sp of
        (sp1, False) \<Rightarrow> (sp1, succLocked, False)
      | (sp1, True) \<Rightarrow>
          TryLock ks (succLocked @ [k]) (if lockType k = sharedLock then refAdd (lk_key k) sp1 else sp1))"

definition unlockOne :: "LockKey \<Rightarrow> SpinLock \<Rightarrow> SpinLock" where
  "unlockOne k sp =
     (if lockType k = exclusiveLock then lockDelete (lk_key k) sp
      else let sp1 = refRelease (lk_key k) sp in if ctMap sp1 (lk_key k) = 0 then lockDelete (lk_key k) sp1 else sp1)"

definition Unlock :: "LockKey list \<Rightarrow> SpinLock \<Rightarrow> SpinLock" where
  "Unlock lockKeys sp = fold unlockOne (rev lockKeys) sp"

section \<open>Threads\<close>

text \<open>
  A thread tries its keys one after the other, holds them, and gives them back in the reverse order; when a
  key is taken it gives back what it has got. \<open>Adding\<close> and \<open>Deleting\<close> are the points between two
  accesses to the shared data where other threads may run.
\<close>

datatype thread =
    Locking "LockKey list" "LockKey list"
  | Adding LockKey "LockKey list" "LockKey list"
  | Holding "LockKey list"
  | Unlocking "LockKey list"
  | Deleting LockKey "LockKey list"

record locks =
  the_lock :: SpinLock
  threads :: "nat \<Rightarrow> thread"

inductive thread_step :: "SpinLock \<Rightarrow> thread \<Rightarrow> SpinLock \<Rightarrow> thread \<Rightarrow> bool" where
  got_exclusive: "acquire k sp = (sp', True) \<Longrightarrow> lockType k = exclusiveLock \<Longrightarrow>
    thread_step sp (Locking (k # ks) got) sp' (Locking ks (got @ [k]))"
| got_shared: "acquire k sp = (sp', True) \<Longrightarrow> lockType k = sharedLock \<Longrightarrow>
    thread_step sp (Locking (k # ks) got) sp' (Adding k ks got)"
| not_got: "acquire k sp = (sp', False) \<Longrightarrow> thread_step sp (Locking (k # ks) got) sp' (Unlocking (rev got))"
| counted: "thread_step sp (Adding k ks got) (refAdd (lk_key k) sp) (Locking ks (got @ [k]))"
| got_all: "thread_step sp (Locking [] got) sp (Holding got)"
| done_work: "thread_step sp (Holding got) sp (Unlocking (rev got))"
| give_exclusive: "lockType k = exclusiveLock \<Longrightarrow>
    thread_step sp (Unlocking (k # ks)) (lockDelete (lk_key k) sp) (Unlocking ks)"
| give_last: "lockType k = sharedLock \<Longrightarrow> ctMap (refRelease (lk_key k) sp) (lk_key k) = 0 \<Longrightarrow>
    thread_step sp (Unlocking (k # ks)) (refRelease (lk_key k) sp) (Deleting k ks)"
| give_shared: "lockType k = sharedLock \<Longrightarrow> ctMap (refRelease (lk_key k) sp) (lk_key k) \<noteq> 0 \<Longrightarrow>
    thread_step sp (Unlocking (k # ks)) (refRelease (lk_key k) sp) (Unlocking ks)"
| delete_shared: "thread_step sp (Deleting k ks) (lockDelete (lk_key k) sp) (Unlocking ks)"

inductive lock_step :: "locks \<Rightarrow> locks \<Rightarrow> bool" where
  "thread_step (the_lock s) (threads s i) sp t \<Longrightarrow>
    lock_step s (s\<lparr>the_lock := sp, threads := (threads s)(i := t)\<rparr>)"

inductive_cases lock_stepE: "lock_step s s'"

definition start_locks :: "(nat \<Rightarrow> transaction) \<Rightarrow> locks" where
  "start_locks txs = \<lparr>the_lock = NewSpinLock, threads = (\<lambda>i. Locking (ExtractLockKeys (txs i)) [])\<rparr>"

section \<open>Which keys are locked\<close>

definition exclusiveKeys :: "transaction \<Rightarrow> string set" where
  "exclusiveKeys tx = lk_key ` set (spendLocks tx @ createLocks tx) \<union> set (writeKeys tx)"

lemma set_dedupKeys: "lk_key ` set (dedupKeys ks) = lk_key ` set ks" "set (dedupKeys ks) \<subseteq> set ks"
  by (induction ks rule: dedupKeys.induct) auto

lemma distinct_dedupKeys: "sorted (map lk_key ks) \<Longrightarrow> distinct (map lk_key (dedupKeys ks))"
proof (induction ks rule: dedupKeys.induct)
  case (1 a b ks)
  show ?case
  proof (cases "lk_key a = lk_key b")
    case False
    have "lk_key a < lk_key x" if "x \<in> set (b # ks)" for x
      using "1.prems" False that by (auto intro: less_le_trans simp: order_less_le)
    then have "lk_key a \<notin> lk_key ` set (b # ks)" by force
    then show ?thesis using 1 False set_dedupKeys(1) [of "b # ks"] by simp
  qed (use 1 in simp)
qed simp_all

lemma keys_ExtractLockKeys: "lk_key ` set (ExtractLockKeys tx) = exclusiveKeys tx \<union> set (readKeys tx)"
  by (simp add: ExtractLockKeys_def set_dedupKeys(1) exclusiveKeys_def shared_def exclusive_def image_Un image_image Un_ac)

lemma distinct_ExtractLockKeys: "distinct (map lk_key (ExtractLockKeys tx))"
  unfolding ExtractLockKeys_def by (rule distinct_dedupKeys) simp

lemma ExtractLockKeys_shared: "x \<in> set (ExtractLockKeys tx) \<Longrightarrow> lockType x = sharedLock \<Longrightarrow> lk_key x \<in> set (readKeys tx)"
proof -
  assume x: "x \<in> set (ExtractLockKeys tx)" "lockType x = sharedLock"
  then have "x \<in> set (spendLocks tx @ createLocks tx @ map shared (readKeys tx) @ map exclusive (writeKeys tx))"
    unfolding ExtractLockKeys_def using set_dedupKeys(2) by fastforce
  then show ?thesis using x(2) by (auto simp: spendLocks_def createLocks_def shared_def exclusive_def)
qed

section \<open>Exclusion\<close>

text \<open>The keys a thread has locked, and the ones it will still try.\<close>

fun owned :: "thread \<Rightarrow> LockKey list" where
  "owned (Locking ks got) = got"
| "owned (Adding k ks got) = got"
| "owned (Holding got) = got"
| "owned (Unlocking ks) = ks"
| "owned (Deleting k ks) = ks"

fun pending :: "thread \<Rightarrow> LockKey list" where
  "pending (Locking ks got) = ks"
| "pending (Adding k ks got) = k # ks"
| "pending (Deleting k ks) = [k]"
| "pending t = []"

definition keys_of :: "LockKey list \<Rightarrow> string set" where
  "keys_of ks = lk_key ` set ks"

lemma keys_of_simps [simp]: "keys_of [] = {}" "keys_of (k # ks) = insert (lk_key k) (keys_of ks)"
    "keys_of (ks @ ls) = keys_of ks \<union> keys_of ls" "keys_of (rev ks) = keys_of ks"
  by (auto simp: keys_of_def)

text \<open>No thread takes \<open>k\<close> as a shared lock, and none tries a key twice.\<close>

definition plain_thread :: "string \<Rightarrow> thread \<Rightarrow> bool" where
  "plain_thread k t \<longleftrightarrow>
     distinct (map lk_key (owned t @ pending t)) \<and>
     (\<forall>x \<in> set (owned t @ pending t). lk_key x = k \<longrightarrow> lockType x = exclusiveLock) \<and>
     (case t of Adding x ks got \<Rightarrow> lockType x = sharedLock | Deleting x ks \<Rightarrow> lockType x = sharedLock | _ \<Rightarrow> True)"

text \<open>At most one thread has the key, and then the key is in the map.\<close>

definition exclusion :: "string \<Rightarrow> locks \<Rightarrow> bool" where
  "exclusion k s \<longleftrightarrow>
     (\<forall>i. plain_thread k (threads s i)) \<and>
     (\<forall>i. k \<in> keys_of (owned (threads s i)) \<longrightarrow> sp_m (the_lock s) k \<noteq> None) \<and>
     (\<forall>i j. k \<in> keys_of (owned (threads s i)) \<longrightarrow> k \<in> keys_of (owned (threads s j)) \<longrightarrow> i = j)"

lemma acquire_map:
  assumes "acquire x sp = (sp', ok)"
  shows "sp_m sp' k = (if ok \<and> k = lk_key x \<and> sp_m sp k = None then Some (lockType x) else sp_m sp k)"
  using assms by (auto simp: acquire_def split: option.splits)

lemma acquire_exclusive:
  assumes "acquire x sp = (sp', True)" "lockType x = exclusiveLock"
  shows "sp_m sp (lk_key x) = None"
  using assms by (auto simp: acquire_def split: option.splits)

lemma plain_thread_step:
  assumes "thread_step sp t sp' t'" "plain_thread k t"
  shows "plain_thread k t'"
  using assms by (cases rule: thread_step.cases) (auto simp: plain_thread_def rev_map [symmetric])

lemma thread_step_gains:
  assumes "thread_step sp t sp' t'" "plain_thread k t" "k \<in> keys_of (owned t')" "k \<notin> keys_of (owned t)"
  shows "sp_m sp k = None \<and> sp_m sp' k \<noteq> None"
  using assms
  by (cases rule: thread_step.cases)
    (auto simp: plain_thread_def acquire_map dest: acquire_exclusive)

lemma thread_step_drops:
  assumes "thread_step sp t sp' t'" "plain_thread k t" "sp_m sp' k = None" "sp_m sp k \<noteq> None"
  shows "k \<in> keys_of (owned t) \<and> k \<notin> keys_of (owned t')"
  using assms
proof (cases rule: thread_step.cases)
  case (give_exclusive x ks)
  then show ?thesis using assms
    by (auto simp: plain_thread_def lockDelete_def keys_of_def split: if_splits)
next
  case (delete_shared x ks)
  then show ?thesis using assms by (auto simp: plain_thread_def lockDelete_def split: if_splits)
qed (use assms in \<open>auto simp: acquire_map refAdd_def refRelease_def split: if_splits\<close>)

interpretation exclude: step_invariant lock_step "exclusion k"
proof
  fix s s'
  assume "lock_step s s'" and inv: "exclusion k s"
  from this(1) obtain i sp t where step: "thread_step (the_lock s) (threads s i) sp t"
      and s': "s' = s\<lparr>the_lock := sp, threads := (threads s)(i := t)\<rparr>"
    by (cases rule: lock_step.cases)
  have plain: "plain_thread k (threads s n)" for n using inv by (simp add: exclusion_def)
  have held: "k \<in> keys_of (owned (threads s n)) \<Longrightarrow> sp_m (the_lock s) k \<noteq> None" for n
    using inv unfolding exclusion_def by blast
  have one: "k \<in> keys_of (owned (threads s n)) \<Longrightarrow> k \<in> keys_of (owned (threads s m)) \<Longrightarrow> n = m" for n m
    using inv unfolding exclusion_def by blast
  note gains = thread_step_gains [OF step plain] and drops = thread_step_drops [OF step plain]
  have held': "sp_m sp k \<noteq> None" if n: "k \<in> keys_of (owned (((threads s)(i := t)) n))" for n
  proof
    assume none: "sp_m sp k = None"
    show False
    proof (cases "n = i")
      case True
      then have "k \<in> keys_of (owned t)" using n by simp
      then have "k \<in> keys_of (owned (threads s i))" using gains none by blast
      then have "k \<notin> keys_of (owned t)" using held drops none by blast
      then show False using \<open>k \<in> keys_of (owned t)\<close> by simp
    next
      case False
      then have "k \<in> keys_of (owned (threads s n))" using n by simp
      moreover from this have "k \<in> keys_of (owned (threads s i))" using held drops none by blast
      ultimately show False using one False by blast
    qed
  qed
  have one': "n = i" if "k \<in> keys_of (owned t)" "k \<in> keys_of (owned (threads s n))" for n
  proof (rule one)
    show "k \<in> keys_of (owned (threads s n))" by (rule that(2))
    show "k \<in> keys_of (owned (threads s i))" using gains that(1) held [OF that(2)] by blast
  qed
  have plain': "plain_thread k (((threads s)(i := t)) n)" for n
    using plain plain_thread_step [OF step plain] by simp
  have only: "n = m" if "k \<in> keys_of (owned (((threads s)(i := t)) n))" "k \<in> keys_of (owned (((threads s)(i := t)) m))" for n m
  proof (cases "n = i"; cases "m = i")
    assume "n = i" "m \<noteq> i"
    then show "n = m" using that one' by auto
  next
    assume "n \<noteq> i" "m = i"
    then show "n = m" using that one' by auto
  next
    assume "n \<noteq> i" "m \<noteq> i"
    then have "k \<in> keys_of (owned (threads s n))" "k \<in> keys_of (owned (threads s m))" using that by simp_all
    then show "n = m" by (rule one)
  qed simp
  have s'_simps: "threads s' = (threads s)(i := t)" "the_lock s' = sp" by (simp_all add: s')
  show "exclusion k s'"
    unfolding exclusion_def s'_simps using plain' held' only by blast
qed

text \<open>What a thread has and what it still tries are together the keys of its transaction.\<close>

definition follows :: "(nat \<Rightarrow> transaction) \<Rightarrow> locks \<Rightarrow> bool" where
  "follows txs s \<longleftrightarrow>
     (\<forall>i. case threads s i of
        Locking ks got \<Rightarrow> got @ ks = ExtractLockKeys (txs i)
      | Adding k ks got \<Rightarrow> got @ k # ks = ExtractLockKeys (txs i)
      | Holding got \<Rightarrow> got = ExtractLockKeys (txs i)
      | _ \<Rightarrow> True)"

interpretation follow: step_invariant lock_step "follows txs"
proof
  fix s s'
  assume "lock_step s s'" and inv: "follows txs s"
  from this(1) obtain i sp t where step: "thread_step (the_lock s) (threads s i) sp t"
      and s': "s' = s\<lparr>the_lock := sp, threads := (threads s)(i := t)\<rparr>"
    by (cases rule: lock_step.cases)
  have i: "case threads s i of Locking ks got \<Rightarrow> got @ ks = ExtractLockKeys (txs i)
      | Adding k ks got \<Rightarrow> got @ k # ks = ExtractLockKeys (txs i) | Holding got \<Rightarrow> got = ExtractLockKeys (txs i) | _ \<Rightarrow> True"
    using inv by (simp add: follows_def)
  from step i have "case t of Locking ks got \<Rightarrow> got @ ks = ExtractLockKeys (txs i)
      | Adding k ks got \<Rightarrow> got @ k # ks = ExtractLockKeys (txs i) | Holding got \<Rightarrow> got = ExtractLockKeys (txs i) | _ \<Rightarrow> True"
    by (cases rule: thread_step.cases) auto
  then show "follows txs s'" using inv by (simp add: follows_def s')
qed

lemma follows_Holding: "follows txs s \<Longrightarrow> threads s i = Holding got \<Longrightarrow> got = ExtractLockKeys (txs i)"
  unfolding follows_def by (drule spec [of _ i]) simp

text \<open>\<open>TryLock\<close> and \<open>Unlock\<close> are the runs of a thread that is not interrupted.\<close>

lemma run_thread:
  assumes "run lock_step s0 s" "thread_step (the_lock s) (threads s i) sp t"
  shows "run lock_step s0 (s\<lparr>the_lock := sp, threads := (threads s)(i := t)\<rparr>)"
  using assms by (blast intro: run_step lock_step.intros)

lemma run_TryLock:
  assumes "run lock_step s0 s" "threads s i = Locking ks got" "TryLock ks got (the_lock s) = (sp, succ, True)"
  shows "run lock_step s0 (s\<lparr>the_lock := sp, threads := (threads s)(i := Holding succ)\<rparr>)"
  using assms
proof (induction ks arbitrary: s got)
  case Nil
  then have eqs: "sp = the_lock s" "succ = got" by simp_all
  show ?case unfolding eqs by (rule run_thread [OF Nil.prems(1)]) (simp add: Nil.prems(2) got_all)
next
  case (Cons k ks)
  note IH = Cons.IH and prems = Cons.prems
  obtain sp1 where acq: "acquire k (the_lock s) = (sp1, True)"
    using prems(3) by (cases "acquire k (the_lock s)") (auto split: bool.splits)
  show ?case
  proof (cases "lockType k")
    case exclusiveLock
    let ?s = "s\<lparr>the_lock := sp1, threads := (threads s)(i := Locking ks (got @ [k]))\<rparr>"
    have "run lock_step s0 ?s"
      using prems(1,2) acq exclusiveLock by (intro run_thread) (auto intro: got_exclusive)
    from IH [OF this, of "got @ [k]"] prems(3) acq exclusiveLock show ?thesis by (simp cong: if_cong)
  next
    case sharedLock
    let ?s1 = "s\<lparr>the_lock := sp1, threads := (threads s)(i := Adding k ks got)\<rparr>"
    let ?s2 = "?s1\<lparr>the_lock := refAdd (lk_key k) sp1, threads := (threads ?s1)(i := Locking ks (got @ [k]))\<rparr>"
    have "run lock_step s0 ?s1"
      using prems(1,2) acq sharedLock by (intro run_thread) (auto intro: got_shared)
    then have "run lock_step s0 ?s2" by (rule run_thread) (simp add: counted)
    from IH [OF this, of "got @ [k]"] prems(3) acq sharedLock show ?thesis by (simp cong: if_cong)
  qed
qed

lemma start_follows: "follows txs (start_locks txs)"
  by (simp add: follows_def start_locks_def)

lemma start_exclusion:
  assumes "\<And>i. k \<notin> set (readKeys (txs i))"
  shows "exclusion k (start_locks txs)"
proof -
  have "lockType x = exclusiveLock" if "x \<in> set (ExtractLockKeys (txs i))" "lk_key x = k" for x i
    using ExtractLockKeys_shared [OF that(1)] that(2) assms by (cases "lockType x") auto
  then show ?thesis
    by (simp add: exclusion_def start_locks_def plain_thread_def distinct_ExtractLockKeys)
qed

text \<open>
  C11. Transactions that run at the same time never spend the same output, create the same output or
  write the same key, however their threads interleave, as long as none of them only reads that key.
\<close>

theorem running_transactions_disjoint:
  assumes "run lock_step (start_locks txs) s" "i \<noteq> j" "threads s i = Holding a" "threads s j = Holding b"
    and "\<And>n. k \<notin> set (readKeys (txs n))"
  shows "k \<notin> exclusiveKeys (txs i) \<inter> exclusiveKeys (txs j)"
proof
  assume k: "k \<in> exclusiveKeys (txs i) \<inter> exclusiveKeys (txs j)"
  have "follows txs s" using follow.run_inv [OF assms(1) start_follows] .
  then have "a = ExtractLockKeys (txs i)" "b = ExtractLockKeys (txs j)"
    using assms(3,4) by (simp_all add: follows_Holding)
  then have "k \<in> keys_of (owned (threads s i))" "k \<in> keys_of (owned (threads s j))"
    using k assms(3,4) by (auto simp: keys_of_def keys_ExtractLockKeys)
  moreover have "exclusion k s" using exclude.run_inv [OF assms(1) start_exclusion [OF assms(5)]] .
  ultimately show False using assms(2) unfolding exclusion_def by blast
qed

text \<open>Two payments with different inputs hold their locks together.\<close>

definition two_payments :: "nat \<Rightarrow> transaction" where
  "two_payments i =
     (if i = 0 then plain_tx\<lparr>Txid := Some ''a''\<rparr>
      else plain_tx\<lparr>Txid := Some ''b'',
        TxInputs := [\<lparr>RefTxid = Some ''t2'', RefOffset = 0, FromAddr = Some ''alice'', in_Amount = Some ''5'', in_FrozenHeight = 0\<rparr>]\<rparr>)"

lemma two_payments_keys:
  "ExtractLockKeys (two_payments 0) = [exclusive ''a_0'', exclusive ''t1_0'']"
  "ExtractLockKeys (two_payments (Suc 0)) = [exclusive ''b_0'', exclusive ''t2_0'']"
  by code_simp+

lemma two_payments_reads: "readKeys (two_payments i) = []"
  by (simp add: readKeys_def two_payments_def plain_tx_def)

theorem running_transactions_disjoint_witness:
  "\<exists>s a b. run lock_step (start_locks two_payments) s \<and> threads s 0 = Holding a \<and> threads s (Suc 0) = Holding b \<and>
     ''t1_0'' \<in> exclusiveKeys (two_payments 0) \<and> ''t1_0'' \<notin> exclusiveKeys (two_payments 0) \<inter> exclusiveKeys (two_payments (Suc 0))"
proof -
  let ?s0 = "start_locks two_payments"
  let ?a = "[exclusive ''a_0'', exclusive ''t1_0'']" and ?b = "[exclusive ''b_0'', exclusive ''t2_0'']"
  obtain sp1 where sp1: "TryLock ?a [] (the_lock ?s0) = (sp1, ?a, True)" "TryLock ?b [] sp1 \<in> {r. snd r = (?b, True)}"
    by (simp add: start_locks_def NewSpinLock_def acquire_def exclusive_def)
  then obtain sp2 where sp2: "TryLock ?b [] sp1 = (sp2, ?b, True)" by (cases "TryLock ?b [] sp1") auto
  let ?s1 = "?s0\<lparr>the_lock := sp1, threads := (threads ?s0)(0 := Holding ?a)\<rparr>"
  let ?s2 = "?s1\<lparr>the_lock := sp2, threads := (threads ?s1)(Suc 0 := Holding ?b)\<rparr>"
  have "run lock_step ?s0 ?s1"
    by (rule run_TryLock [OF run_refl _ sp1(1)]) (simp add: start_locks_def two_payments_keys)
  then have s2: "run lock_step ?s0 ?s2"
    by (rule run_TryLock [where ks = ?b and got = "[]"]) (simp_all add: start_locks_def two_payments_keys sp2 del: TryLock.simps)
  have "''t1_0'' \<notin> exclusiveKeys (two_payments 0) \<inter> exclusiveKeys (two_payments (Suc 0))"
    by (rule running_transactions_disjoint [OF s2, of 0 "Suc 0" ?a ?b]) (simp_all add: two_payments_reads)
  moreover have "''t1_0'' \<in> exclusiveKeys (two_payments 0)" by code_simp
  ultimately show ?thesis using s2 by fastforce
qed

definition reader :: "string \<Rightarrow> transaction" where
  "reader txid = plain_tx\<lparr>Txid := Some txid, TxInputs := [], TxOutputs := [],
     TxInputsExt := Some [\<lparr>xin_Bucket = ''b'', xin_Key = Some ''k'', xin_RefTxid = None, xin_RefOffset = 0\<rparr>]\<rparr>"

definition writer :: "string \<Rightarrow> transaction" where
  "writer txid = (reader txid)\<lparr>TxOutputsExt := Some [\<lparr>xout_Bucket = ''b'', xout_Key = Some ''k'', xout_Value = Some ''v''\<rparr>]\<rparr>"

definition readers_and_writer :: "nat \<Rightarrow> transaction" where
  "readers_and_writer i = (if i < 2 then reader (dec_string (int i)) else writer (dec_string (int i)))"

lemma reader_keys: "ExtractLockKeys (reader txid) = [shared ''b/k'']"
  by (simp add: ExtractLockKeys_def spendLocks_def createLocks_def readKeys_def writeKeys_def reader_def plain_tx_def)

lemma writer_keys: "ExtractLockKeys (writer txid) = [exclusive ''b/k'']"
  by (simp add: ExtractLockKeys_def spendLocks_def createLocks_def readKeys_def writeKeys_def writer_def reader_def plain_tx_def
      model_TransientBucket_def)

definition three :: "locks \<Rightarrow> SpinLock \<Rightarrow> thread \<Rightarrow> thread \<Rightarrow> thread \<Rightarrow> locks" where
  "three s sp t0 t1 t2 = s\<lparr>the_lock := sp, threads := (threads s)(0 := t0, 1 := t1, 2 := t2)\<rparr>"

lemma three_step:
  "run lock_step s0 (three s sp t0 t1 t2) \<Longrightarrow> thread_step sp t0 sp' t \<Longrightarrow> run lock_step s0 (three s sp' t t1 t2)"
  "run lock_step s0 (three s sp t0 t1 t2) \<Longrightarrow> thread_step sp t1 sp' t \<Longrightarrow> run lock_step s0 (three s sp' t0 t t2)"
  "run lock_step s0 (three s sp t0 t1 t2) \<Longrightarrow> thread_step sp t2 sp' t \<Longrightarrow> run lock_step s0 (three s sp' t0 t1 t)"
  using run_thread [of s0 "three s sp t0 t1 t2" 0 sp' t] run_thread [of s0 "three s sp t0 t1 t2" 1 sp' t]
    run_thread [of s0 "three s sp t0 t1 t2" 2 sp' t]
  by (simp_all add: three_def fun_upd_twist)

text \<open>
  A key that is read by some transactions and written by another is not protected: between the
  moment a second reader finds the key shared and the moment it is counted, the first reader can be the last one
  counted and delete the entry. The second reader and a writer then hold the key together.
\<close>

theorem shared_and_exclusive_together:
  "\<exists>s. run lock_step (start_locks readers_and_writer) s \<and>
     threads s 1 = Holding [shared ''b/k''] \<and> threads s 2 = Holding [exclusive ''b/k'']"
proof -
  let ?s0 = "start_locks readers_and_writer" and ?S = "shared ''b/k''" and ?X = "exclusive ''b/k''"
  let ?R = "Locking [?S] []" and ?W = "Locking [?X] []"
  define none where "none = \<lparr>sp_m = Map.empty, ctMap = (\<lambda>_. 0)\<rparr>"
  define one where "one = none\<lparr>sp_m := [''b/k'' \<mapsto> sharedLock]\<rparr>"
  have "?s0 = three ?s0 none ?R ?R ?W"
    by (simp add: three_def start_locks_def NewSpinLock_def none_def readers_and_writer_def reader_keys writer_keys fun_eq_iff)
  then have "run lock_step ?s0 (three ?s0 none ?R ?R ?W)" by (metis run_refl)
  then have "run lock_step ?s0 (three ?s0 one (Adding ?S [] []) ?R ?W)"
    by (rule three_step) (auto intro!: got_shared simp: one_def none_def acquire_def shared_def)
  then have "run lock_step ?s0 (three ?s0 (refAdd ''b/k'' one) (Locking [] [?S]) ?R ?W)"
    by (rule three_step) (use counted [of one ?S "[]" "[]"] in \<open>simp add: shared_def\<close>)
  then have "run lock_step ?s0 (three ?s0 (refAdd ''b/k'' one) (Holding [?S]) ?R ?W)"
    by (rule three_step) (rule got_all)
  then have "run lock_step ?s0 (three ?s0 (refAdd ''b/k'' one) (Unlocking [?S]) ?R ?W)"
    by (rule three_step) (use done_work [of _ "[?S]"] in simp)
  then have "run lock_step ?s0 (three ?s0 (refAdd ''b/k'' one) (Unlocking [?S]) (Adding ?S [] []) ?W)"
    by (rule three_step) (auto intro!: got_shared simp: one_def none_def acquire_def shared_def refAdd_def)
  then have "run lock_step ?s0 (three ?s0 one (Deleting ?S []) (Adding ?S [] []) ?W)"
    by (rule three_step)
      (use give_last [of ?S "refAdd ''b/k'' one" "[]"] in \<open>simp add: shared_def refAdd_def refRelease_def one_def none_def fun_upd_idem\<close>)
  then have "run lock_step ?s0 (three ?s0 none (Unlocking []) (Adding ?S [] []) ?W)"
    by (rule three_step) (use delete_shared [of one ?S "[]"] in \<open>simp add: shared_def lockDelete_def one_def none_def\<close>)
  then have "run lock_step ?s0 (three ?s0 (refAdd ''b/k'' none) (Unlocking []) (Locking [] [?S]) ?W)"
    by (rule three_step) (use counted [of none ?S "[]" "[]"] in \<open>simp add: shared_def\<close>)
  then have "run lock_step ?s0 (three ?s0 (refAdd ''b/k'' none) (Unlocking []) (Holding [?S]) ?W)"
    by (rule three_step) (rule got_all)
  then have "run lock_step ?s0 (three ?s0 ((refAdd ''b/k'' none)\<lparr>sp_m := [''b/k'' \<mapsto> exclusiveLock]\<rparr>) (Unlocking []) (Holding [?S]) (Locking [] [?X]))"
    by (rule three_step)
      (use got_exclusive [of ?X "refAdd ''b/k'' none" _ "[]" "[]"] in \<open>simp add: exclusive_def acquire_def refAdd_def none_def\<close>)
  then have "run lock_step ?s0 (three ?s0 ((refAdd ''b/k'' none)\<lparr>sp_m := [''b/k'' \<mapsto> exclusiveLock]\<rparr>) (Unlocking []) (Holding [?S]) (Holding [?X]))"
    by (rule three_step) (rule got_all)
  then show ?thesis by (auto simp: three_def)
qed

end
