(* ===== verification/StateMachine.thy ===== *)
theory StateMachine
  imports XModel SpinLock
begin

text \<open>
  The state machine of the ledger (\<^verbatim>\<open>state/state.go\<close>): applying and undoing transactions, paying
  fees, posting a transaction, playing a block and walking to another branch. The ledger, the memory pool and the
  verification of transactions are arguments.
\<close>

section \<open>Surroundings\<close>

record block =
  blk_Blockid :: bytes
  blk_PreHash :: bytes
  blk_Proposer :: bytes
  blk_Height :: int
  blk_Transactions :: "transaction list"

datatype state_error =
    StUtxo utxo_error | StRWSetInvalid | StPreBlockMissMatch | StUTXODuplicated | StDoubleSpent | StUnexpected
  | StAlreadyInUnconfirmed | StMempoolIsFull | StMempool | StQuery | StVerify | StIrreversible | StMeta | StLoad

datatype put_result = PutOk | PutExists | PutFailed

text \<open>The operations of the memory pool.\<close>

record 'm mempool =
  HasTx :: "'m \<Rightarrow> string \<Rightarrow> bool"
  Full :: "'m \<Rightarrow> bool"
  PutTx :: "'m \<Rightarrow> transaction \<Rightarrow> 'm \<times> put_result"
  FindConflictByTx :: "'m \<Rightarrow> transaction \<Rightarrow> transaction list"
  BatchConfirmTxID :: "'m \<Rightarrow> string list \<Rightarrow> 'm"
  BatchConfirmTx :: "'m \<Rightarrow> transaction list \<Rightarrow> 'm"
  BatchDeleteTx :: "'m \<Rightarrow> transaction list \<Rightarrow> 'm"
  DeleteTxAndChildren :: "'m \<Rightarrow> string \<Rightarrow> 'm"
  SortUnconfirmedTx :: "'m \<Rightarrow> transaction list option"

text \<open>
  The ledger: its transactions, its blocks, the height of its trunk and the blocks between two tips
  (\<open>FindUndoAndTodoBlocks\<close>, the ones to undo from the old tip down and the ones to do from the new
  tip down). \<open>led_verifier\<close> collects what the verification of transactions reads, which depends on the stored
  state.
\<close>

record ('m, 'x) ledger_env =
  led_tx :: "string \<Rightarrow> transaction option"
  led_block :: "bytes \<Rightarrow> block option"
  led_height :: int
  led_paths :: "bytes \<Rightarrow> bytes \<Rightarrow> (block list \<times> block list) option"
  led_pool :: "'m mempool"
  led_verifier :: "state_db \<Rightarrow> 'x verifier"
  led_cacheSize :: int

record 'm state =
  st_db :: state_db
  st_utxo :: UtxoVM
  st_xm :: XModel
  st_locks :: SpinLock
  st_pool :: 'm
  latestBlockid :: bytes
  notifier_height :: int
  IrreversibleBlockHeight :: int
  IrreversibleSlideWindow :: int
  tmp_IrreversibleBlockHeight :: int
  batches :: nat

definition NewBatch :: "'m state \<Rightarrow> 'm state \<times> batch" where
  "NewBatch st = (st\<lparr>batches := batches st + 1\<rparr>, \<lparr>batch_id = batches st, batch_ops = []\<rparr>)"

definition clearBalanceCache :: "int \<Rightarrow> 'm state \<Rightarrow> 'm state" where
  "clearBalanceCache cacheSize st =
     st\<lparr>st_utxo := (st_utxo st)\<lparr>BalanceCache := NewLRUCache cacheSize, BalanceViewDirty := (\<lambda>_. 0)\<rparr>,
        st_xm := cleanCache None (st_xm st)\<rparr>"

section \<open>Applying a transaction\<close>

text \<open>The outputs that go to the cache after the batch is written, as \<open>CacheFiller\<close> collects them.\<close>

type_synonym hooks = "(string \<times> string \<times> UtxoItem) list"

definition Commit :: "hooks \<Rightarrow> UtxoVM \<Rightarrow> UtxoVM" where
  "Commit hs uv = uv\<lparr>vm_Cache := foldl (\<lambda>c (addr, key, item). uc_Insert addr key item c) (vm_Cache uv) hs\<rparr>"

definition spendInput :: "tx_input \<Rightarrow> UtxoVM \<times> batch \<Rightarrow> UtxoVM \<times> batch" where
  "spendInput txInput ub =
     (let (uv, b) = ub; addr = FromAddr txInput; utxoKey = GenUtxoKeyWithPrefix addr (RefTxid txInput) (RefOffset txInput);
          uv1 = uv\<lparr>vm_Cache := uc_Remove (elems addr) utxoKey (vm_Cache uv)\<rparr>;
          uv2 = SubBalance addr (SetBytes (in_Amount txInput)) uv1
      in (RemoveBatchCache utxoKey uv2, batch_Put b (DelUtxo utxoKey)))"

definition addOutput :: "transaction \<Rightarrow> bool \<Rightarrow> nat \<times> tx_output \<Rightarrow> UtxoVM \<times> batch \<times> hooks \<Rightarrow> UtxoVM \<times> batch \<times> hooks" where
  "addOutput tx cacheFiller out ubh =
     (let (offset, txOutput) = out; (uv, b, hs) = ubh; addr = ToAddr txOutput;
          utxoKey = GenUtxoKeyWithPrefix addr (Txid tx) (i32 (int offset));
          amount = SetBytes (out_Amount txOutput); uItem = \<lparr>ui_Amount = amount, ui_FrozenHeight = out_FrozenHeight txOutput\<rparr>
      in if elems addr = FeePlaceholder \<or> amount = 0 then (uv, b, hs)
         else
           let b1 = batch_Put b (PutUtxo utxoKey uItem);
               (uv1, hs1) = (if cacheFiller then (uv, hs @ [(elems addr, utxoKey, uItem)])
                             else (uv\<lparr>vm_Cache := uc_Insert (elems addr) utxoKey uItem (vm_Cache uv)\<rparr>, hs));
               uv2 = AddBalance addr amount uv1;
               (uv3, b3) = (if Coinbase tx then UpdateUtxoTotal amount b1 True uv2 else (uv2, b1))
           in (InsertBatchCache utxoKey uItem uv3, b3, hs1))"

definition is_marked :: "transaction \<Rightarrow> bool" where
  "is_marked tx \<longleftrightarrow> (case ModifyBlock tx of None \<Rightarrow> False | Some mb \<Rightarrow> Marked mb)"

definition doTxInternal ::
    "('m, 'x) ledger_env \<Rightarrow> transaction \<Rightarrow> bool \<Rightarrow> 'm state \<times> batch \<Rightarrow> ('m state \<times> batch \<times> hooks) \<times> state_error option" where
  "doTxInternal env tx cacheFiller sb =
     (let (st, b) = sb; st0 = st\<lparr>st_utxo := CleanBatchCache b (st_utxo st)\<rparr>
      in case (if is_marked tx then None else CheckInputEqualOutput (st_utxo st0) (st_db st0) b (led_height env) tx) of
           Some e \<Rightarrow> ((st0, b, []), Some (StUtxo e))
         | None \<Rightarrow>
             (case xmDoTx (led_tx env) (st_db st0) tx (st_xm st0, b) of
                ((xm, b1), Some e) \<Rightarrow> ((st0\<lparr>st_xm := xm\<rparr>, b1, []), Some StRWSetInvalid)
              | ((xm, b1), None) \<Rightarrow>
                  (let (uv, b2) = fold spendInput (TxInputs tx) (st_utxo st0, b1);
                       (uv', b3, hs) = fold (addOutput tx cacheFiller) (enumerate 0 (TxOutputs tx)) (uv, b2, [])
                   in ((st0\<lparr>st_xm := xm, st_utxo := uv'\<rparr>, b3, hs), None))))"

definition feeOutput :: "transaction \<Rightarrow> block \<Rightarrow> nat \<times> tx_output \<Rightarrow> UtxoVM \<times> batch \<Rightarrow> UtxoVM \<times> batch" where
  "feeOutput tx blk out ub =
     (let (offset, txOutput) = out; (uv, b) = ub; addr = blk_Proposer blk;
          utxoKey = GenUtxoKeyWithPrefix addr (Txid tx) (i32 (int offset));
          uItem = \<lparr>ui_Amount = SetBytes (out_Amount txOutput), ui_FrozenHeight = 0\<rparr>
      in if elems (ToAddr txOutput) \<noteq> FeePlaceholder then (uv, b)
         else let uv1 = AddBalance addr (ui_Amount uItem) uv
              in (uv1\<lparr>vm_Cache := uc_Insert (elems addr) utxoKey uItem (vm_Cache uv1)\<rparr>, batch_Put b (PutUtxo utxoKey uItem)))"

definition payFee :: "transaction \<Rightarrow> block \<Rightarrow> 'm state \<times> batch \<Rightarrow> 'm state \<times> batch" where
  "payFee tx blk sb =
     (let (st, b) = sb; (uv, b') = fold (feeOutput tx blk) (enumerate 0 (TxOutputs tx)) (st_utxo st, b)
      in (st\<lparr>st_utxo := uv\<rparr>, b'))"

section \<open>Undoing a transaction\<close>

definition restoreInput :: "tx_input \<Rightarrow> UtxoVM \<times> batch \<Rightarrow> UtxoVM \<times> batch" where
  "restoreInput txInput ub =
     (let (uv, b) = ub; addr = FromAddr txInput; utxoKey = GenUtxoKeyWithPrefix addr (RefTxid txInput) (RefOffset txInput);
          uItem = \<lparr>ui_Amount = SetBytes (in_Amount txInput), ui_FrozenHeight = in_FrozenHeight txInput\<rparr>;
          uv1 = uv\<lparr>vm_Cache := uc_Insert (elems addr) utxoKey uItem (vm_Cache uv)\<rparr>
      in (AddBalance addr (ui_Amount uItem) (UnlockKey utxoKey uv1), batch_Put b (PutUtxo utxoKey uItem)))"

definition removeOutput :: "transaction \<Rightarrow> nat \<times> tx_output \<Rightarrow> UtxoVM \<times> batch \<Rightarrow> UtxoVM \<times> batch" where
  "removeOutput tx out ub =
     (let (offset, txOutput) = out; (uv, b) = ub; addr = ToAddr txOutput; amount = SetBytes (out_Amount txOutput);
          utxoKey = GenUtxoKeyWithPrefix addr (Txid tx) (i32 (int offset))
      in if elems addr = FeePlaceholder \<or> amount = 0 then (uv, b)
         else
           let uv1 = SubBalance addr amount (uv\<lparr>vm_Cache := uc_Remove (elems addr) utxoKey (vm_Cache uv)\<rparr>);
               b1 = batch_Put b (DelUtxo utxoKey)
           in if Coinbase tx then UpdateUtxoTotal amount b1 False uv1 else (uv1, b1))"

definition undoTxInternal :: "('m, 'x) ledger_env \<Rightarrow> transaction \<Rightarrow> 'm state \<times> batch \<Rightarrow> ('m state \<times> batch) \<times> state_error option" where
  "undoTxInternal env tx sb =
     (let (st, b) = sb
      in case xmUndoTx (led_tx env) (st_db st) tx (st_xm st, b) of
           ((xm, b1), Some e) \<Rightarrow> ((st\<lparr>st_xm := xm\<rparr>, b1), Some StRWSetInvalid)
         | ((xm, b1), None) \<Rightarrow>
             (let (uv, b2) = fold restoreInput (TxInputs tx) (st_utxo st, b1);
                  (uv', b3) = fold (removeOutput tx) (enumerate 0 (TxOutputs tx)) (uv, b2)
              in ((st\<lparr>st_xm := xm, st_utxo := uv'\<rparr>, b3), None)))"

definition unfeeOutput :: "transaction \<Rightarrow> block \<Rightarrow> nat \<times> tx_output \<Rightarrow> UtxoVM \<times> batch \<Rightarrow> UtxoVM \<times> batch" where
  "unfeeOutput tx blk out ub =
     (let (offset, txOutput) = out; (uv, b) = ub; addr = blk_Proposer blk;
          utxoKey = GenUtxoKeyWithPrefix addr (Txid tx) (i32 (int offset))
      in if elems (ToAddr txOutput) \<noteq> FeePlaceholder then (uv, b)
         else (SubBalance addr (SetBytes (out_Amount txOutput)) (uv\<lparr>vm_Cache := uc_Remove (elems addr) utxoKey (vm_Cache uv)\<rparr>),
               batch_Put b (DelUtxo utxoKey)))"

definition undoPayFee :: "transaction \<Rightarrow> block \<Rightarrow> 'm state \<times> batch \<Rightarrow> 'm state \<times> batch" where
  "undoPayFee tx blk sb =
     (let (st, b) = sb; (uv, b') = fold (unfeeOutput tx blk) (enumerate 0 (TxOutputs tx)) (st_utxo st, b)
      in (st\<lparr>st_utxo := uv\<rparr>, b'))"

section \<open>Meta data\<close>

definition UpdateIrreversibleBlockHeight :: "int \<Rightarrow> 'm state \<times> batch \<Rightarrow> 'm state \<times> batch" where
  "UpdateIrreversibleBlockHeight nextHeight sb =
     (let (st, b) = sb in (st\<lparr>tmp_IrreversibleBlockHeight := nextHeight\<rparr>, batch_Put b (PutIrreversible nextHeight)))"

definition UpdateNextIrreversibleBlockHeight :: "int \<Rightarrow> int \<Rightarrow> int \<Rightarrow> 'm state \<times> batch \<Rightarrow> ('m state \<times> batch) option" where
  "UpdateNextIrreversibleBlockHeight blockHeight cur window sb =
     (if window < 0 then None
      else if window = 0 then Some sb
      else if cur < 0 then None
      else let nextHeight = i64 (blockHeight - window)
           in if nextHeight \<le> cur then Some sb else Some (UpdateIrreversibleBlockHeight nextHeight sb))"

definition UpdateNextIrreversibleBlockHeightForPrune ::
    "int \<Rightarrow> int \<Rightarrow> int \<Rightarrow> 'm state \<times> batch \<Rightarrow> ('m state \<times> batch) option" where
  "UpdateNextIrreversibleBlockHeightForPrune blockHeight cur window sb =
     (if window < 0 then None
      else if window = 0 then Some sb
      else if cur < 0 then None
      else let nextHeight = i64 (blockHeight - window)
           in Some (UpdateIrreversibleBlockHeight (if nextHeight \<le> 0 then 0 else nextHeight) sb))"

text \<open>The batch is written together with the new tip; writing does not fail.\<close>

definition updateLatestBlockid :: "('m, 'x) ledger_env \<Rightarrow> bytes \<Rightarrow> 'm state \<times> batch \<Rightarrow> 'm state option" where
  "updateLatestBlockid env newBlockid sb =
     (let (st, b) = sb
      in case led_block env newBlockid of
           None \<Rightarrow> None
         | Some blk \<Rightarrow>
             Some (st\<lparr>st_db := batch_Write (st_db st) (batch_Put b (PutPointer newBlockid)), latestBlockid := newBlockid,
                      notifier_height := blk_Height blk\<rparr>))"

definition publishMeta :: "'m state \<Rightarrow> 'm state" where
  "publishMeta st = st\<lparr>IrreversibleBlockHeight := tmp_IrreversibleBlockHeight st\<rparr>"

section \<open>Posting a transaction\<close>

definition doTxSync :: "('m, 'x) ledger_env \<Rightarrow> transaction \<Rightarrow> 'm state \<Rightarrow> 'm state \<times> state_error option" where
  "doTxSync env tx st =
     (case TryLock (ExtractLockKeys tx) [] (st_locks st) of
        (locks, succLockKeys, lockOK) \<Rightarrow>
          let unlock = (\<lambda>s. s\<lparr>st_locks := Unlock succLockKeys (st_locks s)\<rparr>); pool = led_pool env; st1 = st\<lparr>st_locks := locks\<rparr>
          in if \<not> lockOK then (unlock st1, Some StDoubleSpent)
             else if HasTx pool (st_pool st1) (elems (Txid tx)) then (unlock st1, Some StAlreadyInUnconfirmed)
             else if Full pool (st_pool st1) then (unlock st1, Some StMempoolIsFull)
             else
               case doTxInternal env tx True (NewBatch st1) of
                 ((st2, b, hs), Some e) \<Rightarrow> (unlock st2, Some e)
               | ((st2, b, hs), None) \<Rightarrow>
                   (case PutTx pool (st_pool st2) tx of
                      (mp, PutFailed) \<Rightarrow>
                        (case undoTxInternal env tx (st2\<lparr>st_pool := mp\<rparr>, b) of
                           ((st3, b3), Some e) \<Rightarrow> (unlock st3, Some e)
                         | ((st3, b3), None) \<Rightarrow> (unlock st3, Some StMempool))
                    | (mp, r) \<Rightarrow>
                        (let b1 = batch_Put b (PutUnconfirmed (elems (Txid tx)) tx);
                             st3 = st2\<lparr>st_pool := mp, st_db := batch_Write (st_db st2) b1\<rparr>
                         in (unlock (st3\<lparr>st_utxo := Commit hs (st_utxo st3)\<rparr>), None))))"

text \<open>\<open>DoTx\<close> first stamps the transaction with the time it was received.\<close>

definition DoTx :: "('m, 'x) ledger_env \<Rightarrow> int \<Rightarrow> transaction \<Rightarrow> 'm state \<Rightarrow> 'm state \<times> state_error option" where
  "DoTx env now tx st =
     (if Coinbase tx then (st, Some StUnexpected)
      else if elems (tx_Blockid tx) \<noteq> [] then (st, Some StUnexpected)
      else doTxSync env (tx\<lparr>ReceivedTimestamp := now\<rparr>) st)"

section \<open>The transactions of a block\<close>

definition dependsOn :: "string set \<Rightarrow> transaction \<Rightarrow> bool" where
  "dependsOn previousTxids tx \<longleftrightarrow>
     (\<exists>i \<in> set (TxInputs tx). elems (RefTxid i) \<in> previousTxids) \<or>
     (\<exists>i \<in> set (elems (TxInputsExt tx)). elems (xin_RefTxid i) \<in> previousTxids)"

fun splitDags :: "transaction list \<Rightarrow> bool \<Rightarrow> string set \<Rightarrow> transaction list \<Rightarrow> transaction list list" where
  "splitDags [] first previousTxids oneDag = (if oneDag = [] then [] else [oneDag])"
| "splitDags (tx # txs) first previousTxids oneDag =
     (if \<not> dependsOn previousTxids tx \<and> \<not> first
      then oneDag # splitDags txs False (insert (elems (Txid tx)) previousTxids) [tx]
      else splitDags txs False (insert (elems (Txid tx)) previousTxids) (oneDag @ [tx]))"

definition SplitToDags :: "block \<Rightarrow> transaction list list" where
  "SplitToDags blk = splitDags (blk_Transactions blk) True {} []"

text \<open>
  The groups are verified independently of each other; the block is rejected if one of them is.
  \<open>verifyMarkedTx\<close> overwrites the mark of the transaction it verifies, at which the loop over its group ends.
\<close>

definition verifyBlockTxs :: "('m, 'x) ledger_env \<Rightarrow> state_db \<Rightarrow> block \<Rightarrow> bool \<Rightarrow> (string \<Rightarrow> bool) \<Rightarrow> bool" where
  "verifyBlockTxs env db blk isRootTx unconfirmToConfirm \<longleftrightarrow>
     (\<forall>txs \<in> set (SplitToDags blk). verifyDAGTxs (led_verifier env db) (blk_Height blk) txs isRootTx unconfirmToConfirm = VOk ())"

definition clearsMark :: "'x verifier \<Rightarrow> transaction \<Rightarrow> bool" where
  "clearsMark v tx =
     (case ModifyBlock tx of
        None \<Rightarrow> False
      | Some mb \<Rightarrow>
          Marked mb \<and>
          (case GetEcdsaPublicKeyFromJsonStr (Crypt v) (mb_PublicKey mb) of
             None \<Rightarrow> False
           | Some ecdsaKey \<Rightarrow> VerifyAddressUsingPublicKey (Crypt v) (ModifyBlockAddr v) ecdsaKey \<and> hex_Decode v (mb_Sign mb) \<noteq> None))"

fun clearedMark :: "'x verifier \<Rightarrow> bool \<Rightarrow> (string \<Rightarrow> bool) \<Rightarrow> transaction list \<Rightarrow> string option" where
  "clearedMark v isRootTx unconfirmToConfirm [] = None"
| "clearedMark v isRootTx unconfirmToConfirm (tx # txs) =
     (if \<not> unconfirmToConfirm (elems (Txid tx)) \<and> \<not> Autogen tx \<and> \<not> Coinbase tx \<and> ImmediateVerifyTx v tx isRootTx \<noteq> VOk ()
      then (if clearsMark v tx then Some (elems (Txid tx)) else None)
      else clearedMark v isRootTx unconfirmToConfirm txs)"

definition afterVerify :: "('m, 'x) ledger_env \<Rightarrow> state_db \<Rightarrow> block \<Rightarrow> bool \<Rightarrow> (string \<Rightarrow> bool) \<Rightarrow> transaction list" where
  "afterVerify env db blk isRootTx unconfirmToConfirm =
     (let cleared = set (map (clearedMark (led_verifier env db) isRootTx unconfirmToConfirm) (SplitToDags blk))
      in map (\<lambda>tx. if Some (elems (Txid tx)) \<in> cleared
                   then tx\<lparr>ModifyBlock := Some \<lparr>Marked = False, EffectiveHeight = 0, mb_PublicKey = [], mb_Sign = []\<rparr>\<rparr> else tx)
           (blk_Transactions blk))"

section \<open>Playing a block\<close>

fun minerTxs :: "('m, 'x) ledger_env \<Rightarrow> block \<Rightarrow> transaction list \<Rightarrow> 'm state \<times> batch \<Rightarrow> ('m state \<times> batch) \<times> state_error option" where
  "minerTxs env blk [] sb = (sb, None)"
| "minerTxs env blk (tx # txs) (st, b) =
     (if Coinbase tx \<or> Autogen tx then
        (case doTxInternal env tx False (st, b) of
           ((st1, b1, hs), Some e) \<Rightarrow> ((st1, b1), Some e)
         | ((st1, b1, hs), None) \<Rightarrow> minerTxs env blk txs (payFee tx blk (st1, b1)))
      else minerTxs env blk txs (payFee tx blk (st, batch_Put b (DelUnconfirmed (elems (Txid tx))))))"

definition PlayForMiner :: "('m, 'x) ledger_env \<Rightarrow> bytes \<Rightarrow> 'm state \<Rightarrow> 'm state \<times> state_error option" where
  "PlayForMiner env blockid st =
     (let (st0, b0) = NewBatch st
      in case led_block env blockid of
           None \<Rightarrow> (st0, Some StQuery)
         | Some blk \<Rightarrow>
             if \<not> bytes_Equal (blk_PreHash blk) (latestBlockid st0) then (st0, Some StPreBlockMissMatch)
             else
               (case minerTxs env blk (blk_Transactions blk) (st0, b0) of
                  ((st1, b1), Some e) \<Rightarrow> (clearBalanceCache (led_cacheSize env) st1, Some e)
                | ((st1, b1), None) \<Rightarrow>
                    (case UpdateNextIrreversibleBlockHeight (blk_Height blk) (IrreversibleBlockHeight st1) (IrreversibleSlideWindow st1) (st1, b1) of
                       None \<Rightarrow> (st1, Some StMeta)
                     | Some (st2, b2) \<Rightarrow>
                         (case updateLatestBlockid env (blk_Blockid blk) (st2, b2) of
                            None \<Rightarrow> (clearBalanceCache (led_cacheSize env) st2, Some StQuery)
                          | Some st3 \<Rightarrow>
                              (publishMeta (st3\<lparr>st_pool := BatchConfirmTx (led_pool env) (st_pool st3) (blk_Transactions blk)\<rparr>), None)))))"

definition undoUnconfirmedTx ::
    "('m, 'x) ledger_env \<Rightarrow> transaction \<Rightarrow> 'm state \<times> batch \<Rightarrow> ('m state \<times> batch) \<times> state_error option" where
  "undoUnconfirmedTx env tx sb =
     (case undoTxInternal env tx sb of
        ((st, b), Some e) \<Rightarrow> ((st, b), Some e)
      | ((st, b), None) \<Rightarrow> ((st, batch_Put b (DelUnconfirmed (elems (Txid tx)))), None))"

fun dupInputs :: "tx_input list \<Rightarrow> string set \<Rightarrow> string set option" where
  "dupInputs [] keys = Some keys"
| "dupInputs (i # is) keys = (if inputKey i \<in> keys then None else dupInputs is (insert (inputKey i) keys))"

text \<open>The transactions of the block that are in the pool, and the ones in the pool that are in conflict with the block.\<close>

fun scanBlock ::
    "('m, 'x) ledger_env \<Rightarrow> 'm \<Rightarrow> transaction list \<Rightarrow> string set \<Rightarrow> batch \<times> transaction list \<times> string set \<Rightarrow>
     (batch \<times> transaction list \<times> string set) option" where
  "scanBlock env mp [] keys acc = Some acc"
| "scanBlock env mp (tx # txs) keys (b, undoTxs, confirmed) =
     (case dupInputs (TxInputs tx) keys of
        None \<Rightarrow> None
      | Some keys' \<Rightarrow>
          if HasTx (led_pool env) mp (elems (Txid tx))
          then scanBlock env mp txs keys' (batch_Put b (DelUnconfirmed (elems (Txid tx))), undoTxs, insert (elems (Txid tx)) confirmed)
          else scanBlock env mp txs keys' (b, undoTxs @ FindConflictByTx (led_pool env) mp tx, confirmed))"

fun undoConflicts ::
    "('m, 'x) ledger_env \<Rightarrow> transaction list \<Rightarrow> string set \<Rightarrow> 'm state \<times> batch \<Rightarrow> ('m state \<times> batch) \<times> state_error option" where
  "undoConflicts env [] undoDone sb = (sb, None)"
| "undoConflicts env (tx # txs) undoDone (st, b) =
     (if elems (Txid tx) \<in> undoDone then undoConflicts env txs undoDone (st, b)
      else case undoUnconfirmedTx env tx (st, batch_Put b (DelUnconfirmed (elems (Txid tx)))) of
        (sb', Some e) \<Rightarrow> (sb', Some e)
      | (sb', None) \<Rightarrow> undoConflicts env txs (insert (elems (Txid tx)) undoDone) sb')"

definition processUnconfirmTxs ::
    "('m, 'x) ledger_env \<Rightarrow> block \<Rightarrow> 'm state \<times> batch \<Rightarrow> ('m state \<times> batch) \<times> (state_error + transaction list \<times> string set)" where
  "processUnconfirmTxs env blk sb =
     (let (st, b) = sb
      in if \<not> bytes_Equal (blk_PreHash blk) (latestBlockid st) then (sb, Inl StPreBlockMissMatch)
         else case scanBlock env (st_pool st) (blk_Transactions blk) {} (b, [], {}) of
           None \<Rightarrow> (sb, Inl StUTXODuplicated)
         | Some (b1, undoTxs, unconfirmToConfirm) \<Rightarrow>
             (case undoConflicts env undoTxs {} (st, b1) of
                (sb', Some e) \<Rightarrow> (sb', Inl e)
              | (sb', None) \<Rightarrow> (sb', Inr (undoTxs, unconfirmToConfirm))))"

fun playTxs ::
    "('m, 'x) ledger_env \<Rightarrow> block \<Rightarrow> string set \<Rightarrow> transaction list \<Rightarrow> 'm state \<times> batch \<Rightarrow> ('m state \<times> batch) \<times> state_error option" where
  "playTxs env blk unconfirmToConfirm [] sb = (sb, None)"
| "playTxs env blk unconfirmToConfirm (tx # txs) (st, b) =
     (if elems (Txid tx) \<in> unconfirmToConfirm then playTxs env blk unconfirmToConfirm txs (payFee tx blk (st, b))
      else case doTxInternal env tx True (st, b) of
        ((st1, b1, hs), Some e) \<Rightarrow> ((st1, b1), Some e)
      | ((st1, b1, hs), None) \<Rightarrow>
          playTxs env blk unconfirmToConfirm txs (payFee tx blk (st1\<lparr>st_utxo := Commit hs (st_utxo st1)\<rparr>, b1)))"

text \<open>Sending the transactions that are left in the pool again is not part of the state.\<close>

definition PlayAndRepost :: "('m, 'x) ledger_env \<Rightarrow> bytes \<Rightarrow> bool \<Rightarrow> 'm state \<Rightarrow> 'm state \<times> state_error option" where
  "PlayAndRepost env blockid isRootTx st =
     (let (st0, b0) = NewBatch st
      in case led_block env blockid of
           None \<Rightarrow> (st0, Some StQuery)
         | Some blk \<Rightarrow>
             (case processUnconfirmTxs env blk (st0, b0) of
                ((st1, b1), Inl e) \<Rightarrow> (st1, Some e)
              | ((st1, b1), Inr (undoTxs, confirmed)) \<Rightarrow>
                  if \<not> verifyBlockTxs env (st_db st1) blk isRootTx (\<lambda>txid. txid \<in> confirmed) then (st1, Some StVerify)
                  else
                    (case playTxs env blk confirmed (afterVerify env (st_db st1) blk isRootTx (\<lambda>txid. txid \<in> confirmed)) (st1, b1) of
                       ((st2, b2), Some e) \<Rightarrow> (st2, Some e)
                     | ((st2, b2), None) \<Rightarrow>
                         (case UpdateNextIrreversibleBlockHeight (blk_Height blk) (IrreversibleBlockHeight st2) (IrreversibleSlideWindow st2) (st2, b2) of
                            None \<Rightarrow> (st2, Some StMeta)
                          | Some (st3, b3) \<Rightarrow>
                              (case updateLatestBlockid env (blk_Blockid blk) (st3, b3) of
                                 None \<Rightarrow> (st3, Some StQuery)
                               | Some st4 \<Rightarrow>
                                   (let mp1 = BatchConfirmTxID (led_pool env) (st_pool st4)
                                                (filter (\<lambda>txid. txid \<in> confirmed) (remdups (map (elems \<circ> Txid) (blk_Transactions blk))));
                                        mp2 = BatchDeleteTx (led_pool env) mp1 undoTxs
                                    in (publishMeta (st4\<lparr>st_pool := mp2\<rparr>), None)))))))"

section \<open>Walking to another tip\<close>

fun rollBack ::
    "('m, 'x) ledger_env \<Rightarrow> transaction list \<Rightarrow> 'm state \<times> batch \<times> transaction list \<Rightarrow> ('m state \<times> batch \<times> transaction list) \<times> state_error option" where
  "rollBack env [] sbu = (sbu, None)"
| "rollBack env (tx # txs) (st, b, undoList) =
     (if elems (Txid tx) \<in> (elems \<circ> Txid) ` set undoList then rollBack env txs (st, b, undoList)
      else case undoUnconfirmedTx env tx (st, b) of
        ((st1, b1), Some e) \<Rightarrow> ((st1, b1, undoList), Some e)
      | ((st1, b1), None) \<Rightarrow> rollBack env txs (st1, b1, undoList @ [tx]))"

definition RollBackUnconfirmedTx ::
    "('m, 'x) ledger_env \<Rightarrow> 'm state \<Rightarrow> 'm state \<times> (state_error + transaction list)" where
  "RollBackUnconfirmedTx env st =
     (case SortUnconfirmedTx (led_pool env) (st_pool st) of
        None \<Rightarrow> (st, Inl StLoad)
      | Some unconfirmTxs \<Rightarrow>
          (let (st0, b0) = NewBatch st
           in case rollBack env (rev unconfirmTxs) (st0, b0, []) of
                ((st1, b1, undoList), Some e) \<Rightarrow> (st1, Inl e)
              | ((st1, b1, undoList), None) \<Rightarrow>
                  (st1\<lparr>st_db := batch_Write (st_db st1) b1,
                       st_pool := foldl (\<lambda>mp tx. DeleteTxAndChildren (led_pool env) mp (elems (Txid tx))) (st_pool st1) undoList\<rparr>,
                   Inr undoList)))"

fun undoTxs ::
    "('m, 'x) ledger_env \<Rightarrow> block \<Rightarrow> string set \<Rightarrow> transaction list \<Rightarrow> 'm state \<times> batch \<Rightarrow> ('m state \<times> batch) \<times> state_error option" where
  "undoTxs env blk undoDone [] sb = (sb, None)"
| "undoTxs env blk undoDone (tx # txs) sb =
     (if elems (Txid tx) \<in> undoDone then undoTxs env blk undoDone txs (undoPayFee tx blk sb)
      else case undoTxInternal env tx sb of
        (sb1, Some e) \<Rightarrow> (sb1, Some e)
      | ((st1, b1), None) \<Rightarrow>
          undoTxs env blk undoDone txs
            (undoPayFee tx blk (st1\<lparr>st_pool := DeleteTxAndChildren (led_pool env) (st_pool st1) (elems (Txid tx))\<rparr>, b1)))"

fun procUndoBlkForWalk :: "('m, 'x) ledger_env \<Rightarrow> block list \<Rightarrow> string set \<Rightarrow> bool \<Rightarrow> 'm state \<Rightarrow> 'm state \<times> state_error option" where
  "procUndoBlkForWalk env [] undoDone ledgerPrune st = (st, None)"
| "procUndoBlkForWalk env (undoBlk # undoBlocks) undoDone ledgerPrune st =
     (if \<not> ledgerPrune \<and> blk_Height undoBlk \<le> IrreversibleBlockHeight st then (st, Some StIrreversible)
      else case undoTxs env undoBlk undoDone (rev (blk_Transactions undoBlk)) (NewBatch st) of
        ((st1, b1), Some e) \<Rightarrow> (st1, Some e)
      | ((st1, b1), None) \<Rightarrow>
          (case (if ledgerPrune
                 then UpdateNextIrreversibleBlockHeightForPrune (blk_Height undoBlk) (IrreversibleBlockHeight st1) (IrreversibleSlideWindow st1) (st1, b1)
                 else Some (st1, b1)) of
             None \<Rightarrow> (st1, Some StMeta)
           | Some sb2 \<Rightarrow>
               (case updateLatestBlockid env (blk_PreHash undoBlk) sb2 of
                  None \<Rightarrow> (fst sb2, Some StQuery)
                | Some st3 \<Rightarrow> procUndoBlkForWalk env undoBlocks undoDone ledgerPrune (publishMeta st3))))"

fun todoTxs ::
    "('m, 'x) ledger_env \<Rightarrow> block \<Rightarrow> transaction list \<Rightarrow> 'm state \<times> batch \<Rightarrow> ('m state \<times> batch) \<times> state_error option" where
  "todoTxs env blk [] sb = (sb, None)"
| "todoTxs env blk (tx # txs) (st, b) =
     (let v = led_verifier env (st_db st)
      in if verifyAutogenTxValid tx \<and> \<not> Coinbase tx \<and> ImmediateVerifyAutoTx v (blk_Height blk) tx False \<noteq> VOk () then ((st, b), Some StVerify)
         else if \<not> Autogen tx \<and> \<not> Coinbase tx \<and> ImmediateVerifyTx v tx False \<noteq> VOk () then ((st, b), Some StVerify)
         else case doTxInternal env tx True (st, b) of
           ((st1, b1, hs), Some e) \<Rightarrow> ((st1, b1), Some e)
         | ((st1, b1, hs), None) \<Rightarrow> todoTxs env blk txs (payFee tx blk (st1\<lparr>st_utxo := Commit hs (st_utxo st1)\<rparr>, b1)))"

fun todoBlocks :: "('m, 'x) ledger_env \<Rightarrow> block list \<Rightarrow> 'm state \<Rightarrow> 'm state \<times> state_error option" where
  "todoBlocks env [] st = (st, None)"
| "todoBlocks env (todoBlk # blks) st =
     (case todoTxs env todoBlk (blk_Transactions todoBlk) (NewBatch st) of
        ((st1, b1), Some e) \<Rightarrow> (st1, Some e)
      | ((st1, b1), None) \<Rightarrow>
          (case UpdateNextIrreversibleBlockHeight (blk_Height todoBlk) (IrreversibleBlockHeight st1) (IrreversibleSlideWindow st1) (st1, b1) of
             None \<Rightarrow> (st1, Some StMeta)
           | Some sb2 \<Rightarrow>
               (case updateLatestBlockid env (blk_Blockid todoBlk) sb2 of
                  None \<Rightarrow> (fst sb2, Some StQuery)
                | Some st3 \<Rightarrow> todoBlocks env blks (publishMeta st3))))"

definition procTodoBlkForWalk :: "('m, 'x) ledger_env \<Rightarrow> block list \<Rightarrow> 'm state \<Rightarrow> 'm state \<times> state_error option" where
  "procTodoBlkForWalk env blks st = todoBlocks env (rev blks) st"

text \<open>The transactions that were rolled back are left to \<open>recoverUnconfirmedTx\<close>, which runs later.\<close>

definition Walk :: "('m, 'x) ledger_env \<Rightarrow> bytes \<Rightarrow> bool \<Rightarrow> 'm state \<Rightarrow> 'm state \<times> (state_error + transaction list)" where
  "Walk env blockid ledgerPrune st =
     (if bytes_Equal blockid (latestBlockid st) then (st, Inr [])
      else case RollBackUnconfirmedTx env st of
        (st1, Inl e) \<Rightarrow> (st1, Inl e)
      | (st1, Inr undoList) \<Rightarrow>
          (let st2 = clearBalanceCache (led_cacheSize env) st1
           in case led_paths env (latestBlockid st2) blockid of
                None \<Rightarrow> (st2, Inl StQuery)
              | Some (undoBlocks, todoBlks) \<Rightarrow>
                  (case procUndoBlkForWalk env undoBlocks (set (map (elems \<circ> Txid) undoList)) ledgerPrune st2 of
                     (st3, Some e) \<Rightarrow> (st3, Inl e)
                   | (st3, None) \<Rightarrow>
                       (case procTodoBlkForWalk env todoBlks st3 of
                          (st4, Some e) \<Rightarrow> (st4, Inl e)
                        | (st4, None) \<Rightarrow> (st4, Inr undoList)))))"

fun recoverUnconfirmedTx :: "('m, 'x) ledger_env \<Rightarrow> transaction list \<Rightarrow> 'm state \<Rightarrow> 'm state" where
  "recoverUnconfirmedTx env [] st = st"
| "recoverUnconfirmedTx env (tx # undoList) st =
     (let st' = recoverUnconfirmedTx env undoList st
      in if Coinbase tx \<or> Autogen tx then st'
         else if led_tx env (elems (Txid tx)) \<noteq> None then st'
         else if ImmediateVerifyTx (led_verifier env (st_db st')) tx False \<noteq> VOk () then st'
         else fst (doTxSync env tx st'))"

end
