(* ===== verification/LedgerPaths.thy ===== *)
theory LedgerPaths
  imports LedgerProofs StateMachine
begin

text \<open>
  The way from one block to another: \<open>FindUndoAndTodoBlocks\<close> ends, and it gives the blocks from each side down to the
  block where the two branches part.
\<close>

section \<open>Blocks read with their transactions\<close>

definition body :: "ledger_db \<Rightarrow> string \<Rightarrow> internal_block \<Rightarrow> bool" where
  "body d k b \<longleftrightarrow> queryBlock d (Some k) True = Inr b"

fun way :: "ledger_db \<Rightarrow> string \<Rightarrow> internal_block list \<Rightarrow> string \<Rightarrow> bool" where
  "way d k [] s \<longleftrightarrow> k = s"
| "way d k (b # bs) s \<longleftrightarrow> body d k b \<and> way d (elems (ib_PreHash b)) bs s"

abbreviation ids :: "internal_block list \<Rightarrow> string list" where
  "ids bs \<equiv> map (\<lambda>b. elems (ib_Blockid b)) bs"

lemma ids_ex: "x \<in> set (ids bs) \<longleftrightarrow> (\<exists>b \<in> set bs. elems (ib_Blockid b) = x)"
  by auto

lemma queryBlock_elems: "queryBlock d i = queryBlock d (Some (elems i))"
  by (simp add: fun_eq_iff queryBlock_def)

lemma way_append: "way d k (bs @ [b]) s \<longleftrightarrow> (\<exists>x. way d k bs x \<and> body d x b \<and> elems (ib_PreHash b) = s)"
  by (induction bs arbitrary: k) auto

lemma way_trans: "way d k bs x \<Longrightarrow> way d x cs s \<Longrightarrow> way d k (bs @ cs) s"
  by (induction bs arbitrary: k) auto

lemma body_unique: "body d k b \<Longrightarrow> body d k c \<Longrightarrow> b = c"
  by (simp add: body_def)

lemma stored_body:
  assumes "bodies d" "blocksTable d (elems i) \<noteq> None"
  obtains b where "body d (elems i) b"
proof -
  obtain b0 where "blocksTable d (elems i) = Some b0" using assms(2) by blast
  then obtain txs where "queryBlock d i True = Inr (b0\<lparr>ib_Transactions := txs\<rparr>)" by (rule queryBlock_body [OF assms(1)])
  then show ?thesis using that queryBlock_elems by (simp add: body_def)
qed

lemma body_stored: "body d k b \<Longrightarrow> blocksTable d k \<noteq> None"
  by (auto simp: body_def queryBlock_def split: option.splits)

lemma body_tree:
  assumes "block_tree d r n" "body d k b"
  shows "elems (ib_Blockid b) = k" "k \<noteq> []" "0 \<le> ib_Height b"
proof -
  obtain b0 txs where b: "blocksTable d k = Some b0" "b = b0\<lparr>ib_Transactions := txs\<rparr>"
    using assms(2) by (auto simp: body_def queryBlock_def split: option.splits if_splits sum.splits)
  show "elems (ib_Blockid b) = k" "k \<noteq> []" "0 \<le> ib_Height b" using block_treeD(1-3) [OF assms(1) b(1)] b(2) by simp_all
qed

lemma body_parent:
  assumes "block_tree d r n" "bodies d" "body d k b" "k \<noteq> r"
  obtains p where "body d (elems (ib_PreHash b)) p" "ib_Height p = ib_Height b - 1" "0 < ib_Height b"
proof -
  obtain b0 txs where b: "blocksTable d k = Some b0" "b = b0\<lparr>ib_Transactions := txs\<rparr>"
    using assms(3) by (auto simp: body_def queryBlock_def split: option.splits if_splits sum.splits)
  from block_treeD(5) [OF assms(1) b(1) assms(4)] obtain p where p: "blocksTable d (elems (ib_PreHash b)) = Some p" "ib_Height p = ib_Height b - 1"
    using b(2) by auto
  then obtain txs' where "queryBlock d (ib_PreHash b) True = Inr (p\<lparr>ib_Transactions := txs'\<rparr>)" using queryBlock_body [OF assms(2)] by metis
  then have "body d (elems (ib_PreHash b)) (p\<lparr>ib_Transactions := txs'\<rparr>)" using queryBlock_elems by (simp add: body_def)
  then show ?thesis using p(2) block_treeD(3) [OF assms(1) p(1)] by (intro that [of "p\<lparr>ib_Transactions := txs'\<rparr>"]) simp_all
qed

lemma body_root:
  assumes "block_tree d r n" "body d r b"
  shows "ib_Height b = 0" "elems (ib_PreHash b) = []"
  using assms by (auto simp: body_def queryBlock_def block_tree_def split: option.splits if_splits sum.splits)

lemma way_heights:
  assumes "block_tree d r n" "bodies d" "way d k bs s" "body d s c" "b \<in> set bs"
  shows "body d (elems (ib_Blockid b)) b" "ib_Height c < ib_Height b"
proof -
  have "\<forall>b \<in> set bs. body d (elems (ib_Blockid b)) b \<and> ib_Height c < ib_Height b"
    using assms(3)
  proof (induction bs arbitrary: k)
    case (Cons x xs)
    note IH = Cons.IH
    have x: "body d k x" "way d (elems (ib_PreHash x)) xs s" using Cons.prems by simp_all
    have "k \<noteq> r"
    proof
      assume "k = r"
      then have "elems (ib_PreHash x) = []" using x(1) body_root(2) [OF assms(1)] by simp
      moreover have "\<exists>y. body d (elems (ib_PreHash x)) y" using x(2) assms(4) by (cases xs) auto
      ultimately show False using body_tree(2) [OF assms(1)] by auto
    qed
    then obtain p where p: "body d (elems (ib_PreHash x)) p" "ib_Height p = ib_Height x - 1" by (rule body_parent [OF assms(1,2) x(1)])
    have le: "ib_Height c \<le> ib_Height p"
    proof (cases xs)
      case Nil
      then show ?thesis using x(2) p(1) assms(4) body_unique by fastforce
    next
      case (Cons y ys)
      then have "p = y" using x(2) p(1) body_unique [of d "elems (ib_PreHash x)" p y] by simp
      moreover have "ib_Height c < ib_Height y" using IH [OF x(2)] Cons by simp
      ultimately show ?thesis by simp
    qed
    show ?case using x(1) body_tree(1) [OF assms(1) x(1)] p(2) le IH [OF x(2)] by simp
  qed simp
  then show "body d (elems (ib_Blockid b)) b" "ib_Height c < ib_Height b" using assms(5) by simp_all
qed


lemma way_split: "way d k (ys @ y # zs) s \<Longrightarrow> \<exists>x. way d k ys x \<and> body d x y"
  by (induction ys arbitrary: k) auto

lemma way_distinct:
  assumes "block_tree d r n" "bodies d" "way d k bs s" "body d s c"
  shows "distinct (ids bs)"
  using assms(3)
proof (induction bs arbitrary: k)
  case (Cons x xs)
  have x: "body d k x" "way d (elems (ib_PreHash x)) xs s" using Cons.prems by simp_all
  have "elems (ib_Blockid x) \<notin> set (ids xs)"
  proof
    assume "elems (ib_Blockid x) \<in> set (ids xs)"
    then obtain y where y: "y \<in> set xs" "elems (ib_Blockid y) = elems (ib_Blockid x)" unfolding ids_ex by blast
    then obtain ys zs where s: "xs = ys @ y # zs" by (meson split_list)
    have "body d (elems (ib_Blockid y)) y" using way_heights(1) [OF assms(1,2) x(2) assms(4) y(1)] .
    then have yx: "y = x" using x(1) y(2) body_tree(1) [OF assms(1) x(1)] body_unique by metis
    have "way d (elems (ib_Blockid x)) (x # ys) (elems (ib_Blockid x))"
      using Cons.prems s yx body_tree(1) [OF assms(1)] way_split [of d "elems (ib_PreHash x)" ys y zs s] by auto
    then show False using way_heights(2) [OF assms(1,2), of "elems (ib_Blockid x)" "x # ys" "elems (ib_Blockid x)" x x] x(1) body_tree(1) [OF assms(1) x(1)] by simp
  qed
  then show ?case using Cons.IH [OF x(2)] by simp
qed simp

section \<open>The loop\<close>

text \<open>
  The state of the loop: each list is a way down to its current block, the two have no block in common, and neither side is
  more than one block below the other after it has moved.
\<close>

definition walking :: "ledger_db \<Rightarrow> string \<Rightarrow> string \<Rightarrow> internal_block list \<Rightarrow> internal_block list \<Rightarrow> string set \<Rightarrow> internal_block \<Rightarrow> internal_block \<Rightarrow> bool" where
  "walking d cur dest us ts visited old new \<longleftrightarrow>
     body d (elems (ib_Blockid old)) old \<and> body d (elems (ib_Blockid new)) new \<and>
     way d cur us (elems (ib_Blockid old)) \<and> way d dest ts (elems (ib_Blockid new)) \<and>
     visited = set (ids (us @ [old])) \<union> set (ids (ts @ [new])) \<and> set (ids (us @ [old])) \<inter> set (ids (ts @ [new])) = {} \<and>
     (us = [] \<or> ib_Height new \<le> ib_Height old + 1) \<and> (ts = [] \<or> ib_Height old \<le> ib_Height new + 1)"

text \<open>The two ways end at the block where they part.\<close>

definition parted :: "ledger_db \<Rightarrow> string \<Rightarrow> string \<Rightarrow> internal_block list \<Rightarrow> internal_block list \<Rightarrow> string \<Rightarrow> bool" where
  "parted d cur dest us ts s \<longleftrightarrow>
     way d cur us s \<and> way d dest ts s \<and> (\<exists>b. body d s b) \<and> set (ids us) \<inter> set (ids ts) = {} \<and> s \<notin> set (ids us) \<and> s \<notin> set (ids ts)"

text \<open>One side moves to the parent of its block: the parent is new, or it is the current block of the other side.\<close>

lemma move_down:
  assumes "block_tree d r n" "bodies d" "walking d cur dest us ts visited old new" "ib_Height new \<le> ib_Height old"
  obtains p where "body d (elems (ib_PreHash old)) p" "ib_Height p = ib_Height old - 1" "elems (ib_PreHash old) \<noteq> []"
    "elems (ib_Blockid p) \<in> visited \<Longrightarrow> p = new \<and> parted d cur dest (us @ [old]) ts (elems (ib_Blockid new))"
    "elems (ib_Blockid p) \<notin> visited \<Longrightarrow> walking d cur dest (us @ [old]) ts (insert (elems (ib_Blockid p)) visited) p new"
proof -
  note t = assms(1,2) and w = assms(3) [unfolded walking_def]
  have old: "body d (elems (ib_Blockid old)) old" and new: "body d (elems (ib_Blockid new)) new" using w by auto
  have "elems (ib_Blockid old) \<noteq> r"
  proof
    assume o: "elems (ib_Blockid old) = r"
    then have "ib_Height new \<le> 0" using old body_root(1) [OF t(1)] assms(4) by metis
    then have "elems (ib_Blockid new) = r" using body_parent [OF t new] by fastforce
    then show False using o w by auto
  qed
  then obtain p where p: "body d (elems (ib_PreHash old)) p" "ib_Height p = ib_Height old - 1" by (rule body_parent [OF t old])
  note pk = body_tree [OF t(1) p(1)]
  have up: "b \<in> set (us @ [old]) \<Longrightarrow> ib_Height old \<le> ib_Height b" "c \<in> set (ts @ [new]) \<Longrightarrow> body d (elems (ib_Blockid c)) c" "c \<in> set ts \<Longrightarrow> ib_Height new < ib_Height c" for b c
    using way_heights(2) [OF t, of cur us "elems (ib_Blockid old)" old b] way_heights [OF t, of dest ts "elems (ib_Blockid new)" new c] w by auto
  have ub: "b \<in> set (us @ [old]) \<Longrightarrow> body d (elems (ib_Blockid b)) b" for b
    using way_heights(1) [OF t, of cur us "elems (ib_Blockid old)" old b] w by auto
  have np: "elems (ib_Blockid p) \<notin> set (ids (us @ [old]))"
  proof
    assume "elems (ib_Blockid p) \<in> set (ids (us @ [old]))"
    then obtain b where b: "b \<in> set (us @ [old])" "elems (ib_Blockid b) = elems (ib_Blockid p)" unfolding ids_ex by blast
    then have "b = p" using ub [OF b(1)] p(1) pk(1) body_unique by metis
    then show False using up(1) [OF b(1)] p(2) by simp
  qed
  have way: "way d cur (us @ [old]) (elems (ib_Blockid p))" using w pk(1) by (auto simp: way_append)
  show ?thesis
  proof (rule that [OF p pk(2)])
    assume "elems (ib_Blockid p) \<in> visited"
    then have "elems (ib_Blockid p) \<in> set (ids (ts @ [new]))" using np w by blast
    then obtain c where c: "c \<in> set (ts @ [new])" "elems (ib_Blockid c) = elems (ib_Blockid p)" unfolding ids_ex by blast
    have "c = p" using up(2) [OF c(1)] c(2) p(1) pk(1) body_unique by metis
    moreover have "c \<notin> set ts" using up(3) [of c] p(2) w \<open>c = p\<close> by fastforce
    ultimately have pn: "p = new" using c(1) by simp
    have nts: "elems (ib_Blockid new) \<notin> set (ids ts)"
    proof
      assume "elems (ib_Blockid new) \<in> set (ids ts)"
      then obtain x where x: "x \<in> set ts" "elems (ib_Blockid x) = elems (ib_Blockid new)" unfolding ids_ex by blast
      then have "x = new" using up(2) [of x] new body_unique by fastforce
      then show False using up(3) [OF x(1)] by simp
    qed
    show "p = new \<and> parted d cur dest (us @ [old]) ts (elems (ib_Blockid new))"
      unfolding parted_def using pn way w nts np new by auto
  next
    assume nv: "elems (ib_Blockid p) \<notin> visited"
    have "ib_Height old \<le> ib_Height new + 1 \<or> ts = []" using w by auto
    then show "walking d cur dest (us @ [old]) ts (insert (elems (ib_Blockid p)) visited) p new"
      unfolding walking_def using w way p pk(1) assms(4) nv by auto
  qed
qed


lemma walking_sym: "walking d cur dest us ts visited old new = walking d dest cur ts us visited new old"
  unfolding walking_def by blast

lemma parted_sym: "parted d cur dest us ts s = parted d dest cur ts us s"
  unfolding parted_def by blast

lemma dropSplit_last: "elems (ib_Blockid b) = elems s \<Longrightarrow> dropSplit (bs @ [b]) s = bs"
  and dropSplit_other: "elems (ib_Blockid b) \<noteq> elems s \<Longrightarrow> dropSplit (bs @ [b]) s = bs @ [b]"
  by (simp_all add: dropSplit_def bytes_Equal_def)

lemma walking_apart: "walking d cur dest us ts visited old new \<Longrightarrow> elems (ib_Blockid old) \<noteq> elems (ib_Blockid new)"
  by (auto simp: walking_def)

text \<open>The answer of the loop, with the block where the ways part possibly at the end of one of the lists.\<close>

definition found :: "ledger_db \<Rightarrow> string \<Rightarrow> string \<Rightarrow> (ledger_error + internal_block list \<times> internal_block list \<times> bytes) option \<Rightarrow> bool" where
  "found d cur dest res \<longleftrightarrow> (\<exists>u t s. res = Some (Inr (u, t, s)) \<and> parted d cur dest (dropSplit u s) (dropSplit t s) (elems s))"

lemma foundI:
  assumes "parted d cur dest (us @ [old]) ts (elems (ib_Blockid new))" "elems (ib_Blockid old) \<noteq> elems (ib_Blockid new)"
  shows "found d cur dest (Some (Inr (us @ [old], ts @ [new], ib_Blockid new)))"
    "found d dest cur (Some (Inr (ts @ [new], us @ [old], ib_Blockid new)))"
  using assms parted_sym [of d dest cur ts "us @ [old]"]
  by (simp_all add: found_def dropSplit_last dropSplit_other)

lemma pathLoop_finds:
  assumes "block_tree d r n" "bodies d" "walking d cur dest us ts visited old new"
  shows "found d cur dest (pathLoop d root (us @ [old]) (ts @ [new]) visited old new)"
  using assms(3)
proof (induction "nat (ib_Height old + ib_Height new)" arbitrary: us ts visited old new rule: less_induct)
  case less
  note w = less.prems
  have h: "0 \<le> ib_Height old" "0 \<le> ib_Height new"
    using w body_tree(3) [OF assms(1), of _ old] body_tree(3) [OF assms(1), of _ new] by (auto simp: walking_def)
  show ?case
  proof (cases "ib_Height new \<le> ib_Height old")
    case True
    from move_down [OF assms(1,2) w True] obtain p where p: "body d (elems (ib_PreHash old)) p" "ib_Height p = ib_Height old - 1" "elems (ib_PreHash old) \<noteq> []"
        "elems (ib_Blockid p) \<in> visited \<Longrightarrow> p = new \<and> parted d cur dest (us @ [old]) ts (elems (ib_Blockid new))"
        "elems (ib_Blockid p) \<notin> visited \<Longrightarrow> walking d cur dest (us @ [old]) ts (insert (elems (ib_Blockid p)) visited) p new" by metis
    have qp: "queryBlock d (ib_PreHash old) True = Inr p" using p(1) queryBlock_elems by (simp add: body_def)
    show ?thesis
    proof (cases "elems (ib_Blockid p) \<in> visited")
      case v: True
      then have "p = new" "parted d cur dest (us @ [old]) ts (elems (ib_Blockid new))" using p(4) by simp_all
      then show ?thesis using foundI(1) walking_apart [OF w] True p(3) v by (subst pathLoop.simps) (simp add: qp Let_def)
    next
      case v: False
      note w1 = p(5) [OF v]
      have ph: "0 \<le> ib_Height p" using body_tree(3) [OF assms(1) p(1)] .
      show ?thesis
      proof (cases "ib_Height p \<le> ib_Height new")
        case pn: True
        from move_down [OF assms(1,2) w1 [unfolded walking_sym [of d cur]] pn] obtain q where q:
            "body d (elems (ib_PreHash new)) q" "ib_Height q = ib_Height new - 1" "elems (ib_PreHash new) \<noteq> []"
            "elems (ib_Blockid q) \<in> insert (elems (ib_Blockid p)) visited \<Longrightarrow> q = p \<and> parted d dest cur (ts @ [new]) (us @ [old]) (elems (ib_Blockid p))"
            "elems (ib_Blockid q) \<notin> insert (elems (ib_Blockid p)) visited \<Longrightarrow>
               walking d dest cur (ts @ [new]) (us @ [old]) (insert (elems (ib_Blockid q)) (insert (elems (ib_Blockid p)) visited)) q p" by metis
        have qq: "queryBlock d (ib_PreHash new) True = Inr q" using q(1) queryBlock_elems by (simp add: body_def)
        show ?thesis
        proof (cases "elems (ib_Blockid q) \<in> insert (elems (ib_Blockid p)) visited")
          case qv: True
          then have "q = p" "parted d dest cur (ts @ [new]) (us @ [old]) (elems (ib_Blockid p))" using q(4) by simp_all
          then have "found d cur dest (Some (Inr ((us @ [old]) @ [p], ts @ [new], ib_Blockid p)))"
            using foundI(2) [of d dest cur ts new "us @ [old]" p] walking_apart [OF w1] by simp
          then show ?thesis using True p(3) q(3) v qv pn \<open>q = p\<close> by (subst pathLoop.simps) (simp add: qp qq Let_def)
        next
          case qv: False
          have "found d cur dest (pathLoop d root ((us @ [old]) @ [p]) ((ts @ [new]) @ [q]) (insert (elems (ib_Blockid q)) (insert (elems (ib_Blockid p)) visited)) p q)"
            by (rule less.hyps) (use p(2) q(2) h ph pn q(5) [OF qv] walking_sym in auto)
          then show ?thesis using True p(3) q(3) v qv pn by (subst pathLoop.simps) (simp add: qp qq Let_def)
        qed
      next
        case pn: False
        have "found d cur dest (pathLoop d root ((us @ [old]) @ [p]) (ts @ [new]) (insert (elems (ib_Blockid p)) visited) p new)"
          by (rule less.hyps) (use p(2) h ph w1 in auto)
        then show ?thesis using True p(3) v pn by (subst pathLoop.simps) (simp add: qp Let_def)
      qed
    qed
  next
    case False
    then have le: "ib_Height old \<le> ib_Height new" by simp
    from move_down [OF assms(1,2) w [unfolded walking_sym [of d cur]] le] obtain q where q:
        "body d (elems (ib_PreHash new)) q" "ib_Height q = ib_Height new - 1" "elems (ib_PreHash new) \<noteq> []"
        "elems (ib_Blockid q) \<in> visited \<Longrightarrow> q = old \<and> parted d dest cur (ts @ [new]) us (elems (ib_Blockid old))"
        "elems (ib_Blockid q) \<notin> visited \<Longrightarrow> walking d dest cur (ts @ [new]) us (insert (elems (ib_Blockid q)) visited) q old" by metis
    have qq: "queryBlock d (ib_PreHash new) True = Inr q" using q(1) queryBlock_elems by (simp add: body_def)
    show ?thesis
    proof (cases "elems (ib_Blockid q) \<in> visited")
      case qv: True
      then have "q = old" "parted d dest cur (ts @ [new]) us (elems (ib_Blockid old))" using q(4) by simp_all
      then have "found d cur dest (Some (Inr (us @ [old], ts @ [new], ib_Blockid old)))"
        using foundI(2) [of d dest cur ts new us old] walking_apart [OF w] by simp
      then show ?thesis using False q(3) qv \<open>q = old\<close> by (subst pathLoop.simps) (simp add: qq Let_def)
    next
      case qv: False
      have "found d cur dest (pathLoop d root (us @ [old]) ((ts @ [new]) @ [q]) (insert (elems (ib_Blockid q)) visited) old q)"
        by (rule less.hyps) (use q(2) h False q(5) [OF qv] walking_sym in auto)
      then show ?thesis using False q(3) qv by (subst pathLoop.simps) (simp add: qq Let_def)
    qed
  qed
qed


section \<open>The way between two blocks\<close>

lemma FindUndoAndTodoBlocks_parted:
  assumes "ledger_wf l" "ExistBlock l cur" "ExistBlock l dest"
  obtains us ts s where "FindUndoAndTodoBlocks l cur dest = Some (Inr (us, ts))" "parted (ldb l) (elems cur) (elems dest) us ts s"
proof -
  define d where "d = ldb l"
  note wf = ledger_wfD(2,5) [OF assms(1), folded d_def]
  obtain old where old: "queryBlock d cur True = Inr old" using assms(2) queryBlock_body [OF wf(2)] unfolding ExistBlock_def d_def by (metis option.exhaust)
  obtain new where new: "queryBlock d dest True = Inr new" using assms(3) queryBlock_body [OF wf(2)] unfolding ExistBlock_def d_def by (metis option.exhaust)
  have bo: "body d (elems cur) old" "body d (elems dest) new" using old new queryBlock_elems by (simp_all add: body_def)
  note k = body_tree(1) [OF wf(1) bo(1)] body_tree(1) [OF wf(1) bo(2)]
  show ?thesis
  proof (cases "elems dest = elems cur")
    case True
    show ?thesis
      by (rule that [of "[]" "[]" "elems cur"]) (use True bo in \<open>auto simp: FindUndoAndTodoBlocks_def bytes_Equal_def parted_def d_def [symmetric]\<close>)
  next
    case False
    have "walking d (elems cur) (elems dest) [] [] {elems (ib_Blockid old), elems (ib_Blockid new)} old new"
      using bo k False by (auto simp: walking_def)
    from pathLoop_finds [OF wf this, of "RootBlockid (lmeta l)"] obtain u t s where
      p: "pathLoop d (RootBlockid (lmeta l)) [old] [new] {elems (ib_Blockid old), elems (ib_Blockid new)} old new = Some (Inr (u, t, s))"
        "parted d (elems cur) (elems dest) (dropSplit u s) (dropSplit t s) (elems s)" by (auto simp: found_def)
    show ?thesis
    proof (rule that)
      show "FindUndoAndTodoBlocks l cur dest = Some (Inr (dropSplit u s, dropSplit t s))"
        using False by (simp add: FindUndoAndTodoBlocks_def bytes_Equal_def d_def [symmetric] old new p(1))
      show "parted (ldb l) (elems cur) (elems dest) (dropSplit u s) (dropSplit t s) (elems s)" using p(2) by (simp add: d_def)
    qed
  qed
qed

section \<open>The state follows the ledger\<close>

text \<open>The ledger as the state machine sees it.\<close>

definition state_block :: "internal_block \<Rightarrow> block" where
  "state_block b = \<lparr>blk_Blockid = ib_Blockid b, blk_PreHash = ib_PreHash b, blk_Proposer = ib_Proposer b, blk_Height = ib_Height b,
     blk_Transactions = ib_Transactions b\<rparr>"

definition ledger_paths :: "ledger \<Rightarrow> bytes \<Rightarrow> bytes \<Rightarrow> (block list \<times> block list) option" where
  "ledger_paths l cur dest =
     (case FindUndoAndTodoBlocks l cur dest of Some (Inr (us, ts)) \<Rightarrow> Some (map state_block us, map state_block ts) | _ \<Rightarrow> None)"

lemma ledger_paths_parted:
  assumes "ledger_wf l" "ledger_paths l cur dest = Some (bs, cs)"
  obtains us ts s where "bs = map state_block us" "cs = map state_block ts" "way (ldb l) (elems cur) us s" "way (ldb l) (elems dest) ts s"
proof (cases "elems dest = elems cur")
  case True
  then have "bs = []" "cs = []" using assms(2) by (simp_all add: ledger_paths_def FindUndoAndTodoBlocks_def bytes_Equal_def)
  then show ?thesis using that [of "[]" "[]" "elems cur"] True by simp
next
  case False
  have "ExistBlock l cur \<and> ExistBlock l dest"
    using assms(2) False by (auto simp: ledger_paths_def FindUndoAndTodoBlocks_def bytes_Equal_def ExistBlock_def queryBlock_def split: option.splits sum.splits)
  then obtain us ts s where "FindUndoAndTodoBlocks l cur dest = Some (Inr (us, ts))" "parted (ldb l) (elems cur) (elems dest) us ts s"
    using FindUndoAndTodoBlocks_parted [OF assms(1)] by metis
  then show ?thesis using that assms(2) by (auto simp: ledger_paths_def parted_def)
qed

lemma updateLatestBlockid_latest: "updateLatestBlockid env i sb = Some st \<Longrightarrow> latestBlockid st = i"
  by (auto simp: updateLatestBlockid_def split: prod.splits option.splits)

lemma publishMeta_latest [simp]: "latestBlockid (publishMeta st) = latestBlockid st"
  by (simp add: publishMeta_def)

lemma procUndo_latest:
  "procUndoBlkForWalk env bs done' prune st = (st', None) \<Longrightarrow> latestBlockid st' = (if bs = [] then latestBlockid st else blk_PreHash (last bs))"
proof (induction env bs done' prune st rule: procUndoBlkForWalk.induct)
  case (2 env b bs done' prune st)
  from 2(2) obtain st1 b1 where u: "undoTxs env b done' (rev (blk_Transactions b)) (NewBatch st) = ((st1, b1), None)" "prune \<or> \<not> blk_Height b \<le> IrreversibleBlockHeight st"
    by (auto split: if_splits prod.splits option.splits)
  obtain sb2 st3 where r: "updateLatestBlockid env (blk_PreHash b) sb2 = Some st3" "procUndoBlkForWalk env bs done' prune (publishMeta st3) = (st', None)"
    "latestBlockid st' = (if bs = [] then latestBlockid (publishMeta st3) else blk_PreHash (last bs))"
    using 2 u by (auto split: if_splits option.splits)
  then show ?case using updateLatestBlockid_latest [OF r(1)] by simp
qed simp

lemma todoBlocks_latest:
  "todoBlocks env bs st = (st', None) \<Longrightarrow> latestBlockid st' = (if bs = [] then latestBlockid st else blk_Blockid (last bs))"
proof (induction env bs st rule: todoBlocks.induct)
  case (2 env b bs st)
  from 2(2) obtain st1 b1 where u: "todoTxs env b (blk_Transactions b) (NewBatch st) = ((st1, b1), None)"
    by (auto split: prod.splits option.splits)
  obtain sb2 st3 where r: "updateLatestBlockid env (blk_Blockid b) sb2 = Some st3"
    "latestBlockid st' = (if bs = [] then latestBlockid (publishMeta st3) else blk_Blockid (last bs))"
    using 2 u by (auto split: option.splits)
  then show ?case using updateLatestBlockid_latest [OF r(1)] by simp
qed simp

lemma way_last: "way d k bs s \<Longrightarrow> bs \<noteq> [] \<Longrightarrow> elems (ib_PreHash (last bs)) = s"
  by (induction bs arbitrary: k) auto

lemma Walk_arrives:
  assumes "ledger_wf l" "led_paths env = ledger_paths l" "Walk env dest prune st = (st', Inr undone)"
  shows "elems (latestBlockid st') = elems dest"
proof (cases "bytes_Equal dest (latestBlockid st)")
  case True
  then show ?thesis using assms(3) by (simp add: Walk_def bytes_Equal_def)
next
  case False
  from assms(3) False obtain st1 where r: "RollBackUnconfirmedTx env st = (st1, Inr undone)"
    by (auto simp: Walk_def Let_def split: prod.splits sum.splits option.splits)
  define st2 where "st2 = clearBalanceCache (led_cacheSize env) st1"
  from assms(3) False r obtain bs cs st3 where p: "ledger_paths l (latestBlockid st2) dest = Some (bs, cs)"
      "procUndoBlkForWalk env bs (set (map (elems \<circ> Txid) undone)) prune st2 = (st3, None)" "procTodoBlkForWalk env cs st3 = (st', None)"
    by (auto simp: Walk_def Let_def st2_def [symmetric] assms(2) split: prod.splits option.splits)
  from ledger_paths_parted [OF assms(1) p(1)] obtain us ts s where w: "bs = map state_block us" "cs = map state_block ts"
      "way (ldb l) (elems (latestBlockid st2)) us s" "way (ldb l) (elems dest) ts s" by metis
  have m: "elems (latestBlockid st3) = s"
    using procUndo_latest [OF p(2)] w(1,3) way_last [OF w(3)] by (auto simp: state_block_def last_map)
  show ?thesis
  proof (cases ts)
    case Nil
    then show ?thesis using p(3) m w(2,4) by (simp add: procTodoBlkForWalk_def)
  next
    case (Cons t ts')
    then have "latestBlockid st' = ib_Blockid t"
      using todoBlocks_latest [OF p(3) [unfolded procTodoBlkForWalk_def]] by (simp add: w(2) state_block_def)
    moreover have "body (ldb l) (elems dest) t" using w(4) Cons by simp
    ultimately show ?thesis using body_tree(1) [OF ledger_wfD(2) [OF assms(1)]] by metis
  qed
qed

end
