(* ===== verification/LedgerPrune.thy ===== *)
theory LedgerPrune
  imports LedgerPaths
begin

text \<open>
  The operations of the pruning command: the common ancestor of two blocks is found, and the change to the other branch that
  follows never ends.
\<close>

section \<open>The cache of blocks\<close>

definition blocks_cached :: "ledger \<Rightarrow> bool" where
  "blocks_cached l \<longleftrightarrow> lru_wf (blockCache l) \<and> (\<forall>k b. hit (blockCache l) k = Some b \<longrightarrow> body (ldb l) k b)"

lemma QueryBlock_cached:
  assumes "blocks_cached l" "body (ldb l) (elems i) b"
  obtains c where "Ledger.QueryBlock l i = (l\<lparr>blockCache := c\<rparr>, Inr b)" "blocks_cached (l\<lparr>blockCache := c\<rparr>)"
proof -
  obtain c v where g: "lru_Get (blockCache l) (elems i) = (c, v)" by fastforce
  have wf: "lru_wf (blockCache l)" using assms(1) by (simp add: blocks_cached_def)
  note get = lru_Get_refines [OF wf, of "elems i", unfolded g fst_conv snd_conv]
  have c: "blocks_cached (l\<lparr>blockCache := c\<rparr>)" using assms(1) get(1,2) by (simp add: blocks_cached_def hit_def)
  show ?thesis
  proof (cases v)
    case (Some b')
    then have "b' = b" using assms get(3) body_unique by (simp add: blocks_cached_def hit_def) metis
    then show ?thesis using g Some c by (intro that [of c]) (simp_all add: Ledger.QueryBlock_def)
  next
    case None
    have q: "queryBlock (ldb l) i True = Inr b" using assms(2) queryBlock_elems by (simp add: body_def)
    have "body (ldb l) k w" if "hit (fst (lru_Add c (elems i) b)) k = Some w" for k w
      using lru_Add_lookup [OF get(1) that [unfolded hit_def]] c assms(2) by (auto simp: blocks_cached_def hit_def split: if_splits)
    then have "blocks_cached (l\<lparr>blockCache := fst (lru_Add c (elems i) b)\<rparr>)" using get(1) by (simp add: blocks_cached_def lru_Add_wf)
    then show ?thesis using g None q by (intro that [of "fst (lru_Add c (elems i) b)"]) (simp_all add: Ledger.QueryBlock_def)
  qed
qed

section \<open>The common ancestor\<close>

lemma climb_finds:
  assumes "block_tree (ldb l) r n" "bodies (ldb l)" "blocks_cached l" "body (ldb l) k b" "0 \<le> h"
  shows "\<exists>c b' us. climb l b h = Some (l\<lparr>blockCache := c\<rparr>, Inr b') \<and> blocks_cached (l\<lparr>blockCache := c\<rparr>) \<and> way (ldb l) k us (elems (ib_Blockid b')) \<and>
     body (ldb l) (elems (ib_Blockid b')) b' \<and> ib_Height b' = min (ib_Height b) h"
  using assms
proof (induction "nat (ib_Height b)" arbitrary: l k b rule: less_induct)
  case less
  note t = less.prems(1,2)
  have kb: "elems (ib_Blockid b) = k" using body_tree(1) [OF t(1) less.prems(4)] .
  show ?case
  proof (cases "ib_Height b > h")
    case False
    then show ?thesis using less.prems(3,4) kb
      by (subst climb.simps) (auto intro!: exI [of _ "blockCache l"] exI [of _ b] exI [of _ "[]"])
  next
    case True
    have "k \<noteq> r" using body_root(1) [OF t(1)] less.prems(4,5) True by fastforce
    then obtain p where p: "body (ldb l) (elems (ib_PreHash b)) p" "ib_Height p = ib_Height b - 1" "0 < ib_Height b"
      by (rule body_parent [OF t less.prems(4)])
    obtain c where c: "Ledger.QueryBlock l (ib_PreHash b) = (l\<lparr>blockCache := c\<rparr>, Inr p)" "blocks_cached (l\<lparr>blockCache := c\<rparr>)"
      by (rule QueryBlock_cached [OF less.prems(3) p(1)])
    have "\<exists>c' b' us. climb (l\<lparr>blockCache := c\<rparr>) p h = Some (l\<lparr>blockCache := c, blockCache := c'\<rparr>, Inr b') \<and> blocks_cached (l\<lparr>blockCache := c, blockCache := c'\<rparr>) \<and>
       way (ldb l) (elems (ib_PreHash b)) us (elems (ib_Blockid b')) \<and> body (ldb l) (elems (ib_Blockid b')) b' \<and> ib_Height b' = min (ib_Height p) h"
      using less.hyps [of p "l\<lparr>blockCache := c\<rparr>" "elems (ib_PreHash b)"] p t c(2) less.prems(5) by simp
    then obtain c' b' us where r: "climb (l\<lparr>blockCache := c\<rparr>) p h = Some (l\<lparr>blockCache := c'\<rparr>, Inr b')" "blocks_cached (l\<lparr>blockCache := c'\<rparr>)"
       "way (ldb l) (elems (ib_PreHash b)) us (elems (ib_Blockid b'))" "body (ldb l) (elems (ib_Blockid b')) b'" "ib_Height b' = min (ib_Height p) h" by auto
    then show ?thesis using True c(1) p(2) less.prems(4)
      by (subst climb.simps) (auto intro!: exI [of _ c'] exI [of _ b'] exI [of _ "b # us"])
  qed
qed

lemma meet_finds:
  assumes "block_tree (ldb l) r n" "bodies (ldb l)" "blocks_cached l" "body (ldb l) k a" "body (ldb l) k' b" "ib_Height a = ib_Height b"
  shows "\<exists>c s us ts. meet l a b = Some (l\<lparr>blockCache := c\<rparr>, Inr s) \<and> way (ldb l) k us (elems s) \<and> way (ldb l) k' ts (elems s) \<and>
     blocksTable (ldb l) (elems s) \<noteq> None"
  using assms
proof (induction "nat (ib_Height b)" arbitrary: l k k' a b rule: less_induct)
  case less
  note t = less.prems(1,2)
  have kb: "elems (ib_Blockid a) = k" "elems (ib_Blockid b) = k'" using body_tree(1) [OF t(1)] less.prems(4,5) by auto
  show ?case
  proof (cases "k = k'")
    case True
    then show ?thesis using kb body_stored [OF less.prems(4)]
      by (subst meet.simps) (auto simp: bytes_Equal_def intro!: exI [of _ "blockCache l"] exI [of _ "[]"])
  next
    case False
    have pos: "0 < ib_Height b"
    proof (rule ccontr)
      assume "\<not> 0 < ib_Height b"
      then have "k = r" "k' = r" using body_parent [OF t less.prems(4)] body_parent [OF t less.prems(5)] less.prems(6) by fastforce+
      then show False using False by simp
    qed
    then have "k \<noteq> r" "k' \<noteq> r" using body_root(1) [OF t(1)] less.prems(4,5,6) by fastforce+
    obtain p where p: "body (ldb l) (elems (ib_PreHash a)) p" "ib_Height p = ib_Height a - 1"
      using body_parent [OF t less.prems(4) \<open>k \<noteq> r\<close>] by metis
    obtain q where q: "body (ldb l) (elems (ib_PreHash b)) q" "ib_Height q = ib_Height b - 1"
      using body_parent [OF t less.prems(5) \<open>k' \<noteq> r\<close>] by metis
    obtain c where c: "Ledger.QueryBlock l (ib_PreHash a) = (l\<lparr>blockCache := c\<rparr>, Inr p)" "blocks_cached (l\<lparr>blockCache := c\<rparr>)"
      by (rule QueryBlock_cached [OF less.prems(3) p(1)])
    define l1 where "l1 = l\<lparr>blockCache := c\<rparr>"
    have l1: "ldb l1 = ldb l" "blocks_cached l1" using c(2) by (simp_all add: l1_def)
    obtain c' where c': "Ledger.QueryBlock l1 (ib_PreHash b) = (l1\<lparr>blockCache := c'\<rparr>, Inr q)" "blocks_cached (l1\<lparr>blockCache := c'\<rparr>)"
      by (rule QueryBlock_cached [OF l1(2) q(1) [folded l1(1)]])
    define l2 where "l2 = l1\<lparr>blockCache := c'\<rparr>"
    have l2: "ldb l2 = ldb l" "blocks_cached l2" using c'(2) l1 by (simp_all add: l2_def)
    have "\<exists>c s us ts. meet l2 p q = Some (l2\<lparr>blockCache := c\<rparr>, Inr s) \<and> way (ldb l) (elems (ib_PreHash a)) us (elems s) \<and> way (ldb l) (elems (ib_PreHash b)) ts (elems s) \<and>
        blocksTable (ldb l) (elems s) \<noteq> None"
      using less.hyps [of q l2 "elems (ib_PreHash a)" p "elems (ib_PreHash b)"] p q t l2 less.prems(6) pos by simp
    then obtain x s us ts where r: "meet l2 p q = Some (l2\<lparr>blockCache := x\<rparr>, Inr s)" "way (ldb l) (elems (ib_PreHash a)) us (elems s)" "way (ldb l) (elems (ib_PreHash b)) ts (elems s)"
        "blocksTable (ldb l) (elems s) \<noteq> None" by blast
    have "meet l a b = Some (l\<lparr>blockCache := x\<rparr>, Inr s)"
      using False kb by (subst meet.simps) (simp add: bytes_Equal_def c(1) l1_def [symmetric] c'(1) l2_def [symmetric] r(1), simp add: l2_def l1_def)
    moreover have "way (ldb l) k (a # us) (elems s)" "way (ldb l) k' (b # ts) (elems s)" using r(2,3) less.prems(4,5) by simp_all
    ultimately show ?thesis using r(4) by blast
  qed
qed

lemma GetCommonParentBlockid_finds:
  assumes wf: "ledger_wf l" and bc: "blocks_cached l" and ex: "ExistBlock l i" "ExistBlock l j"
  obtains c s us ts where "GetCommonParentBlockid l i j = Some (l\<lparr>blockCache := c\<rparr>, Inr s)"
    "way (ldb l) (elems i) us (elems s)" "way (ldb l) (elems j) ts (elems s)" "blocksTable (ldb l) (elems s) \<noteq> None"
proof -
  note t = ledger_wfD(2,5) [OF wf]
  obtain a where a: "body (ldb l) (elems i) a" using ex(1) unfolding ExistBlock_def by (rule stored_body [OF t(2)])
  obtain b where b: "body (ldb l) (elems j) b" using ex(2) unfolding ExistBlock_def by (rule stored_body [OF t(2)])
  have h: "0 \<le> ib_Height a" "0 \<le> ib_Height b" using body_tree(3) [OF t(1)] a b by blast+
  obtain c1 where c1: "Ledger.QueryBlock l i = (l\<lparr>blockCache := c1\<rparr>, Inr a)" "blocks_cached (l\<lparr>blockCache := c1\<rparr>)" by (rule QueryBlock_cached [OF bc a])
  define l1 where "l1 = l\<lparr>blockCache := c1\<rparr>"
  have l1: "ldb l1 = ldb l" by (simp add: l1_def)
  obtain c2 where c2: "Ledger.QueryBlock l1 j = (l1\<lparr>blockCache := c2\<rparr>, Inr b)" "blocks_cached (l1\<lparr>blockCache := c2\<rparr>)"
    by (rule QueryBlock_cached [OF c1(2) [folded l1_def] b [folded l1]])
  define l2 where "l2 = l1\<lparr>blockCache := c2\<rparr>"
  have l2: "ldb l2 = ldb l" by (simp add: l2_def l1)
  obtain c3 a' us where a': "climb l2 a (ib_Height b) = Some (l2\<lparr>blockCache := c3\<rparr>, Inr a')" "blocks_cached (l2\<lparr>blockCache := c3\<rparr>)"
      "way (ldb l) (elems i) us (elems (ib_Blockid a'))" "body (ldb l) (elems (ib_Blockid a')) a'" "ib_Height a' = min (ib_Height a) (ib_Height b)"
    using climb_finds [OF t [folded l2] c2(2) [folded l2_def] a [folded l2] h(2)] unfolding l2 by blast
  define l3 where "l3 = l2\<lparr>blockCache := c3\<rparr>"
  have l3: "ldb l3 = ldb l" by (simp add: l3_def l2)
  have h': "0 \<le> ib_Height a'" using h a'(5) by simp
  obtain c4 b' ts where b': "climb l3 b (ib_Height a') = Some (l3\<lparr>blockCache := c4\<rparr>, Inr b')" "blocks_cached (l3\<lparr>blockCache := c4\<rparr>)"
      "way (ldb l) (elems j) ts (elems (ib_Blockid b'))" "body (ldb l) (elems (ib_Blockid b')) b'" "ib_Height b' = min (ib_Height b) (ib_Height a')"
    using climb_finds [OF t [folded l3] a'(2) [folded l3_def] b [folded l3] h'] unfolding l3 by blast
  define l4 where "l4 = l3\<lparr>blockCache := c4\<rparr>"
  have l4: "ldb l4 = ldb l" by (simp add: l4_def l3)
  have eq: "ib_Height a' = ib_Height b'" using a'(5) b'(5) by simp
  obtain c5 s us' ts' where m: "meet l4 a' b' = Some (l4\<lparr>blockCache := c5\<rparr>, Inr s)"
      "way (ldb l) (elems (ib_Blockid a')) us' (elems s)" "way (ldb l) (elems (ib_Blockid b')) ts' (elems s)" "blocksTable (ldb l) (elems s) \<noteq> None"
    using meet_finds [OF t [folded l4] b'(2) [folded l4_def] a'(4) [folded l4] b'(4) [folded l4] eq] unfolding l4 by blast
  have fin: "l4\<lparr>blockCache := c5\<rparr> = l\<lparr>blockCache := c5\<rparr>" by (simp add: l4_def l3_def l2_def l1_def)
  show ?thesis
  proof (rule that)
    show "GetCommonParentBlockid l i j = Some (l\<lparr>blockCache := c5\<rparr>, Inr s)" 
      by (simp add: GetCommonParentBlockid_def c1(1) l1_def [symmetric] c2(1) l2_def [symmetric] a'(1) l3_def [symmetric] b'(1) l4_def [symmetric] m(1) fin)
    show "way (ldb l) (elems i) (us @ us') (elems s)" "way (ldb l) (elems j) (ts @ ts') (elems s)" using a'(3) b'(3) m(2,3) way_trans by blast+
    show "blocksTable (ldb l) (elems s) \<noteq> None" by (rule m(4))
  qed
qed


section \<open>The change of branches\<close>

text \<open>The cache of headers agrees with the tables up to the place of the blocks in the trunk.\<close>

definition near :: "ledger_db \<Rightarrow> ledger \<Rightarrow> bool" where
  "near d l \<longleftrightarrow> ldb l = d \<and> (\<exists>B. coherent l B \<and> (\<forall>k. map_option core_block (B k) = map_option core_block (blocksTable d k)))"

lemma near_put:
  assumes "coherent (l\<lparr>blkHeaderCache := c\<rparr>) B" "ldb l = d" "\<And>k. map_option core_block (B k) = map_option core_block (blocksTable d k)"
    and "blocksTable d k = Some b0" "core_block b = core_block b0"
  shows "near d (l\<lparr>blkHeaderCache := fst (lru_Add c k b)\<rparr>)"
proof -
  have "coherent (l\<lparr>blkHeaderCache := fst (lru_Add c k b)\<rparr>) (B(k \<mapsto> b))" using coherent_Add [OF assms(1), of k b] by simp
  then show ?thesis using assms(2-5) by (auto simp: near_def)
qed

lemma fetchBlock_near:
  assumes "near d l" "blocksTable d (elems i) = Some b0"
  obtains c b where "fetchBlock l i = (l\<lparr>blkHeaderCache := c\<rparr>, Some b)" "near d (l\<lparr>blkHeaderCache := c\<rparr>)" "core_block b = core_block b0"
proof -
  obtain B where B: "ldb l = d" "coherent l B" "\<And>k. map_option core_block (B k) = map_option core_block (blocksTable d k)"
    using assms(1) by (auto simp: near_def)
  obtain c v where g: "lru_Get (blkHeaderCache l) (elems i) = (c, v)" by fastforce
  note get = coherent_Get [OF B(2), of "elems i", unfolded g fst_conv snd_conv]
  show ?thesis
  proof (cases v)
    case (Some b)
    then have "B (elems i) = Some b" using get(2) B(2) by (simp add: coherent_def)
    then have "core_block b = core_block b0" using B(3) [of "elems i"] assms(2) by simp
    moreover have "near d (l\<lparr>blkHeaderCache := c\<rparr>)" using get(1) B(1,3) by (auto simp: near_def)
    ultimately show ?thesis using g Some by (intro that [of c b]) (simp_all add: fetchBlock_def)
  next
    case None
    show ?thesis
      by (rule that [of "fst (lru_Add c (elems i) b0)" b0])
        (use g None assms(2) B(1) near_put [OF get(1) B(1,3) assms(2)] in \<open>simp_all add: fetchBlock_def\<close>)
  qed
qed

lemma saveBlock_near:
  assumes "near d l" "blocksTable d (elems (ib_Blockid b)) = Some b0" "core_block b = core_block b0"
  shows "near d (fst (saveBlock b (l, batch)))"
proof -
  obtain B where B: "ldb l = d" "coherent l B" "\<And>k. map_option core_block (B k) = map_option core_block (blocksTable d k)"
    using assms(1) by (auto simp: near_def)
  have "coherent (l\<lparr>blkHeaderCache := blkHeaderCache l\<rparr>) B" using B(2) by simp
  from near_put [OF this B(1,3) assms(2,3)] show "near d (fst (saveBlock b (l, batch)))" by (simp add: saveBlock_def)
qed

lemma leaveTrunk_ends:
  assumes "block_tree d r n" "near d l" "way d (elems tip) us (elems s)" "blocksTable d (elems s) \<noteq> None"
  shows "\<exists>l' batch'. leaveTrunk l batch tip s = Some (l', batch', None) \<and> near d l'"
  using assms(2,3)
proof (induction us arbitrary: l tip batch)
  case Nil
  then show ?case by (subst leaveTrunk.simps) (simp add: bytes_Equal_def)
next
  case (Cons b us)
  show ?case
  proof (cases "elems tip = elems s")
    case True
    then show ?thesis using Cons.prems by (subst leaveTrunk.simps) (simp add: bytes_Equal_def)
  next
    case False
    obtain b0 txs where b0: "blocksTable d (elems tip) = Some b0" "b = b0\<lparr>ib_Transactions := txs\<rparr>"
      using Cons.prems(2) by (auto simp: body_def queryBlock_def split: option.splits if_splits sum.splits)
    obtain c x where f: "fetchBlock l tip = (l\<lparr>blkHeaderCache := c\<rparr>, Some x)" "near d (l\<lparr>blkHeaderCache := c\<rparr>)" "core_block x = core_block b0"
      by (rule fetchBlock_near [OF Cons.prems(1) b0(1)])
    have x: "elems (ib_Blockid x) = elems tip" "ib_PreHash x = ib_PreHash b"
      using core_block_fields(1,2) [OF f(3)] block_treeD(1) [OF assms(1) b0(1)] b0(2) by simp_all
    define y where "y = x\<lparr>ib_InTrunk := False, ib_NextHash := Some []\<rparr>"
    have y: "blocksTable d (elems (ib_Blockid y)) = Some b0" "core_block y = core_block b0" using x(1) b0(1) f(3) by (simp_all add: y_def)
    obtain l2 batch2 where s: "saveBlock y (l\<lparr>blkHeaderCache := c\<rparr>, batch) = (l2, batch2)" by fastforce
    then have "near d l2" using saveBlock_near [OF f(2) y, of batch] by simp
    from Cons.IH [OF this, of "ib_PreHash x" batch2] obtain l' batch' where "leaveTrunk l2 batch2 (ib_PreHash x) s = Some (l', batch', None)" "near d l'"
      using Cons.prems(2) x(2) by auto
    then show ?thesis using False by (subst leaveTrunk.simps) (simp add: bytes_Equal_def f(1) y_def [symmetric] s)
  qed
qed

text \<open>The loop that is to bring the new branch into the trunk goes on with the block it has just saved.\<close>

lemma joinTrunk_never:
  assumes "block_tree d r n" "bodies d" "joinTrunk l batch tip s nx = Some res" "near d l" "blocksTable d (elems tip) \<noteq> None"
  shows "elems tip = elems s"
proof -
  have "near d l \<longrightarrow> blocksTable d (elems tip) \<noteq> None \<longrightarrow> elems tip = elems s"
  proof (rule joinTrunk.raw_induct [where P = "\<lambda>l batch tip s nx res. near d l \<longrightarrow> blocksTable d (elems tip) \<noteq> None \<longrightarrow> elems tip = elems s", OF _ assms(3)], intro impI, goal_cases)
    case (1 f l batch tip s nx res)
    show ?case
    proof (rule ccontr)
      assume ne: "elems tip \<noteq> elems s"
      obtain b0 where b0: "blocksTable d (elems tip) = Some b0" using 1(4) by blast
      obtain c x where fe: "fetchBlock l tip = (l\<lparr>blkHeaderCache := c\<rparr>, Some x)" "near d (l\<lparr>blkHeaderCache := c\<rparr>)" "core_block x = core_block b0"
        by (rule fetchBlock_near [OF 1(3) b0])
      have x: "elems (ib_Blockid x) = elems tip" using core_block_fields(1) [OF fe(3)] block_treeD(1) [OF assms(1) b0] by simp
      have d: "ldb (l\<lparr>blkHeaderCache := c\<rparr>) = d" using fe(2) by (simp add: near_def)
      obtain batch1 where ct: "correctTxsBlockid d (ib_Blockid x) batch = Inr batch1"
        using correctTxsBlockid_ok [OF assms(2), of "ib_Blockid x" b0 batch] b0 x by metis
      define y where "y = x\<lparr>ib_InTrunk := True, ib_NextHash := nx\<rparr>"
      have y: "blocksTable d (elems (ib_Blockid y)) = Some b0" "core_block y = core_block b0" using x b0 fe(3) by (simp_all add: y_def)
      obtain l2 batch2 where sv: "saveBlock y (l\<lparr>blkHeaderCache := c\<rparr>, batch1) = (l2, batch2)" by fastforce
      then have "near d l2" using saveBlock_near [OF fe(2) y, of batch1] by simp
      moreover have "f l2 batch2 (ib_Blockid x) s (ib_Blockid x) = Some res"
        using 1(2) ne by (simp add: bytes_Equal_def fe(1) d ct y_def [symmetric] sv)
      moreover have "blocksTable d (elems (ib_Blockid x)) \<noteq> None" using x b0 by simp
      ultimately have "elems (ib_Blockid x) = elems s" using 1(1) by blast
      then show False using ne x by simp
    qed
  qed
  then show ?thesis using assms(4,5) by blast
qed

lemma HandleFork_never:
  assumes wf: "ledger_wf l" and bc: "blocks_cached l" and ex: "ExistBlock l old" "ExistBlock l new"
    and off: "\<And>us. \<not> way (ldb l) (elems old) us (elems new)"
  shows "HandleFork l old new batch = None"
proof -
  define d where "d = ldb l"
  note t = ledger_wfD(2,5) [OF wf, folded d_def]
  obtain c s us ts where p: "GetCommonParentBlockid l old new = Some (l\<lparr>blockCache := c\<rparr>, Inr s)" "way d (elems old) us (elems s)" "blocksTable d (elems s) \<noteq> None"
    using GetCommonParentBlockid_finds [OF wf bc ex] unfolding d_def by metis
  define l1 where "l1 = l\<lparr>blockCache := c\<rparr>"
  have "coherent l1 (blocksTable d)" using ledger_wfD(6) [OF wf] by (simp add: l1_def coherent_def d_def)
  then have n1: "near d l1" by (auto simp: near_def l1_def d_def)
  obtain l2 batch2 where l2: "leaveTrunk l1 batch old s = Some (l2, batch2, None)" "near d l2" using leaveTrunk_ends [OF t(1) n1 p(2,3)] by blast
  have ex': "blocksTable d (elems new) \<noteq> None" using ex(2) by (simp add: ExistBlock_def d_def)
  then obtain b0 where "blocksTable d (elems new) = Some b0" by blast
  then obtain c' b where f: "fetchBlock l2 new = (l2\<lparr>blkHeaderCache := c'\<rparr>, Some b)" "near d (l2\<lparr>blkHeaderCache := c'\<rparr>)"
    using fetchBlock_near [OF l2(2)] by metis
  have "elems new \<noteq> elems s" using off p(2) unfolding d_def by auto
  then have "joinTrunk (l2\<lparr>blkHeaderCache := c'\<rparr>) batch2 new s (Some []) = None"
    using joinTrunk_never [OF t _ f(2) ex'] by (cases "joinTrunk (l2\<lparr>blkHeaderCache := c'\<rparr>) batch2 new s (Some [])") auto
  then show ?thesis by (simp add: HandleFork_def p(1) l1_def [symmetric] l2(1) f(1))
qed

lemma newLedger_cached:
  assumes "metaTable d = Some m" "newLedger parse d bs ts cm cfg = Inr l"
  shows "blocks_cached l"
  using assms unfolding newLedger_def Let_def by (auto elim!: loadGenesisBlock_fields simp: blocks_cached_def hit_def)

end
