(* ===== verification/LedgerTruncate.thy ===== *)
theory LedgerTruncate
  imports LedgerPaths
begin

text \<open>
  Cutting the ledger back to a block of the trunk: every block above its height is removed, from all branches, and what remains
  is a ledger of the right shape whose tip is that block.
\<close>

section \<open>Removing the blocks of one branch\<close>

text \<open>The tables when the blocks \<open>R\<close>, all higher than \<open>h\<close>, are to be removed.\<close>

definition cutting :: "ledger_db \<Rightarrow> int \<Rightarrow> string set \<Rightarrow> ledger_db \<Rightarrow> bool" where
  "cutting d h R v \<longleftrightarrow>
     (\<forall>k \<in> R. \<exists>b. blocksTable d k = Some b \<and> h < ib_Height b) \<and>
     blocksTable v = (\<lambda>k. if k \<in> R then None else blocksTable d k) \<and>
     heightTable v = (\<lambda>x. if \<exists>k \<in> R. \<exists>b. blocksTable d k = Some b \<and> ib_InTrunk b \<and> ib_Height b = x then None else heightTable d x) \<and>
     confirmedTable v = confirmedTable d"

text \<open>The parents of removed blocks are removed as far as they are too high, but for the one that is next.\<close>

definition cut_closed :: "ledger_db \<Rightarrow> int \<Rightarrow> string set \<Rightarrow> string set \<Rightarrow> bool" where
  "cut_closed d h R N \<longleftrightarrow> (\<forall>k \<in> R. \<forall>b p. blocksTable d k = Some b \<longrightarrow> blocksTable d (elems (ib_PreHash b)) = Some p \<longrightarrow> h < ib_Height p \<longrightarrow>
     elems (ib_PreHash b) \<in> R \<union> N)"

lemma coherent_Del:
  assumes "coherent l B" "\<And>x. x \<noteq> k \<Longrightarrow> B' x = B x"
  shows "coherent (l\<lparr>blkHeaderCache := lru_Del (blkHeaderCache l) k\<rparr>) B'"
  using assms lru_Del_refines [of "blkHeaderCache l" k]
  by (auto simp: coherent_def hit_def map_of_filter_other split: if_splits)

lemma removeLoop_cuts:
  assumes tree: "block_tree d r n" and h: "0 \<le> h"
  shows "cutting d h R (ledgerWrite batch d) \<Longrightarrow> cut_closed d h R {elems (ib_Blockid b)} \<Longrightarrow> ldb l = d \<Longrightarrow> blocksTable d (elems (ib_Blockid b)) = Some b \<Longrightarrow>
    coherent l ((blocksTable (ledgerWrite batch d))(elems (ib_Blockid b) \<mapsto> b)) \<Longrightarrow>
    \<exists>l' batch' R'. removeLoop l b h batch = Some (l', batch') \<and> ldb l' = d \<and> cutting d h R' (ledgerWrite batch' d) \<and> cut_closed d h R' {} \<and>
      R \<subseteq> R' \<and> (h < ib_Height b \<longrightarrow> elems (ib_Blockid b) \<in> R') \<and> coherent l' (blocksTable (ledgerWrite batch' d)) \<and> lmeta l' = lmeta l"
proof (induction "nat (ib_Height b)" arbitrary: l b batch R rule: less_induct)
  case less
  define k where "k = elems (ib_Blockid b)"
  note c = less.prems(1) [unfolded cutting_def] and b = less.prems(4) [folded k_def]
  show ?case
  proof (cases "h < ib_Height b")
    case False
    then have "k \<notin> R" using c b by force
    then have "(blocksTable (ledgerWrite batch d))(k \<mapsto> b) = blocksTable (ledgerWrite batch d)" using c b by (auto simp: fun_eq_iff)
    moreover have "cut_closed d h R {}" using less.prems(2) False b unfolding cut_closed_def k_def by fastforce
    ultimately show ?thesis using False less.prems by (subst removeLoop.simps) (auto simp: k_def)
  next
    case True
    define batch1 where "batch1 = batch @ [DelBlock (ib_Blockid b)] @ (if ib_InTrunk b then [DelHeight (ib_Height b)] else [])"
    define l1 where "l1 = l\<lparr>blkHeaderCache := lru_Del (blkHeaderCache l) k, blockCache := lru_Del (blockCache l) k\<rparr>"
    define v where "v = ledgerWrite batch1 d"
    have v: "blocksTable v = (blocksTable (ledgerWrite batch d))(k := None)" "confirmedTable v = confirmedTable (ledgerWrite batch d)"
      "heightTable v = (if ib_InTrunk b then (heightTable (ledgerWrite batch d))(ib_Height b := None) else heightTable (ledgerWrite batch d))"
      by (simp_all add: v_def batch1_def k_def)
    have cv: "cutting d h (insert k R) v" using c b True unfolding cutting_def v by (auto simp: fun_eq_iff)
    obtain p where p: "blocksTable d (elems (ib_PreHash b)) = Some p" "ib_Height p = ib_Height b - 1"
      using block_treeD(5) [OF tree b] block_tree_root [OF tree] b True h by fastforce
    define q where "q = elems (ib_PreHash b)"
    have pk: "elems (ib_Blockid p) = q" using block_treeD(1) [OF tree p(1)] by (simp add: q_def)
    have co: "coherent l1 (blocksTable v)"
      using coherent_Del [OF less.prems(5), of k "blocksTable v"] by (simp add: l1_def v(1) k_def coherent_def)
    have "blocksTable v q = None \<or> blocksTable v q = Some p" using cv p(1) by (auto simp: cutting_def q_def)
    then have "coherent l1 ((blocksTable v)(q \<mapsto> p))" using co unfolding coherent_def by (metis fun_upd_apply option.distinct(1) option.inject)
    moreover have "blocksTable (ldb l1) (elems (ib_PreHash b)) = ((blocksTable v)(q \<mapsto> p)) (elems (ib_PreHash b))"
      using p(1) less.prems(3) by (simp add: l1_def q_def)
    ultimately obtain x where f: "fetchBlock l1 (ib_PreHash b) = (l1\<lparr>blkHeaderCache := x\<rparr>, Some p)" "coherent (l1\<lparr>blkHeaderCache := x\<rparr>) ((blocksTable v)(q \<mapsto> p))"
      using fetchBlock_coherent [of l1 "(blocksTable v)(q \<mapsto> p)" "ib_PreHash b"] by (auto simp: q_def)
    have cl: "cut_closed d h (insert k R) {elems (ib_Blockid p)}" using less.prems(2) b unfolding cut_closed_def pk k_def q_def by auto
    have "\<exists>l' batch' R'. removeLoop (l1\<lparr>blkHeaderCache := x\<rparr>) p h batch1 = Some (l', batch') \<and> ldb l' = d \<and> cutting d h R' (ledgerWrite batch' d) \<and> cut_closed d h R' {} \<and>
      insert k R \<subseteq> R' \<and> (h < ib_Height p \<longrightarrow> elems (ib_Blockid p) \<in> R') \<and> coherent l' (blocksTable (ledgerWrite batch' d)) \<and> lmeta l' = lmeta (l1\<lparr>blkHeaderCache := x\<rparr>)"
      by (rule less.hyps [OF _ cv [unfolded v_def] cl]) (use p True h f(2) less.prems(3) pk in \<open>simp_all add: l1_def v_def q_def\<close>)
    then obtain l' batch' R' where r: "removeLoop (l1\<lparr>blkHeaderCache := x\<rparr>) p h batch1 = Some (l', batch')" "ldb l' = d" "cutting d h R' (ledgerWrite batch' d)"
      "cut_closed d h R' {}" "insert k R \<subseteq> R'" "coherent l' (blocksTable (ledgerWrite batch' d))" "lmeta l' = lmeta (l1\<lparr>blkHeaderCache := x\<rparr>)" by blast
    have "removeLoop l b h batch = Some (l', batch')"
      using True f(1) r(1) by (subst removeLoop.simps) (simp add: Let_def batch1_def l1_def k_def)
    then show ?thesis using r(2-7) by (auto simp: k_def l1_def)
  qed
qed


section \<open>Removing all branches\<close>

lemma fetchBlock_again:
  assumes "coherent l B" "B k = None \<or> B k = Some b" "blocksTable (ldb l) (elems i) = Some b" "k = elems i"
  obtains c where "fetchBlock l i = (l\<lparr>blkHeaderCache := c\<rparr>, Some b)" "coherent (l\<lparr>blkHeaderCache := c\<rparr>) (B(k \<mapsto> b))"
proof -
  have "coherent l (B(k \<mapsto> b))" using assms(1,2) unfolding coherent_def by (metis fun_upd_apply option.distinct(1) option.inject)
  from fetchBlock_coherent [OF this, of i] assms(3,4) that show ?thesis by auto
qed

lemma cutting_branches [simp]: "cutting d h R (v\<lparr>branchTable := t\<rparr>) = cutting d h R v"
  by (simp add: cutting_def)

lemma ledgerWrite_branches: "\<exists>t. ledgerWrite (batch @ updateBranchInfo i j x) d = (ledgerWrite batch d)\<lparr>branchTable := t\<rparr>"
  by (intro exI) (simp add: updateBranchInfo_def)

lemma truncateBranches_cuts:
  assumes tree: "block_tree d r n" and blk: "blocksTable d (elems (ib_Blockid blk)) = Some blk"
  shows "cutting d (ib_Height blk) R (ledgerWrite batch d) \<Longrightarrow> cut_closed d (ib_Height blk) R {} \<Longrightarrow> ldb l = d \<Longrightarrow> coherent l (blocksTable (ledgerWrite batch d)) \<Longrightarrow>
    \<forall>t \<in> set ts. \<exists>b. blocksTable d t = Some b \<and> ib_Height blk < ib_Height b \<Longrightarrow>
    \<exists>l' batch' R'. truncateBranches l blk ts batch = Some (l', batch', None) \<and> ldb l' = d \<and> cutting d (ib_Height blk) R' (ledgerWrite batch' d) \<and>
      cut_closed d (ib_Height blk) R' {} \<and> R \<union> set ts \<subseteq> R' \<and> coherent l' (blocksTable (ledgerWrite batch' d)) \<and> lmeta l' = lmeta l"
proof (induction ts arbitrary: l batch R)
  case Nil
  then show ?case by auto
next
  case (Cons t ts)
  define h where "h = ib_Height blk"
  define v where "v = ledgerWrite batch d"
  note c = Cons.prems(1) [folded h_def v_def]
  have h: "0 \<le> h" using block_treeD(3) [OF tree blk] by (simp add: h_def)
  obtain b where b: "blocksTable d t = Some b" "h < ib_Height b" using Cons.prems(5) by (auto simp: h_def)
  have bt: "elems (ib_Blockid b) = t" using block_treeD(1) [OF tree b(1)] .
  have "blocksTable v t = None \<or> blocksTable v t = Some b" using c b(1) by (auto simp: cutting_def)
  then obtain x where f: "fetchBlock l (Some t) = (l\<lparr>blkHeaderCache := x\<rparr>, Some b)" "coherent (l\<lparr>blkHeaderCache := x\<rparr>) ((blocksTable v)(t \<mapsto> b))"
    using fetchBlock_again [OF Cons.prems(4) [folded v_def], of t b "Some t"] b(1) Cons.prems(3) by auto
  have "elems (ib_Blockid blk) \<notin> R" "elems (ib_Blockid blk) \<noteq> t" using c blk b by (auto simp: cutting_def h_def)
  then have vb: "((blocksTable v)(t \<mapsto> b)) (elems (ib_Blockid blk)) = Some blk" using c blk by (simp add: cutting_def)
  have db: "blocksTable (ldb (l\<lparr>blkHeaderCache := x\<rparr>)) (elems (ib_Blockid blk)) = Some blk" using blk Cons.prems(3) by simp
  obtain y where g: "fetchBlock (l\<lparr>blkHeaderCache := x\<rparr>) (ib_Blockid blk) = (l\<lparr>blkHeaderCache := y\<rparr>, Some blk)" "coherent (l\<lparr>blkHeaderCache := y\<rparr>) ((blocksTable v)(t \<mapsto> b))"
    using fetchBlock_coherent [OF f(2), of "ib_Blockid blk"] db vb by auto
  have cl: "cut_closed d h R {elems (ib_Blockid b)}" using Cons.prems(2) by (auto simp: cut_closed_def h_def)
  obtain l1 batch1 R1 where r: "removeLoop (l\<lparr>blkHeaderCache := y\<rparr>) b h batch = Some (l1, batch1)" "ldb l1 = d" "cutting d h R1 (ledgerWrite batch1 d)" "cut_closed d h R1 {}"
      "R \<subseteq> R1" "t \<in> R1" "coherent l1 (blocksTable (ledgerWrite batch1 d))" "lmeta l1 = lmeta l"
    using removeLoop_cuts [OF tree h c [unfolded v_def] cl, of "l\<lparr>blkHeaderCache := y\<rparr>"] b g(2) Cons.prems(3) by (auto simp: bt v_def)
  define batch2 where "batch2 = batch1 @ updateBranchInfo (ib_Blockid blk) (Some t) (ib_Height blk)"
  obtain tb where tb: "ledgerWrite batch2 d = (ledgerWrite batch1 d)\<lparr>branchTable := tb\<rparr>" using ledgerWrite_branches unfolding batch2_def by blast
  have "cutting d (ib_Height blk) R1 (ledgerWrite batch2 d)" "coherent l1 (blocksTable (ledgerWrite batch2 d))" using r(3,7) by (simp_all add: tb h_def)
  from Cons.IH [OF this(1) r(4) [unfolded h_def] r(2) this(2)] Cons.prems(5) obtain l' batch' R' where
    "truncateBranches l1 blk ts batch2 = Some (l', batch', None)" "ldb l' = d" "cutting d (ib_Height blk) R' (ledgerWrite batch' d)"
    "cut_closed d (ib_Height blk) R' {}" "R1 \<union> set ts \<subseteq> R'" "coherent l' (blocksTable (ledgerWrite batch' d))" "lmeta l' = lmeta l1" by auto
  moreover have "removeBlocks l (Some t) (ib_Blockid blk) batch = Some (l1, batch1, None)" by (simp add: removeBlocks_def f(1) g(1) r(1) h_def [symmetric])
  ultimately show ?case using r(5,6,8) unfolding batch2_def by (intro exI [of _ l'] exI [of _ batch'] exI [of _ R']) auto
qed

lemma too_high_removed:
  assumes tree: "block_tree d r n" and bk: "branches_known d" and cl: "cut_closed d h R {}"
    and tips: "\<And>k x. map_of (branchTable d) k = Some x \<Longrightarrow> h < x \<Longrightarrow> k \<in> R"
  shows "blocksTable d k = Some b \<Longrightarrow> h < ib_Height b \<Longrightarrow> k \<in> R"
proof (induction "nat (n - ib_Height b)" arbitrary: k b rule: less_induct)
  case less
  from bk less.prems(1) consider "map_of (branchTable d) k = Some (ib_Height b)"
    | k' b' where "blocksTable d k' = Some b'" "elems (ib_PreHash b') = k" "ib_Height b' = ib_Height b + 1"
    unfolding branches_known_def by blast
  then show ?case
  proof cases
    case 1
    then show ?thesis using tips less.prems(2) by blast
  next
    case 2
    have "ib_Height b' \<le> n" using block_treeD(4) [OF tree 2(1)] .
    then have "k' \<in> R" using less.hyps [OF _ 2(1)] 2(3) less.prems(2) by simp
    then show ?thesis using cl 2 less.prems unfolding cut_closed_def by blast
  qed
qed

section \<open>The ledger that remains\<close>

lemma Truncate_cuts:
  assumes wf: "ledger_wf l" and bk: "branches_known (ldb l)" and tgt: "blocksTable (ldb l) (elems i) = Some b" "ib_InTrunk b"
  obtains l' where "Truncate l i True = Some (l', None)"
    "blocksTable (ldb l') = (\<lambda>k. case blocksTable (ldb l) k of Some c \<Rightarrow> if ib_Height c \<le> ib_Height b then Some c else None | None \<Rightarrow> None)"
    "heightTable (ldb l') = (\<lambda>x. if x \<le> ib_Height b then heightTable (ldb l) x else None)"
    "confirmedTable (ldb l') = confirmedTable (ldb l)" "metaTable (ldb l') = Some (lmeta l')"
    "lmeta l' = (lmeta l)\<lparr>TipBlockid := i, lm_TrunkHeight := ib_Height b\<rparr>" "coherent l' (blocksTable (ldb l'))"
proof -
  define d where "d = ldb l"
  define h where "h = ib_Height b"
  note w = ledger_wfD [OF wf, folded d_def]
  note tb = trunk_butD [OF w(3) [unfolded trunk_def]]
  have ib: "elems (ib_Blockid b) = elems i" using block_treeD(1) [OF w(2)] tgt(1) by (simp add: d_def)
  obtain c where f: "fetchBlock l i = (l\<lparr>blkHeaderCache := c\<rparr>, Some b)" "coherent (l\<lparr>blkHeaderCache := c\<rparr>) (blocksTable d)"
    using fetchBlock_coherent [OF w(6), of i] tgt(1) by (auto simp: d_def)
  define l1 where "l1 = l\<lparr>blkHeaderCache := c\<rparr>"
  define ts where "ts = GetBranchInfo d (ib_Blockid b) h"
  have bk: "branches_known d" using bk by (simp add: d_def)
  have ts: "t \<in> set ts \<longleftrightarrow> (\<exists>x. map_of (branchTable d) t = Some x \<and> h < x \<and> t \<noteq> [] \<and> t \<noteq> elems i)" for t
    using bk by (auto simp: ts_def GetBranchInfo_def set_NewIteratorWithPrefix branches_known_def ib map_of_eq_Some_iff)
  have high: "\<exists>b. blocksTable d t = Some b \<and> h < ib_Height b" if "t \<in> set ts" for t
    using that bk unfolding ts branches_known_def by blast
  have "cutting d h {} (ledgerWrite [] d)" by (simp add: cutting_def)
  moreover have "cut_closed d h {} {}" by (simp add: cut_closed_def)
  ultimately obtain l2 batch R where r: "truncateBranches l1 b ts [] = Some (l2, batch, None)" "ldb l2 = d" "cutting d h R (ledgerWrite batch d)" "cut_closed d h R {}"
      "set ts \<subseteq> R" "coherent l2 (blocksTable (ledgerWrite batch d))" "lmeta l2 = lmeta l"
    using truncateBranches_cuts [OF w(2), of b "{}" "[]" l1 ts] high f(2) tgt(1) ib by (auto simp: l1_def h_def [symmetric] d_def [symmetric])
  have tips: "k \<in> R" if kx: "map_of (branchTable d) k = Some x" "h < x" for k x
  proof -
    obtain y where y: "blocksTable d k = Some y" "ib_Height y = x" using bk kx(1) unfolding branches_known_def by blast
    have "k \<noteq> []" using block_treeD(2) [OF w(2) y(1)] .
    moreover have "k \<noteq> elems i" using y kx(2) tgt(1) by (auto simp: h_def d_def)
    ultimately show ?thesis using r(5) ts kx by blast
  qed
  have "k \<in> R" if kc: "blocksTable d k = Some x" "h < ib_Height x" for k x
    by (rule too_high_removed [OF w(2) bk r(4) _ kc]) (rule tips)
  then have R: "R = {k. \<exists>c. blocksTable d k = Some c \<and> h < ib_Height c}" using r(3) unfolding cutting_def by blast
  have g: "GetBranchInfo (ldb l1) (ib_Blockid b) (ib_Height b) = ts" "lmeta l1 = lmeta l" by (simp_all add: l1_def ts_def d_def h_def)
  define m where "m = (lmeta l)\<lparr>TipBlockid := i, lm_TrunkHeight := h\<rparr>"
  define l' where "l' = l2\<lparr>ldb := ledgerWrite (batch @ [PutMeta m]) d, lmeta := m\<rparr>"
  note v = r(3) [unfolded cutting_def]
  show ?thesis
  proof (rule that [of l'])
    show "Truncate l i True = Some (l', None)"
      by (simp add: Truncate_def f(1) [folded l1_def] g r(1,2) Let_def l'_def m_def h_def)
    show "blocksTable (ldb l') = (\<lambda>k. case blocksTable (ldb l) k of Some c \<Rightarrow> if ib_Height c \<le> ib_Height b then Some c else None | None \<Rightarrow> None)"
      using v by (auto simp: l'_def fun_eq_iff R d_def [symmetric] h_def [symmetric] split: option.splits)
    have "(\<exists>k \<in> R. \<exists>c. blocksTable d k = Some c \<and> ib_InTrunk c \<and> ib_Height c = x) \<longleftrightarrow> h < x \<and> heightTable d x \<noteq> None" for x
    proof
      assume "\<exists>k \<in> R. \<exists>c. blocksTable d k = Some c \<and> ib_InTrunk c \<and> ib_Height c = x"
      then show "h < x \<and> heightTable d x \<noteq> None" using tb(3) by (fastforce simp: R hid_def)
    next
      assume a: "h < x \<and> heightTable d x \<noteq> None"
      then obtain k where "hid d x = Some k" by (auto simp: hid_def)
      from trunk_but_at [OF w(3) [unfolded trunk_def] this] a show "\<exists>k \<in> R. \<exists>c. blocksTable d k = Some c \<and> ib_InTrunk c \<and> ib_Height c = x" unfolding R by blast
    qed
    then show "heightTable (ldb l') = (\<lambda>x. if x \<le> ib_Height b then heightTable (ldb l) x else None)"
      using v by (auto simp: l'_def fun_eq_iff d_def [symmetric] h_def [symmetric])
    show "confirmedTable (ldb l') = confirmedTable (ldb l)" using v by (simp add: l'_def d_def)
    show "metaTable (ldb l') = Some (lmeta l')" "lmeta l' = (lmeta l)\<lparr>TipBlockid := i, lm_TrunkHeight := ib_Height b\<rparr>" by (simp_all add: l'_def m_def h_def)
    show "coherent l' (blocksTable (ldb l'))" using r(6) by (simp add: l'_def coherent_def)
  qed
qed


lemma Truncate_wf:
  assumes wf: "ledger_wf l" and tgt: "blocksTable (ldb l) (elems i) = Some b" "ib_InTrunk b"
    and bt: "blocksTable (ldb l') = (\<lambda>k. case blocksTable (ldb l) k of Some c \<Rightarrow> if ib_Height c \<le> ib_Height b then Some c else None | None \<Rightarrow> None)"
    and ht: "heightTable (ldb l') = (\<lambda>x. if x \<le> ib_Height b then heightTable (ldb l) x else None)"
    and l': "confirmedTable (ldb l') = confirmedTable (ldb l)" "metaTable (ldb l') = Some (lmeta l')"
    "lmeta l' = (lmeta l)\<lparr>TipBlockid := i, lm_TrunkHeight := ib_Height b\<rparr>" "coherent l' (blocksTable (ldb l'))"
  shows "ledger_wf l'"
proof -
  define d where "d = ldb l"
  define v where "v = ldb l'"
  define h where "h = ib_Height b"
  note w = ledger_wfD [OF wf, folded d_def]
  note tb = trunk_butD [OF w(3) [unfolded trunk_def]]
  have B: "blocksTable v k = Some c \<longleftrightarrow> blocksTable d k = Some c \<and> ib_Height c \<le> h" for k c
    unfolding v_def bt d_def h_def by (auto split: option.splits if_splits)
  have H: "hid v x = (if x \<le> h then hid d x else None)" for x unfolding hid_def v_def ht d_def h_def by simp
  have hb: "0 \<le> h" "h \<le> lm_TrunkHeight (lmeta l)" using block_treeD(3,4) [OF w(2)] tgt(1) by (auto simp: h_def d_def)
  have "block_tree v (elems (RootBlockid (lmeta l))) h"
    unfolding block_tree_def
  proof (intro conjI allI impI)
    show "\<exists>b. blocksTable v (elems (RootBlockid (lmeta l))) = Some b \<and> ib_Height b = 0 \<and> elems (ib_PreHash b) = []"
      using w(2) hb(1) unfolding B block_tree_def by force
  next
    fix k c assume c: "blocksTable v k = Some c"
    then have c': "blocksTable d k = Some c" "ib_Height c \<le> h" by (simp_all add: B)
    note t = block_treeD [OF w(2) c'(1)]
    show "elems (ib_Blockid c) = k" "k \<noteq> []" "0 \<le> ib_Height c" "ib_Height c \<le> h" using t(1-3) c'(2) by simp_all
    assume "k \<noteq> elems (RootBlockid (lmeta l))"
    from t(5) [OF this] c'(2) show "\<exists>p. blocksTable v (elems (ib_PreHash c)) = Some p \<and> ib_Height p = ib_Height c - 1" unfolding B by force
  qed
  moreover have "trunk v h"
    unfolding trunk_def trunk_but_def
  proof (intro conjI allI impI)
    fix x assume x: "0 \<le> x \<and> x \<le> h"
    then obtain k c where "hid d x = Some k" "blocksTable d k = Some c" "ib_InTrunk c" "ib_Height c = x" using tb(1) [of x] hb(2) by auto
    then show "\<exists>k c. hid v x = Some k \<and> blocksTable v k = Some c \<and> ib_InTrunk c \<and> ib_Height c = x" using x by (auto simp: H B)
  next
    fix x k assume "hid v x = Some k"
    then show "0 \<le> x" "x \<le> h" using tb(2) [of x k] by (auto simp: H split: if_splits)
  next
    fix k c assume c: "blocksTable v k = Some c \<and> ib_InTrunk c"
    then show "hid v (ib_Height c) = Some k" using tb(3) [of k c] by (simp add: B H)
  next
    fix k c assume c: "blocksTable v k = Some c \<and> ib_InTrunk c \<and> 0 < ib_Height c \<and> ib_Height c \<noteq> - 1 + 1"
    then show "hid v (ib_Height c - 1) = Some (elems (ib_PreHash c))" using tb(4) [of k c] by (simp add: B H)
  next
    fix k c assume c: "blocksTable v k = Some c \<and> ib_InTrunk c \<and> ib_Height c < h \<and> ib_Height c \<noteq> - 1"
    then show "hid v (ib_Height c + 1) = Some (elems (ib_NextHash c))" using tb(5) [of k c] hb(2) by (simp add: B H)
  qed
  moreover have "hid v h = Some (elems i)" using tb(3) [of "elems i" b] tgt by (simp add: H h_def d_def)
  moreover have "confirmedTable v = confirmedTable d" using l'(1) by (simp add: v_def d_def)
  then have "bodies v" using w(5) unfolding bodies_def B by metis
  ultimately show ?thesis unfolding ledger_wf_def Let_def v_def [symmetric] using l'(2-4) by (simp add: v_def h_def)
qed

end
