(* ===== verification/LedgerChain.thy ===== *)
theory LedgerChain
  imports LedgerPrune LedgerTruncate
begin

text \<open>
  A small chain on which the properties of the ledger can be seen: a root, a block on it, and a branch of two blocks that
  becomes the trunk.
\<close>

section \<open>A small chain\<close>

declare forkLoop.simps [code] pathLoop.simps [code] removeLoop.simps [code] climb.simps [code] meet.simps [code] leaveTrunk.simps [code] joinTrunk.simps [code]

definition chain_config :: genesis_config where
  "chain_config = \<lparr>gc_Award = ''1'', gc_HeightGap = 10, gc_NoFee = False, gc_MaxBlockSize = ''16'', gc_NewAccountResourceAmount = 1, gc_CpuRate = 1,
     gc_MemRate = 1, gc_DiskRate = 1, gc_XfeeRate = 1, gc_IrreversibleSlideWindow = ''0''\<rparr>"

definition chain_parse :: "string \<Rightarrow> genesis_config option" where
  "chain_parse s = Some chain_config"

definition chain_tx :: "string \<Rightarrow> bool \<Rightarrow> transaction" where
  "chain_tx i cb = \<lparr>Txid = Some i, tx_Blockid = None, TxInputs = [], TxOutputs = [], Desc = Some ''genesis'', Coinbase = cb, Nonce = [], Timestamp = 0,
     Version = 1, Autogen = False, TxInputsExt = None, TxOutputsExt = None, ContractRequests = None, tx_Initiator = [], AuthRequire = [],
     InitiatorSigns = [], AuthRequireSigns = [], ReceivedTimestamp = 0, XuperSign = None, ModifyBlock = None, HDInfo = None\<rparr>"

definition chain_block :: "string \<Rightarrow> string \<Rightarrow> transaction list \<Rightarrow> internal_block" where
  "chain_block k p txs = \<lparr>ib_Version = 1, ib_Nonce = 0, ib_Blockid = Some k, ib_PreHash = Some p, ib_Proposer = None, ib_Sign = None, ib_Pubkey = None,
     ib_MerkleRoot = None, ib_Height = 0, ib_Timestamp = 0, ib_Transactions = txs, ib_TxCount = int (length txs), ib_MerkleTree = map Txid txs,
     ib_CurTerm = 0, ib_CurBlockNum = 0, ib_FailedTxs = [], ib_TargetBits = 0, ib_Justify = None, ib_InTrunk = False, ib_NextHash = None\<rparr>"

definition block_r :: internal_block where "block_r = chain_block ''r'' [] [chain_tx ''t0'' True]"
definition block_a :: internal_block where "block_a = chain_block ''a'' ''r'' [chain_tx ''t1'' True]"
definition block_b :: internal_block where "block_b = chain_block ''b'' ''r'' [chain_tx ''t3'' True, chain_tx ''t2'' False]"
definition block_c :: internal_block where "block_c = chain_block ''c'' ''b'' [chain_tx ''t4'' True]"

fun confirmBlocks :: "ledger \<Rightarrow> internal_block list \<Rightarrow> ledger option" where
  "confirmBlocks l [] = Some l"
| "confirmBlocks l (b # bs) =
     (if fresh_block l b \<and> lm_TrunkHeight (lmeta l) < 2 ^ 63 - 1 then
        case ConfirmBlock chain_parse l b False True of Some (l', b', st) \<Rightarrow> if Succ st then confirmBlocks l' bs else None | None \<Rightarrow> None
      else None)"

definition chain_start :: "ledger option" where
  "chain_start =
     (case newLedger chain_parse noTables 4 0 True (Some ''genesis'') of
        Inl e \<Rightarrow> None
      | Inr l0 \<Rightarrow>
          if fresh_block l0 block_r then
            case ConfirmBlock chain_parse l0 block_r True True of Some (l', b', st) \<Rightarrow> if Succ st then Some l' else None | None \<Rightarrow> None
          else None)"

lemma confirmBlocks_run: "trunk_run chain_parse l \<Longrightarrow> confirmBlocks l bs = Some l' \<Longrightarrow> trunk_run chain_parse l'"
proof (induction bs arbitrary: l)
  case (Cons b bs)
  from Cons.prems(2) obtain l1 b' st where s: "fresh_block l b" "lm_TrunkHeight (lmeta l) < 2 ^ 63 - 1" "ConfirmBlock chain_parse l b False True = Some (l1, b', st)" "Succ st"
    by (auto split: if_splits option.splits prod.splits)
  then have "trunk_run chain_parse l1" using trunk_run.step [OF Cons.prems(1) trunk_step.confirm] by blast
  then show ?case using Cons s by simp
qed simp

lemma chain_start_run: "chain_start = Some l \<Longrightarrow> trunk_run chain_parse l"
  unfolding chain_start_def by (auto split: sum.splits if_splits option.splits prod.splits intro: trunk_run.root)

definition chain_r :: ledger where "chain_r = the chain_start"
definition chain_abc :: ledger where "chain_abc = the (confirmBlocks chain_r [block_a, block_b, block_c])"

lemma chain_r_run: "trunk_run chain_parse chain_r"
proof -
  have "chain_start \<noteq> None" by code_simp
  then show ?thesis using chain_start_run by (auto simp: chain_r_def)
qed

lemma chain_abc_run: "trunk_run chain_parse chain_abc"
proof -
  have "confirmBlocks chain_r [block_a, block_b, block_c] \<noteq> None" by code_simp
  then obtain l where l: "confirmBlocks chain_r [block_a, block_b, block_c] = Some l" by blast
  show ?thesis unfolding chain_abc_def l option.sel by (rule confirmBlocks_run [OF chain_r_run l])
qed

text \<open>The chain that results: for each block its height, its parent and whether it is in the trunk.\<close>

definition chain_view :: "ledger \<Rightarrow> string \<Rightarrow> (int \<times> string \<times> bool) option" where
  "chain_view l k = map_option (\<lambda>b. (ib_Height b, elems (ib_PreHash b), ib_InTrunk b)) (blocksTable (ldb l) k)"

lemma chain_abc_view:
  "map (chain_view chain_abc) [''r'', ''a'', ''b'', ''c''] =
     [Some (0, [], True), Some (1, ''r'', False), Some (1, ''r'', True), Some (2, ''b'', True)] \<and>
   lm_TrunkHeight (lmeta chain_abc) = 2 \<and> elems (TipBlockid (lmeta chain_abc)) = ''c''"
  by code_simp

lemma chain_viewE:
  assumes "chain_view l k = Some (h, p, t)"
  obtains b where "blocksTable (ldb l) k = Some b" "ib_Height b = h" "elems (ib_PreHash b) = p" "ib_InTrunk b = t"
  using assms by (auto simp: chain_view_def)

lemma chain_view_body: "body (ldb l) k b \<Longrightarrow> chain_view l k = Some (ib_Height b, elems (ib_PreHash b), ib_InTrunk b)"
  by (auto simp: chain_view_def body_def queryBlock_def split: option.splits if_splits sum.splits)

lemma chain_abc_at:
  "chain_view chain_abc ''r'' = Some (0, [], True)" "chain_view chain_abc ''a'' = Some (1, ''r'', False)"
  "chain_view chain_abc ''b'' = Some (1, ''r'', True)" "chain_view chain_abc ''c'' = Some (2, ''b'', True)"
  "lm_TrunkHeight (lmeta chain_abc) = 2" "elems (TipBlockid (lmeta chain_abc)) = ''c''"
  using chain_abc_view by simp_all

lemma chain_view_Exist: "chain_view l k = Some x \<Longrightarrow> ExistBlock l (Some k)"
  by (auto simp: chain_view_def ExistBlock_def)

text \<open>There is no way down from the tip to the block that left the trunk.\<close>

lemma chain_abc_apart: "\<not> way (ldb chain_abc) ''c'' us ''a''"
proof
  assume u: "way (ldb chain_abc) ''c'' us ''a''"
  note t = ledger_wfD(2,5) [OF conjunct1 [OF trunk_run_wf [OF chain_abc_run]]]
  have "blocksTable (ldb chain_abc) (elems (Some ''a'')) \<noteq> None" using chain_viewE [OF chain_abc_at(2)] by fastforce
  then obtain a where "body (ldb chain_abc) (elems (Some ''a'')) a" by (rule stored_body [OF t(2)])
  then have a: "body (ldb chain_abc) ''a'' a" by simp
  have ha: "ib_Height a = 1" using chain_view_body [OF a] chain_abc_at(2) by simp
  obtain x us' where x: "us = x # us'" "body (ldb chain_abc) ''c'' x" "way (ldb chain_abc) (elems (ib_PreHash x)) us' ''a''"
  proof (cases us)
    case Nil
    then show ?thesis using u by simp
  next
    case (Cons y ys)
    then show ?thesis using u by (intro that [of y ys]) simp_all
  qed
  have p: "elems (ib_PreHash x) = ''b''" using chain_view_body [OF x(2)] chain_abc_at(4) by simp
  obtain y where y: "y \<in> set us'" "body (ldb chain_abc) ''b'' y"
  proof (cases us')
    case Nil
    then show ?thesis using x(3) p by simp
  next
    case (Cons y ys)
    then show ?thesis using x(3) p by (intro that [of y]) simp_all
  qed
  have "ib_Height a < ib_Height y" by (rule way_heights(2) [OF t x(3) a y(1)])
  moreover have "ib_Height y = 1" using chain_view_body [OF y(2)] chain_abc_at(3) by simp
  ultimately show False using ha by simp
qed

end
