(* ===== verification/UtxoFacts.thy ===== *)
theory UtxoFacts
  imports StateMachine
begin

text \<open>
  Facts about the unspent outputs that the proofs on the state machine share: the table as it will be when a
  batch is written, amounts and keys of outputs, the cache of outputs, and what each step of the code
  does to all of them.
\<close>

section \<open>The table behind a batch\<close>

definition pending_table :: "state_db \<Rightarrow> batch \<Rightarrow> UtxoItem table" where
  "pending_table db b = utxoTable (batch_Write db b)"

text \<open>The amounts in that table, their sum, and the transactions that wait for a block.\<close>

definition stock :: "state_db \<Rightarrow> batch \<Rightarrow> string \<rightharpoonup> int" where
  "stock db b = map_option ui_Amount \<circ> map_of (pending_table db b)"

definition tokens :: "UtxoItem table \<Rightarrow> int" where
  "tokens t = (\<Sum>(k, item)\<leftarrow>t. ui_Amount item)"

definition held :: "state_db \<Rightarrow> batch \<Rightarrow> int" where
  "held db b = tokens (pending_table db b)"

definition posted :: "state_db \<Rightarrow> batch \<Rightarrow> transaction table" where
  "posted db b = unconfirmTable (batch_Write db b)"

definition value_at :: "(string \<rightharpoonup> int) \<Rightarrow> string \<Rightarrow> int" where
  "value_at m k = (case m k of None \<Rightarrow> 0 | Some a \<Rightarrow> a)"

lemma value_at_None [simp]: "m k = None \<Longrightarrow> value_at m k = 0"
  and value_at_Some [simp]: "m k = Some a \<Longrightarrow> value_at m k = a"
  by (simp_all add: value_at_def)

lemma batch_Write_Put [simp]: "batch_Write db (batch_Put b w) = apply_op (batch_Write db b) w"
  by (simp add: batch_Write_def batch_Put_def)

lemma batch_id_Put [simp]: "batch_id (batch_Put b w) = batch_id b"
  by (simp add: batch_Put_def)

fun is_utxo_op :: "db_op \<Rightarrow> bool" where
  "is_utxo_op (PutUtxo k v) = True"
| "is_utxo_op (DelUtxo k) = True"
| "is_utxo_op w = False"

fun is_posted_op :: "db_op \<Rightarrow> bool" where
  "is_posted_op (PutUnconfirmed k v) = True"
| "is_posted_op (DelUnconfirmed k) = True"
| "is_posted_op w = False"

lemma pending_table_Put:
  "pending_table db (batch_Put b (PutUtxo k v)) = AList.update k v (pending_table db b)"
  "pending_table db (batch_Put b (DelUtxo k)) = AList.delete k (pending_table db b)"
  "\<not> is_utxo_op w \<Longrightarrow> pending_table db (batch_Put b w) = pending_table db b"
  by (simp_all add: pending_table_def) (cases w; simp)

lemma stock_Put [simp]:
  "stock db (batch_Put b (PutUtxo k v)) = (stock db b)(k \<mapsto> ui_Amount v)"
  "stock db (batch_Put b (DelUtxo k)) = (stock db b)(k := None)"
  "\<not> is_utxo_op w \<Longrightarrow> stock db (batch_Put b w) = stock db b"
  by (auto simp: stock_def pending_table_Put update_conv' delete_conv' fun_eq_iff)

lemma posted_Put [simp]:
  "posted db (batch_Put b (PutUnconfirmed k tx)) = AList.update k tx (posted db b)"
  "posted db (batch_Put b (DelUnconfirmed k)) = AList.delete k (posted db b)"
  "\<not> is_posted_op w \<Longrightarrow> posted db (batch_Put b w) = posted db b"
  by (simp_all add: posted_def) (cases w; simp)

lemma tokens_update: "wf_table t \<Longrightarrow> tokens (AList.update k v t) = tokens t - value_at (map_option ui_Amount \<circ> map_of t) k + ui_Amount v"
  using sum_list_update [of t ui_Amount k v] by (simp add: tokens_def value_at_def split: option.split)

lemma tokens_delete: "wf_table t \<Longrightarrow> tokens (AList.delete k t) = tokens t - value_at (map_option ui_Amount \<circ> map_of t) k"
  using sum_list_delete [of t ui_Amount k] by (simp add: tokens_def value_at_def split: option.split)

definition wf_pending :: "state_db \<Rightarrow> batch \<Rightarrow> bool" where
  "wf_pending db b \<longleftrightarrow> wf_table (pending_table db b)"

lemma wf_pending_Put [simp]: "wf_pending db b \<Longrightarrow> wf_pending db (batch_Put b w)"
proof (cases "is_utxo_op w")
  case True
  assume "wf_pending db b"
  then show ?thesis using True
    by (cases w) (simp_all add: wf_pending_def pending_table_Put distinct_update distinct_delete)
qed (simp add: wf_pending_def pending_table_Put)

lemma held_Put [simp]:
  "wf_pending db b \<Longrightarrow> held db (batch_Put b (PutUtxo k v)) = held db b - value_at (stock db b) k + ui_Amount v"
  "wf_pending db b \<Longrightarrow> held db (batch_Put b (DelUtxo k)) = held db b - value_at (stock db b) k"
  "\<not> is_utxo_op w \<Longrightarrow> held db (batch_Put b w) = held db b"
  by (simp_all add: held_def pending_table_Put stock_def wf_pending_def tokens_update tokens_delete)

section \<open>Amounts and keys\<close>

lemma int_of_char: "(of_char c :: int) = int (of_char c)"
  by (simp add: of_nat_of_char)

lemma SetBytes_natBytes: "foldl (\<lambda>acc c. acc * 256 + int (of_char c)) acc (natBytes n) = acc * 256 ^ length (natBytes n) + int n"
proof (induction n arbitrary: acc rule: natBytes.induct)
  case (1 n)
  show ?case
  proof (cases "n = 0")
    case False
    have "int n = int (n div 256) * 256 + int (n mod 256)"
      by (metis div_mult_mod_eq of_nat_add of_nat_mult of_nat_numeral)
    moreover have "natBytes n = natBytes (n div 256) @ [char_of (n mod 256)]"
      using False by (subst natBytes.simps) simp
    ultimately show ?thesis using 1 [OF False] by (simp add: algebra_simps del: of_nat_mod of_nat_div)
  qed (simp add: natBytes.simps)
qed

lemma SetBytes_big_Bytes: "0 \<le> n \<Longrightarrow> SetBytes (Some (big_Bytes n)) = n"
  using SetBytes_natBytes [of 0 "nat n"] by (simp add: SetBytes_def big_Bytes_def int_of_char)

lemma SetBytes_elems: "elems a = elems b \<Longrightarrow> SetBytes a = SetBytes b"
  by (simp add: SetBytes_def)

lemma SetBytes_nonneg: "0 \<le> SetBytes b"
proof -
  have "0 \<le> acc \<Longrightarrow> 0 \<le> foldl (\<lambda>acc c. acc * 256 + int (of_char c)) acc xs" for acc xs
    by (induction xs arbitrary: acc) simp_all
  then show ?thesis by (simp add: SetBytes_def int_of_char)
qed

lemma last_separator:
  assumes "c \<notin> set y" "c \<notin> set y'" "x @ c # y = x' @ c # y'"
  shows "x = x' \<and> y = y'"
proof -
  have "takeWhile (\<lambda>z. z \<noteq> c) (rev (x @ c # y)) = rev y" "takeWhile (\<lambda>z. z \<noteq> c) (rev (x' @ c # y')) = rev y'"
    using assms(1,2) by (simp_all add: takeWhile_append)
  then have "y = y'" using assms(3) by (metis rev_is_rev_conv)
  then show ?thesis using assms(3) by simp
qed

lemma digits_no_underscore: "CHR ''_'' \<notin> set (dec_string n)"
proof -
  have "CHR ''_'' \<notin> set (digits m)" if "0 \<le> m" for m
    using digits_all [OF that] by (auto simp: is_digit_def)
  then show ?thesis by (simp add: dec_string_def)
qed

lemma hexdigit_no_underscore: "n < 16 \<Longrightarrow> hexdigit n \<noteq> CHR ''_''"
proof -
  have "\<forall>n \<in> set [0..<16]. hexdigit n \<noteq> CHR ''_''" by code_simp
  then show "n < 16 \<Longrightarrow> hexdigit n \<noteq> CHR ''_''" by simp
qed

lemma F_no_underscore: "CHR ''_'' \<notin> set (F b)"
proof -
  have "hexdigit (of_char c div 16) \<noteq> CHR ''_''" "hexdigit (of_char c mod 16) \<noteq> CHR ''_''" for c :: char
  proof -
    have "of_char c div 16 < (16 :: nat)" using nat_of_char_less_256 [of c] by linarith
    then show "hexdigit (of_char c div 16) \<noteq> CHR ''_''" by (rule hexdigit_no_underscore)
    show "hexdigit (of_char c mod 16) \<noteq> CHR ''_''" by (rule hexdigit_no_underscore) simp
  qed
  then show ?thesis by (auto simp: F_def Let_def dest: sym)
qed

lemma GenUtxoKey_inject:
  "GenUtxoKey a t n = GenUtxoKey a' t' n' \<longleftrightarrow> elems a = elems a' \<and> elems t = elems t' \<and> n = n'"
proof
  assume eq: "GenUtxoKey a t n = GenUtxoKey a' t' n'"
  then have "(elems a @ ''_'' @ F t) @ CHR ''_'' # dec_string n = (elems a' @ ''_'' @ F t') @ CHR ''_'' # dec_string n'"
    by (simp add: GenUtxoKey_def)
  from last_separator [OF digits_no_underscore digits_no_underscore this]
  have "elems a @ CHR ''_'' # F t = elems a' @ CHR ''_'' # F t'" "n = n'" by auto
  with last_separator [OF F_no_underscore F_no_underscore this(1)]
  show "elems a = elems a' \<and> elems t = elems t' \<and> n = n'" by (auto simp: bytes_Equal_def)
qed (auto simp: GenUtxoKey_def F_def)

lemma GenUtxoKeyWithPrefix_inject [simp]:
  "GenUtxoKeyWithPrefix a t n = GenUtxoKeyWithPrefix a' t' n' \<longleftrightarrow> elems a = elems a' \<and> elems t = elems t' \<and> n = n'"
  by (simp add: GenUtxoKeyWithPrefix_def GenUtxoKey_inject)

section \<open>The caches\<close>

definition cached :: "UtxoCache \<Rightarrow> string \<Rightarrow> string \<Rightarrow> UtxoItem option" where
  "cached c addr key = map_option ci_Item (Option.bind (All c addr) (\<lambda>l2. map_of l2 key))"

lemma bind_eq_Some: "Option.bind x f = Some y \<longleftrightarrow> (\<exists>a. x = Some a \<and> f a = Some y)"
  by (cases x) simp_all

lemma cached_eq_Some: "cached c addr key = Some item \<longleftrightarrow> (\<exists>l2 ci. All c addr = Some l2 \<and> map_of l2 key = Some ci \<and> item = ci_Item ci)"
  by (auto simp: cached_def bind_eq_Some)

lemma All_uc_Remove:
  "All (uc_Remove addr key c) = (case All c addr of None \<Rightarrow> All c | Some l2 \<Rightarrow>
     (All c)(addr := if AList.delete key l2 = [] then None else Some (AList.delete key l2)))"
  by (auto simp: uc_Remove_def Let_def split: option.splits)

lemma map_of_empty_delete: "AList.delete key l2 = [] \<Longrightarrow> k \<noteq> key \<Longrightarrow> map_of l2 k = None"
  by (metis delete_conv' fun_upd_apply map_of.simps(1))

lemma cached_uc_Remove: "cached (uc_Remove addr key c) a k = (if a = addr \<and> k = key then None else cached c a k)"
  by (auto simp: cached_def All_uc_Remove delete_conv' map_of_empty_delete split: option.splits)

lemma cached_uc_Insert:
  assumes "cached (uc_Insert addr key item c) a k = Some it"
  shows "(a = addr \<and> k = key \<and> it = item) \<or> cached c a k = Some it"
proof -
  define c0 where "c0 = (if All c addr = None then c\<lparr>Available := (Available c)(addr \<mapsto> []), All := (All c)(addr \<mapsto> [])\<rparr> else c)"
  define ci where "ci = \<lparr>ci_Item = item, ci_ele = uc_next c\<rparr>"
  define c1 where "c1 = c0\<lparr>uc_List := (uc_next c, addr, key) # uc_List c0, uc_next := uc_next c + 1,
                    Available := (Available c0)(addr \<mapsto> AList.update key ci (level2 (Available c0) addr)),
                    All := (All c0)(addr \<mapsto> AList.update key ci (level2 (All c0) addr))\<rparr>"
  have insert: "uc_Insert addr key item c =
      (if int (length (uc_List c1)) > uc_Limit c1 then (case last (uc_List c1) of (e, a, k) \<Rightarrow> uc_Remove a k c1) else c1)"
    by (simp add: uc_Insert_def c0_def ci_def c1_def Let_def)
  have "cached c1 a k = Some it"
    using assms by (auto simp: insert cached_uc_Remove split: if_splits prod.splits)
  then show ?thesis
    by (auto simp: cached_def c1_def c0_def ci_def level2_def update_conv' bind_eq_Some split: if_splits option.splits)
qed

text \<open>The cache holds outputs of the table only; \<open>own_key\<close> says that a key carries its address.\<close>

definition own_key :: "string \<Rightarrow> string \<Rightarrow> bool" where
  "own_key addr key \<longleftrightarrow> (\<exists>txid n. key = GenUtxoKeyWithPrefix (Some addr) txid n)"

lemma own_key_unique: "own_key a k \<Longrightarrow> own_key a' k \<Longrightarrow> a = a'"
  by (auto simp: own_key_def)

lemma own_key_GenUtxoKey [simp]: "own_key a (GenUtxoKeyWithPrefix addr txid n) \<longleftrightarrow> a = elems addr"
  by (auto simp: own_key_def intro!: exI [of _ txid])

definition coherent :: "(string \<rightharpoonup> int) \<Rightarrow> UtxoCache \<Rightarrow> bool" where
  "coherent m c \<longleftrightarrow> (\<forall>a k it. cached c a k = Some it \<longrightarrow> own_key a k \<and> m k = Some (ui_Amount it))"

lemma coherentD: "coherent m c \<Longrightarrow> cached c a k = Some it \<Longrightarrow> own_key a k \<and> m k = Some (ui_Amount it)"
  by (simp add: coherent_def)

lemma coherent_Remove: "coherent m c \<Longrightarrow> own_key addr k \<Longrightarrow> coherent (m(k := None)) (uc_Remove addr k c)"
proof (unfold coherent_def, intro allI impI)
  fix a k' it
  assume m: "\<forall>a k it. cached c a k = Some it \<longrightarrow> own_key a k \<and> m k = Some (ui_Amount it)" and k: "own_key addr k"
    and "cached (uc_Remove addr k c) a k' = Some it"
  then have "cached c a k' = Some it" "\<not> (a = addr \<and> k' = k)" by (simp_all add: cached_uc_Remove split: if_splits)
  with m have "own_key a k'" "m k' = Some (ui_Amount it)" "\<not> (a = addr \<and> k' = k)" by blast+
  moreover from this k have "k' \<noteq> k" using own_key_unique by blast
  ultimately show "own_key a k' \<and> (m(k := None)) k' = Some (ui_Amount it)" by simp
qed

lemma coherent_Insert: "coherent m c \<Longrightarrow> own_key addr k \<Longrightarrow> m k = Some (ui_Amount item) \<Longrightarrow> coherent m (uc_Insert addr k item c)"
  unfolding coherent_def using cached_uc_Insert by fastforce

lemma coherent_fresh: "coherent m c \<Longrightarrow> m k = None \<Longrightarrow> coherent (m(k \<mapsto> a)) c"
  by (auto simp: coherent_def)

definition cache_fits :: "state_db \<Rightarrow> UtxoVM \<times> batch \<Rightarrow> bool" where
  "cache_fits db s \<longleftrightarrow> coherent (stock db (snd s)) (vm_Cache (fst s))"

text \<open>The cache of the batch holds outputs that the batch has created.\<close>

definition batch_fits :: "state_db \<Rightarrow> UtxoVM \<times> batch \<Rightarrow> bool" where
  "batch_fits db s \<longleftrightarrow> (lastBatch (fst s) = Some (batch_id (snd s)) \<longrightarrow>
     (\<forall>k it. batchCache (fst s) k = Some it \<longrightarrow> stock db (snd s) k = Some (ui_Amount it)))"

text \<open>Balances and locks are apart from the caches.\<close>

lemma addDelta_other [simp]:
  "vm_Cache (addDelta a d uv) = vm_Cache uv" "batchCache (addDelta a d uv) = batchCache uv"
  "lastBatch (addDelta a d uv) = lastBatch uv" "utxoTotal (addDelta a d uv) = utxoTotal uv"
  by (auto simp: addDelta_def split: prod.splits option.splits)

lemma SubBalance_other [simp]:
  "vm_Cache (SubBalance a d uv) = vm_Cache uv" "batchCache (SubBalance a d uv) = batchCache uv"
  "lastBatch (SubBalance a d uv) = lastBatch uv" "utxoTotal (SubBalance a d uv) = utxoTotal uv"
  by (simp_all add: SubBalance_def)

lemma AddBalance_other [simp]:
  "vm_Cache (AddBalance a d uv) = vm_Cache uv" "batchCache (AddBalance a d uv) = batchCache uv"
  "lastBatch (AddBalance a d uv) = lastBatch uv" "utxoTotal (AddBalance a d uv) = utxoTotal uv"
  by (simp_all add: AddBalance_def)

lemma UnlockKey_other [simp]:
  "vm_Cache (UnlockKey k uv) = vm_Cache uv" "batchCache (UnlockKey k uv) = batchCache uv"
  "lastBatch (UnlockKey k uv) = lastBatch uv" "utxoTotal (UnlockKey k uv) = utxoTotal uv"
  by (auto simp: UnlockKey_def split: option.splits)

section \<open>What a step does\<close>

text \<open>
  A step of the code changes the amounts behind the batch by \<open>f\<close>, their sum by \<open>d\<close> and the total in memory
  by \<open>t\<close>, while the cache keeps fitting the table. Steps that apply a transaction (\<open>w\<close>) keep the cache of the batch
  fitting as well.
\<close>

definition effect ::
    "state_db \<Rightarrow> bool \<Rightarrow> ((string \<rightharpoonup> int) \<Rightarrow> string \<rightharpoonup> int) \<Rightarrow> int \<Rightarrow> int \<Rightarrow> UtxoVM \<times> batch \<Rightarrow> UtxoVM \<times> batch \<Rightarrow> bool" where
  "effect db w f d t s s' \<longleftrightarrow>
     stock db (snd s') = f (stock db (snd s)) \<and> posted db (snd s') = posted db (snd s) \<and>
     batch_id (snd s') = batch_id (snd s) \<and> lastBatch (fst s') = lastBatch (fst s) \<and> utxoTotal (fst s') = utxoTotal (fst s) + t \<and>
     (wf_pending db (snd s) \<longrightarrow> wf_pending db (snd s') \<and> held db (snd s') = held db (snd s) + d) \<and>
     (cache_fits db s \<longrightarrow> cache_fits db s') \<and>
     (w \<and> batch_fits db s \<longrightarrow> batch_fits db s')"

lemma effect_refl: "effect db w id 0 0 s s"
  by (simp add: effect_def)

lemma effect_trans: "effect db w f d t s s1 \<Longrightarrow> effect db w g d' t' s1 s2 \<Longrightarrow> effect db w (g \<circ> f) (d + d') (t + t') s s2"
  unfolding effect_def comp_def by (intro conjI) simp_all

lemma effect_stock: "effect db w f d t s s' \<Longrightarrow> stock db (snd s') = f (stock db (snd s))"
  by (simp add: effect_def)

text \<open>Removing an output, and writing a new one.\<close>

lemma remove_effect:
  assumes "b' = batch_Put b (DelUtxo k)" "own_key addr k"
    and "vm_Cache uv' = uc_Remove addr k (vm_Cache uv)" "lastBatch uv' = lastBatch uv" "utxoTotal uv' = utxoTotal uv"
    and "w \<Longrightarrow> batchCache uv' = (batchCache uv)(k := None)"
  shows "effect db w (\<lambda>m. m(k := None)) (- value_at (stock db b) k) 0 (uv, b) (uv', b')"
proof -
  have "coherent ((stock db b)(k := None)) (vm_Cache uv')" if "coherent (stock db b) (vm_Cache uv)"
    using coherent_Remove [OF that assms(2)] by (simp add: assms(3))
  moreover have "batch_fits db (uv', b')" if "w" "batch_fits db (uv, b)"
    using that assms(6) by (auto simp: batch_fits_def assms(1,4))
  ultimately show ?thesis by (simp add: effect_def cache_fits_def assms(1,4,5))
qed

lemma insert_effect:
  assumes "stock db b k = None" "own_key addr k"
    and "b' = batch_Put b (PutUtxo k item)"
    and "vm_Cache uv' = vm_Cache uv \<or> vm_Cache uv' = uc_Insert addr k item (vm_Cache uv)"
    and "batchCache uv' = batchCache uv \<or> batchCache uv' = (batchCache uv)(k \<mapsto> item)"
    and "lastBatch uv' = lastBatch uv" "utxoTotal uv' = utxoTotal uv + t"
  shows "effect db w (\<lambda>m. m(k \<mapsto> ui_Amount item)) (ui_Amount item) t (uv, b) (uv', b')"
proof -
  have "coherent ((stock db b)(k \<mapsto> ui_Amount item)) (vm_Cache uv')" if "coherent (stock db b) (vm_Cache uv)"
    using assms(4) coherent_fresh [where a = "ui_Amount item", OF that assms(1)] coherent_Insert [OF _ assms(2)] by auto
  moreover have "batch_fits db (uv', b')" if "batch_fits db (uv, b)"
    using that assms(1,5,6) by (fastforce simp: batch_fits_def assms(3))
  ultimately show ?thesis using assms(1,6,7) by (simp add: effect_def cache_fits_def assms(3))
qed

lemma effect_UpdateUtxoTotal:
  assumes "effect db w f d t s (uv, b)"
  shows "effect db w f d (t + (if inc then x else - x)) s (UpdateUtxoTotal x b inc uv)"
  using assms by (auto simp: effect_def cache_fits_def batch_fits_def UpdateUtxoTotal_def Let_def)

end
