(* ===== verification/StateProofs.thy ===== *)
theory StateProofs
  imports UtxoFacts
begin

text \<open>
  What applying and undoing transactions does to the tokens of the state: no operation creates or loses
  tokens besides the awards of blocks, and a block that is undone leaves the amounts as they were.
\<close>

section \<open>Spending and creating outputs\<close>

definition inKey :: "tx_input \<Rightarrow> string" where
  "inKey i = GenUtxoKeyWithPrefix (FromAddr i) (RefTxid i) (RefOffset i)"

text \<open>The outputs that a transaction creates, and the ones that its fees become.\<close>

definition is_fee :: "nat \<times> tx_output \<Rightarrow> bool" where
  "is_fee x \<longleftrightarrow> elems (ToAddr (snd x)) = FeePlaceholder"

definition is_output :: "nat \<times> tx_output \<Rightarrow> bool" where
  "is_output x \<longleftrightarrow> \<not> is_fee x \<and> SetBytes (out_Amount (snd x)) \<noteq> 0"

definition outKey :: "transaction \<Rightarrow> nat \<times> tx_output \<Rightarrow> string" where
  "outKey tx x = GenUtxoKeyWithPrefix (ToAddr (snd x)) (Txid tx) (i32 (int (fst x)))"

definition feeKey :: "transaction \<Rightarrow> block \<Rightarrow> nat \<times> tx_output \<Rightarrow> string" where
  "feeKey tx blk x = GenUtxoKeyWithPrefix (blk_Proposer blk) (Txid tx) (i32 (int (fst x)))"

abbreviation worth :: "nat \<times> tx_output \<Rightarrow> int" where
  "worth x \<equiv> SetBytes (out_Amount (snd x))"

abbreviation entry_sum :: "(string \<times> int) list \<Rightarrow> int" where
  "entry_sum es \<equiv> \<Sum>e\<leftarrow>es. snd e"

definition outputs_of :: "transaction \<Rightarrow> (nat \<times> tx_output) list \<Rightarrow> (string \<times> int) list" where
  "outputs_of tx xs = map (\<lambda>x. (outKey tx x, worth x)) (filter is_output xs)"

definition fees_of :: "transaction \<Rightarrow> block \<Rightarrow> (nat \<times> tx_output) list \<Rightarrow> (string \<times> int) list" where
  "fees_of tx blk xs = map (\<lambda>x. (feeKey tx blk x, worth x)) (filter is_fee xs)"

fun del_all :: "string list \<Rightarrow> (string \<rightharpoonup> int) \<Rightarrow> string \<rightharpoonup> int" where
  "del_all [] m = m"
| "del_all (k # ks) m = del_all ks (m(k := None))"

fun put_all :: "(string \<times> int) list \<Rightarrow> (string \<rightharpoonup> int) \<Rightarrow> string \<rightharpoonup> int" where
  "put_all [] m = m"
| "put_all (e # es) m = put_all es (m(fst e \<mapsto> snd e))"

lemma del_all_id: "del_all [] = id" and del_all_comp: "del_all (k # ks) = del_all ks \<circ> (\<lambda>m. m(k := None))"
  by (simp_all add: fun_eq_iff)

lemma put_all_id: "put_all [] = id" and put_all_comp: "put_all (e # es) = put_all es \<circ> (\<lambda>m. m(fst e \<mapsto> snd e))"
  by (simp_all add: fun_eq_iff)

lemma del_all_apply: "del_all ks m k = (if k \<in> set ks then None else m k)"
  by (induction ks arbitrary: m) auto

lemma put_all_other: "k \<notin> fst ` set es \<Longrightarrow> put_all es m k = m k"
  by (induction es arbitrary: m) auto

lemma put_all_append: "put_all (es @ es') m = put_all es' (put_all es m)"
  by (induction es arbitrary: m) auto

lemma put_all_in: "distinct (map fst es) \<Longrightarrow> e \<in> set es \<Longrightarrow> put_all es m (fst e) = Some (snd e)"
  by (induction es arbitrary: m) (auto simp: put_all_other)

lemma sum_value_at_del:
  "k \<notin> set ks \<Longrightarrow> (\<Sum>x\<leftarrow>ks. value_at (m(k := None)) x) = (\<Sum>x\<leftarrow>ks. value_at m x)"
  by (induction ks) (auto simp: value_at_def)

definition fresh_entries :: "(string \<times> int) list \<Rightarrow> (string \<rightharpoonup> int) \<Rightarrow> bool" where
  "fresh_entries es m \<longleftrightarrow> distinct (map fst es) \<and> (\<forall>k \<in> fst ` set es. m k = None)"

lemma fresh_entries_Cons:
  "fresh_entries (e # es) m \<longleftrightarrow> m (fst e) = None \<and> fst e \<notin> fst ` set es \<and> fresh_entries es (m(fst e \<mapsto> snd e))"
proof -
  have "\<forall>k \<in> fst ` set es. k \<noteq> fst e" if "fst e \<notin> fst ` set es" using that by blast
  then show ?thesis by (auto simp: fresh_entries_def simp del: image_iff)
qed

lemma spendInput_effect:
  "effect db True (\<lambda>m. m(inKey i := None)) (- value_at (stock db (snd s)) (inKey i)) 0 s (spendInput i s)"
proof -
  obtain uv b where s: "s = (uv, b)" by (cases s)
  show ?thesis unfolding s
    by (cases "spendInput i (uv, b)")
      (auto intro!: remove_effect [where addr = "elems (FromAddr i)"] simp: spendInput_def inKey_def Let_def RemoveBatchCache_def)
qed

lemma spend_effect:
  "distinct (map inKey is) \<Longrightarrow>
     effect db True (del_all (map inKey is)) (- (\<Sum>k\<leftarrow>map inKey is. value_at (stock db (snd s)) k)) 0 s (fold spendInput is s)"
proof (induction "is" arbitrary: s)
  case Nil
  show ?case using effect_refl [of db True s] by (simp add: id_def)
next
  case (Cons i "is")
  note step = spendInput_effect [of db i s]
  then have m: "stock db (snd (spendInput i s)) = (stock db (snd s))(inKey i := None)" by (rule effect_stock)
  have "(\<Sum>k\<leftarrow>map inKey is. value_at (stock db (snd (spendInput i s))) k) = (\<Sum>k\<leftarrow>map inKey is. value_at (stock db (snd s)) k)"
    using Cons.prems unfolding m by (intro sum_value_at_del) simp
  then show ?case using effect_trans [OF step Cons.IH] Cons.prems by (simp add: del_all_comp comp_def)
qed

lemma addOutput_skip: "\<not> is_output x \<Longrightarrow> addOutput tx cf x ubh = ubh"
  by (cases x; cases ubh) (auto simp: addOutput_def is_output_def is_fee_def Let_def)

lemma addOutput_effect:
  assumes "is_output x" "stock db b (outKey tx x) = None" "addOutput tx cf x (uv, b, hs) = (uv', b', hs')"
  shows "effect db True (\<lambda>m. m(outKey tx x \<mapsto> worth x)) (worth x) (if Coinbase tx then worth x else 0) (uv, b) (uv', b')"
proof -
  obtain n y where x: "x = (n, y)" by (cases x)
  define b1 where "b1 = batch_Put b (PutUtxo (outKey tx x) \<lparr>ui_Amount = worth x, ui_FrozenHeight = out_FrozenHeight y\<rparr>)"
  have y: "elems (ToAddr y) \<noteq> FeePlaceholder" "SetBytes (out_Amount y) \<noteq> 0"
    using assms(1) x by (simp_all add: is_output_def is_fee_def)
  have "effect db True (\<lambda>m. m(outKey tx x \<mapsto> worth x)) (worth x) (if Coinbase tx then worth x else 0) (uv, b) (uv', b1)"
    using insert_effect [of db b "outKey tx x" "elems (ToAddr y)" b1 "\<lparr>ui_Amount = worth x, ui_FrozenHeight = out_FrozenHeight y\<rparr>"
        uv' uv "if Coinbase tx then worth x else 0" True] assms(2,3) y
    by (auto simp: b1_def x outKey_def addOutput_def Let_def UpdateUtxoTotal_def InsertBatchCache_def split: if_splits)
  moreover have "b' = b1 \<or> (\<exists>n. b' = batch_Put b1 (PutTotal n))"
    using assms(3) y by (auto simp: b1_def x outKey_def addOutput_def Let_def UpdateUtxoTotal_def split: if_splits)
  ultimately show ?thesis by (auto simp: effect_def cache_fits_def batch_fits_def)
qed

text \<open>The hooks wait for outputs that the batch has created.\<close>

definition hooks_ok :: "(string \<rightharpoonup> int) \<Rightarrow> hooks \<Rightarrow> bool" where
  "hooks_ok m hs \<longleftrightarrow> (\<forall>h \<in> set hs. own_key (fst h) (fst (snd h)) \<and> m (fst (snd h)) = Some (ui_Amount (snd (snd h))))"

lemma hooks_ok_fresh: "hooks_ok m hs \<Longrightarrow> m k = None \<Longrightarrow> hooks_ok (m(k \<mapsto> a)) hs"
  by (auto simp: hooks_ok_def)

lemma hooks_ok_snoc: "hooks_ok m (hs @ [(a, k, item)]) \<longleftrightarrow> hooks_ok m hs \<and> own_key a k \<and> m k = Some (ui_Amount item)"
  by (simp add: hooks_ok_def ball_Un conj_commute)

lemma own_key_outKey [simp]: "own_key (elems (ToAddr (snd x))) (outKey tx x)"
  by (simp add: outKey_def)

lemma addOutput_hooks:
  assumes "is_output x" "addOutput tx cf x (uv, b, hs) = (uv', b', hs')"
  shows "\<exists>item. ui_Amount item = worth x \<and> hs' \<in> {hs, hs @ [(elems (ToAddr (snd x)), outKey tx x, item)]}"
  by (rule exI [of _ "\<lparr>ui_Amount = worth x, ui_FrozenHeight = out_FrozenHeight (snd x)\<rparr>"])
    (use assms in \<open>cases x; auto simp: addOutput_def is_output_def is_fee_def outKey_def Let_def split: if_splits prod.splits\<close>)

lemma outputs_effect_hooks:
  assumes "fold (addOutput tx cf) xs (uv, b, hs) = (uv', b', hs')" "fresh_entries (outputs_of tx xs) (stock db b)"
  shows "effect db True (put_all (outputs_of tx xs)) (entry_sum (outputs_of tx xs)) (if Coinbase tx then entry_sum (outputs_of tx xs) else 0)
           (uv, b) (uv', b') \<and> (hooks_ok (stock db b) hs \<longrightarrow> hooks_ok (stock db b') hs')"
  using assms
proof (induction xs arbitrary: uv b hs)
  case Nil
  then show ?case using effect_refl [of db True "(uv, b)"] by (simp add: outputs_of_def id_def)
next
  case (Cons x xs)
  obtain uv1 b1 hs1 where step: "addOutput tx cf x (uv, b, hs) = (uv1, b1, hs1)" by (cases "addOutput tx cf x (uv, b, hs)")
  have rest: "fold (addOutput tx cf) xs (uv1, b1, hs1) = (uv', b', hs')" using Cons.prems(1) step by simp
  show ?case
  proof (cases "is_output x")
    case True
    have es: "outputs_of tx (x # xs) = (outKey tx x, worth x) # outputs_of tx xs" using True by (simp add: outputs_of_def)
    have free: "stock db b (outKey tx x) = None" using Cons.prems(2) by (simp add: es fresh_entries_Cons)
    note e = addOutput_effect [OF True free step]
    have m: "stock db b1 = (stock db b)(outKey tx x \<mapsto> worth x)" using effect_stock [OF e] by simp
    have "fresh_entries (outputs_of tx xs) (stock db b1)" using Cons.prems(2) by (simp add: es fresh_entries_Cons m)
    note ih = Cons.IH [OF rest this]
    have "hooks_ok (stock db b1) hs1" if "hooks_ok (stock db b) hs"
      using addOutput_hooks [OF True step] hooks_ok_fresh [OF that free, of "worth x"] by (auto simp: hooks_ok_snoc m)
    then show ?thesis
      using effect_trans [OF e conjunct1 [OF ih]] ih by (simp add: es put_all_comp comp_def split: if_splits)
  next
    case False
    then have "uv1 = uv" "b1 = b" "hs1 = hs" "outputs_of tx (x # xs) = outputs_of tx xs"
      using step by (simp_all add: addOutput_skip outputs_of_def)
    then show ?thesis using Cons.IH [OF rest] Cons.prems(2) by (simp split: if_splits)
  qed
qed

lemmas outputs_effect = outputs_effect_hooks [THEN conjunct1]
lemmas outputs_hooks = outputs_effect_hooks [THEN conjunct2, THEN mp]

lemma Commit_effect:
  assumes "hooks_ok (stock db b) hs"
  shows "effect db True id 0 0 (uv, b) (Commit hs uv, b)"
proof -
  have "coherent m (foldl (\<lambda>c (addr, key, item). uc_Insert addr key item c) c hs)" if "hooks_ok m hs" "coherent m c" for m c
    using that by (induction hs arbitrary: c) (auto simp: hooks_ok_def coherent_Insert)
  then show ?thesis using assms by (auto simp: effect_def cache_fits_def batch_fits_def Commit_def)
qed

text \<open>Paying fees.\<close>

lemma feeOutput_skip: "\<not> is_fee x \<Longrightarrow> feeOutput tx blk x ub = ub"
  by (cases x; cases ub) (auto simp: feeOutput_def is_fee_def Let_def)

lemma feeOutput_effect:
  assumes "is_fee x" "stock db (snd s) (feeKey tx blk x) = None"
  shows "effect db True (\<lambda>m. m(feeKey tx blk x \<mapsto> worth x)) (worth x) 0 s (feeOutput tx blk x s)"
proof -
  obtain n y uv b where x: "x = (n, y)" and s: "s = (uv, b)" by (cases x; cases s)
  show ?thesis unfolding s
    using insert_effect [of db b "feeKey tx blk x" "elems (blk_Proposer blk)" "snd (feeOutput tx blk x s)"
        "\<lparr>ui_Amount = worth x, ui_FrozenHeight = 0\<rparr>" "fst (feeOutput tx blk x s)" uv 0 True] assms
    by (auto simp: s x feeKey_def feeOutput_def is_fee_def Let_def)
qed

lemma fees_effect:
  "fresh_entries (fees_of tx blk xs) (stock db (snd s)) \<Longrightarrow>
     effect db True (put_all (fees_of tx blk xs)) (entry_sum (fees_of tx blk xs)) 0 s (fold (feeOutput tx blk) xs s)"
proof (induction xs arbitrary: s)
  case Nil
  show ?case using effect_refl [of db True s] by (simp add: fees_of_def id_def)
next
  case (Cons x xs)
  show ?case
  proof (cases "is_fee x")
    case True
    have es: "fees_of tx blk (x # xs) = (feeKey tx blk x, worth x) # fees_of tx blk xs" using True by (simp add: fees_of_def)
    have free: "stock db (snd s) (feeKey tx blk x) = None" using Cons.prems by (simp add: es fresh_entries_Cons)
    note e = feeOutput_effect [OF True free]
    have "fresh_entries (fees_of tx blk xs) (stock db (snd (feeOutput tx blk x s)))"
      using Cons.prems effect_stock [OF e] by (simp add: es fresh_entries_Cons)
    from effect_trans [OF e Cons.IH [OF this]] show ?thesis by (simp add: es put_all_comp comp_def)
  next
    case False
    then show ?thesis using Cons.IH [of s] Cons.prems by (simp add: feeOutput_skip fees_of_def)
  qed
qed

section \<open>Taking back\<close>

abbreviation claimed :: "tx_input \<Rightarrow> int" where
  "claimed i \<equiv> SetBytes (in_Amount i)"

definition inputs_of :: "tx_input list \<Rightarrow> (string \<times> int) list" where
  "inputs_of is = map (\<lambda>i. (inKey i, claimed i)) is"

lemma restoreInput_effect:
  assumes "stock db (snd s) (inKey i) = None"
  shows "effect db False (\<lambda>m. m(inKey i \<mapsto> claimed i)) (claimed i) 0 s (restoreInput i s)"
proof -
  obtain uv b where s: "s = (uv, b)" by (cases s)
  show ?thesis unfolding s
    using insert_effect [of db b "inKey i" "elems (FromAddr i)" "snd (restoreInput i s)"
        "\<lparr>ui_Amount = claimed i, ui_FrozenHeight = in_FrozenHeight i\<rparr>" "fst (restoreInput i s)" uv 0 False] assms
    by (auto simp: s inKey_def restoreInput_def Let_def)
qed

lemma restore_effect:
  "fresh_entries (inputs_of is) (stock db (snd s)) \<Longrightarrow>
     effect db False (put_all (inputs_of is)) (entry_sum (inputs_of is)) 0 s (fold restoreInput is s)"
proof (induction "is" arbitrary: s)
  case Nil
  show ?case using effect_refl [of db False s] by (simp add: inputs_of_def id_def)
next
  case (Cons i "is")
  have es: "inputs_of (i # is) = (inKey i, claimed i) # inputs_of is" by (simp add: inputs_of_def)
  have free: "stock db (snd s) (inKey i) = None" using Cons.prems by (simp add: es fresh_entries_Cons)
  note e = restoreInput_effect [OF free]
  have "fresh_entries (inputs_of is) (stock db (snd (restoreInput i s)))"
    using Cons.prems effect_stock [OF e] by (simp add: es fresh_entries_Cons)
  from effect_trans [OF e Cons.IH [OF this]] show ?case by (simp add: es put_all_comp comp_def)
qed

lemma removeOutput_skip: "\<not> is_output x \<Longrightarrow> removeOutput tx x ub = ub"
  by (cases x; cases ub) (auto simp: removeOutput_def is_output_def is_fee_def Let_def)

lemma removeOutput_effect:
  assumes "is_output x"
  shows "effect db False (\<lambda>m. m(outKey tx x := None)) (- value_at (stock db (snd s)) (outKey tx x)) (if Coinbase tx then - worth x else 0)
           s (removeOutput tx x s)"
proof -
  obtain n y uv b where x: "x = (n, y)" and s: "s = (uv, b)" by (cases x; cases s)
  define uv1 where "uv1 = SubBalance (ToAddr y) (worth x) (uv\<lparr>vm_Cache := uc_Remove (elems (ToAddr y)) (outKey tx x) (vm_Cache uv)\<rparr>)"
  define b1 where "b1 = batch_Put b (DelUtxo (outKey tx x))"
  have step: "removeOutput tx x (uv, b) = (if Coinbase tx then UpdateUtxoTotal (worth x) b1 False uv1 else (uv1, b1))"
    using assms by (simp add: x removeOutput_def is_output_def is_fee_def outKey_def uv1_def b1_def Let_def)
  have e: "effect db False (\<lambda>m. m(outKey tx x := None)) (- value_at (stock db b) (outKey tx x)) 0 (uv, b) (uv1, b1)"
    using remove_effect [of b1 b "outKey tx x" "elems (ToAddr y)" uv1 uv False db] by (simp add: b1_def uv1_def x outKey_def)
  show ?thesis unfolding s step using e effect_UpdateUtxoTotal [OF e, of False "worth x"] by simp
qed

lemma remove_outputs_effect:
  "distinct (map fst (outputs_of tx xs)) \<Longrightarrow>
     effect db False (del_all (map fst (outputs_of tx xs))) (- (\<Sum>k\<leftarrow>map fst (outputs_of tx xs). value_at (stock db (snd s)) k))
       (if Coinbase tx then - entry_sum (outputs_of tx xs) else 0) s (fold (removeOutput tx) xs s)"
proof (induction xs arbitrary: s)
  case Nil
  show ?case using effect_refl [of db False s] by (simp add: outputs_of_def id_def)
next
  case (Cons x xs)
  show ?case
  proof (cases "is_output x")
    case True
    have es: "outputs_of tx (x # xs) = (outKey tx x, worth x) # outputs_of tx xs" using True by (simp add: outputs_of_def)
    note e = removeOutput_effect [OF True, of db tx s]
    have "(\<Sum>k\<leftarrow>map fst (outputs_of tx xs). value_at (stock db (snd (removeOutput tx x s))) k) =
        (\<Sum>k\<leftarrow>map fst (outputs_of tx xs). value_at (stock db (snd s)) k)"
      using Cons.prems unfolding effect_stock [OF e] by (intro sum_value_at_del) (simp add: es)
    then show ?thesis
      using effect_trans [OF e Cons.IH] Cons.prems by (simp add: es del_all_comp comp_def split: if_splits)
  next
    case False
    then show ?thesis using Cons.IH [of s] Cons.prems by (simp add: removeOutput_skip outputs_of_def split: if_splits)
  qed
qed

lemma unfeeOutput_skip: "\<not> is_fee x \<Longrightarrow> unfeeOutput tx blk x ub = ub"
  by (cases x; cases ub) (auto simp: unfeeOutput_def is_fee_def Let_def)

lemma unfeeOutput_effect:
  assumes "is_fee x"
  shows "effect db False (\<lambda>m. m(feeKey tx blk x := None)) (- value_at (stock db (snd s)) (feeKey tx blk x)) 0 s (unfeeOutput tx blk x s)"
proof -
  obtain n y uv b where x: "x = (n, y)" and s: "s = (uv, b)" by (cases x; cases s)
  show ?thesis unfolding s
    using remove_effect [of "snd (unfeeOutput tx blk x s)" b "feeKey tx blk x" "elems (blk_Proposer blk)" "fst (unfeeOutput tx blk x s)" uv False db] assms
    by (auto simp: s x feeKey_def unfeeOutput_def is_fee_def Let_def)
qed

lemma unfees_effect:
  "distinct (map fst (fees_of tx blk xs)) \<Longrightarrow>
     effect db False (del_all (map fst (fees_of tx blk xs))) (- (\<Sum>k\<leftarrow>map fst (fees_of tx blk xs). value_at (stock db (snd s)) k)) 0
       s (fold (unfeeOutput tx blk) xs s)"
proof (induction xs arbitrary: s)
  case Nil
  show ?case using effect_refl [of db False s] by (simp add: fees_of_def id_def)
next
  case (Cons x xs)
  show ?case
  proof (cases "is_fee x")
    case True
    have es: "fees_of tx blk (x # xs) = (feeKey tx blk x, worth x) # fees_of tx blk xs" using True by (simp add: fees_of_def)
    note e = unfeeOutput_effect [OF True, of db tx blk s]
    have "(\<Sum>k\<leftarrow>map fst (fees_of tx blk xs). value_at (stock db (snd (unfeeOutput tx blk x s))) k) =
        (\<Sum>k\<leftarrow>map fst (fees_of tx blk xs). value_at (stock db (snd s)) k)"
      using Cons.prems unfolding effect_stock [OF e] by (intro sum_value_at_del) (simp add: es)
    then show ?thesis using effect_trans [OF e Cons.IH] Cons.prems by (simp add: es del_all_comp comp_def)
  next
    case False
    then show ?thesis using Cons.IH [of s] Cons.prems by (simp add: unfeeOutput_skip fees_of_def)
  qed
qed

section \<open>Checking a transaction\<close>

text \<open>What the table has besides the outputs \<open>D\<close> that were spent in the batch is still there.\<close>

definition survives :: "state_db \<Rightarrow> batch \<Rightarrow> string set \<Rightarrow> bool" where
  "survives db b D \<longleftrightarrow> (\<forall>k it. map_of (utxoTable db) k = Some it \<longrightarrow> k \<notin> D \<longrightarrow> stock db b k = Some (ui_Amount it))"

lemma inKey_inputKey: "inKey i = UTXOTablePrefix @ inputKey i"
  by (simp add: inKey_def inputKey_def GenUtxoKeyWithPrefix_def)

lemma findUtxo_sound:
  assumes "findUtxo uv db b i = Some it" "cache_fits db (uv, b)" "batch_fits db (uv, b)" "survives db b D" "inKey i \<notin> D"
  shows "stock db b (inKey i) = Some (ui_Amount it)"
proof -
  let ?c = "Option.bind (All (vm_Cache uv) (elems (FromAddr i))) (\<lambda>l2. map_of l2 (inKey i))"
  have find: "Some it = (case ?c of Some ci \<Rightarrow> Some (ci_Item ci)
      | None \<Rightarrow> (case (if Some (batch_id b) = lastBatch uv then batchCache uv (inKey i) else None) of
          Some item \<Rightarrow> Some item | None \<Rightarrow> map_of (utxoTable db) (inKey i)))"
    using assms(1) unfolding findUtxo_def Let_def inKey_def [symmetric] by (rule sym)
  show ?thesis
  proof (cases ?c)
    case (Some ci)
    then have "cached (vm_Cache uv) (elems (FromAddr i)) (inKey i) = Some it" using find by (simp add: cached_def)
    then show ?thesis using assms(2) by (simp add: cache_fits_def coherent_def)
  next
    case None
    then show ?thesis using find assms(3,4,5)
      by (auto simp: batch_fits_def survives_def split: option.splits if_splits)
  qed
qed

lemma SetBytes_abs: "big_Bytes a = elems bs \<Longrightarrow> SetBytes bs = \<bar>a\<bar>"
  using SetBytes_big_Bytes [of "\<bar>a\<bar>"] SetBytes_elems [of "Some (big_Bytes a)" bs] by (simp add: big_Bytes_def)

lemma checkInputs_sound:
  assumes "checkInputs uv db b h is dedup acc = Inr n"
    and "cache_fits db (uv, b)" "batch_fits db (uv, b)" "survives db b D" "inKey ` set is \<inter> D = {}"
  shows "distinct (map inKey is) \<and> inputKey ` set is \<inter> dedup = {} \<and> n = acc + (\<Sum>k\<leftarrow>map inKey is. value_at (stock db b) k) \<and>
    (\<forall>i \<in> set is. \<exists>a. stock db b (inKey i) = Some a \<and> claimed i = \<bar>a\<bar>)"
  using assms(1,5)
proof (induction "is" arbitrary: dedup acc)
  case (Cons i "is")
  obtain it where i: "inputKey i \<notin> dedup" "findUtxo uv db b i = Some it" "big_Bytes (ui_Amount it) = elems (in_Amount i)"
      "checkInputs uv db b h is (insert (inputKey i) dedup) (acc + ui_Amount it) = Inr n"
    using Cons.prems(1) by (auto split: if_splits option.splits)
  have "inKey i \<notin> D" using Cons.prems(2) by auto
  note s = findUtxo_sound [OF i(2) assms(2-4) this]
  have "inKey i \<notin> inKey ` set is" if "inputKey i \<notin> inputKey ` set is" using that by (auto simp: inKey_inputKey)
  then show ?case using Cons.IH [OF i(4)] Cons.prems(2) i(1) s SetBytes_abs [OF i(3)] by auto
qed simp

section \<open>Keys of a transaction\<close>

abbreviation outs :: "transaction \<Rightarrow> (nat \<times> tx_output) list" where
  "outs tx \<equiv> enumerate 0 (TxOutputs tx)"

abbreviation ins :: "transaction \<Rightarrow> string list" where
  "ins tx \<equiv> map inKey (TxInputs tx)"

definition small_tx :: "transaction \<Rightarrow> bool" where
  "small_tx tx \<longleftrightarrow> length (TxOutputs tx) < 2 ^ 32"

definition new_txid :: "(string \<rightharpoonup> int) \<Rightarrow> transaction \<Rightarrow> bool" where
  "new_txid m tx \<longleftrightarrow> (\<forall>addr n. m (GenUtxoKeyWithPrefix addr (Txid tx) n) = None)"

lemma i32_inject: "n < 2 ^ 32 \<Longrightarrow> n' < 2 ^ 32 \<Longrightarrow> i32 (int n) = i32 (int n') \<Longrightarrow> n = n'"
proof -
  assume "n < 2 ^ 32" "n' < 2 ^ 32" "i32 (int n) = i32 (int n')"
  then have "(int n + 2 ^ 31) mod 2 ^ 32 = (int n' + 2 ^ 31) mod 2 ^ 32" by (simp add: i32_def)
  then have dvd: "(2 ^ 32 :: int) dvd int n - int n'" by (simp add: mod_eq_dvd_iff)
  have "\<bar>int n - int n'\<bar> < 2 ^ 32" using \<open>n < 2 ^ 32\<close> \<open>n' < 2 ^ 32\<close> by simp
  then have "int n - int n' = 0" using dvd_imp_le_int [OF _ dvd] by fastforce
  then show "n = n'" by simp
qed

lemma enumerate_index: "(n, y) \<in> set (enumerate 0 ys) \<Longrightarrow> n < length ys \<and> y = ys ! n"
  by (auto simp: in_set_enumerate_eq)

lemma outs_index: "small_tx tx \<Longrightarrow> x \<in> set (outs tx) \<Longrightarrow> y \<in> set (outs tx) \<Longrightarrow> i32 (int (fst x)) = i32 (int (fst y)) \<Longrightarrow> x = y"
  using enumerate_index [of "fst x" "snd x" "TxOutputs tx"] enumerate_index [of "fst y" "snd y" "TxOutputs tx"] i32_inject [of "fst x" "fst y"]
  by (auto simp: small_tx_def prod_eq_iff)

lemma outKey_inject: "small_tx tx \<Longrightarrow> x \<in> set (outs tx) \<Longrightarrow> y \<in> set (outs tx) \<Longrightarrow> outKey tx x = outKey tx y \<Longrightarrow> x = y"
  and feeKey_inject: "small_tx tx \<Longrightarrow> x \<in> set (outs tx) \<Longrightarrow> y \<in> set (outs tx) \<Longrightarrow> feeKey tx blk x = feeKey tx blk y \<Longrightarrow> x = y"
  and feeKey_outKey: "small_tx tx \<Longrightarrow> x \<in> set (outs tx) \<Longrightarrow> y \<in> set (outs tx) \<Longrightarrow> feeKey tx blk x = outKey tx y \<Longrightarrow> x = y"
  using outs_index by (auto simp: outKey_def feeKey_def)

lemma distinct_outs: "distinct (outs tx)"
  by (metis distinct_enumerate distinct_map)

lemma outputs_keys: "map fst (outputs_of tx xs) = map (outKey tx) (filter is_output xs)"
  and fees_keys: "map fst (fees_of tx blk xs) = map (feeKey tx blk) (filter is_fee xs)"
  by (simp_all add: outputs_of_def fees_of_def comp_def)

lemma distinct_filter_keys: "distinct xs \<Longrightarrow> inj_on f (set xs) \<Longrightarrow> distinct (map f (filter P xs))"
  by (auto simp: distinct_map intro: inj_on_subset)

lemma outputs_distinct: "small_tx tx \<Longrightarrow> distinct (map fst (outputs_of tx (outs tx)))"
  unfolding outputs_keys by (intro distinct_filter_keys distinct_outs inj_onI) (rule outKey_inject)

lemma fees_distinct: "small_tx tx \<Longrightarrow> distinct (map fst (fees_of tx blk (outs tx)))"
  unfolding fees_keys by (intro distinct_filter_keys distinct_outs inj_onI) (rule feeKey_inject)

lemma fees_apart: "small_tx tx \<Longrightarrow> fst ` set (fees_of tx blk (outs tx)) \<inter> fst ` set (outputs_of tx (outs tx)) = {}"
  by (auto simp: fees_of_def outputs_of_def is_output_def dest: feeKey_outKey)

lemma new_txid_keys:
  assumes "new_txid m tx"
  shows "k \<in> fst ` set (outputs_of tx xs) \<Longrightarrow> m k = None" "k \<in> fst ` set (fees_of tx blk xs) \<Longrightarrow> m k = None"
  using assms by (auto simp: new_txid_def outputs_of_def fees_of_def outKey_def feeKey_def)

lemma new_txid_del_all: "new_txid m tx \<Longrightarrow> new_txid (del_all ks m) tx"
  by (simp add: new_txid_def del_all_apply)

lemma outputs_fresh: "small_tx tx \<Longrightarrow> new_txid m tx \<Longrightarrow> fresh_entries (outputs_of tx (outs tx)) m"
  by (auto simp: fresh_entries_def outputs_distinct dest: new_txid_keys)

definition fee_sum :: "transaction \<Rightarrow> int" where
  "fee_sum tx = (\<Sum>x\<leftarrow>filter is_fee (outs tx). worth x)"

lemma entry_sum_fees: "entry_sum (fees_of tx blk (outs tx)) = fee_sum tx"
  by (simp add: fees_of_def fee_sum_def comp_def)

lemma worth_split: "(\<Sum>x\<leftarrow>xs. worth x) = entry_sum (outputs_of tx xs) + (\<Sum>x\<leftarrow>filter is_fee xs. worth x)"
proof (induction xs)
  case (Cons x xs)
  then show ?case by (cases "is_fee x"; cases "worth x = 0") (simp_all add: outputs_of_def is_output_def)
qed (simp add: outputs_of_def)

lemma outputSum_split: "outputSum (TxOutputs tx) = entry_sum (outputs_of tx (outs tx)) + fee_sum tx"
proof -
  have "map worth (outs tx) = map (\<lambda>y. SetBytes (out_Amount y)) (map snd (outs tx))" by (simp only: map_map comp_def)
  then have "(\<Sum>x\<leftarrow>outs tx. worth x) = outputSum (TxOutputs tx)" by (simp only: outputSum_def map_snd_enumerate)
  then show ?thesis by (simp only: worth_split [of "outs tx" tx] fee_sum_def)
qed

section \<open>Applying a transaction\<close>

text \<open>The extended state writes to other tables.\<close>

lemma effect_other_op:
  assumes "effect db w f d t s (uv, b)" "\<not> is_utxo_op v" "\<not> is_posted_op v"
  shows "effect db w f d t s (uv, batch_Put b v)"
  using assms by (auto simp: effect_def cache_fits_def batch_fits_def)

lemma updateExtUtxo_effect:
  "effect db w f d t s (uv, b) \<Longrightarrow> effect db w f d t s (uv, snd (updateExtUtxo tx n ts (xm, b)))"
proof (induction tx n ts "(xm, b)" arbitrary: xm b rule: updateExtUtxo.induct)
  case (2 tx offset txOut rest xm b)
  then show ?case by (auto simp: Let_def effect_other_op)
qed simp

lemma xmDoTx_effect:
  assumes "xmDoTx ledger db tx (xm, b) = ((xm', b'), None)"
  shows "effect db' w id 0 0 (uv, b) (uv, b')"
proof -
  obtain xm1 where "updateExtUtxo tx 0 (elems (TxOutputsExt tx)) (xm1, b) = (xm', b')"
    using assms by (auto simp: xmDoTx_def Let_def split: prod.splits option.splits)
  then show ?thesis using updateExtUtxo_effect [OF effect_refl [of db' w "(uv, b)"]] by (metis snd_conv)
qed

lemma CleanBatchCache_other [simp]:
  "vm_Cache (CleanBatchCache b uv) = vm_Cache uv" "utxoTotal (CleanBatchCache b uv) = utxoTotal uv"
  "lastBatch (CleanBatchCache b uv) = Some (batch_id b)"
  by (simp_all add: CleanBatchCache_def)

lemma CleanBatchCache_fits:
  "batch_fits db (uv, b) \<Longrightarrow> batch_fits db (CleanBatchCache b uv, b)"
  "cache_fits db (CleanBatchCache b uv, b) \<longleftrightarrow> cache_fits db (uv, b)"
  by (auto simp: batch_fits_def cache_fits_def CleanBatchCache_def)

text \<open>The total of the inputs, and the change of the amounts.\<close>

abbreviation input_sum :: "(string \<rightharpoonup> int) \<Rightarrow> transaction \<Rightarrow> int" where
  "input_sum m tx \<equiv> \<Sum>k\<leftarrow>ins tx. value_at m k"

definition do_stock :: "transaction \<Rightarrow> (string \<rightharpoonup> int) \<Rightarrow> string \<rightharpoonup> int" where
  "do_stock tx m = put_all (outputs_of tx (outs tx)) (del_all (ins tx) m)"

definition covered :: "(string \<rightharpoonup> int) \<Rightarrow> transaction \<Rightarrow> bool" where
  "covered m tx \<longleftrightarrow> distinct (ins tx) \<and> (\<forall>i \<in> set (TxInputs tx). \<exists>a. m (inKey i) = Some a \<and> claimed i = \<bar>a\<bar>) \<and>
     (input_sum m tx = outputSum (TxOutputs tx) \<or> input_sum m tx = 0 \<and> Coinbase tx)"

lemma CheckInputEqualOutput_covered:
  assumes "CheckInputEqualOutput uv db b h tx = None"
    and "cache_fits db (uv, b)" "batch_fits db (uv, b)" "survives db b D" "set (ins tx) \<inter> D = {}"
  shows "covered (stock db b) tx"
proof -
  obtain n where n: "checkInputs uv db b h (TxInputs tx) {} 0 = Inr n" "n = outputSum (TxOutputs tx) \<or> n = 0 \<and> Coinbase tx"
    using assms(1) by (auto simp: CheckInputEqualOutput_def split: if_splits sum.splits)
  have "inKey ` set (TxInputs tx) \<inter> D = {}" using assms(5) by simp
  from checkInputs_sound [OF n(1) assms(2-4) this] n(2) show ?thesis by (auto simp: covered_def)
qed

lemma doTxInternal_run:
  assumes "uv = CleanBatchCache b (st_utxo st)" "xmDoTx (led_tx env) (st_db st) tx (st_xm st, b) = ((xm, b1), err)"
    and "fold spendInput (TxInputs tx) (uv, b1) = (uv2, b2)" "fold (addOutput tx cf) (outs tx) (uv2, b2, []) = (uv3, b3, hs3)"
    and "chk = (if is_marked tx then None else CheckInputEqualOutput uv (st_db st) b (led_height env) tx)"
  shows "doTxInternal env tx cf (st, b) =
      (case chk of Some e \<Rightarrow> ((st\<lparr>st_utxo := uv\<rparr>, b, []), Some (StUtxo e))
       | None \<Rightarrow> (case err of Some e \<Rightarrow> ((st\<lparr>st_utxo := uv, st_xm := xm\<rparr>, b1, []), Some StRWSetInvalid)
           | None \<Rightarrow> ((st\<lparr>st_utxo := uv, st_xm := xm, st_utxo := uv3\<rparr>, b3, hs3), None)))"
  unfolding doTxInternal_def Let_def prod.case using assms(2-4) by (simp add: assms(1,5) split: option.split)

lemma doTxInternal_ok:
  assumes "doTxInternal env tx cf (st, b) = ((st', b', hs), None)"
  obtains xm b1 uv2 b2 where "is_marked tx \<or> CheckInputEqualOutput (CleanBatchCache b (st_utxo st)) (st_db st) b (led_height env) tx = None"
    "xmDoTx (led_tx env) (st_db st) tx (st_xm st, b) = ((xm, b1), None)"
    "fold spendInput (TxInputs tx) (CleanBatchCache b (st_utxo st), b1) = (uv2, b2)"
    "fold (addOutput tx cf) (outs tx) (uv2, b2, []) = (st_utxo st', b', hs)"
    "st' = st\<lparr>st_xm := xm, st_utxo := st_utxo st'\<rparr>"
proof -
  obtain uv xm b1 err uv2 b2 uv3 b3 hs3 where parts: "uv = CleanBatchCache b (st_utxo st)"
    "xmDoTx (led_tx env) (st_db st) tx (st_xm st, b) = ((xm, b1), err)"
    "fold spendInput (TxInputs tx) (uv, b1) = (uv2, b2)" "fold (addOutput tx cf) (outs tx) (uv2, b2, []) = (uv3, b3, hs3)"
    by (metis prod.exhaust)
  define chk where "chk = (if is_marked tx then None else CheckInputEqualOutput uv (st_db st) b (led_height env) tx)"
  note run = doTxInternal_run [OF parts chk_def]
  have ok: "chk = None" "err = None" using assms unfolding run by (auto split: option.splits)
  then have "st' = st\<lparr>st_xm := xm, st_utxo := uv3\<rparr>" "b' = b3" "hs = hs3" using assms unfolding run by simp_all
  then show ?thesis using that [of xm b1 uv2 b2] ok parts by (simp add: chk_def split: if_splits)
qed

lemma doTx_effect:
  assumes "doTxInternal env tx cf (st, b) = ((st', b', hs), None)"
    and "\<not> is_marked tx" "small_tx tx" "new_txid (stock (st_db st) b) tx"
    and "cache_fits (st_db st) (st_utxo st, b)" "batch_fits (st_db st) (st_utxo st, b)"
    and "survives (st_db st) b D" "set (ins tx) \<inter> D = {}"
  shows "effect (st_db st) True (do_stock tx) (entry_sum (outputs_of tx (outs tx)) - input_sum (stock (st_db st) b) tx)
           (if Coinbase tx then entry_sum (outputs_of tx (outs tx)) else 0) (CleanBatchCache b (st_utxo st), b) (st_utxo st', b')"
    and "hooks_ok (stock (st_db st) b') hs" "covered (stock (st_db st) b) tx"
    and "\<exists>xm uv. st' = st\<lparr>st_xm := xm, st_utxo := uv\<rparr>"
proof -
  let ?db = "st_db st" and ?uv = "CleanBatchCache b (st_utxo st)"
  obtain xm b1 uv2 b2 where check: "is_marked tx \<or> CheckInputEqualOutput ?uv ?db b (led_height env) tx = None"
    and xm: "xmDoTx (led_tx env) ?db tx (st_xm st, b) = ((xm, b1), None)"
    and spend: "fold spendInput (TxInputs tx) (?uv, b1) = (uv2, b2)"
    and add: "fold (addOutput tx cf) (outs tx) (uv2, b2, []) = (st_utxo st', b', hs)"
    and st': "st' = st\<lparr>st_xm := xm, st_utxo := st_utxo st'\<rparr>"
    by (rule doTxInternal_ok [OF assms(1)])
  from st' show "\<exists>xm uv. st' = st\<lparr>st_xm := xm, st_utxo := uv\<rparr>" by blast
  have fit: "cache_fits ?db (?uv, b)" "batch_fits ?db (?uv, b)" using assms(5,6) CleanBatchCache_fits by auto
  show cov: "covered (stock ?db b) tx" by (rule CheckInputEqualOutput_covered [OF _ fit assms(7,8)]) (use check assms(2) in blast)
  note e1 = xmDoTx_effect [OF xm, of ?db True ?uv]
  have m1: "stock ?db b1 = stock ?db b" using effect_stock [OF e1] by simp
  have "distinct (ins tx)" using cov by (simp add: covered_def)
  note e2 = spend_effect [OF this, of ?db "(?uv, b1)", unfolded spend]
  have m2: "stock ?db b2 = del_all (ins tx) (stock ?db b)" using effect_stock [OF e2] m1 by simp
  have fresh: "fresh_entries (outputs_of tx (outs tx)) (stock ?db b2)"
    unfolding m2 by (intro outputs_fresh assms(3) new_txid_del_all assms(4))
  show "hooks_ok (stock ?db b') hs" by (rule outputs_hooks [OF add fresh]) (simp add: hooks_ok_def)
  have f: "put_all (outputs_of tx (outs tx)) \<circ> (del_all (ins tx) \<circ> id) = do_stock tx" by (simp add: fun_eq_iff do_stock_def)
  from effect_trans [OF effect_trans [OF e1 e2] outputs_effect [OF add fresh], unfolded f snd_conv m1]
  show "effect ?db True (do_stock tx) (entry_sum (outputs_of tx (outs tx)) - input_sum (stock ?db b) tx)
      (if Coinbase tx then entry_sum (outputs_of tx (outs tx)) else 0) (?uv, b) (st_utxo st', b')"
    by (simp only: add_0 diff_0 add_uminus_conv_diff uminus_add_conv_diff)
qed

section \<open>Transactions of a block\<close>

text \<open>
  Transactions that the checks are meant for: not marked, and if they are awards, without inputs and fees.
\<close>

definition plain :: "transaction \<Rightarrow> bool" where
  "plain tx \<longleftrightarrow> \<not> is_marked tx \<and> small_tx tx \<and> (Coinbase tx \<longrightarrow> TxInputs tx = [] \<and> fee_sum tx = 0)"

definition award :: "transaction \<Rightarrow> int" where
  "award tx = (if Coinbase tx then entry_sum (outputs_of tx (outs tx)) else 0)"

definition block_stock :: "block \<Rightarrow> transaction \<Rightarrow> (string \<rightharpoonup> int) \<Rightarrow> string \<rightharpoonup> int" where
  "block_stock blk tx m = put_all (fees_of tx blk (outs tx)) (do_stock tx m)"

definition fresh_fees :: "block \<Rightarrow> (string \<rightharpoonup> int) \<Rightarrow> transaction \<Rightarrow> bool" where
  "fresh_fees blk m tx \<longleftrightarrow> (\<forall>k \<in> fst ` set (fees_of tx blk (outs tx)). m k = None)"

lemma fresh_fees_entries: "small_tx tx \<Longrightarrow> fresh_fees blk m tx \<Longrightarrow> fresh_entries (fees_of tx blk (outs tx)) m"
  by (simp add: fresh_entries_def fresh_fees_def fees_distinct)

lemma fresh_fees_new: "new_txid m tx \<Longrightarrow> fresh_fees blk m tx"
  using new_txid_keys(2) by (auto simp: fresh_fees_def)

lemma fresh_fees_do_stock: "small_tx tx \<Longrightarrow> new_txid m tx \<Longrightarrow> fresh_fees blk (do_stock tx m) tx"
  unfolding fresh_fees_def do_stock_def
proof
  fix k
  assume "small_tx tx" "new_txid m tx" and k: "k \<in> fst ` set (fees_of tx blk (outs tx))"
  with fees_apart [of tx blk] have "k \<notin> fst ` set (outputs_of tx (outs tx))" by blast
  then show "put_all (outputs_of tx (outs tx)) (del_all (ins tx) m) k = None"
    using new_txid_keys(2) [OF new_txid_del_all [OF \<open>new_txid m tx\<close>] k] by (simp add: put_all_other)
qed

lemma payFee_effect:
  assumes "payFee tx blk (st, b) = (st', b')" "small_tx tx" "fresh_fees blk (stock db b) tx"
  shows "effect db True (put_all (fees_of tx blk (outs tx))) (fee_sum tx) 0 (st_utxo st, b) (st_utxo st', b')"
    "st' = st\<lparr>st_utxo := st_utxo st'\<rparr>"
proof -
  have step: "fold (feeOutput tx blk) (outs tx) (st_utxo st, b) = (st_utxo st', b')" "st' = st\<lparr>st_utxo := st_utxo st'\<rparr>"
    using assms(1) by (auto simp: payFee_def split: prod.splits)
  from step(2) show "st' = st\<lparr>st_utxo := st_utxo st'\<rparr>" .
  show "effect db True (put_all (fees_of tx blk (outs tx))) (fee_sum tx) 0 (st_utxo st, b) (st_utxo st', b')"
    using fees_effect [of tx blk "outs tx" db "(st_utxo st, b)"] fresh_fees_entries [OF assms(2,3)] by (simp add: entry_sum_fees step(1))
qed

text \<open>The state while the transactions of a block are applied; \<open>D\<close> are the outputs that were spent.\<close>

definition nonneg :: "(string \<rightharpoonup> int) \<Rightarrow> bool" where
  "nonneg m \<longleftrightarrow> (\<forall>k a. m k = Some a \<longrightarrow> 0 \<le> a)"

lemma nonneg_del_all: "nonneg m \<Longrightarrow> nonneg (del_all ks m)"
  by (auto simp: nonneg_def del_all_apply)

lemma nonneg_put_all: "nonneg m \<Longrightarrow> \<forall>e \<in> set es. 0 \<le> snd e \<Longrightarrow> nonneg (put_all es m)"
proof (induction es arbitrary: m)
  case (Cons e es)
  have "nonneg (m(fst e \<mapsto> snd e))" using Cons.prems by (simp add: nonneg_def)
  then show ?case using Cons by simp
qed simp

lemma nonneg_fees: "nonneg m \<Longrightarrow> nonneg (put_all (fees_of tx blk xs) m)"
  by (rule nonneg_put_all) (auto simp: fees_of_def SetBytes_nonneg)

lemma nonneg_do_stock: "nonneg m \<Longrightarrow> nonneg (do_stock tx m)"
  unfolding do_stock_def by (intro nonneg_put_all nonneg_del_all) (auto simp: outputs_of_def SetBytes_nonneg)

lemma nonneg_block_stock: "nonneg m \<Longrightarrow> nonneg (block_stock blk tx m)"
  by (simp add: block_stock_def nonneg_fees nonneg_do_stock)

definition midway :: "state_db \<Rightarrow> string set \<Rightarrow> 'm state \<Rightarrow> batch \<Rightarrow> bool" where
  "midway db D st b \<longleftrightarrow> st_db st = db \<and> cache_fits db (st_utxo st, b) \<and> batch_fits db (st_utxo st, b) \<and> survives db b D \<and> wf_pending db b \<and>
     nonneg (stock db b) \<and> batch_id b < batches st \<and> (\<forall>n. lastBatch (st_utxo st) = Some n \<longrightarrow> n < batches st)"

definition books :: "state_db \<Rightarrow> 'm state \<Rightarrow> batch \<Rightarrow> int" where
  "books db st b = held db b - utxoTotal (st_utxo st)"

lemma covered_change:
  assumes "covered m tx" "plain tx"
  shows "entry_sum (outputs_of tx (outs tx)) - input_sum m tx = award tx - fee_sum tx"
  using assms outputSum_split [of tx] by (auto simp: covered_def plain_def award_def)

lemma survives_step:
  assumes "survives db b D" "stock db b' = put_all es (del_all ks (stock db b))" "\<forall>k \<in> fst ` set es. stock db b k = None"
  shows "survives db b' (D \<union> set ks)"
proof (unfold survives_def, intro allI impI)
  fix k it
  assume "map_of (utxoTable db) k = Some it" "k \<notin> D \<union> set ks"
  with assms(1) have "stock db b k = Some (ui_Amount it)" by (simp add: survives_def)
  moreover from this assms(3) have "k \<notin> fst ` set es" by auto
  ultimately show "stock db b' k = Some (ui_Amount it)"
    using \<open>k \<notin> D \<union> set ks\<close> by (simp add: assms(2) put_all_other del_all_apply)
qed

lemma block_tx_step:
  assumes "midway db D st b" "doTxInternal env tx cf (st, b) = ((st1, b1, hs), None)"
    and "payFee tx blk (st1\<lparr>st_utxo := Commit hs (st_utxo st1)\<rparr>, b1) = (st2, b2)"
    and "plain tx" "new_txid (stock db b) tx" "set (ins tx) \<inter> D = {}"
  shows "midway db (D \<union> set (ins tx)) st2 b2" "books db st2 b2 = books db st b" "posted db b2 = posted db b"
    "stock db b2 = block_stock blk tx (stock db b)" "covered (stock db b) tx"
    "utxoTotal (st_utxo st2) = utxoTotal (st_utxo st) + award tx" "\<exists>xm uv. st2 = st\<lparr>st_xm := xm, st_utxo := uv\<rparr>"
proof -
  have db: "st_db st = db" and fit: "cache_fits db (st_utxo st, b)" "batch_fits db (st_utxo st, b)"
    and surv: "survives db b D" and wf: "wf_pending db b" using assms(1) by (simp_all add: midway_def)
  have fit': "cache_fits db (CleanBatchCache b (st_utxo st), b)" "batch_fits db (CleanBatchCache b (st_utxo st), b)"
    using fit CleanBatchCache_fits by auto
  have small: "small_tx tx" and unmarked: "\<not> is_marked tx" using assms(4) by (simp_all add: plain_def)
  note do = doTx_effect [OF assms(2) unmarked small, unfolded db, OF assms(5) fit surv assms(6)]
  from do(3) show cov: "covered (stock db b) tx" .
  note commit = Commit_effect [OF do(2), of "st_utxo st1"]
  have m1: "stock db b1 = do_stock tx (stock db b)" using effect_stock [OF do(1)] by simp
  have fees: "fresh_fees blk (stock db b1) tx" unfolding m1 by (rule fresh_fees_do_stock [OF small assms(5)])
  note fee = payFee_effect [OF assms(3) small fees, simplified]
  have f: "put_all (fees_of tx blk (outs tx)) \<circ> do_stock tx = block_stock blk tx" by (simp add: fun_eq_iff block_stock_def)
  have all: "effect db True (block_stock blk tx) (award tx) (award tx) (CleanBatchCache b (st_utxo st), b) (st_utxo st2, b2)"
    using effect_trans [OF effect_trans [OF do(1) commit] fee(1)] covered_change [OF cov assms(4)]
    by (simp add: f award_def [symmetric])
  from effect_stock [OF all] show m2: "stock db b2 = block_stock blk tx (stock db b)" by simp
  obtain xm uv where st1: "st1 = st\<lparr>st_xm := xm, st_utxo := uv\<rparr>" using do(4) by blast
  have st2: "st2 = st\<lparr>st_xm := xm, st_utxo := st_utxo st2\<rparr>" by (subst fee(2)) (simp add: st1)
  then show "\<exists>xm uv. st2 = st\<lparr>st_xm := xm, st_utxo := uv\<rparr>" by blast
  have db2: "st_db st2 = db" "batches st2 = batches st" by (subst st2, simp add: db)+
  have "survives db b2 (D \<union> set (ins tx))"
  proof (rule survives_step [OF surv, where es = "outputs_of tx (outs tx) @ fees_of tx blk (outs tx)"])
    show "stock db b2 = put_all (outputs_of tx (outs tx) @ fees_of tx blk (outs tx)) (del_all (ins tx) (stock db b))"
      unfolding m2 block_stock_def do_stock_def put_all_append ..
    show "\<forall>k \<in> fst ` set (outputs_of tx (outs tx) @ fees_of tx blk (outs tx)). stock db b k = None"
    proof
      fix k
      assume "k \<in> fst ` set (outputs_of tx (outs tx) @ fees_of tx blk (outs tx))"
      then have "k \<in> fst ` set (outputs_of tx (outs tx)) \<or> k \<in> fst ` set (fees_of tx blk (outs tx))"
        by (simp only: set_append image_Un Un_iff)
      then show "stock db b k = None" by (elim disjE) (erule new_txid_keys [OF assms(5)])+
    qed
  qed
  moreover have "wf_pending db b2" "cache_fits db (st_utxo st2, b2)" "batch_fits db (st_utxo st2, b2)" "held db b2 = held db b + award tx"
    and total: "utxoTotal (st_utxo st2) = utxoTotal (st_utxo st) + award tx"
    and "posted db b2 = posted db b" "batch_id b2 = batch_id b" "lastBatch (st_utxo st2) = Some (batch_id b)"
    using all wf fit' by (simp_all add: effect_def)
  ultimately show "midway db (D \<union> set (ins tx)) st2 b2" "books db st2 b2 = books db st b" "posted db b2 = posted db b"
    using db2 assms(1) nonneg_block_stock [of "stock db b" blk tx] by (simp_all add: midway_def books_def m2)
  from total show "utxoTotal (st_utxo st2) = utxoTotal (st_utxo st) + award tx" .
qed

text \<open>Other transactions are as new as before.\<close>

lemma other_txid: "elems (Txid tx) \<noteq> elems (Txid tx') \<Longrightarrow> GenUtxoKeyWithPrefix addr (Txid tx') n \<notin> fst ` set (outputs_of tx xs)"
  "elems (Txid tx) \<noteq> elems (Txid tx') \<Longrightarrow> GenUtxoKeyWithPrefix addr (Txid tx') n \<notin> fst ` set (fees_of tx blk xs)"
  by (auto simp: outputs_of_def fees_of_def outKey_def feeKey_def)

lemma block_stock_new:
  assumes "elems (Txid tx) \<noteq> elems (Txid tx')"
  shows "new_txid m tx' \<Longrightarrow> new_txid (block_stock blk tx m) tx'" "fresh_fees blk' m tx' \<Longrightarrow> fresh_fees blk' (block_stock blk tx m) tx'"
    and "new_txid m tx' \<Longrightarrow> new_txid (put_all (fees_of tx blk xs) m) tx'"
    and "fresh_fees blk' m tx' \<Longrightarrow> fresh_fees blk' (put_all (fees_of tx blk xs) m) tx'"
  using other_txid [OF assms]
  by (simp_all add: new_txid_def fresh_fees_def block_stock_def do_stock_def put_all_other del_all_apply fees_of_def feeKey_def)

lemma confirmed_tx_step:
  assumes "midway db D st b" "payFee tx blk (st, b) = (st2, b2)" "small_tx tx" "fresh_fees blk (stock db b) tx"
  shows "midway db D st2 b2" "books db st2 b2 = books db st b + fee_sum tx" "posted db b2 = posted db b"
    "stock db b2 = put_all (fees_of tx blk (outs tx)) (stock db b)" "\<exists>xm uv. st2 = st\<lparr>st_xm := xm, st_utxo := uv\<rparr>"
    "utxoTotal (st_utxo st2) = utxoTotal (st_utxo st)"
proof -
  note fee = payFee_effect [OF assms(2-4)]
  from effect_stock [OF fee(1)] show m2: "stock db b2 = put_all (fees_of tx blk (outs tx)) (stock db b)" by simp
  have "survives db b2 (D \<union> set [])"
    by (rule survives_step [where es = "fees_of tx blk (outs tx)"]) (use assms(1,4) m2 in \<open>simp_all add: midway_def fresh_fees_def\<close>)
  moreover have "st_db st2 = st_db st" "batches st2 = batches st" by (subst fee(2), simp)+
  ultimately show "midway db D st2 b2" "books db st2 b2 = books db st b + fee_sum tx" "posted db b2 = posted db b"
    using fee(1) assms(1) nonneg_fees [of "stock db b" tx blk "outs tx"] by (simp_all add: midway_def books_def effect_def)
  show "\<exists>xm uv. st2 = st\<lparr>st_xm := xm, st_utxo := uv\<rparr>" by (rule exI [of _ "st_xm st"], rule exI [of _ "st_utxo st2"], subst fee(2)) simp
  show "utxoTotal (st_utxo st2) = utxoTotal (st_utxo st)" using fee(1) by (simp add: effect_def)
qed

text \<open>The conditions on the transactions of a block that are left.\<close>

fun ready :: "block \<Rightarrow> string set \<Rightarrow> string set \<Rightarrow> (string \<rightharpoonup> int) \<Rightarrow> transaction list \<Rightarrow> bool" where
  "ready blk C D m [] = True"
| "ready blk C D m (tx # txs) \<longleftrightarrow> plain tx \<and> elems (Txid tx) \<notin> (elems \<circ> Txid) ` set txs \<and>
     (if elems (Txid tx) \<in> C then fresh_fees blk m tx \<and> ready blk C D m txs
      else new_txid m tx \<and> set (ins tx) \<inter> D = {} \<and> ready blk C (D \<union> set (ins tx)) m txs)"

lemma ready_block_stock:
  assumes "elems (Txid tx) \<notin> (elems \<circ> Txid) ` set txs"
  shows "ready blk C D m txs \<Longrightarrow> ready blk C D (block_stock blk tx m) txs"
    "ready blk C D m txs \<Longrightarrow> ready blk C D (put_all (fees_of tx blk xs) m) txs"
  using assms
proof (induction txs arbitrary: D)
  case (Cons tx' txs)
  {
    case 1
    then show ?case using Cons.IH(1) block_stock_new [of tx tx'] by (auto split: if_splits)
  next
    case 2
    then show ?case using Cons.IH(2) block_stock_new [of tx tx'] by (auto split: if_splits)
  }
qed simp_all

lemma playTxs_books:
  assumes "playTxs env blk C txs (st, b) = ((st', b'), None)" "midway db D st b" "ready blk C D (stock db b) txs"
  shows "(\<exists>D'. midway db D' st' b') \<and> posted db b' = posted db b \<and> (\<exists>xm uv. st' = st\<lparr>st_xm := xm, st_utxo := uv\<rparr>) \<and>
    books db st' b' = books db st b + (\<Sum>tx\<leftarrow>filter (\<lambda>tx. elems (Txid tx) \<in> C) txs. fee_sum tx) \<and>
    utxoTotal (st_utxo st') = utxoTotal (st_utxo st) + (\<Sum>tx\<leftarrow>filter (\<lambda>tx. elems (Txid tx) \<notin> C) txs. award tx)"
  using assms
proof (induction txs arbitrary: st b D)
  case Nil
  then show ?case by (auto intro!: exI [of _ "st_xm st"] exI [of _ "st_utxo st"])
next
  case (Cons tx txs)
  show ?case
  proof (cases "elems (Txid tx) \<in> C")
    case True
    obtain st2 b2 where pay: "payFee tx blk (st, b) = (st2, b2)" by (cases "payFee tx blk (st, b)")
    have h: "small_tx tx" "fresh_fees blk (stock db b) tx" "elems (Txid tx) \<notin> (elems \<circ> Txid) ` set txs" "ready blk C D (stock db b) txs"
      using Cons.prems(3) True by (simp_all add: plain_def)
    note step = confirmed_tx_step [OF Cons.prems(2) pay h(1,2)]
    have "playTxs env blk C txs (st2, b2) = ((st', b'), None)" using Cons.prems(1) True pay by simp
    from Cons.IH [OF this step(1)] ready_block_stock(2) [OF h(3,4)] step(2-6) True
    show ?thesis by fastforce
  next
    case False
    obtain st1 b1 hs where do: "doTxInternal env tx True (st, b) = ((st1, b1, hs), None)"
      using Cons.prems(1) False by (auto split: prod.splits option.splits)
    obtain st2 b2 where pay: "payFee tx blk (st1\<lparr>st_utxo := Commit hs (st_utxo st1)\<rparr>, b1) = (st2, b2)"
      by (cases "payFee tx blk (st1\<lparr>st_utxo := Commit hs (st_utxo st1)\<rparr>, b1)")
    have h: "plain tx" "new_txid (stock db b) tx" "set (ins tx) \<inter> D = {}" "elems (Txid tx) \<notin> (elems \<circ> Txid) ` set txs"
        "ready blk C (D \<union> set (ins tx)) (stock db b) txs"
      using Cons.prems(3) False by simp_all
    note step = block_tx_step [OF Cons.prems(2) do pay h(1-3)]
    have "playTxs env blk C txs (st2, b2) = ((st', b'), None)" using Cons.prems(1) False do pay by simp
    from Cons.IH [OF this step(1)] ready_block_stock(1) [OF h(4,5)] step(2-4,6,7) False
    show ?thesis by fastforce
  qed
qed

text \<open>The amounts that a block leaves, when all its transactions are applied by it.\<close>

fun chain :: "block \<Rightarrow> (string \<rightharpoonup> int) \<Rightarrow> transaction list \<Rightarrow> bool" where
  "chain blk m [] = True"
| "chain blk m (tx # txs) \<longleftrightarrow> plain tx \<and> covered m tx \<and> new_txid m tx \<and> chain blk (block_stock blk tx m) txs"

lemma chain_append: "chain blk m (txs @ txs') \<longleftrightarrow> chain blk m txs \<and> chain blk (fold (block_stock blk) txs m) txs'"
  by (induction txs arbitrary: m) auto

lemma nonneg_fold: "nonneg m \<Longrightarrow> nonneg (fold (block_stock blk) txs m)"
  by (induction txs arbitrary: m) (simp_all add: nonneg_block_stock)

lemma playTxs_chain:
  assumes "playTxs env blk C txs (st, b) = ((st', b'), None)" "midway db D st b" "ready blk C D (stock db b) txs"
    and "\<forall>tx \<in> set txs. elems (Txid tx) \<notin> C"
  shows "chain blk (stock db b) txs \<and> stock db b' = fold (block_stock blk) txs (stock db b)"
  using assms
proof (induction txs arbitrary: st b D)
  case (Cons tx txs)
  have new: "elems (Txid tx) \<notin> C" using Cons.prems(4) by simp
  obtain st1 b1 hs where do: "doTxInternal env tx True (st, b) = ((st1, b1, hs), None)"
    using Cons.prems(1) new by (auto split: prod.splits option.splits)
  obtain st2 b2 where pay: "payFee tx blk (st1\<lparr>st_utxo := Commit hs (st_utxo st1)\<rparr>, b1) = (st2, b2)"
    by (cases "payFee tx blk (st1\<lparr>st_utxo := Commit hs (st_utxo st1)\<rparr>, b1)")
  have h: "plain tx" "new_txid (stock db b) tx" "set (ins tx) \<inter> D = {}" "elems (Txid tx) \<notin> (elems \<circ> Txid) ` set txs"
      "ready blk C (D \<union> set (ins tx)) (stock db b) txs"
    using Cons.prems(3) new by simp_all
  note step = block_tx_step [OF Cons.prems(2) do pay h(1-3)]
  have run: "playTxs env blk C txs (st2, b2) = ((st', b'), None)" using Cons.prems(1) new do pay by simp
  have "ready blk C (D \<union> set (ins tx)) (stock db b2) txs" unfolding step(4) by (rule ready_block_stock(1) [OF h(4,5)])
  from Cons.IH [OF run step(1) this] Cons.prems(4)
  have "chain blk (stock db b2) txs \<and> stock db b' = fold (block_stock blk) txs (stock db b2)" by simp
  then show ?case using h(1,2) step(4,5) by simp
qed simp

end
