(* ===== verification/Supply.thy ===== *)
theory Supply
  imports StateProofs
begin

text \<open>
  The supply of tokens. What the table of unspent outputs holds, together with the fees of the
  transactions that wait for a block, is the total that the state records; posting a transaction, playing a
  received block and playing an own block keep it so.
\<close>

section \<open>The invariant\<close>

definition amounts_of :: "state_db \<Rightarrow> string \<rightharpoonup> int" where
  "amounts_of db = map_option ui_Amount \<circ> map_of (utxoTable db)"

definition unpaid :: "transaction table \<Rightarrow> int" where
  "unpaid t = (\<Sum>(k, tx)\<leftarrow>t. fee_sum tx)"

definition supply_sound :: "'m state \<Rightarrow> bool" where
  "supply_sound st \<longleftrightarrow>
     wf_table (utxoTable (st_db st)) \<and> wf_table (unconfirmTable (st_db st)) \<and>
     nonneg (amounts_of (st_db st)) \<and> coherent (amounts_of (st_db st)) (vm_Cache (st_utxo st)) \<and>
     (\<forall>n. lastBatch (st_utxo st) = Some n \<longrightarrow> n < batches st) \<and>
     tokens (utxoTable (st_db st)) + unpaid (unconfirmTable (st_db st)) = utxoTotal (st_utxo st)"

text \<open>A batch without writes leaves everything as it is; a batch that is written becomes the state.\<close>

lemma batch_Write_empty [simp]: "batch_Write db \<lparr>batch_id = n, batch_ops = []\<rparr> = db"
  by (simp add: batch_Write_def)

lemma empty_batch [simp]:
  "stock db \<lparr>batch_id = n, batch_ops = []\<rparr> = amounts_of db" "held db \<lparr>batch_id = n, batch_ops = []\<rparr> = tokens (utxoTable db)"
  "posted db \<lparr>batch_id = n, batch_ops = []\<rparr> = unconfirmTable db" "wf_pending db \<lparr>batch_id = n, batch_ops = []\<rparr> = wf_table (utxoTable db)"
  by (simp_all add: stock_def held_def posted_def wf_pending_def pending_table_def amounts_of_def)

lemma written_batch:
  "stock db b = amounts_of (batch_Write db b)" "held db b = tokens (utxoTable (batch_Write db b))"
  "posted db b = unconfirmTable (batch_Write db b)" "wf_pending db b = wf_table (utxoTable (batch_Write db b))"
  by (simp_all add: stock_def held_def posted_def wf_pending_def pending_table_def amounts_of_def)

lemma NewBatch_simps [simp]: "NewBatch st = (st\<lparr>batches := batches st + 1\<rparr>, \<lparr>batch_id = batches st, batch_ops = []\<rparr>)"
  by (simp add: NewBatch_def)

text \<open>A sound state starts a block.\<close>

lemma sound_midway:
  assumes "supply_sound st"
  shows "midway (st_db st) {} (st\<lparr>batches := batches st + 1\<rparr>) \<lparr>batch_id = batches st, batch_ops = []\<rparr>"
    "books (st_db st) (st\<lparr>batches := batches st + 1\<rparr>) \<lparr>batch_id = batches st, batch_ops = []\<rparr> = - unpaid (unconfirmTable (st_db st))"
proof -
  have "lastBatch (st_utxo st) \<noteq> Some (batches st)" using assms by (auto simp: supply_sound_def)
  then show "midway (st_db st) {} (st\<lparr>batches := batches st + 1\<rparr>) \<lparr>batch_id = batches st, batch_ops = []\<rparr>"
    using assms by (auto simp: midway_def supply_sound_def cache_fits_def batch_fits_def survives_def amounts_of_def)
  show "books (st_db st) (st\<lparr>batches := batches st + 1\<rparr>) \<lparr>batch_id = batches st, batch_ops = []\<rparr> = - unpaid (unconfirmTable (st_db st))"
    using assms by (simp add: books_def supply_sound_def)
qed

lemma wf_posted: "wf_table (posted db b) \<Longrightarrow> wf_table (posted db (batch_Put b w))"
proof (cases "is_posted_op w")
  case True
  then show "wf_table (posted db b) \<Longrightarrow> ?thesis" by (cases w) (simp_all add: distinct_update distinct_delete)
qed simp

lemma unpaid_delete:
  assumes "wf_table t" "map_of t k = Some tx"
  shows "unpaid (AList.delete k t) = unpaid t - fee_sum tx"
  using sum_list_delete [OF assms(1), of fee_sum k] assms(2) by (simp add: unpaid_def)

lemma unpaid_update:
  assumes "wf_table t" "map_of t k = None"
  shows "unpaid (AList.update k tx t) = unpaid t + fee_sum tx"
  using sum_list_update [OF assms(1), of fee_sum k tx] assms(2) by (simp add: unpaid_def)

section \<open>A received block\<close>

text \<open>Only the transactions of the block that the pool has are taken from the unconfirmed ones.\<close>

definition stored :: "transaction table \<Rightarrow> transaction \<Rightarrow> bool" where
  "stored t tx \<longleftrightarrow> (\<exists>tx'. map_of t (elems (Txid tx)) = Some tx' \<and> fee_sum tx' = fee_sum tx)"

lemma scanBlock_Cons:
  assumes "scanBlock env mp (tx # txs) keys (b, u, C) = Some r"
  obtains keys' where "dupInputs (TxInputs tx) keys = Some keys'"
    "scanBlock env mp txs keys' (if HasTx (led_pool env) mp (elems (Txid tx))
       then (batch_Put b (DelUnconfirmed (elems (Txid tx))), u, insert (elems (Txid tx)) C)
       else (b, u @ FindConflictByTx (led_pool env) mp tx, C)) = Some r"
  using assms by (cases "dupInputs (TxInputs tx) keys") (auto split: if_splits)

definition input_keys :: "transaction list \<Rightarrow> string list" where
  "input_keys txs = concat (map ins txs)"

lemma input_keys_simps [simp]: "input_keys [] = []" "input_keys (tx # txs) = ins tx @ input_keys txs"
  by (simp_all add: input_keys_def)

lemma dupInputs_distinct:
  "dupInputs is keys = Some keys' \<Longrightarrow>
     distinct (map inKey is) \<and> set (map inKey is) \<inter> append UTXOTablePrefix ` keys = {} \<and>
     append UTXOTablePrefix ` keys' = append UTXOTablePrefix ` keys \<union> set (map inKey is)"
proof (induction "is" arbitrary: keys)
  case (Cons i "is")
  then have "inputKey i \<notin> keys" "dupInputs is (insert (inputKey i) keys) = Some keys'" by (simp_all split: if_splits)
  with Cons.IH [OF this(2)] show ?case by (auto simp: inKey_inputKey)
qed simp

lemma scanBlock_inputs:
  "scanBlock env mp txs keys acc = Some r \<Longrightarrow> distinct (input_keys txs) \<and> set (input_keys txs) \<inter> append UTXOTablePrefix ` keys = {}"
proof (induction txs arbitrary: keys acc)
  case (Cons tx txs)
  obtain b u C where acc: "acc = (b, u, C)" by (cases acc)
  obtain keys' acc' where dup: "dupInputs (TxInputs tx) keys = Some keys'" and rest: "scanBlock env mp txs keys' acc' = Some r"
    using scanBlock_Cons [OF Cons.prems [unfolded acc]] by metis
  show ?case using Cons.IH [OF rest] dupInputs_distinct [OF dup] unfolding input_keys_simps by (simp del: set_map) blast
qed simp

definition in_pool :: "('m, 'x) ledger_env \<Rightarrow> 'm \<Rightarrow> transaction \<Rightarrow> bool" where
  "in_pool env mp tx \<longleftrightarrow> HasTx (led_pool env) mp (elems (Txid tx))"

lemma scanBlock_pool:
  assumes "scanBlock env mp txs keys (b, u, C) = Some (b', u', C')"
    and "\<forall>tx \<in> set txs. \<not> in_pool env mp tx \<longrightarrow> FindConflictByTx (led_pool env) mp tx = []"
  shows "u' = u \<and> C' = C \<union> (elems \<circ> Txid) ` set (filter (in_pool env mp) txs)"
  using assms
proof (induction txs arbitrary: keys b u C)
  case (Cons tx txs)
  show ?case
  proof (rule scanBlock_Cons [OF Cons.prems(1)], goal_cases)
    case (1 keys')
    then show ?case using Cons.IH Cons.prems(2) by (cases "in_pool env mp tx") (fastforce simp: in_pool_def)+
  qed
qed simp

lemma scanBlock_books:
  assumes "scanBlock env mp txs keys (b, u, C) = Some (b', u', C')"
    and "distinct (map (elems \<circ> Txid) txs)" "wf_table (posted db b)"
    and "\<forall>tx \<in> set txs. in_pool env mp tx \<longrightarrow> stored (posted db b) tx"
  shows "stock db b' = stock db b \<and> held db b' = held db b \<and> wf_pending db b' = wf_pending db b \<and> batch_id b' = batch_id b \<and>
    wf_table (posted db b') \<and> unpaid (posted db b') = unpaid (posted db b) - (\<Sum>tx\<leftarrow>filter (in_pool env mp) txs. fee_sum tx)"
  using assms
proof (induction txs arbitrary: keys b u C)
  case (Cons tx txs)
  obtain keys' where rest: "scanBlock env mp txs keys' (if in_pool env mp tx
      then (batch_Put b (DelUnconfirmed (elems (Txid tx))), u, insert (elems (Txid tx)) C)
      else (b, u @ FindConflictByTx (led_pool env) mp tx, C)) = Some (b', u', C')"
    using scanBlock_Cons [OF Cons.prems(1)] unfolding in_pool_def by metis
  show ?case
  proof (cases "in_pool env mp tx")
    case True
    let ?b = "batch_Put b (DelUnconfirmed (elems (Txid tx)))"
    have st: "stored (posted db b) tx" using Cons.prems(4) True by simp
    have "elems (Txid tx) \<notin> (elems \<circ> Txid) ` set txs" using Cons.prems(2) by simp
    then have "elems (Txid t) \<noteq> elems (Txid tx)" if "t \<in> set txs" for t using that by (metis comp_apply image_eqI)
    then have s: "\<forall>t \<in> set txs. in_pool env mp t \<longrightarrow> stored (posted db ?b) t"
      using Cons.prems(4) by (simp add: stored_def delete_conv')
    have r: "scanBlock env mp txs keys' (?b, u, insert (elems (Txid tx)) C) = Some (b', u', C')" using rest True by simp
    have d: "distinct (map (elems \<circ> Txid) txs)" using Cons.prems(2) by (simp add: comp_def)
    note ih = Cons.IH [OF r d wf_posted [OF Cons.prems(3)] s]
    have "unpaid (posted db ?b) = unpaid (posted db b) - fee_sum tx"
      using st unpaid_delete [OF Cons.prems(3)] by (auto simp: stored_def)
    moreover have "wf_pending db ?b = wf_pending db b" by (simp add: wf_pending_def pending_table_Put)
    ultimately show ?thesis using ih True by simp
  next
    case False
    then show ?thesis using Cons.IH [of keys' b "u @ FindConflictByTx (led_pool env) mp tx" C] rest Cons.prems(2-4) by (simp add: comp_def)
  qed
qed simp

lemma input_keys_filter: "set (input_keys (filter P txs)) \<subseteq> set (input_keys txs)"
  "distinct (input_keys txs) \<Longrightarrow> distinct (input_keys (filter P txs))"
proof -
  show sub: "set (input_keys (filter P txs)) \<subseteq> set (input_keys txs)" for txs by (auto simp: input_keys_def)
  show "distinct (input_keys txs) \<Longrightarrow> distinct (input_keys (filter P txs))"
  proof (induction txs)
    case (Cons tx txs)
    then show ?case using sub [of txs] by (simp del: set_map) blast
  qed simp
qed

lemma ready_intro:
  assumes "distinct (map (elems \<circ> Txid) txs)"
    and "distinct (input_keys (filter (\<lambda>tx. elems (Txid tx) \<notin> C) txs))" "set (input_keys (filter (\<lambda>tx. elems (Txid tx) \<notin> C) txs)) \<inter> D = {}"
    and "\<forall>tx \<in> set txs. plain tx \<and> (if elems (Txid tx) \<in> C then fresh_fees blk m tx else new_txid m tx)"
  shows "ready blk C D m txs"
  using assms
proof (induction txs arbitrary: D)
  case (Cons tx txs)
  let ?keys = "input_keys (filter (\<lambda>tx. elems (Txid tx) \<notin> C) txs)"
  have d: "distinct (map (elems \<circ> Txid) txs)" using Cons.prems(1) by (simp add: comp_def)
  note ih = Cons.IH [OF this]
  show ?case
  proof (cases "elems (Txid tx) \<in> C")
    case True
    then have "distinct ?keys" "set ?keys \<inter> D = {}" using Cons.prems(2,3) by simp_all
    from ih [OF this] Cons.prems(1,4) True show ?thesis by (simp add: comp_def)
  next
    case False
    then have "distinct (ins tx @ ?keys)" "set (ins tx @ ?keys) \<inter> D = {}" using Cons.prems(2,3) by (simp_all del: set_map)
    then have "distinct ?keys" "set ?keys \<inter> (D \<union> set (ins tx)) = {}" "set (ins tx) \<inter> D = {}" by (auto simp del: set_map)
    from ih [OF this(1,2)] this(3) Cons.prems(1,4) False show ?thesis by (simp add: comp_def)
  qed
qed simp

text \<open>Verification changes unmarked transactions in nothing.\<close>

lemma splitDags_set: "g \<in> set (splitDags txs first prev one) \<Longrightarrow> tx \<in> set g \<Longrightarrow> tx \<in> set one \<union> set txs"
  by (induction txs first prev one rule: splitDags.induct) (fastforce split: if_splits)+

lemma clearedMark_unmarked: "\<forall>tx \<in> set txs. \<not> is_marked tx \<Longrightarrow> clearedMark v r u txs = None"
  by (induction txs) (auto simp: clearsMark_def is_marked_def split: option.splits)

lemma afterVerify_unmarked:
  assumes "\<forall>tx \<in> set (blk_Transactions blk). \<not> is_marked tx"
  shows "afterVerify env db blk r u = blk_Transactions blk"
proof -
  have "clearedMark (led_verifier env db) r u g = None" if "g \<in> set (SplitToDags blk)" for g
    using that splitDags_set [of g "blk_Transactions blk" True "{}" "[]"] assms by (intro clearedMark_unmarked) (auto simp: SplitToDags_def)
  then have "Some x \<notin> set (map (clearedMark (led_verifier env db) r u) (SplitToDags blk))" for x by auto
  then show ?thesis by (simp add: afterVerify_def Let_def)
qed

text \<open>The writes of meta data, and what is left after a batch is written.\<close>

lemma UpdateNext_other:
  assumes "UpdateNextIrreversibleBlockHeight h cur w (st, b) = Some (st', b')"
  shows "st_db st' = st_db st" "st_utxo st' = st_utxo st" "batches st' = batches st" "st_pool st' = st_pool st"
    "b' = b \<or> (\<exists>n. b' = batch_Put b (PutIrreversible n))"
  using assms by (auto simp: UpdateNextIrreversibleBlockHeight_def UpdateIrreversibleBlockHeight_def Let_def split: if_splits)

lemma commit_sound:
  assumes "midway db D st b" "wf_table (posted db b)" "books db st b = - unpaid (posted db b)"
    and "UpdateNextIrreversibleBlockHeight h cur w (st, b) = Some (st1, b1)" "updateLatestBlockid env bid (st1, b1) = Some st2"
  shows "supply_sound (publishMeta (st2\<lparr>st_pool := mp\<rparr>))" "utxoTotal (st_utxo st2) = utxoTotal (st_utxo st)" "amounts_of (st_db st2) = stock db b"
proof -
  note meta = UpdateNext_other [OF assms(4)]
  let ?b = "batch_Put b1 (PutPointer bid)"
  have st2: "st_db st2 = batch_Write (st_db st) ?b" "st_utxo st2 = st_utxo st" "batches st2 = batches st"
    using assms(5) meta by (auto simp: updateLatestBlockid_def split: option.splits)
  have same: "stock db ?b = stock db b" "held db ?b = held db b" "posted db ?b = posted db b" "wf_pending db b \<Longrightarrow> wf_pending db ?b"
    using meta(5) by auto
  have m: "st_db st = db" "coherent (stock db b) (vm_Cache (st_utxo st))" "wf_pending db b" "nonneg (stock db b)"
      "\<forall>n. lastBatch (st_utxo st) = Some n \<longrightarrow> n < batches st"
    using assms(1) by (simp_all add: midway_def cache_fits_def)
  have "supply_sound (publishMeta (st2\<lparr>st_pool := mp\<rparr>)) \<longleftrightarrow>
      wf_pending db ?b \<and> wf_table (posted db ?b) \<and> nonneg (stock db ?b) \<and> coherent (stock db ?b) (vm_Cache (st_utxo st)) \<and>
      (\<forall>n. lastBatch (st_utxo st) = Some n \<longrightarrow> n < batches st) \<and> held db ?b + unpaid (posted db ?b) = utxoTotal (st_utxo st)"
    unfolding written_batch by (simp add: supply_sound_def publishMeta_def st2 m(1) del: batch_Write_Put)
  then show "supply_sound (publishMeta (st2\<lparr>st_pool := mp\<rparr>))"
    using assms(2,3) m same by (simp add: books_def)
  show "utxoTotal (st_utxo st2) = utxoTotal (st_utxo st)" by (simp add: st2)
  show "amounts_of (st_db st2) = stock db b" using same(1) written_batch(1) [of db ?b] by (simp only: st2 m(1))
qed

text \<open>
  A block that fits the state: its transactions have different ids and are plain. One that is in the pool waits in the
  table of unconfirmed transactions; one that is not is new and in conflict with none in the pool.
\<close>

definition fitting :: "('m, 'x) ledger_env \<Rightarrow> block \<Rightarrow> 'm state \<Rightarrow> bool" where
  "fitting env blk st \<longleftrightarrow>
     distinct (map (elems \<circ> Txid) (blk_Transactions blk)) \<and>
     (\<forall>tx \<in> set (blk_Transactions blk). plain tx \<and>
        (if in_pool env (st_pool st) tx
         then stored (unconfirmTable (st_db st)) tx \<and> fresh_fees blk (amounts_of (st_db st)) tx
         else new_txid (amounts_of (st_db st)) tx \<and> FindConflictByTx (led_pool env) (st_pool st) tx = []))"

lemma PlayAndRepost_ok:
  assumes "PlayAndRepost env blockid r st = (st', None)" "led_block env blockid = Some blk"
  obtains st1 b1 undo C st2 b2 st3 b3 st4 mp where
    "processUnconfirmTxs env blk (NewBatch st) = ((st1, b1), Inr (undo, C))"
    "playTxs env blk C (afterVerify env (st_db st1) blk r (\<lambda>txid. txid \<in> C)) (st1, b1) = ((st2, b2), None)"
    "UpdateNextIrreversibleBlockHeight (blk_Height blk) (IrreversibleBlockHeight st2) (IrreversibleSlideWindow st2) (st2, b2) = Some (st3, b3)"
    "updateLatestBlockid env (blk_Blockid blk) (st3, b3) = Some st4" "st' = publishMeta (st4\<lparr>st_pool := mp\<rparr>)"
  using assms unfolding PlayAndRepost_def by (auto simp: Let_def simp del: NewBatch_simps split: prod.splits sum.splits option.splits if_splits)

lemma play_sound:
  assumes "supply_sound st" "PlayAndRepost env blockid r st = (st', None)" "led_block env blockid = Some blk" "fitting env blk st"
  shows "supply_sound st'" "utxoTotal (st_utxo st') = utxoTotal (st_utxo st) + (\<Sum>tx\<leftarrow>filter (Not \<circ> in_pool env (st_pool st)) (blk_Transactions blk). award tx)"
    "\<forall>tx \<in> set (blk_Transactions blk). \<not> in_pool env (st_pool st) tx \<Longrightarrow>
       chain blk (amounts_of (st_db st)) (blk_Transactions blk) \<and>
       amounts_of (st_db st') = fold (block_stock blk) (blk_Transactions blk) (amounts_of (st_db st))"
proof -
  let ?txs = "blk_Transactions blk" and ?db = "st_db st" and ?mp = "st_pool st"
  let ?st = "st\<lparr>batches := batches st + 1\<rparr>" and ?b = "\<lparr>batch_id = batches st, batch_ops = []\<rparr>"
  obtain st1 b1 undo C st2 b2 st3 b3 st4 mp where
    proc: "processUnconfirmTxs env blk (NewBatch st) = ((st1, b1), Inr (undo, C))"
    and play: "playTxs env blk C (afterVerify env (st_db st1) blk r (\<lambda>txid. txid \<in> C)) (st1, b1) = ((st2, b2), None)"
    and meta: "UpdateNextIrreversibleBlockHeight (blk_Height blk) (IrreversibleBlockHeight st2) (IrreversibleSlideWindow st2) (st2, b2) = Some (st3, b3)"
    and last: "updateLatestBlockid env (blk_Blockid blk) (st3, b3) = Some st4" and st': "st' = publishMeta (st4\<lparr>st_pool := mp\<rparr>)"
    by (rule PlayAndRepost_ok [OF assms(2,3)])
  have fit: "distinct (map (elems \<circ> Txid) ?txs)" "\<forall>tx \<in> set ?txs. plain tx"
      "\<forall>tx \<in> set ?txs. in_pool env ?mp tx \<longrightarrow> stored (unconfirmTable ?db) tx \<and> fresh_fees blk (amounts_of ?db) tx"
      "\<forall>tx \<in> set ?txs. \<not> in_pool env ?mp tx \<longrightarrow> new_txid (amounts_of ?db) tx \<and> FindConflictByTx (led_pool env) ?mp tx = []"
    using assms(4) by (simp_all add: fitting_def)
  have wf: "wf_table (posted ?db ?b)" using assms(1) by (simp add: supply_sound_def)
  have scan: "scanBlock env ?mp ?txs {} (?b, [], {}) = Some (b1, [], C)" and st1: "st1 = ?st"
  proof -
    obtain b' u where s: "scanBlock env ?mp ?txs {} (?b, [], {}) = Some (b', u, C)"
      and run: "undoConflicts env u {} (?st, b') = ((st1, b1), None)"
      using proc by (auto simp: processUnconfirmTxs_def split: option.splits prod.splits if_splits)
    have "u = []" using scanBlock_pool [OF s] fit(4) by blast
    with s run show "scanBlock env ?mp ?txs {} (?b, [], {}) = Some (b1, [], C)" "st1 = ?st" by simp_all
  qed
  have C: "elems (Txid tx) \<in> C \<longleftrightarrow> in_pool env ?mp tx" if "tx \<in> set ?txs" for tx
  proof -
    have "C = {} \<union> (elems \<circ> Txid) ` set (filter (in_pool env ?mp) ?txs)" using scanBlock_pool [OF scan] fit(4) by blast
    then show ?thesis using that by (fastforce simp: in_pool_def)
  qed
  have pool: "\<forall>tx \<in> set ?txs. in_pool env ?mp tx \<longrightarrow> stored (posted ?db ?b) tx" using fit(3) by simp
  note kept = scanBlock_books [OF scan fit(1) wf pool, unfolded empty_batch]
  have verified: "afterVerify env (st_db st1) blk r (\<lambda>txid. txid \<in> C) = ?txs"
    by (rule afterVerify_unmarked) (use fit(2) in \<open>simp add: plain_def\<close>)
  have start: "midway ?db {} st1 b1" "books ?db st1 b1 = - unpaid (unconfirmTable ?db)"
    using sound_midway [OF assms(1)] kept
    by (simp_all add: midway_def books_def st1 cache_fits_def batch_fits_def survives_def)
  have ready: "ready blk C {} (stock ?db b1) ?txs"
  proof (rule ready_intro [OF fit(1)])
    show "distinct (input_keys (filter (\<lambda>tx. elems (Txid tx) \<notin> C) ?txs))"
      by (rule input_keys_filter(2)) (use scanBlock_inputs [OF scan] in blast)
    show "\<forall>tx \<in> set ?txs. plain tx \<and> (if elems (Txid tx) \<in> C then fresh_fees blk (stock ?db b1) tx else new_txid (stock ?db b1) tx)"
      using fit(2-4) kept C by simp
  qed simp
  note played = playTxs_books [OF play [unfolded verified] start(1) ready]
  obtain D' where mid: "midway ?db D' st2 b2" using played by blast
  have sums: "filter (\<lambda>tx. elems (Txid tx) \<in> C) ?txs = filter (in_pool env ?mp) ?txs"
      "filter (\<lambda>tx. elems (Txid tx) \<notin> C) ?txs = filter (Not \<circ> in_pool env ?mp) ?txs"
    using C by (simp_all cong: filter_cong)
  have "wf_table (posted ?db b2)" "books ?db st2 b2 = - unpaid (posted ?db b2)"
    using played kept start(2) by (simp_all add: sums)
  note finish = commit_sound [OF mid this meta last]
  show "supply_sound st'" unfolding st' by (rule finish(1))
  show "utxoTotal (st_utxo st') = utxoTotal (st_utxo st) + (\<Sum>tx\<leftarrow>filter (Not \<circ> in_pool env ?mp) ?txs. award tx)"
    using finish(2) played by (simp add: st' publishMeta_def sums st1)
  assume "\<forall>tx \<in> set ?txs. \<not> in_pool env ?mp tx"
  then have "\<forall>tx \<in> set ?txs. elems (Txid tx) \<notin> C" using C by simp
  from playTxs_chain [OF play [unfolded verified] start(1) ready this] kept finish(3)
  show "chain blk (amounts_of ?db) ?txs \<and> amounts_of (st_db st') = fold (block_stock blk) ?txs (amounts_of ?db)"
    by (simp add: st' publishMeta_def)
qed

section \<open>A posted transaction\<close>

text \<open>
  If the pool turns the transaction down its batch is dropped, but the caches have been changed already. Taking outputs out
  of the cache, and putting back the ones of the table, leaves it fitting the table.
\<close>

definition steady :: "(string \<rightharpoonup> int) \<Rightarrow> UtxoVM \<Rightarrow> UtxoVM \<Rightarrow> bool" where
  "steady m uv uv' \<longleftrightarrow> (coherent m (vm_Cache uv) \<longrightarrow> coherent m (vm_Cache uv')) \<and> lastBatch uv' = lastBatch uv \<and> utxoTotal uv' = utxoTotal uv"

lemma steady_refl [simp]: "steady m uv uv"
  by (simp add: steady_def)

lemma steady_trans: "steady m uv uv1 \<Longrightarrow> steady m uv1 uv2 \<Longrightarrow> steady m uv uv2"
  by (simp add: steady_def)

lemma steady_fold:
  "(\<And>x s. x \<in> set xs \<Longrightarrow> steady m (fst s) (fst (f x s))) \<Longrightarrow> steady m (fst s) (fst (fold f xs s))"
proof (induction xs arbitrary: s)
  case (Cons x xs)
  have "steady m (fst s) (fst (f x s))" "steady m (fst (f x s)) (fst (fold f xs (f x s)))" using Cons by auto
  then show ?case by (auto intro: steady_trans)
qed simp

lemma coherent_uc_Remove: "coherent m c \<Longrightarrow> coherent m (uc_Remove addr k c)"
  by (auto simp: coherent_def cached_uc_Remove split: if_splits)

lemma steady_spendInput: "steady m (fst s) (fst (spendInput i s))"
  by (auto simp: steady_def spendInput_def RemoveBatchCache_def Let_def coherent_uc_Remove split: prod.splits)

lemma steady_addOutput: "\<not> Coinbase tx \<Longrightarrow> steady m (fst s) (fst (addOutput tx True x s))"
  by (auto simp: steady_def addOutput_def InsertBatchCache_def Let_def split: prod.splits)

lemma steady_restoreInput: "m (inKey i) = Some (claimed i) \<Longrightarrow> steady m (fst s) (fst (restoreInput i s))"
  by (auto simp: steady_def restoreInput_def inKey_def Let_def intro!: coherent_Insert split: prod.splits)

lemma steady_removeOutput: "\<not> Coinbase tx \<Longrightarrow> steady m (fst s) (fst (removeOutput tx x s))"
  by (auto simp: steady_def removeOutput_def Let_def coherent_uc_Remove split: prod.splits)

lemma doTx_steady:
  assumes "doTxInternal env tx True (st, b) = ((st', b', hs), e)" "\<not> Coinbase tx"
  shows "steady m (CleanBatchCache b (st_utxo st)) (st_utxo st')" "\<exists>xm uv. st' = st\<lparr>st_xm := xm, st_utxo := uv\<rparr>"
proof -
  define uv where "uv = CleanBatchCache b (st_utxo st)"
  obtain xm b1 err where xm: "xmDoTx (led_tx env) (st_db st) tx (st_xm st, b) = ((xm, b1), err)" by (metis prod.exhaust)
  obtain uv2 b2 where spend: "fold spendInput (TxInputs tx) (uv, b1) = (uv2, b2)" by (metis prod.exhaust)
  obtain uv3 b3 hs3 where add: "fold (addOutput tx True) (outs tx) (uv2, b2, []) = (uv3, b3, hs3)" by (metis prod.exhaust)
  have s2: "steady m uv uv2" using steady_fold [of "TxInputs tx" m spendInput "(uv, b1)"] steady_spendInput by (simp add: spend)
  have s3: "steady m uv2 uv3"
    using steady_fold [of "outs tx" m "addOutput tx True" "(uv2, b2, [])", OF steady_addOutput [OF assms(2)]] by (simp add: add)
  have "st_utxo st' = uv \<or> st_utxo st' = uv3" and st': "st' = st\<lparr>st_xm := st_xm st', st_utxo := st_utxo st'\<rparr>"
    using assms(1) unfolding doTxInternal_run [OF uv_def xm spend add refl] by (auto split: option.splits)
  from st' show "\<exists>xm uv. st' = st\<lparr>st_xm := xm, st_utxo := uv\<rparr>" by blast
  from \<open>st_utxo st' = uv \<or> st_utxo st' = uv3\<close> steady_trans [OF s2 s3] show "steady m (CleanBatchCache b (st_utxo st)) (st_utxo st')"
    by (auto simp: uv_def)
qed

lemma undoTx_steady:
  assumes "undoTxInternal env tx (st, b) = ((st', b'), e)" "\<not> Coinbase tx" "\<forall>i \<in> set (TxInputs tx). m (inKey i) = Some (claimed i)"
  shows "steady m (st_utxo st) (st_utxo st')" "\<exists>xm uv. st' = st\<lparr>st_xm := xm, st_utxo := uv\<rparr>"
proof -
  obtain xm b1 err where xm: "xmUndoTx (led_tx env) (st_db st) tx (st_xm st, b) = ((xm, b1), err)" by (metis prod.exhaust)
  obtain uv2 b2 where res: "fold restoreInput (TxInputs tx) (st_utxo st, b1) = (uv2, b2)" by (metis prod.exhaust)
  obtain uv3 b3 where rem: "fold (removeOutput tx) (outs tx) (uv2, b2) = (uv3, b3)" by (metis prod.exhaust)
  have s2: "steady m (st_utxo st) uv2"
    using steady_fold [of "TxInputs tx" m restoreInput "(st_utxo st, b1)"] steady_restoreInput assms(3) by (simp add: res)
  have s3: "steady m uv2 uv3"
    using steady_fold [of "outs tx" m "removeOutput tx" "(uv2, b2)", OF steady_removeOutput [OF assms(2)]] by (simp add: rem)
  have "st_utxo st' = st_utxo st \<or> st_utxo st' = uv3" and st': "st' = st\<lparr>st_xm := st_xm st', st_utxo := st_utxo st'\<rparr>"
    using assms(1) by (auto simp: undoTxInternal_def xm res rem split: option.splits)
  from st' show "\<exists>xm uv. st' = st\<lparr>st_xm := xm, st_utxo := uv\<rparr>" by blast
  from \<open>st_utxo st' = st_utxo st \<or> st_utxo st' = uv3\<close> steady_trans [OF s2 s3] show "steady m (st_utxo st) (st_utxo st')" by auto
qed

lemma supply_sound_other [simp]:
  "supply_sound (st\<lparr>st_locks := l\<rparr>) = supply_sound st" "supply_sound (st\<lparr>st_pool := mp\<rparr>) = supply_sound st"
  by (simp_all add: supply_sound_def)

lemma dropped_batch_sound:
  assumes "supply_sound st" "steady (amounts_of (st_db st)) (CleanBatchCache \<lparr>batch_id = batches st, batch_ops = []\<rparr> (st_utxo st)) (st_utxo st')"
    and "st_db st' = st_db st" "batches st' = batches st + 1"
  shows "supply_sound st'" "utxoTotal (st_utxo st') = utxoTotal (st_utxo st)"
  using assms by (auto simp: supply_sound_def steady_def CleanBatchCache_def split: if_splits)

text \<open>A plain transaction that is new to the state.\<close>

definition postable :: "'m state \<Rightarrow> transaction \<Rightarrow> bool" where
  "postable st tx \<longleftrightarrow> plain tx \<and> new_txid (amounts_of (st_db st)) tx \<and> map_of (unconfirmTable (st_db st)) (elems (Txid tx)) = None"

lemma covered_claims: "covered m tx \<Longrightarrow> nonneg m \<Longrightarrow> i \<in> set (TxInputs tx) \<Longrightarrow> m (inKey i) = Some (claimed i)"
  by (force simp: covered_def nonneg_def)

lemma applied_sound:
  assumes "supply_sound st" "postable st tx" "\<not> Coinbase tx"
    and "doTxInternal env tx True (st\<lparr>batches := batches st + 1\<rparr>, \<lparr>batch_id = batches st, batch_ops = []\<rparr>) = ((st', b', hs), None)"
  shows "supply_sound (st'\<lparr>st_db := batch_Write (st_db st') (batch_Put b' (PutUnconfirmed (elems (Txid tx)) tx)), st_utxo := Commit hs (st_utxo st')\<rparr>)"
    "covered (amounts_of (st_db st)) tx" "utxoTotal (Commit hs (st_utxo st')) = utxoTotal (st_utxo st)"
proof -
  let ?db = "st_db st" and ?b = "\<lparr>batch_id = batches st, batch_ops = []\<rparr>" and ?st = "st\<lparr>batches := batches st + 1\<rparr>"
  let ?b1 = "batch_Put b' (PutUnconfirmed (elems (Txid tx)) tx)"
  have plain: "plain tx" and new: "new_txid (stock ?db ?b) tx" and free: "map_of (unconfirmTable ?db) (elems (Txid tx)) = None"
    using assms(2) by (simp_all add: postable_def)
  have mid: "cache_fits ?db (st_utxo ?st, ?b)" "batch_fits ?db (st_utxo ?st, ?b)" "survives ?db ?b {}" "wf_pending ?db ?b"
    using sound_midway [OF assms(1)] by (simp_all add: midway_def)
  have marks: "\<not> is_marked tx" "small_tx tx" using plain by (simp_all add: plain_def)
  have dbs: "st_db ?st = ?db" by simp
  note do = doTx_effect [OF assms(4) marks, unfolded dbs, OF new mid(1-3) Int_empty_right]
  from do(3) show cov: "covered (amounts_of ?db) tx" by simp
  obtain xm uv where st': "st' = ?st\<lparr>st_xm := xm, st_utxo := uv\<rparr>" using do(4) by blast
  have "entry_sum (outputs_of tx (outs tx)) - input_sum (stock ?db ?b) tx = - fee_sum tx"
    using covered_change [OF do(3) plain] assms(3) by (simp add: award_def)
  note eff = effect_trans [OF do(1) Commit_effect [OF do(2)], unfolded this]
  have fits: "cache_fits ?db (CleanBatchCache ?b (st_utxo ?st), ?b)" using CleanBatchCache_fits mid(1,2) by auto
  have facts: "stock ?db b' = do_stock tx (amounts_of ?db)" "wf_pending ?db b'" "held ?db b' = tokens (utxoTable ?db) - fee_sum tx"
      "cache_fits ?db (Commit hs (st_utxo st'), b')" "posted ?db b' = unconfirmTable ?db"
      "lastBatch (Commit hs (st_utxo st')) = Some (batches st)" "utxoTotal (Commit hs (st_utxo st')) = utxoTotal (st_utxo st)"
    using eff fits mid(4) assms(3) by (simp_all add: effect_def)
  from facts(7) show "utxoTotal (Commit hs (st_utxo st')) = utxoTotal (st_utxo st)" .
  have wf: "wf_table (unconfirmTable ?db)" using assms(1) by (simp add: supply_sound_def)
  have "nonneg (stock ?db b')" using assms(1) by (simp add: facts(1) nonneg_do_stock supply_sound_def)
  then have "wf_pending ?db ?b1 \<and> wf_table (posted ?db ?b1) \<and> nonneg (stock ?db ?b1) \<and>
      coherent (stock ?db ?b1) (vm_Cache (Commit hs (st_utxo st'))) \<and> held ?db ?b1 + unpaid (posted ?db ?b1) = utxoTotal (st_utxo st)"
    using facts wf unpaid_update [OF wf free, of tx] assms(1) by (simp add: distinct_update supply_sound_def cache_fits_def)
  then show "supply_sound (st'\<lparr>st_db := batch_Write (st_db st') ?b1, st_utxo := Commit hs (st_utxo st')\<rparr>)"
    unfolding written_batch using facts(6,7) by (simp add: supply_sound_def st' del: batch_Write_Put)
qed

lemma doTxSync_cases:
  assumes "doTxSync env tx st = (st', e)"
  obtains locks where "st' = st\<lparr>st_locks := locks\<rparr>"
  | locks keys st2 b hs err where
      "doTxInternal env tx True (NewBatch (st\<lparr>st_locks := locks\<rparr>)) = ((st2, b, hs), Some err)" "st' = st2\<lparr>st_locks := Unlock keys (st_locks st2)\<rparr>"
  | locks keys st2 b hs mp st3 b3 err where
      "doTxInternal env tx True (NewBatch (st\<lparr>st_locks := locks\<rparr>)) = ((st2, b, hs), None)"
      "undoTxInternal env tx (st2\<lparr>st_pool := mp\<rparr>, b) = ((st3, b3), err)" "st' = st3\<lparr>st_locks := Unlock keys (st_locks st3)\<rparr>"
  | locks keys st2 b hs mp where
      "doTxInternal env tx True (NewBatch (st\<lparr>st_locks := locks\<rparr>)) = ((st2, b, hs), None)"
      "st' = st2\<lparr>st_pool := mp, st_db := batch_Write (st_db st2) (batch_Put b (PutUnconfirmed (elems (Txid tx)) tx)),
         st_utxo := Commit hs (st_utxo st2), st_locks := Unlock keys (st_locks st2)\<rparr>"
proof -
  obtain locks keys ok where l: "TryLock (ExtractLockKeys tx) [] (st_locks st) = (locks, keys, ok)" by (metis prod.exhaust)
  obtain st2 b hs e2 where d: "doTxInternal env tx True (NewBatch (st\<lparr>st_locks := locks\<rparr>)) = ((st2, b, hs), e2)" by (metis prod.exhaust)
  obtain mp r where p: "PutTx (led_pool env) (st_pool st2) tx = (mp, r)" by (metis prod.exhaust)
  obtain st3 b3 e3 where u: "undoTxInternal env tx (st2\<lparr>st_pool := mp\<rparr>, b) = ((st3, b3), e3)" by (metis prod.exhaust)
  note run = assms [unfolded doTxSync_def l prod.case Let_def d p u]
  consider "st' = st\<lparr>st_locks := Unlock keys locks\<rparr>" | err where "e2 = Some err" "st' = st2\<lparr>st_locks := Unlock keys (st_locks st2)\<rparr>"
    | "e2 = None" "st' = st3\<lparr>st_locks := Unlock keys (st_locks st3)\<rparr>"
    | "e2 = None" "st' = st2\<lparr>st_pool := mp, st_db := batch_Write (st_db st2) (batch_Put b (PutUnconfirmed (elems (Txid tx)) tx)),
         st_utxo := Commit hs (st_utxo st2), st_locks := Unlock keys (st_locks st2)\<rparr>"
    using run by (cases e2; cases r; cases e3) (auto simp del: NewBatch_simps batch_Write_Put split: if_splits)
  then show thesis by cases (use that d u in \<open>simp_all del: NewBatch_simps batch_Write_Put; blast\<close>)+
qed

lemma doTxSync_sound:
  assumes "supply_sound st" "postable st tx" "\<not> Coinbase tx" "doTxSync env tx st = (st', e)"
  shows "supply_sound st' \<and> utxoTotal (st_utxo st') = utxoTotal (st_utxo st)"
  using assms(4)
proof (cases rule: doTxSync_cases)
  case (1 locks)
  then show ?thesis using assms(1) by simp
next
  case (2 locks keys st2 b hs err)
  have "\<exists>xm uv. st2 = (st\<lparr>st_locks := locks, batches := batches st + 1\<rparr>)\<lparr>st_xm := xm, st_utxo := uv\<rparr>"
    using doTx_steady(2) [OF 2(1) [unfolded NewBatch_simps] assms(3)] by simp
  then have "st_db st2 = st_db st" "batches st2 = batches st + 1" by auto
  then have "supply_sound st2" "utxoTotal (st_utxo st2) = utxoTotal (st_utxo st)"
    using dropped_batch_sound [OF assms(1), of st2] doTx_steady(1) [OF 2(1) [unfolded NewBatch_simps] assms(3)] by simp_all
  then show ?thesis by (simp add: 2(2))
next
  case (3 locks keys st2 b hs mp st3 b3 err)
  let ?st = "st\<lparr>st_locks := locks\<rparr>"
  have do: "doTxInternal env tx True (?st\<lparr>batches := batches ?st + 1\<rparr>, \<lparr>batch_id = batches ?st, batch_ops = []\<rparr>) = ((st2, b, hs), None)"
    using 3(1) by (simp only: NewBatch_simps)
  have "covered (amounts_of (st_db st)) tx" using applied_sound(2) [OF _ _ assms(3) do] assms(1,2) by (simp add: postable_def)
  then have claims: "\<forall>i \<in> set (TxInputs tx). amounts_of (st_db st) (inKey i) = Some (claimed i)"
    using covered_claims assms(1) by (simp add: supply_sound_def)
  obtain xm uv xm' uv' where "st2 = ?st\<lparr>batches := batches st + 1, st_xm := xm, st_utxo := uv\<rparr>" "st3 = st2\<lparr>st_pool := mp, st_xm := xm', st_utxo := uv'\<rparr>"
    using doTx_steady(2) [OF do assms(3)] undoTx_steady(2) [OF 3(2) assms(3) claims] by auto
  then have "st_db st3 = st_db st" "batches st3 = batches st + 1" by auto
  moreover have "steady (amounts_of (st_db st)) (CleanBatchCache \<lparr>batch_id = batches st, batch_ops = []\<rparr> (st_utxo st)) (st_utxo st3)"
    using steady_trans doTx_steady(1) [OF do assms(3)] undoTx_steady(1) [OF 3(2) assms(3) claims] by fastforce
  ultimately have "supply_sound st3" "utxoTotal (st_utxo st3) = utxoTotal (st_utxo st)" using dropped_batch_sound [OF assms(1)] by blast+
  then show ?thesis by (simp add: 3(3))
next
  case (4 locks keys st2 b hs mp)
  let ?st = "st\<lparr>st_locks := locks\<rparr>"
  have do: "doTxInternal env tx True (?st\<lparr>batches := batches ?st + 1\<rparr>, \<lparr>batch_id = batches ?st, batch_ops = []\<rparr>) = ((st2, b, hs), None)"
    using 4(1) by (simp only: NewBatch_simps)
  have "supply_sound ?st" "postable ?st tx" using assms(1,2) by (simp_all add: postable_def)
  from applied_sound(1,3) [OF this assms(3) do] show ?thesis by (simp add: 4(2) supply_sound_def)
qed

section \<open>An own block\<close>

text \<open>
  The miner applies the transactions it has made itself; the others come from the pool, were applied when they were
  posted, and pay their fees now.
\<close>

definition is_made :: "transaction \<Rightarrow> bool" where
  "is_made tx \<longleftrightarrow> Coinbase tx \<or> Autogen tx"

lemma doTx_no_hooks:
  assumes "doTxInternal env tx False (st, b) = ((st', b', hs), None)"
  shows "hs = []"
proof -
  have keep: "snd (snd (fold (addOutput tx False) xs s)) = snd (snd s)" for xs s
  proof (induction xs arbitrary: s)
    case (Cons x xs)
    have "snd (snd (addOutput tx False x s)) = snd (snd s)" by (auto simp: addOutput_def Let_def split: prod.splits)
    with Cons show ?case by simp
  qed simp
  show ?thesis by (rule doTxInternal_ok [OF assms]) (metis keep snd_conv)
qed

lemma Commit_Nil [simp]: "Commit [] uv = uv"
  by (simp add: Commit_def)

lemma midway_Del: "midway db D st b \<Longrightarrow> midway db D st (batch_Put b (DelUnconfirmed k))"
  "books db st (batch_Put b (DelUnconfirmed k)) = books db st b"
  by (simp_all add: midway_def books_def cache_fits_def batch_fits_def survives_def)

lemma stored_other: "stored t tx \<Longrightarrow> elems (Txid tx) \<noteq> k \<Longrightarrow> stored (AList.delete k t) tx"
  by (auto simp: stored_def delete_conv')

text \<open>What is left of a block, as far as the table of unconfirmed transactions is concerned.\<close>

definition waiting :: "string set \<Rightarrow> transaction table \<Rightarrow> transaction list \<Rightarrow> bool" where
  "waiting C t txs \<longleftrightarrow> wf_table t \<and> (\<forall>tx \<in> set txs. (elems (Txid tx) \<in> C \<longleftrightarrow> \<not> is_made tx) \<and> (\<not> is_made tx \<longrightarrow> stored t tx))"

lemma waiting_delete:
  assumes "waiting C t txs" "elems (Txid tx) \<notin> (elems \<circ> Txid) ` set txs"
  shows "waiting C (AList.delete (elems (Txid tx)) t) txs"
proof -
  have "elems (Txid tx') \<noteq> elems (Txid tx)" if "tx' \<in> set txs" for tx' using that assms(2) by (metis comp_apply image_eqI)
  then show ?thesis using assms(1) by (simp add: waiting_def distinct_delete stored_other)
qed

lemma minerTxs_books:
  assumes "minerTxs env blk txs (st, b) = ((st', b'), None)" "midway db D st b" "ready blk C D (stock db b) txs" "waiting C (posted db b) txs"
  shows "(\<exists>D'. midway db D' st' b') \<and> wf_table (posted db b') \<and> books db st' b' + unpaid (posted db b') = books db st b + unpaid (posted db b) \<and>
    utxoTotal (st_utxo st') = utxoTotal (st_utxo st) + (\<Sum>tx\<leftarrow>filter is_made txs. award tx)"
  using assms
proof (induction txs arbitrary: st b D)
  case Nil
  then show ?case by (auto simp: waiting_def)
next
  case (Cons tx txs)
  have w: "elems (Txid tx) \<in> C \<longleftrightarrow> \<not> is_made tx" "wf_table (posted db b)" "waiting C (posted db b) txs"
    using Cons.prems(4) by (simp_all add: waiting_def)
  show ?case
  proof (cases "is_made tx")
    case True
    obtain st1 b1 hs where do: "doTxInternal env tx False (st, b) = ((st1, b1, hs), None)"
      using Cons.prems(1) True by (auto simp: is_made_def split: prod.splits option.splits)
    obtain st2 b2 where pay: "payFee tx blk (st1, b1) = (st2, b2)" by (cases "payFee tx blk (st1, b1)")
    then have pay': "payFee tx blk (st1\<lparr>st_utxo := Commit hs (st_utxo st1)\<rparr>, b1) = (st2, b2)" by (simp add: doTx_no_hooks [OF do])
    have h: "plain tx" "new_txid (stock db b) tx" "set (ins tx) \<inter> D = {}" "elems (Txid tx) \<notin> (elems \<circ> Txid) ` set txs"
        "ready blk C (D \<union> set (ins tx)) (stock db b) txs"
      using Cons.prems(3) True w(1) by simp_all
    note step = block_tx_step [OF Cons.prems(2) do pay' h(1-3)]
    have run: "minerTxs env blk txs (st2, b2) = ((st', b'), None)" using Cons.prems(1) True do pay by (simp add: is_made_def)
    have "ready blk C (D \<union> set (ins tx)) (stock db b2) txs" unfolding step(4) by (rule ready_block_stock(1) [OF h(4,5)])
    from Cons.IH [OF run step(1) this] w(3) have ih: "(\<exists>D'. midway db D' st' b') \<and> wf_table (posted db b') \<and>
        books db st' b' + unpaid (posted db b') = books db st2 b2 + unpaid (posted db b) \<and>
        utxoTotal (st_utxo st') = utxoTotal (st_utxo st2) + (\<Sum>tx\<leftarrow>filter is_made txs. award tx)" by (simp only: step(3))
    then show ?thesis using step(2,6) True by simp
  next
    case False
    let ?b = "batch_Put b (DelUnconfirmed (elems (Txid tx)))"
    obtain st2 b2 where pay: "payFee tx blk (st, ?b) = (st2, b2)" by (cases "payFee tx blk (st, ?b)")
    have h: "small_tx tx" "fresh_fees blk (stock db ?b) tx" "elems (Txid tx) \<notin> (elems \<circ> Txid) ` set txs" "ready blk C D (stock db b) txs"
      using Cons.prems(3) False w(1) by (simp_all add: plain_def)
    note step = confirmed_tx_step [OF midway_Del(1) [OF Cons.prems(2)] pay h(1,2)]
    have "stored (posted db b) tx" using Cons.prems(4) False by (simp add: waiting_def)
    then have "unpaid (posted db ?b) = unpaid (posted db b) - fee_sum tx" using unpaid_delete [OF w(2)] by (auto simp: stored_def)
    moreover have "waiting C (posted db b2) txs"
      unfolding step(3) posted_Put by (rule waiting_delete [OF w(3) h(3)])
    moreover have run: "minerTxs env blk txs (st2, b2) = ((st', b'), None)" using Cons.prems(1) False pay by (simp add: is_made_def)
    moreover have r: "ready blk C D (stock db b2) txs" using ready_block_stock(2) [OF h(3,4)] step(4) by simp
    ultimately show ?thesis using Cons.IH [OF run step(1) r] step(2,3,6) False by (simp add: midway_Del(2))
  qed
qed

definition mineable :: "block \<Rightarrow> 'm state \<Rightarrow> bool" where
  "mineable blk st \<longleftrightarrow>
     distinct (map (elems \<circ> Txid) (blk_Transactions blk)) \<and> distinct (input_keys (filter is_made (blk_Transactions blk))) \<and>
     (\<forall>tx \<in> set (blk_Transactions blk). plain tx \<and>
        (if is_made tx then new_txid (amounts_of (st_db st)) tx
         else stored (unconfirmTable (st_db st)) tx \<and> fresh_fees blk (amounts_of (st_db st)) tx))"

lemma PlayForMiner_ok:
  assumes "PlayForMiner env blockid st = (st', None)" "led_block env blockid = Some blk"
  obtains st1 b1 st2 b2 st3 mp where
    "minerTxs env blk (blk_Transactions blk) (NewBatch st) = ((st1, b1), None)"
    "UpdateNextIrreversibleBlockHeight (blk_Height blk) (IrreversibleBlockHeight st1) (IrreversibleSlideWindow st1) (st1, b1) = Some (st2, b2)"
    "updateLatestBlockid env (blk_Blockid blk) (st2, b2) = Some st3" "st' = publishMeta (st3\<lparr>st_pool := mp\<rparr>)"
  using assms unfolding PlayForMiner_def by (auto simp: Let_def simp del: NewBatch_simps split: prod.splits sum.splits option.splits if_splits)

lemma mine_sound:
  assumes "supply_sound st" "PlayForMiner env blockid st = (st', None)" "led_block env blockid = Some blk" "mineable blk st"
  shows "supply_sound st'" "utxoTotal (st_utxo st') = utxoTotal (st_utxo st) + (\<Sum>tx\<leftarrow>filter is_made (blk_Transactions blk). award tx)"
proof -
  let ?txs = "blk_Transactions blk" and ?db = "st_db st"
  let ?st = "st\<lparr>batches := batches st + 1\<rparr>" and ?b = "\<lparr>batch_id = batches st, batch_ops = []\<rparr>"
  define C where "C = (elems \<circ> Txid) ` {tx \<in> set ?txs. \<not> is_made tx}"
  obtain st1 b1 st2 b2 st3 mp where
    run: "minerTxs env blk ?txs (NewBatch st) = ((st1, b1), None)"
    and meta: "UpdateNextIrreversibleBlockHeight (blk_Height blk) (IrreversibleBlockHeight st1) (IrreversibleSlideWindow st1) (st1, b1) = Some (st2, b2)"
    and last: "updateLatestBlockid env (blk_Blockid blk) (st2, b2) = Some st3" and st': "st' = publishMeta (st3\<lparr>st_pool := mp\<rparr>)"
    by (rule PlayForMiner_ok [OF assms(2,3)])
  have fit: "distinct (map (elems \<circ> Txid) ?txs)" "distinct (input_keys (filter is_made ?txs))"
      "\<forall>tx \<in> set ?txs. plain tx \<and> (if is_made tx then new_txid (amounts_of ?db) tx else stored (unconfirmTable ?db) tx \<and> fresh_fees blk (amounts_of ?db) tx)"
    using assms(4) by (simp_all add: mineable_def)
  have C: "elems (Txid tx) \<in> C \<longleftrightarrow> \<not> is_made tx" if "tx \<in> set ?txs" for tx
  proof
    assume "elems (Txid tx) \<in> C"
    then obtain tx' where "tx' \<in> set ?txs" "\<not> is_made tx'" "elems (Txid tx') = elems (Txid tx)" by (auto simp: C_def)
    moreover from this have "tx' = tx" using fit(1) that by (auto simp: distinct_map inj_on_def)
    ultimately show "\<not> is_made tx" by simp
  qed (use that in \<open>auto simp: C_def\<close>)
  have made: "filter (\<lambda>tx. elems (Txid tx) \<notin> C) ?txs = filter is_made ?txs" using C by (simp cong: filter_cong)
  have ready: "ready blk C {} (stock ?db ?b) ?txs"
    by (rule ready_intro [OF fit(1)]) (use fit(2,3) C in \<open>simp_all add: made\<close>)
  have "waiting C (posted ?db ?b) ?txs" using assms(1) fit(3) C by (simp add: waiting_def supply_sound_def)
  note books = minerTxs_books [OF run [unfolded NewBatch_simps] sound_midway(1) [OF assms(1)] ready this]
  then obtain D' where mid: "midway ?db D' st1 b1" by blast
  have "wf_table (posted ?db b1)" "books ?db st1 b1 = - unpaid (posted ?db b1)" using books sound_midway(2) [OF assms(1)] by simp_all
  note finish = commit_sound [OF mid this meta last]
  show "supply_sound st'" unfolding st' by (rule finish(1))
  show "utxoTotal (st_utxo st') = utxoTotal (st_utxo st) + (\<Sum>tx\<leftarrow>filter is_made ?txs. award tx)"
    using finish(2) books by (simp add: st' publishMeta_def)
qed

end
