(* ===== verification/Undo.thy ===== *)
theory Undo
  imports Supply
begin

text \<open>
  Undoing a block: the state machine takes back fees, outputs and inputs of the transactions of a block, in the
  reverse order. The amounts are the ones before the block was played, and so is the total.
\<close>

section \<open>Undoing one transaction\<close>

lemma undoExtUtxo_effect:
  "undoExtUtxo ledger db txIns ts (xm, b) = ((xm', b'), e) \<Longrightarrow> effect db' w f d t s (uv, b) \<Longrightarrow> effect db' w f d t s (uv, b')"
proof (induction ts arbitrary: xm b)
  case (Cons txOut rest)
  let ?k = "rawOut txOut" and ?v = "inputVersion txIns (rawOut txOut)"
  obtain xm1 r where fetch: "fetchVersionedData ledger db (xout_Bucket txOut) ?v xm = (xm1, r)" by fastforce
  consider "xout_Bucket txOut = model_TransientBucket" | "xout_Bucket txOut \<noteq> model_TransientBucket" "?v = []"
    | e' where "xout_Bucket txOut \<noteq> model_TransientBucket" "?v \<noteq> []" "r = Inl e'"
    | x where "xout_Bucket txOut \<noteq> model_TransientBucket" "?v \<noteq> []" "r = Inr x" by (cases r) auto
  then show ?case
  proof cases
    case 1
    then show ?thesis using Cons by simp
  next
    case 2
    then have "undoExtUtxo ledger db txIns rest (xm\<lparr>xm_batchCache := (xm_batchCache xm)(?k \<mapsto> [])\<rparr>, batch_Put b (DelExt ?k)) = ((xm', b'), e)"
      using Cons.prems(1) by (simp add: Let_def)
    from Cons.IH [OF this] Cons.prems(2) show ?thesis by (simp add: effect_other_op)
  next
    case 3
    then show ?thesis using Cons.prems fetch by (simp add: Let_def)
  next
    case 4
    define b1 where "b1 = (if isDelFlag (xout_Value (vd_Data x)) then batch_Put (batch_Put b (PutExtDel ?k ?v)) (DelExt ?k)
      else if isDelFlag (xout_Value txOut) then batch_Put (batch_Put b (PutExt ?k ?v)) (DelExtDel ?k) else batch_Put b (PutExt ?k ?v))"
    have "undoExtUtxo ledger db txIns rest (xm1\<lparr>xm_batchCache := (xm_batchCache xm1)(?k \<mapsto> ?v)\<rparr>, b1) = ((xm', b'), e)"
      using Cons.prems(1) 4 fetch by (simp add: Let_def b1_def)
    moreover have "effect db' w f d t s (uv, b1)" using Cons.prems(2) by (simp add: b1_def effect_other_op)
    ultimately show ?thesis by (rule Cons.IH)
  qed
qed simp

lemma xmUndoTx_effect:
  assumes "xmUndoTx ledger db tx (xm, b) = ((xm', b'), e)"
  shows "effect db' w id 0 0 (uv, b) (uv, b')"
  using undoExtUtxo_effect [OF _ effect_refl [of db' w "(uv, b)"]] assms by (simp add: xmUndoTx_def)

lemma sum_values:
  "\<forall>e \<in> set es. m (fst e) = Some (snd e) \<Longrightarrow> (\<Sum>k\<leftarrow>map fst es. value_at m k) = entry_sum es"
  by (induction es) simp_all

text \<open>What undoing does to the amounts.\<close>

definition undo_stock :: "block \<Rightarrow> transaction \<Rightarrow> (string \<rightharpoonup> int) \<Rightarrow> string \<rightharpoonup> int" where
  "undo_stock blk tx m = del_all (map fst (fees_of tx blk (outs tx))) (del_all (map fst (outputs_of tx (outs tx))) (put_all (inputs_of (TxInputs tx)) m))"

lemma inputs_keys: "map fst (inputs_of is) = map inKey is"
  by (simp add: inputs_of_def comp_def)

lemma inputs_apart:
  assumes "covered m tx" "new_txid m tx" "k \<in> set (ins tx)"
  shows "k \<notin> fst ` set (outputs_of tx xs)" "k \<notin> fst ` set (fees_of tx blk xs)" "m k \<noteq> None"
proof -
  obtain i where i: "i \<in> set (TxInputs tx)" "k = inKey i" using assms(3) by auto
  have "\<forall>i \<in> set (TxInputs tx). \<exists>a. m (inKey i) = Some a \<and> claimed i = \<bar>a\<bar>" using assms(1) unfolding covered_def by (elim conjE)
  with i obtain a where a: "m k = Some a" by blast
  then show "m k \<noteq> None" by simp
  show "k \<notin> fst ` set (outputs_of tx xs)"
  proof
    assume "k \<in> fst ` set (outputs_of tx xs)"
    from new_txid_keys(1) [OF assms(2) this] a show False by simp
  qed
  show "k \<notin> fst ` set (fees_of tx blk xs)"
  proof
    assume "k \<in> fst ` set (fees_of tx blk xs)"
    from new_txid_keys(2) [OF assms(2) this] a show False by simp
  qed
qed

lemma block_stock_apply:
  assumes "small_tx tx"
  shows "e \<in> set (outputs_of tx (outs tx)) \<Longrightarrow> block_stock blk tx m (fst e) = Some (snd e)"
    "e \<in> set (fees_of tx blk (outs tx)) \<Longrightarrow> block_stock blk tx m (fst e) = Some (snd e)"
    "k \<notin> fst ` set (outputs_of tx (outs tx)) \<Longrightarrow> k \<notin> fst ` set (fees_of tx blk (outs tx)) \<Longrightarrow>
       block_stock blk tx m k = (if k \<in> set (ins tx) then None else m k)"
proof -
  assume e: "e \<in> set (outputs_of tx (outs tx))"
  then have "fst e \<notin> fst ` set (fees_of tx blk (outs tx))" using fees_apart [OF assms, of blk] by blast
  then show "block_stock blk tx m (fst e) = Some (snd e)"
    by (simp only: block_stock_def do_stock_def put_all_other not_False_eq_True put_all_in [OF outputs_distinct [OF assms] e])
next
  assume "e \<in> set (fees_of tx blk (outs tx))"
  then show "block_stock blk tx m (fst e) = Some (snd e)"
    unfolding block_stock_def by (rule put_all_in [OF fees_distinct [OF assms]])
next
  assume "k \<notin> fst ` set (outputs_of tx (outs tx))" "k \<notin> fst ` set (fees_of tx blk (outs tx))"
  then show "block_stock blk tx m k = (if k \<in> set (ins tx) then None else m k)"
    by (simp only: block_stock_def do_stock_def put_all_other not_False_eq_True del_all_apply)
qed

lemma undo_block_stock:
  assumes "covered m tx" "new_txid m tx" "small_tx tx" "nonneg m"
  shows "undo_stock blk tx (block_stock blk tx m) = m"
proof
  fix k
  let ?O = "outputs_of tx (outs tx)" and ?F = "fees_of tx blk (outs tx)" and ?I = "inputs_of (TxInputs tx)"
  show "undo_stock blk tx (block_stock blk tx m) k = m k"
  proof (cases "k \<in> fst ` set ?O \<or> k \<in> fst ` set ?F")
    case True
    then have "m k = None" using new_txid_keys [OF assms(2)] by (elim disjE) simp_all
    moreover have "k \<in> set (map fst ?O) \<or> k \<in> set (map fst ?F)" using True by (simp only: set_map)
    ultimately show ?thesis by (elim disjE) (simp_all only: undo_stock_def del_all_apply if_True if_cancel)
  next
    case False
    then have free: "k \<notin> fst ` set ?O" "k \<notin> fst ` set ?F" by simp_all
    then have step: "undo_stock blk tx (block_stock blk tx m) k = put_all ?I (block_stock blk tx m) k"
      by (simp only: undo_stock_def del_all_apply set_map if_False)
    show ?thesis
    proof (cases "k \<in> set (ins tx)")
      case True
      then obtain i where i: "i \<in> set (TxInputs tx)" "k = inKey i" by auto
      then have "(k, claimed i) \<in> set ?I" by (simp add: inputs_of_def)
      moreover have "distinct (map fst ?I)" using assms(1) by (simp only: inputs_keys covered_def)
      ultimately have "put_all ?I (block_stock blk tx m) k = Some (claimed i)" using put_all_in [of ?I "(k, claimed i)"] by simp
      then show ?thesis using step covered_claims [OF assms(1,4) i(1)] i(2) by simp
    next
      case False
      then have "k \<notin> fst ` set ?I" using inputs_keys [of "TxInputs tx"] by (metis set_map)
      then show ?thesis using step block_stock_apply(3) [OF assms(3) free, of m] False by (simp only: put_all_other not_False_eq_True if_False)
    qed
  qed
qed

lemma undoTxInternal_ok:
  assumes "undoTxInternal env tx (st, b) = ((st', b'), None)"
  obtains xm b1 uv2 b2 where "xmUndoTx (led_tx env) (st_db st) tx (st_xm st, b) = ((xm, b1), None)"
    "fold restoreInput (TxInputs tx) (st_utxo st, b1) = (uv2, b2)" "fold (removeOutput tx) (outs tx) (uv2, b2) = (st_utxo st', b')"
    "st' = st\<lparr>st_xm := xm, st_utxo := st_utxo st'\<rparr>"
proof -
  obtain xm b1 err where xm: "xmUndoTx (led_tx env) (st_db st) tx (st_xm st, b) = ((xm, b1), err)" by (metis prod.exhaust)
  obtain uv2 b2 where res: "fold restoreInput (TxInputs tx) (st_utxo st, b1) = (uv2, b2)" by (metis prod.exhaust)
  obtain uv3 b3 where rem: "fold (removeOutput tx) (outs tx) (uv2, b2) = (uv3, b3)" by (metis prod.exhaust)
  have "err = None" "st' = st\<lparr>st_xm := xm, st_utxo := uv3\<rparr>" "b' = b3"
    using assms by (auto simp: undoTxInternal_def xm res rem split: option.splits)
  then show ?thesis using that [of xm b1 uv2 b2] xm res rem by simp
qed

lemma undoPayFee_effect:
  assumes "undoPayFee tx blk (st, b) = (st', b')" "small_tx tx"
  shows "effect db False (del_all (map fst (fees_of tx blk (outs tx)))) (- (\<Sum>k\<leftarrow>map fst (fees_of tx blk (outs tx)). value_at (stock db b) k)) 0
      (st_utxo st, b) (st_utxo st', b')" "st' = st\<lparr>st_utxo := st_utxo st'\<rparr>"
proof -
  have step: "fold (unfeeOutput tx blk) (outs tx) (st_utxo st, b) = (st_utxo st', b')" "st' = st\<lparr>st_utxo := st_utxo st'\<rparr>"
    using assms(1) by (auto simp: undoPayFee_def split: prod.splits)
  from step(2) show "st' = st\<lparr>st_utxo := st_utxo st'\<rparr>" .
  from unfees_effect [OF fees_distinct [OF assms(2), of blk], of db "(st_utxo st, b)", unfolded step(1) snd_conv]
  show "effect db False (del_all (map fst (fees_of tx blk (outs tx)))) (- (\<Sum>k\<leftarrow>map fst (fees_of tx blk (outs tx)). value_at (stock db b) k)) 0
      (st_utxo st, b) (st_utxo st', b')" .
qed

text \<open>A transaction that a block has applied to the amounts \<open>m\<close>.\<close>

lemma undo_tx_effect:
  assumes "undoTxInternal env tx (st, b) = ((st1, b1), None)" "undoPayFee tx blk (st1\<lparr>st_pool := mp\<rparr>, b1) = (st2, b2)"
    and "stock db b = block_stock blk tx m" "covered m tx" "plain tx" "new_txid m tx" "nonneg m"
  shows "effect db False (undo_stock blk tx) (- award tx) (- award tx) (st_utxo st, b) (st_utxo st2, b2)"
    "stock db b2 = m" "\<exists>xm uv. st2 = st\<lparr>st_xm := xm, st_utxo := uv, st_pool := mp\<rparr>"
proof -
  let ?O = "outputs_of tx (outs tx)" and ?F = "fees_of tx blk (outs tx)" and ?I = "inputs_of (TxInputs tx)" and ?m = "block_stock blk tx m"
  have small: "small_tx tx" using assms(5) by (simp add: plain_def)
  obtain xm b3 uv2 b4 where xm: "xmUndoTx (led_tx env) (st_db st) tx (st_xm st, b) = ((xm, b3), None)"
    and res: "fold restoreInput (TxInputs tx) (st_utxo st, b3) = (uv2, b4)" and rem: "fold (removeOutput tx) (outs tx) (uv2, b4) = (st_utxo st1, b1)"
    and st1: "st1 = st\<lparr>st_xm := xm, st_utxo := st_utxo st1\<rparr>" by (rule undoTxInternal_ok [OF assms(1)])
  note fee = undoPayFee_effect(1) [OF assms(2) small, of db] undoPayFee_effect(2) [OF assms(2) small]
  have "st2 = st\<lparr>st_xm := xm, st_utxo := st_utxo st2, st_pool := mp\<rparr>" by (subst fee(2), subst st1) simp
  then show "\<exists>xm uv. st2 = st\<lparr>st_xm := xm, st_utxo := uv, st_pool := mp\<rparr>" by blast
  note e1 = xmUndoTx_effect [OF xm, of db False "st_utxo st"]
  have m3: "stock db b3 = ?m" using effect_stock [OF e1] assms(3) by simp
  have free: "?m k = None" if "k \<in> set (ins tx)" for k
    using block_stock_apply(3) [OF small inputs_apart(1,2) [OF assms(4,6) that]] that by simp
  have fresh: "fresh_entries ?I (stock db (snd (st_utxo st, b3)))"
    unfolding fresh_entries_def inputs_keys snd_conv m3
  proof
    show "distinct (ins tx)" using assms(4) by (simp only: covered_def)
    show "\<forall>k \<in> fst ` set ?I. ?m k = None" using free by (simp only: set_map [symmetric] inputs_keys) blast
  qed
  note e2 = restore_effect [OF fresh, unfolded res]
  have m4: "stock db b4 = put_all ?I ?m" using effect_stock [OF e2] m3 by simp
  note e3 = remove_outputs_effect [OF outputs_distinct [OF small], of db "(uv2, b4)", unfolded rem snd_conv]
  have m1: "stock db b1 = del_all (map fst ?O) (put_all ?I ?m)" using effect_stock [OF e3] m4 by simp
  have f: "del_all (map fst ?F) \<circ> (del_all (map fst ?O) \<circ> (put_all ?I \<circ> id)) = undo_stock blk tx" by (simp add: fun_eq_iff undo_stock_def)
  have u: "st_utxo (st1\<lparr>st_pool := mp\<rparr>) = st_utxo st1" by simp
  note all = effect_trans [OF effect_trans [OF effect_trans [OF e1 e2] e3] fee(1) [unfolded u], unfolded f]
  have apart: "k \<notin> fst ` set ?I" if "k \<in> fst ` set ?O \<or> k \<in> fst ` set ?F" for k
  proof
    assume "k \<in> fst ` set ?I"
    then have "k \<in> set (ins tx)" by (simp only: set_map [symmetric] inputs_keys)
    from inputs_apart(1) [OF assms(4,6) this, of "outs tx"] inputs_apart(2) [OF assms(4,6) this, of blk "outs tx"] that show False by (elim disjE notE)
  qed
  have sI: "entry_sum ?I = input_sum m tx"
    using covered_claims [OF assms(4,7)] by (simp add: inputs_of_def comp_def cong: map_cong)
  have "\<forall>e \<in> set ?O. stock db b4 (fst e) = Some (snd e)"
  proof
    fix e
    assume e: "e \<in> set ?O"
    then have "fst e \<notin> fst ` set ?I" by (intro apart disjI1 imageI)
    then show "stock db b4 (fst e) = Some (snd e)" using block_stock_apply(1) [OF small e] by (simp only: m4 put_all_other not_False_eq_True)
  qed
  from sum_values [OF this] have sO: "(\<Sum>k\<leftarrow>map fst ?O. value_at (stock db b4) k) = entry_sum ?O" .
  have "\<forall>e \<in> set ?F. stock db b1 (fst e) = Some (snd e)"
  proof
    fix e
    assume e: "e \<in> set ?F"
    then have "fst e \<notin> fst ` set ?I" by (intro apart disjI2 imageI)
    moreover have "fst e \<notin> set (map fst ?O)"
      using fees_apart [OF small, of blk] imageI [OF e, of fst] by (simp only: set_map disjoint_iff not_False_eq_True)
    ultimately show "stock db b1 (fst e) = Some (snd e)"
      using block_stock_apply(2) [OF small e] by (simp only: m1 del_all_apply put_all_other not_False_eq_True if_False)
  qed
  from sum_values [OF this] have sF: "(\<Sum>k\<leftarrow>map fst ?F. value_at (stock db b1) k) = fee_sum tx" by (simp only: entry_sum_fees)
  have d: "0 + entry_sum ?I + - (\<Sum>k\<leftarrow>map fst ?O. value_at (stock db b4) k) + - (\<Sum>k\<leftarrow>map fst ?F. value_at (stock db b1) k) = - award tx"
    using covered_change [OF assms(4,5)] by (simp only: sI sO sF)
  have t: "0 + 0 + (if Coinbase tx then - entry_sum ?O else 0) + 0 = - award tx" by (simp only: award_def) simp
  show "effect db False (undo_stock blk tx) (- award tx) (- award tx) (st_utxo st, b) (st_utxo st2, b2)" using all unfolding d t .
  from effect_stock [OF all] assms(3) undo_block_stock [OF assms(4,6) small assms(7)] show "stock db b2 = m" by simp
qed

section \<open>Undoing a block\<close>

lemma effect_const: "effect db w f d t s s' \<Longrightarrow> stock db (snd s') = m \<Longrightarrow> effect db w (\<lambda>_. m) d t s s'"
  by (simp add: effect_def)

lemma undoTxs_effect:
  assumes "undoTxs env blk U txs (st, b) = ((st', b'), None)" "\<forall>tx \<in> set txs. elems (Txid tx) \<notin> U"
    and "stock db b = fold (block_stock blk) (rev txs) m" "chain blk m (rev txs)" "nonneg m"
  shows "effect db False (\<lambda>_. m) (- (\<Sum>tx\<leftarrow>txs. award tx)) (- (\<Sum>tx\<leftarrow>txs. award tx)) (st_utxo st, b) (st_utxo st', b') \<and>
    (\<exists>xm uv mp. st' = st\<lparr>st_xm := xm, st_utxo := uv, st_pool := mp\<rparr>)"
  using assms
proof (induction txs arbitrary: st b)
  case Nil
  then have "st' = st" "b' = b" "stock db b = m" by simp_all
  then show ?case using effect_const [OF effect_refl [of db False "(st_utxo st, b)"]]
    by (auto intro!: exI [of _ "st_xm st"] exI [of _ "st_utxo st"] exI [of _ "st_pool st"])
next
  case (Cons tx txs)
  let ?m = "fold (block_stock blk) (rev txs) m"
  obtain st1 b1 where undo: "undoTxInternal env tx (st, b) = ((st1, b1), None)"
    using Cons.prems(1,2) by (auto split: prod.splits option.splits)
  define mp where "mp = DeleteTxAndChildren (led_pool env) (st_pool st1) (elems (Txid tx))"
  obtain st2 b2 where pay: "undoPayFee tx blk (st1\<lparr>st_pool := mp\<rparr>, b1) = (st2, b2)" by fastforce
  have rest: "undoTxs env blk U txs (st2, b2) = ((st', b'), None)" using Cons.prems(1,2) undo pay by (simp add: mp_def)
  have last: "stock db b = block_stock blk tx ?m" "chain blk m (rev txs)" "covered ?m tx" "plain tx" "new_txid ?m tx"
    using Cons.prems(3,4) by (simp_all add: chain_append)
  note e = undo_tx_effect [OF undo pay last(1,3-5) nonneg_fold [OF Cons.prems(5)]]
  note ih = Cons.IH [OF rest _ e(2) last(2) Cons.prems(5)]
  have "effect db False (\<lambda>_. m) (- (\<Sum>tx\<leftarrow>tx # txs. award tx)) (- (\<Sum>tx\<leftarrow>tx # txs. award tx)) (st_utxo st, b) (st_utxo st', b')"
    using effect_trans [OF e(1)] ih Cons.prems(2) by (fastforce simp: comp_def)
  moreover obtain xm uv xm' uv' mp' where "st2 = st\<lparr>st_xm := xm, st_utxo := uv, st_pool := mp\<rparr>" "st' = st2\<lparr>st_xm := xm', st_utxo := uv', st_pool := mp'\<rparr>"
    using e(3) ih Cons.prems(2) by auto
  then have "\<exists>xm uv mp. st' = st\<lparr>st_xm := xm, st_utxo := uv, st_pool := mp\<rparr>" by auto
  ultimately show ?case by blast
qed

lemma procUndoBlk_ok:
  assumes "procUndoBlkForWalk env [blk] U False st = (st', None)"
  obtains st1 b1 st2 where "undoTxs env blk U (rev (blk_Transactions blk)) (NewBatch st) = ((st1, b1), None)"
    "updateLatestBlockid env (blk_PreHash blk) (st1, b1) = Some st2" "st' = publishMeta st2"
  using assms by (auto simp del: NewBatch_simps split: if_splits prod.splits option.splits)

lemma undo_sound:
  assumes "supply_sound st" "procUndoBlkForWalk env [blk] U False st = (st', None)"
    and "\<forall>tx \<in> set (blk_Transactions blk). elems (Txid tx) \<notin> U"
    and "amounts_of (st_db st) = fold (block_stock blk) (blk_Transactions blk) m" "chain blk m (blk_Transactions blk)" "nonneg m"
  shows "supply_sound st'" "amounts_of (st_db st') = m"
    "utxoTotal (st_utxo st') = utxoTotal (st_utxo st) - (\<Sum>tx\<leftarrow>blk_Transactions blk. award tx)"
proof -
  let ?txs = "blk_Transactions blk" and ?db = "st_db st"
  let ?st = "st\<lparr>batches := batches st + 1\<rparr>" and ?b = "\<lparr>batch_id = batches st, batch_ops = []\<rparr>"
  obtain st1 b1 st2 where run: "undoTxs env blk U (rev ?txs) (NewBatch st) = ((st1, b1), None)"
    and upd: "updateLatestBlockid env (blk_PreHash blk) (st1, b1) = Some st2" and st': "st' = publishMeta st2"
    by (rule procUndoBlk_ok [OF assms(2)])
  have "stock ?db ?b = fold (block_stock blk) (rev (rev ?txs)) m" "chain blk m (rev (rev ?txs))" "\<forall>tx \<in> set (rev ?txs). elems (Txid tx) \<notin> U"
    using assms(3-5) by simp_all
  note e = undoTxs_effect [OF run [unfolded NewBatch_simps] this(3,1,2) assms(6)]
  obtain xm uv mp where st1: "st1 = ?st\<lparr>st_xm := xm, st_utxo := uv, st_pool := mp\<rparr>" using e by blast
  have aw: "(\<Sum>tx\<leftarrow>rev ?txs. award tx) = (\<Sum>tx\<leftarrow>?txs. award tx)" by (simp add: rev_map [symmetric] sum_list_rev)
  let ?b1 = "batch_Put b1 (PutPointer (blk_PreHash blk))"
  have cache: "cache_fits ?db (st_utxo ?st, ?b)" using sound_midway [OF assms(1)] by (simp add: midway_def)
  have facts: "stock ?db ?b1 = m" "wf_pending ?db ?b1" "held ?db ?b1 = tokens (utxoTable ?db) - (\<Sum>tx\<leftarrow>?txs. award tx)"
      "posted ?db ?b1 = unconfirmTable ?db" "cache_fits ?db (st_utxo st1, b1)" "lastBatch (st_utxo st1) = lastBatch (st_utxo st)"
      "utxoTotal (st_utxo st1) = utxoTotal (st_utxo st) - (\<Sum>tx\<leftarrow>?txs. award tx)"
    using conjunct1 [OF e] cache assms(1) by (simp_all add: effect_def aw supply_sound_def)
  have st2: "st_db st2 = batch_Write ?db ?b1" "st_utxo st2 = st_utxo st1" "batches st2 = batches st + 1"
    using upd by (auto simp: updateLatestBlockid_def st1 simp del: batch_Write_Put split: option.splits)
  have "supply_sound st' \<longleftrightarrow> wf_pending ?db ?b1 \<and> wf_table (posted ?db ?b1) \<and> nonneg (stock ?db ?b1) \<and> coherent (stock ?db ?b1) (vm_Cache (st_utxo st1)) \<and>
      (\<forall>n. lastBatch (st_utxo st1) = Some n \<longrightarrow> n < batches st + 1) \<and> held ?db ?b1 + unpaid (posted ?db ?b1) = utxoTotal (st_utxo st1)"
    unfolding written_batch by (simp add: supply_sound_def st' publishMeta_def st2 del: batch_Write_Put)
  moreover have "coherent (stock ?db ?b1) (vm_Cache (st_utxo st1))" using facts(5) by (simp add: cache_fits_def)
  ultimately show "supply_sound st'" using facts assms(1,6) by (auto simp: supply_sound_def less_Suc_eq)
  show "amounts_of (st_db st') = m" using facts(1) written_batch(1) [of ?db ?b1] by (simp add: st' publishMeta_def st2 del: batch_Write_Put)
  show "utxoTotal (st_utxo st') = utxoTotal (st_utxo st) - (\<Sum>tx\<leftarrow>?txs. award tx)" using facts(7) by (simp add: st' publishMeta_def st2)
qed

end
