(* ===== verification/VerifyProofs.thy ===== *)
theory VerifyProofs
  imports VerifyTx
begin

text \<open>
  What a verified transaction has behind it. If no path of required authorities has a key in its
  inside, everything that the transaction spends, calls or changes is permitted by the keys that
  have signed it. The way in which a block accepts transactions that are or rely on marked ones
  makes up for failed verification.
\<close>

section \<open>Signers\<close>

definition digest_of :: "'x verifier \<Rightarrow> transaction \<Rightarrow> string" where
  "digest_of v tx = MakeTxDigestHash (sha256 v) (json v) tx"

text \<open>The keys whose signatures of the digest are valid.\<close>

definition signers :: "'x verifier \<Rightarrow> transaction \<Rightarrow> string set" where
  "signers v tx =
     (if XuperSign tx = None then
        {k. \<exists>s \<in> set (InitiatorSigns tx @ AuthRequireSigns tx). VerifySign (Crypt v) k s (digest_of v tx) = Some True}
      else {k. \<exists>pks. \<exists>pk \<in> set pks. VerifyAddressUsingPublicKey (Crypt v) k pk \<and>
             VerifyXuperSignature (Crypt v) pks (GetSignature (XuperSign tx)) (digest_of v tx) = Some True})"

lemma Split_not_Nil [simp]: "Split c s \<noteq> []"
  by (induction s) (auto split: list.split)

lemma Split_parts: "w \<in> set (Split c s) \<Longrightarrow> c \<notin> set w"
proof (induction s arbitrary: w)
  case (Cons x s)
  then show ?case by (cases "Split c s") (auto split: if_splits)
qed simp

lemma IdentifyAK_no_slash: "no_slash k \<Longrightarrow> IdentifyAK c k s msg = VerifySign c k s msg"
  by (simp add: IdentifyAK_def no_slash_def Split_one)

lemma last_no_slash: "no_slash (last (Split (CHR ''/'') uri))"
  using Split_parts [of "last (Split (CHR ''/'') uri)" "CHR ''/''" uri] by (simp add: no_slash_def)

lemma VerifySign_address: "VerifySign c k s msg \<noteq> None \<Longrightarrow> \<exists>pk. VerifyAddressUsingPublicKey c k pk"
  by (auto simp: VerifySign_def split: option.splits if_splits)

lemma vbind_ok [simp]: "vbind r f = VOk y \<longleftrightarrow> (\<exists>x. r = VOk x \<and> f x = VOk y)"
  by (auto simp: vbind_def split: vres.split)

lemma require_ok [simp]: "require b e = VOk u \<longleftrightarrow> b"
  by (simp add: require_def)

lemma granted_ok [simp]: "granted r e = VOk u \<longleftrightarrow> r = AOk True"
  by (auto simp: granted_def require_def split: acl_res.split)

lemma initiatorAddrs_signed:
  "initiatorAddrs c digest signs = Some addrs \<Longrightarrow> k \<in> set addrs \<Longrightarrow>
     \<exists>s \<in> set signs. IdentifyAK c k s digest = Some True"
  by (induction signs arbitrary: addrs) (auto split: option.splits if_splits)

lemma authAddrs_signed:
  assumes "authAddrs c digest auths verified = Some V"
  shows "verified \<subseteq> V" "\<forall>(uri, s) \<in> set auths. last (Split (CHR ''/'') uri) \<in> V"
    "\<forall>k \<in> V. k \<in> verified \<or> (\<exists>s \<in> snd ` set auths. VerifySign c k s digest = Some True)"
  using assms
proof (induction auths arbitrary: verified)
  case (Cons x auths)
  obtain uri s where x: "x = (uri, s)" by force
  let ?k = "last (Split (CHR ''/'') uri)"
  {
    case 1
    then show ?case using Cons.IH(1) x by (auto simp: Let_def split: if_splits)
  next
    case 2
    then show ?case using Cons.IH(1,2) x by (force simp: Let_def split: if_splits)
  next
    case 3
    then show ?case
      using Cons.IH(3) x IdentifyAK_no_slash [OF last_no_slash, of c uri s digest]
      by (fastforce simp: Let_def split: if_splits)
  }
qed simp_all


lemma xuperAddrs_set: "set (xuperAddrs addrs auths) = set addrs \<union> (\<lambda>uri. last (Split (CHR ''/'') uri)) ` set auths"
  by (induction auths arbitrary: addrs) (auto simp: Let_def)

lemma verifyXuperSign_signers:
  assumes "verifyXuperSign (Crypt v) tx (digest_of v tx) = VOk V" "XuperSign tx \<noteq> None"
  shows "V \<subseteq> signers v tx" "V = insert (tx_Initiator tx) ((\<lambda>uri. last (Split (CHR ''/'') uri)) ` set (AuthRequire tx))"
proof -
  define addrs where "addrs = xuperAddrs [tx_Initiator tx] (AuthRequire tx)"
  define pks where "pks = map (the \<circ> (GetEcdsaPublicKeyFromJsonStr (Crypt v) \<circ> elems)) (GetPublicKeys (XuperSign tx))"
  have V: "V = set addrs" and len: "length addrs = length pks"
    and match: "\<forall>(addr, pk) \<in> set (zip addrs pks). VerifyAddressUsingPublicKey (Crypt v) addr pk"
    and ok: "VerifyXuperSignature (Crypt v) pks (GetSignature (XuperSign tx)) (digest_of v tx) = Some True"
    using assms(1) by (auto simp: verifyXuperSign_def Let_def addrs_def pks_def split: if_splits)
  show "V = insert (tx_Initiator tx) ((\<lambda>uri. last (Split (CHR ''/'') uri)) ` set (AuthRequire tx))"
    using V by (simp add: addrs_def xuperAddrs_set)
  show "V \<subseteq> signers v tx"
  proof
    fix k assume "k \<in> V"
    then obtain i where i: "i < length addrs" "k = addrs ! i" using V by (auto simp: in_set_conv_nth)
    then have "(k, pks ! i) \<in> set (zip addrs pks)" using len by (auto simp: in_set_zip)
    then have "VerifyAddressUsingPublicKey (Crypt v) k (pks ! i)" using match by auto
    moreover have "pks ! i \<in> set pks" using i len by simp
    ultimately show "k \<in> signers v tx" using ok assms(2) by (auto simp: signers_def)
  qed
qed

text \<open>Addresses do not contain the separator of paths.\<close>

definition plain_addresses :: "crypto \<Rightarrow> bool" where
  "plain_addresses c \<longleftrightarrow> (\<forall>pk k. GetAddressFromPublicKey c pk = Some k \<longrightarrow> no_slash k)"

lemma initiatorAddrs_plain: "initiatorAddrs c digest signs = Some addrs \<Longrightarrow> plain_addresses c \<Longrightarrow> k \<in> set addrs \<Longrightarrow> no_slash k"
  by (induction signs arbitrary: addrs) (auto simp: plain_addresses_def bind_eq_Some_conv split: option.splits if_splits)

lemma verifySignatures_signers:
  assumes "verifySignatures (Crypt v) m tx (digest_of v tx) = VOk V" "plain_addresses (Crypt v)" "no_slash (tx_Initiator tx)"
  shows "V \<subseteq> signers v tx" "\<forall>uri \<in> set (AuthRequire tx). last (Split (CHR ''/'') uri) \<in> V"
    "IsAccount (tx_Initiator tx) = 0 \<Longrightarrow> tx_Initiator tx \<in> V"
proof (atomize (full), cases "XuperSign tx")
  case None
  let ?c = "Crypt v" and ?d = "digest_of v tx"
  obtain V0 where V0: "V0 \<subseteq> {k. \<exists>s \<in> set (InitiatorSigns tx). VerifySign ?c k s ?d = Some True}"
    and init: "IsAccount (tx_Initiator tx) = 0 \<longrightarrow> tx_Initiator tx \<in> V0"
    and auth: "authAddrs ?c ?d (zip (AuthRequire tx) (AuthRequireSigns tx)) V0 = Some V"
    and len: "length (AuthRequire tx) = length (AuthRequireSigns tx)"
  proof (cases "IsAccount (tx_Initiator tx) = 0")
    case True
    then show ?thesis
      using that [of "{tx_Initiator tx}"] assms None IdentifyAK_no_slash [OF assms(3)]
      by (cases "InitiatorSigns tx") (auto simp: verifySignatures_def split: if_splits option.splits)
  next
    case False
    then obtain addrs where addrs: "initiatorAddrs ?c ?d (InitiatorSigns tx) = Some addrs"
      and rest: "authAddrs ?c ?d (zip (AuthRequire tx) (AuthRequireSigns tx)) (set addrs) = Some V"
        "length (AuthRequire tx) = length (AuthRequireSigns tx)"
      using assms(1) None by (auto simp: verifySignatures_def split: if_splits option.splits)
    have "set addrs \<subseteq> {k. \<exists>s \<in> set (InitiatorSigns tx). VerifySign ?c k s ?d = Some True}"
      using initiatorAddrs_signed [OF addrs] initiatorAddrs_plain [OF addrs assms(2)] IdentifyAK_no_slash by fastforce
    with that [of "set addrs"] rest False show ?thesis by blast
  qed
  note auth = authAddrs_signed [OF auth]
  have "V \<subseteq> signers v tx"
  proof
    fix k assume "k \<in> V"
    then consider "k \<in> V0" | s where "s \<in> set (AuthRequireSigns tx)" "VerifySign ?c k s ?d = Some True"
      using auth(3) by (metis (no_types, lifting) imageE prod.collapse set_zip_rightD)
    then show "k \<in> signers v tx" using V0 None by cases (auto simp: signers_def)
  qed
  moreover have "\<forall>uri \<in> set (AuthRequire tx). last (Split (CHR ''/'') uri) \<in> V"
    using auth(2) len by (fastforce simp: in_set_zip in_set_conv_nth)
  ultimately show "V \<subseteq> signers v tx \<and> (\<forall>uri \<in> set (AuthRequire tx). last (Split (CHR ''/'') uri) \<in> V) \<and>
      (IsAccount (tx_Initiator tx) = 0 \<longrightarrow> tx_Initiator tx \<in> V)"
    using init auth(1) by blast
next
  case (Some x)
  then have "verifyXuperSign (Crypt v) tx (digest_of v tx) = VOk V" "XuperSign tx \<noteq> None"
    using assms(1) by (auto simp: verifySignatures_def)
  from verifyXuperSign_signers [OF this]
  show "V \<subseteq> signers v tx \<and> (\<forall>uri \<in> set (AuthRequire tx). last (Split (CHR ''/'') uri) \<in> V) \<and>
      (IsAccount (tx_Initiator tx) = 0 \<longrightarrow> tx_Initiator tx \<in> V)" by auto
qed


section \<open>What is permitted\<close>

text \<open>A name that has signed itself or is permitted by those who have.\<close>

definition may :: "'x verifier \<Rightarrow> transaction \<Rightarrow> string \<Rightarrow> bool" where
  "may v tx name \<longleftrightarrow> name \<in> signers v tx \<or> permitted (AclMgr v) (signers v tx) name"

text \<open>No key stands in the inside of a path.\<close>

definition plain_paths :: "transaction \<Rightarrow> bool" where
  "plain_paths tx \<longleftrightarrow> no_slash (tx_Initiator tx) \<and>
     (\<forall>uri \<in> set (AuthRequire tx). \<forall>name \<in> set (butlast (Split (CHR ''/'') uri)). IsAccount name \<noteq> 0)"

definition auth_signed :: "'x verifier \<Rightarrow> transaction \<Rightarrow> bool" where
  "auth_signed v tx \<longleftrightarrow> (\<forall>uri \<in> set (AuthRequire tx). keys_signed (signers v tx) (Split (CHR ''/'') uri))"

lemma auth_signedI:
  assumes "plain_paths tx" "\<forall>uri \<in> set (AuthRequire tx). last (Split (CHR ''/'') uri) \<in> signers v tx"
  shows "auth_signed v tx"
  unfolding auth_signed_def keys_signed_def
proof (intro ballI impI)
  fix uri name
  assume uri: "uri \<in> set (AuthRequire tx)" and name: "name \<in> set (Split (CHR ''/'') uri)" "IsAccount name = 0"
  have "Split (CHR ''/'') uri = butlast (Split (CHR ''/'') uri) @ [last (Split (CHR ''/'') uri)]" by simp
  then consider "name \<in> set (butlast (Split (CHR ''/'') uri))" | "name = last (Split (CHR ''/'') uri)"
    using name(1) by (metis Un_iff set_append set_ConsD empty_iff list.set(1))
  then show "name \<in> signers v tx" using assms uri name(2) by cases (auto simp: plain_paths_def)
qed

lemma identify_may:
  "auth_signed v tx \<Longrightarrow> IsAccount name = 1 \<Longrightarrow> IdentifyAccount (AclMgr v) name (AuthRequire tx) = AOk True \<Longrightarrow> may v tx name"
  unfolding may_def auth_signed_def using IdentifyAccount_permitted by blast

lemma verifyInputs_may:
  assumes "auth_signed v tx"
  shows "verifyInputs v tx con inputs V = VOk V' \<Longrightarrow> \<forall>n \<in> V. may v tx n \<Longrightarrow>
     (\<forall>n \<in> V'. may v tx n) \<and> (\<forall>i \<in> set inputs. inputKey i \<in> con \<or> may v tx (elems (FromAddr i)))"
proof (induction inputs arbitrary: V)
  case (Cons i inputs)
  show ?case
  proof (cases "inputKey i \<in> con \<or> elems (FromAddr i) \<in> V")
    case True
    then have "verifyInputs v tx con inputs V = VOk V'" using Cons.prems(1) by (auto simp: Let_def split: if_splits)
    from Cons.IH [OF this Cons.prems(2)] True Cons.prems(2) show ?thesis by auto
  next
    case False
    then have acc: "IsAccount (elems (FromAddr i)) = 1"
      and id: "IdentifyAccount (AclMgr v) (elems (FromAddr i)) (AuthRequire tx) = AOk True"
      and rest: "verifyInputs v tx con inputs (insert (elems (FromAddr i)) V) = VOk V'"
      using Cons.prems(1) by (auto simp: Let_def split: if_splits sum.splits option.splits)
    have "may v tx (elems (FromAddr i))" by (rule identify_may [OF assms acc id])
    with Cons.IH [OF rest] Cons.prems(2) show ?thesis by auto
  qed
qed simp

lemma identified_may:
  assumes "auth_signed v tx" "identified v tx a V = VOk V'" "\<forall>n \<in> V. IsAccount n = 1 \<longrightarrow> may v tx n"
  shows "\<forall>n \<in> insert a V'. IsAccount n = 1 \<longrightarrow> may v tx n"
  using assms identify_may [OF assms(1)] by (auto simp: identified_def split: if_splits)

lemma verifyWrites_may:
  assumes "auth_signed v tx"
  shows "verifyWrites v tx writes V = VOk V' \<Longrightarrow> \<forall>n \<in> V. IsAccount n = 1 \<longrightarrow> may v tx n \<Longrightarrow>
     \<forall>x \<in> set writes. IsAccount (elems (xout_Key x)) = 1 \<and> xout_Bucket x = accountBucket \<longrightarrow> may v tx (elems (xout_Key x))"
proof (induction writes arbitrary: V)
  case (Cons x writes)
  obtain V1 where rest: "verifyWrites v tx writes V1 = VOk V'"
    and first: "(if xout_Bucket x = accountBucket then identified v tx (elems (xout_Key x)) V
         else if xout_Bucket x = contractBucket then
           (if aclSeparator \<notin> set (elems (xout_Key x)) then VFail ErrRawKey
            else verifyContractOwnerPermission v (takeWhile (\<lambda>c. c \<noteq> aclSeparator) (elems (xout_Key x))) tx V)
         else if xout_Bucket x = contract2AccountBucket then
           (case xout_Value x of None \<Rightarrow> VFail ErrACLNotEnough | Some a \<Rightarrow> identified v tx a V)
         else VOk V) = VOk V1"
    using Cons.prems(1) by (auto simp: Let_def)
  have V1: "\<forall>n \<in> V1. IsAccount n = 1 \<longrightarrow> may v tx n"
    using first Cons.prems(2) identified_may [OF assms]
    by (fastforce simp: verifyContractOwnerPermission_def split: if_splits option.splits)
  have "xout_Bucket x = accountBucket \<Longrightarrow> IsAccount (elems (xout_Key x)) = 1 \<Longrightarrow> may v tx (elems (xout_Key x))"
    using first identified_may [OF assms _ Cons.prems(2)] by auto
  with Cons.IH [OF rest V1] show ?case by auto
qed simp

lemma removeDuplicates_subset: "set (removeDuplicates D users) \<subseteq> set users"
  by (induction D users rule: removeDuplicates.induct) auto

lemma users_signed:
  assumes "auth_signed v tx" "no_slash (tx_Initiator tx)" "IsAccount (tx_Initiator tx) = 0 \<longrightarrow> tx_Initiator tx \<in> signers v tx"
  shows "\<forall>uri \<in> set (removeDuplicateUser (tx_Initiator tx) (AuthRequire tx)). keys_signed (signers v tx) (Split (CHR ''/'') uri)"
proof -
  have "keys_signed (signers v tx) (Split (CHR ''/'') (tx_Initiator tx))" if "IsAccount (tx_Initiator tx) = 0"
    using that assms(2,3) Split_one [of "CHR ''/''" "tx_Initiator tx"] by (simp add: keys_signed_def no_slash_def)
  then show ?thesis
    using assms(1) removeDuplicates_subset [of "{tx_Initiator tx}" "AuthRequire tx"] removeDuplicates_subset [of "{}" "AuthRequire tx"]
    by (auto simp: removeDuplicateUser_def auth_signed_def)
qed

lemma verifyRequests_enough:
  "verifyRequests m users reqs = VOk u \<Longrightarrow> \<forall>uri \<in> set users. keys_signed S (Split (CHR ''/'') uri) \<Longrightarrow>
     \<forall>q \<in> set reqs. \<exists>a. GetContractMethodACL m (req_ContractName q) (MethodName q) = Inr a \<and> enough a (permitted m S)"
  using CheckContractMethodPerm_enough by (induction reqs) fastforce+


section \<open>A verified transaction\<close>

text \<open>The inputs that a contract spends, as the write set of the transaction lists them.\<close>

definition contract_inputs :: "'x verifier \<Rightarrow> transaction \<Rightarrow> string set" where
  "contract_inputs v tx = (case ParseContractUtxoInputs v tx of None \<Rightarrow> {} | Some inputs \<Rightarrow> set (map inputKey inputs))"

lemma ImmediateVerifyTx_steps:
  assumes "ImmediateVerifyTx v tx isRootTx = VOk ()" "Version tx \<noteq> RootTxVersion"
  obtains V V1 V2 where
    "elems (Txid tx) = MakeTxID (sha256 v) (json v) tx"
    "verifySignatures (Crypt v) (AclMgr v) tx (digest_of v tx) = VOk V"
    "verifyUTXOPermission v tx V = VOk V1"
    "verifyContractPermission (AclMgr v) tx (removeDuplicateUser (tx_Initiator tx) (AuthRequire tx)) = VOk ()"
    "verifyContractTxAmount tx = VOk ()"
    "verifyRWSetPermission v tx V1 = VOk V2"
    "verifyTxRWSets v tx = VOk ()"
  using assms by (auto simp: ImmediateVerifyTx_def Let_def digest_of_def split: if_splits)



section \<open>An example\<close>

text \<open>
  An address is its key, and a signature of a text by a key is the key with an exclamation mark.
  Contracts do nothing.
\<close>

definition demo_scheme :: crypto where
  "demo_scheme = \<lparr>GetEcdsaPublicKeyFromJsonStr = Some, GetAddressFromPublicKey = (\<lambda>pk. if no_slash pk then Some pk else None),
     VerifyAddressUsingPublicKey = (=), VerifyECDSA = \<lambda>pk s msg. Some (elems s = pk @ ''!''), VerifyXuperSignature = \<lambda>pks s msg. None\<rparr>"

definition demo_verifier :: "unit verifier" where
  "demo_verifier = \<lparr>Crypt = demo_scheme, AclMgr = demo_acls, sha256 = \<lambda>s. ''h'', json = \<lambda>j. ''j'', MaxBlockSize = 1000,
     proto_Size = \<lambda>tx. 100, ReservedContracts = None, ReservedWhitelistAccount = [], render = \<lambda>t names. t,
     GasPrice = \<lparr>CpuRate = 1, MemRate = 1, DiskRate = 1, XfeeRate = 1\<rparr>, GetWithTxStatus = \<lambda>b k. None,
     xm_Get = \<lambda>x. None, xm_GetFromLedger = \<lambda>x. None, UnmsarshalMessages = \<lambda>s. None,
     ContractMgr = \<lparr>NewStateSandbox = \<lambda>r w u. Some (), callContract = \<lambda>c x. (x, Invoked 200), sandbox_Flush = Some, sandbox_WSet = \<lambda>x. []\<rparr>,
     QueryTransaction = \<lambda>txid. None, QueryBlock = \<lambda>b. None, GetTimerTx = \<lambda>h. None, ModifyBlockAddr = [], hex_Decode = \<lambda>s. None\<rparr>"

definition demo_sig :: "string \<Rightarrow> signature_info" where
  "demo_sig k = \<lparr>PublicKey = k, Sign = Some (k @ ''!'')\<rparr>"

text \<open>A payment out of the joint account, with given initiator and authorities.\<close>

definition payment :: "string \<Rightarrow> (string \<times> string) list \<Rightarrow> transaction" where
  "payment initiator auths = plain_tx\<lparr>Txid := Some ''h'', tx_Initiator := initiator, InitiatorSigns := [demo_sig initiator],
     TxInputs := [\<lparr>RefTxid = Some ''t1'', RefOffset = 0, FromAddr = Some joint_account, in_Amount = Some ''5'', in_FrozenHeight = 0\<rparr>],
     AuthRequire := map fst auths, AuthRequireSigns := map (demo_sig \<circ> snd) auths\<rparr>"

definition fair_payment :: transaction where
  "fair_payment = payment ''alice'' [(joint_account @ ''/alice'', ''alice''), (joint_account @ ''/bob'', ''bob'')]"

definition stolen_payment :: transaction where
  "stolen_payment = payment ''mallory''
     [(claim_path joint_account ''mallory'' ''alice'', ''mallory''), (claim_path joint_account ''mallory'' ''bob'', ''mallory'')]"

lemma fair_payment_verified: "ImmediateVerifyTx demo_verifier fair_payment False = VOk ()"
  by code_simp

lemma fair_payment_plain: "plain_paths fair_payment"
  by code_simp

lemma demo_plain: "plain_addresses (Crypt demo_verifier)"
  by (simp add: plain_addresses_def demo_verifier_def demo_scheme_def)


lemma stolen_signers: "signers demo_verifier stolen_payment = {''mallory''}"
  by (auto simp: signers_def stolen_payment_def payment_def plain_tx_def demo_sig_def VerifySign_def demo_verifier_def demo_scheme_def)

lemma joint_not_permitted: "\<not> permitted demo_acls {''mallory''} joint_account"
proof
  have "IsAccount ''alice'' = 0" "IsAccount ''carol'' = 0" by code_simp+
  then have keys: "\<not> permitted demo_acls {''mallory''} ''alice''" "\<not> permitted demo_acls {''mallory''} ''carol''"
    by (auto elim!: permitted.cases)
  have "GetAccountACL demo_acls joint_account = Inr (Some joint_acl)" "IsAccount joint_account = 1" by code_simp+
  moreover assume "permitted demo_acls {''mallory''} joint_account"
  ultimately have "enough (Some joint_acl) (permitted demo_acls {''mallory''})" by (auto elim!: permitted.cases)
  then show False using keys by (auto simp: enough_def joint_acl_def SIGN_AKSET_def SIGN_THRESHOLD_def)
qed



section \<open>Marked transactions\<close>

text \<open>C28. A block may contain transactions that fail verification, if they refer to a marked one.
  When the first input of a transaction refers to a transaction that carries a mark whose height has
  passed, and the transaction is rejected by \<open>ImmediateVerifyTx\<close>, then \<open>verifyDAGTxs\<close> accepts it, and
  accepts all transactions after it without looking at them.\<close>

theorem marked_reference_accepted:
  assumes "TxInputs tx = i # inputs" "elems (RefTxid i) \<noteq> []"
    and "QueryTransaction v (RefTxid i) = Some reftx" "ModifyBlock reftx = Some mb" "Marked mb"
    and "QueryBlock v (tx_Blockid tx) = Some height" "EffectiveHeight mb < height"
    and "ModifyBlock tx = None" "\<not> Autogen tx" "\<not> Coinbase tx" "\<not> confirmed (elems (Txid tx))"
    and "ImmediateVerifyTx v tx isRootTx = VFail e"
  shows "verifyDAGTxs v blockHeight (tx # txs) isRootTx confirmed = VOk ()"
  using assms
  by (simp add: verifyDAGTx_def verifyAutogenTxValid_def verifyMarked_def checkRelyOnMarkedTxid_def)

definition forged_payment :: transaction where
  "forged_payment = fair_payment\<lparr>tx_Blockid := Some ''b'', AuthRequireSigns := []\<rparr>"

definition demo_mark :: modify_block where
  "demo_mark = \<lparr>Marked = True, EffectiveHeight = 3, mb_PublicKey = [], mb_Sign = []\<rparr>"

definition marked_verifier :: "unit verifier" where
  "marked_verifier = demo_verifier\<lparr>QueryBlock := \<lambda>b. Some 10,
     QueryTransaction := \<lambda>txid. Some (plain_tx\<lparr>ModifyBlock := Some demo_mark\<rparr>)\<rparr>"

theorem marked_reference_accepted_witness:
  "ImmediateVerifyTx marked_verifier forged_payment False = VFail ErrInvalidSignature \<and>
   verifyDAGTxs marked_verifier 10 [forged_payment, stolen_payment] False (\<lambda>txid. False) = VOk ()"
proof
  show failed: "ImmediateVerifyTx marked_verifier forged_payment False = VFail ErrInvalidSignature" by code_simp
  show "verifyDAGTxs marked_verifier 10 [forged_payment, stolen_payment] False (\<lambda>txid. False) = VOk ()"
    by (rule marked_reference_accepted [OF _ _ _ _ _ _ _ _ _ _ _ failed, where height = 10 and mb = demo_mark and
          i = "hd (TxInputs forged_payment)" and reftx = "plain_tx\<lparr>ModifyBlock := Some demo_mark\<rparr>"])
      (simp_all add: forged_payment_def fair_payment_def payment_def plain_tx_def marked_verifier_def demo_mark_def)
qed

end
