(* ===== verification/LedgerRuns.thy ===== *)
theory LedgerRuns
  imports Undo VerifyProofs
begin

text \<open>
  Runs of the ledger: transactions are posted and blocks are played in any order. The supply of tokens is
  kept by every run of fitting steps; blocks that are rejected, and transactions the checks are not meant for, break it.
\<close>

section \<open>Runs of the ledger\<close>

text \<open>
  Transactions are posted, with any outcome, blocks of others and own blocks are played, and blocks are undone, in any
  order; the first component counts the awards.
\<close>

inductive ledger_step :: "('m, 'x) ledger_env set \<Rightarrow> int \<times> 'm state \<Rightarrow> int \<times> 'm state \<Rightarrow> bool" for envs where
  post: "env \<in> envs \<Longrightarrow> postable st tx \<Longrightarrow> ledger_step envs (n, st) (n, fst (DoTx env now tx st))"
| play: "env \<in> envs \<Longrightarrow> led_block env blockid = Some blk \<Longrightarrow> fitting env blk st \<Longrightarrow> snd (PlayAndRepost env blockid r st) = None \<Longrightarrow>
    ledger_step envs (n, st)
      (n + (\<Sum>tx\<leftarrow>filter (Not \<circ> in_pool env (st_pool st)) (blk_Transactions blk). award tx), fst (PlayAndRepost env blockid r st))"
| mine: "env \<in> envs \<Longrightarrow> led_block env blockid = Some blk \<Longrightarrow> mineable blk st \<Longrightarrow> snd (PlayForMiner env blockid st) = None \<Longrightarrow>
    ledger_step envs (n, st) (n + (\<Sum>tx\<leftarrow>filter is_made (blk_Transactions blk). award tx), fst (PlayForMiner env blockid st))"
| undo: "env \<in> envs \<Longrightarrow> \<forall>tx \<in> set (blk_Transactions blk). elems (Txid tx) \<notin> U \<Longrightarrow>
    amounts_of (st_db st) = fold (block_stock blk) (blk_Transactions blk) m \<Longrightarrow> chain blk m (blk_Transactions blk) \<Longrightarrow> nonneg m \<Longrightarrow>
    snd (procUndoBlkForWalk env [blk] U False st) = None \<Longrightarrow>
    ledger_step envs (n, st) (n - (\<Sum>tx\<leftarrow>blk_Transactions blk. award tx), fst (procUndoBlkForWalk env [blk] U False st))"

definition accounted :: "int \<Rightarrow> int \<times> 'm state \<Rightarrow> bool" where
  "accounted t s \<longleftrightarrow> supply_sound (snd s) \<and> utxoTotal (st_utxo (snd s)) = t + fst s"

lemma outs_stamp: "is_marked (tx\<lparr>ReceivedTimestamp := now\<rparr>) = is_marked tx" "small_tx (tx\<lparr>ReceivedTimestamp := now\<rparr>) = small_tx tx"
  "fee_sum (tx\<lparr>ReceivedTimestamp := now\<rparr>) = fee_sum tx" "new_txid m (tx\<lparr>ReceivedTimestamp := now\<rparr>) = new_txid m tx"
  by (simp_all add: is_marked_def small_tx_def fee_sum_def new_txid_def)

lemma postable_stamp: "postable st (tx\<lparr>ReceivedTimestamp := now\<rparr>) = postable st tx"
  by (simp add: postable_def plain_def outs_stamp)

lemma post_sound:
  assumes "supply_sound st" "postable st tx"
  shows "supply_sound (fst (DoTx env now tx st)) \<and> utxoTotal (st_utxo (fst (DoTx env now tx st))) = utxoTotal (st_utxo st)"
proof (cases "Coinbase tx \<or> elems (tx_Blockid tx) \<noteq> []")
  case False
  let ?tx = "tx\<lparr>ReceivedTimestamp := now\<rparr>"
  have "postable st ?tx" "\<not> Coinbase ?tx" using assms(2) False by (simp_all add: postable_stamp)
  from doTxSync_sound [OF assms(1) this, of env "fst (doTxSync env ?tx st)" "snd (doTxSync env ?tx st)"] False
  show ?thesis by (simp add: DoTx_def)
qed (use assms in \<open>auto simp: DoTx_def\<close>)

interpretation ledger_inv: step_invariant "ledger_step envs" "accounted t" for envs t
proof
  fix s s'
  assume "ledger_step envs s s'" "accounted t s"
  then show "accounted t s'"
  proof (cases rule: ledger_step.cases)
    case (post env st tx n now)
    then show ?thesis using post_sound [of st tx env now] \<open>accounted t s\<close> by (simp add: accounted_def)
  next
    case (play env blockid blk st r n)
    have "supply_sound st" using \<open>accounted t s\<close> play(1) by (simp add: accounted_def)
    from play_sound [OF this _ play(4,5), of r "fst (PlayAndRepost env blockid r st)"] play \<open>accounted t s\<close>
    show ?thesis by (simp add: accounted_def prod_eq_iff)
  next
    case (mine env blockid blk st n)
    have "supply_sound st" using \<open>accounted t s\<close> mine(1) by (simp add: accounted_def)
    from mine_sound [OF this _ mine(4,5), of "fst (PlayForMiner env blockid st)"] mine \<open>accounted t s\<close>
    show ?thesis by (simp add: accounted_def prod_eq_iff)
  next
    case (undo env blk U st m n)
    have sound: "supply_sound st" using \<open>accounted t s\<close> undo(1) by (simp add: accounted_def)
    define r where "r = procUndoBlkForWalk env [blk] U False st"
    have "procUndoBlkForWalk env [blk] U False st = (fst r, None)" using undo(8) by (simp add: r_def prod_eq_iff del: procUndoBlkForWalk.simps)
    from undo_sound [OF sound this undo(4-7)] undo(1,2) \<open>accounted t s\<close>
    show ?thesis by (simp add: accounted_def r_def del: procUndoBlkForWalk.simps)
  qed
qed


section \<open>A ledger of one account\<close>

text \<open>In evaluations a map is looked up in its updates one by one.\<close>

declare fun_upd_apply [code]

definition demo_pool :: "transaction list mempool" where
  "demo_pool =
     \<lparr>HasTx = (\<lambda>mp txid. txid \<in> (elems \<circ> Txid) ` set mp), Full = (\<lambda>mp. False), PutTx = (\<lambda>mp tx. (mp @ [tx], PutOk)),
      FindConflictByTx = (\<lambda>mp tx. filter (\<lambda>t. set (ins t) \<inter> set (ins tx) \<noteq> {}) mp),
      BatchConfirmTxID = (\<lambda>mp txids. filter (\<lambda>t. elems (Txid t) \<notin> set txids) mp),
      BatchConfirmTx = (\<lambda>mp txs. filter (\<lambda>t. elems (Txid t) \<notin> (elems \<circ> Txid) ` set txs) mp),
      BatchDeleteTx = (\<lambda>mp txs. filter (\<lambda>t. elems (Txid t) \<notin> (elems \<circ> Txid) ` set txs) mp),
      DeleteTxAndChildren = (\<lambda>mp txid. filter (\<lambda>t. elems (Txid t) \<noteq> txid) mp), SortUnconfirmedTx = Some\<rparr>"

definition demo_input :: "string \<Rightarrow> int \<Rightarrow> string \<Rightarrow> int \<Rightarrow> tx_input" where
  "demo_input txid offset addr amount =
     \<lparr>RefTxid = Some txid, RefOffset = offset, FromAddr = Some addr, in_Amount = Some (big_Bytes amount), in_FrozenHeight = 0\<rparr>"

definition demo_output :: "string \<Rightarrow> int \<Rightarrow> tx_output" where
  "demo_output addr amount = \<lparr>out_Amount = Some (big_Bytes amount), ToAddr = Some addr, out_FrozenHeight = 0\<rparr>"

definition demo_tx :: "string \<Rightarrow> tx_input list \<Rightarrow> tx_output list \<Rightarrow> transaction" where
  "demo_tx txid inputs outputs =
     \<lparr>Txid = Some txid, tx_Blockid = None, TxInputs = inputs, TxOutputs = outputs, Desc = None, Coinbase = False, Nonce = [], Timestamp = 0,
      Version = 0, Autogen = False, TxInputsExt = None, TxOutputsExt = None, ContractRequests = None, tx_Initiator = [], AuthRequire = [],
      InitiatorSigns = [], AuthRequireSigns = [], ReceivedTimestamp = 0, XuperSign = None, ModifyBlock = None, HDInfo = None\<rparr>"

definition demo_block :: "string \<Rightarrow> string \<Rightarrow> int \<Rightarrow> transaction list \<Rightarrow> block" where
  "demo_block blockid pre height txs =
     \<lparr>blk_Blockid = Some blockid, blk_PreHash = Some pre, blk_Proposer = Some ''M'', blk_Height = height, blk_Transactions = txs\<rparr>"

definition demo_env :: "block list \<Rightarrow> (transaction list, unit) ledger_env" where
  "demo_env blocks =
     \<lparr>led_tx = (\<lambda>txid. find (\<lambda>tx. elems (Txid tx) = txid) (concat (map blk_Transactions blocks))),
      led_block = (\<lambda>blockid. find (\<lambda>blk. elems (blk_Blockid blk) = elems blockid) blocks), led_height = 5,
      led_paths = (\<lambda>old new. None), led_pool = demo_pool, led_verifier = (\<lambda>db. demo_verifier), led_cacheSize = 10\<rparr>"

text \<open>Alice owns the output 0 of the transaction \<open>r\<close>, worth 100.\<close>

definition demo_db :: state_db where
  "demo_db =
     \<lparr>utxoTable = [(GenUtxoKeyWithPrefix (Some ''A'') (Some ''r'') 0, \<lparr>ui_Amount = 100, ui_FrozenHeight = 0\<rparr>)],
      extUtxoTable = [], extUtxoDelTable = [], unconfirmTable = [], db_total = Some 100, db_pointer = Some ''0'', db_irreversible = None\<rparr>"

definition demo_state :: "transaction list state" where
  "demo_state =
     \<lparr>st_db = demo_db, st_utxo = MakeUtxo 10 60 demo_db, st_xm = NewXModel, st_locks = NewSpinLock, st_pool = [], latestBlockid = Some ''0'',
      notifier_height = 0, IrreversibleBlockHeight = 0, IrreversibleSlideWindow = 0, tmp_IrreversibleBlockHeight = 0, batches = 0\<rparr>"

lemma demo_state_sound: "supply_sound demo_state"
  by (simp add: supply_sound_def demo_state_def demo_db_def MakeUtxo_def nonneg_def amounts_of_def coherent_def cached_def NewUtxoCache_def
      tokens_def unpaid_def)

text \<open>The transaction id in a key, by which a new id is recognised.\<close>

definition key_txid :: "string \<Rightarrow> string" where
  "key_txid k = rev (takeWhile (\<lambda>c. c \<noteq> CHR ''_'') (tl (dropWhile (\<lambda>c. c \<noteq> CHR ''_'') (rev k))))"

lemma key_txid_key: "key_txid (GenUtxoKeyWithPrefix addr txid n) = F txid"
proof -
  have "rev (GenUtxoKeyWithPrefix addr txid n) = rev (dec_string n) @ CHR ''_'' # rev (F txid) @ CHR ''_'' # rev (UTXOTablePrefix @ elems addr)"
    by (simp add: GenUtxoKeyWithPrefix_def GenUtxoKey_def)
  moreover have "\<forall>c \<in> set (rev (dec_string n)). c \<noteq> CHR ''_''" "\<forall>c \<in> set (rev (F txid)). c \<noteq> CHR ''_''"
    using digits_no_underscore F_no_underscore by auto
  ultimately show ?thesis by (simp add: key_txid_def takeWhile_append dropWhile_append)
qed

lemma new_txid_table:
  assumes "F (Txid tx) \<notin> set (map (key_txid \<circ> fst) (utxoTable db))"
  shows "new_txid (amounts_of db) tx"
proof -
  have "map_of (utxoTable db) (GenUtxoKeyWithPrefix addr (Txid tx) n) = None" for addr n
  proof (rule ccontr)
    assume "map_of (utxoTable db) (GenUtxoKeyWithPrefix addr (Txid tx) n) \<noteq> None"
    then obtain item where "(GenUtxoKeyWithPrefix addr (Txid tx) n, item) \<in> set (utxoTable db)" using map_of_SomeD by fastforce
    then have "key_txid (GenUtxoKeyWithPrefix addr (Txid tx) n) \<in> set (map (key_txid \<circ> fst) (utxoTable db))" by force
    with assms show False by (simp only: key_txid_key)
  qed
  then show ?thesis by (simp add: new_txid_def amounts_of_def)
qed

text \<open>Alice pays 90 to Bob and 10 to the miner, whose block has an award of 50.\<close>

definition demo_payment :: transaction where
  "demo_payment = demo_tx ''p'' [demo_input ''r'' 0 ''A'' 100] [demo_output ''B'' 90, demo_output FeePlaceholder 10]"

definition demo_award :: transaction where
  "demo_award = (demo_tx ''w'' [] [demo_output ''M'' 50])\<lparr>Coinbase := True\<rparr>"

definition demo_ledger :: "(transaction list, unit) ledger_env" where
  "demo_ledger = demo_env [demo_block ''1'' ''0'' 1 [demo_award, demo_payment]]"

text \<open>The payment is posted already; then the block is mined, and Bob posts a transaction of their own.\<close>

definition waiting_db :: state_db where
  "waiting_db =
     demo_db\<lparr>utxoTable := [(GenUtxoKeyWithPrefix (Some ''B'') (Some ''p'') 0, \<lparr>ui_Amount = 90, ui_FrozenHeight = 0\<rparr>)],
             unconfirmTable := [(''p'', demo_payment)]\<rparr>"

definition waiting_state :: "transaction list state" where
  "waiting_state = demo_state\<lparr>st_db := waiting_db, st_utxo := MakeUtxo 10 60 waiting_db, st_pool := [demo_payment]\<rparr>"

definition demo_transfer :: transaction where
  "demo_transfer = demo_tx ''t'' [demo_input ''p'' 0 ''B'' 90] [demo_output ''C'' 80, demo_output FeePlaceholder 10]"

lemma plain_code: "\<not> is_marked tx \<and> length (TxOutputs tx) < 10 \<and> (Coinbase tx \<longrightarrow> TxInputs tx = [] \<and> fee_sum tx = 0) \<Longrightarrow> plain tx"
  by (simp add: plain_def small_tx_def)

lemma demo_plain_txs: "plain demo_payment" "plain demo_award" "plain demo_transfer"
  by (rule plain_code, code_simp)+

lemma waiting_state_sound: "supply_sound waiting_state"
proof -
  have "fee_sum demo_payment = 10" by code_simp
  then show ?thesis
    by (simp add: supply_sound_def waiting_state_def waiting_db_def demo_state_def demo_db_def MakeUtxo_def nonneg_def amounts_of_def coherent_def cached_def
        NewUtxoCache_def tokens_def unpaid_def)
qed

lemma demo_ledger_block: "led_block demo_ledger (Some ''1'') = Some (demo_block ''1'' ''0'' 1 [demo_award, demo_payment])"
  by (simp add: demo_ledger_def demo_env_def demo_block_def)

lemma demo_mineable: "mineable (demo_block ''1'' ''0'' 1 [demo_award, demo_payment]) waiting_state"
proof -
  have parts: "is_made demo_award" "\<not> is_made demo_payment" "distinct (map (elems \<circ> Txid) [demo_award, demo_payment])"
    "distinct (input_keys (filter is_made [demo_award, demo_payment]))" by code_simp+
  have fees: "map_of (unconfirmTable (st_db waiting_state)) (elems (Txid demo_payment)) = Some demo_payment"
    by (simp add: waiting_state_def waiting_db_def demo_payment_def demo_tx_def)
  have "fresh_fees (demo_block ''1'' ''0'' 1 [demo_award, demo_payment]) (amounts_of (st_db waiting_state)) demo_payment"
    by (simp add: fresh_fees_def fees_of_def feeKey_def demo_block_def amounts_of_def waiting_state_def waiting_db_def)
  moreover have "new_txid (amounts_of (st_db waiting_state)) demo_award"
    by (simp add: new_txid_def amounts_of_def waiting_state_def waiting_db_def demo_award_def demo_tx_def)
  ultimately show ?thesis using parts fees demo_plain_txs by (simp add: mineable_def demo_block_def stored_def)
qed

lemma demo_mined:
  "(case PlayForMiner demo_ledger (Some ''1'') waiting_state of
      (st, e) \<Rightarrow> e = None \<and> F (Txid demo_transfer) \<notin> set (map (key_txid \<circ> fst) (utxoTable (st_db st))) \<and> unconfirmTable (st_db st) = [])"
  by code_simp


section \<open>Playing and undoing a block\<close>


definition award_block :: block where
  "award_block = demo_block ''1'' ''0'' 1 [demo_award]"

definition award_ledger :: "(transaction list, unit) ledger_env" where
  "award_ledger = demo_env [award_block, demo_block ''0'' [] 0 []]"

lemma award_fitting: "fitting award_ledger award_block demo_state"
proof -
  have parts: "blk_Transactions award_block = [demo_award]" "in_pool award_ledger (st_pool demo_state) demo_award = False"
    "FindConflictByTx (led_pool award_ledger) (st_pool demo_state) demo_award = []"
    by (simp_all add: award_block_def demo_block_def award_ledger_def demo_env_def demo_pool_def demo_state_def in_pool_def)
  have "F (Txid demo_award) \<notin> set (map (key_txid \<circ> fst) (utxoTable (st_db demo_state)))" by code_simp
  from new_txid_table [OF this] show ?thesis using parts demo_plain_txs by (simp add: fitting_def)
qed

lemma award_played: "(case PlayAndRepost award_ledger (Some ''1'') False demo_state of
    (st1, e) \<Rightarrow> e = None \<and> snd (procUndoBlkForWalk award_ledger [award_block] {} False st1) = None)"
  by code_simp


section \<open>A rejected block\<close>

text \<open>
  The second transaction of the block spends an output that does not exist, so the block is rejected. The award in it
  is in the cache by then; nothing takes it out.
\<close>

definition missing_input :: transaction where
  "missing_input = (demo_tx ''x'' [demo_input ''n'' 0 ''m'' 9] [])\<lparr>Coinbase := True\<rparr>"

definition rejected_ledger :: "(transaction list, unit) ledger_env" where
  "rejected_ledger = demo_env [demo_block ''1'' ''0'' 1 [demo_award, missing_input]]"

definition phantom_payment :: transaction where
  "phantom_payment = demo_tx ''y'' [demo_input ''w'' 0 ''M'' 50] [demo_output ''z'' 50]"


end
