(* ===== verification/LedgerClaims.thy ===== *)
theory LedgerClaims
  imports LedgerChain LedgerRuns
begin

text \<open>What is shown of the ledger.\<close>

section \<open>The trunk\<close>



text \<open>
  C30. Confirming a new block always ends. It succeeds as a whole, with the block stored one above its parent, every older block
  kept, and the tip moved to it exactly if it is higher than the trunk; or it leaves every table and the meta data as they were.
\<close>

theorem confirm_whole_or_nothing:
  assumes "trunk_run parse l" "fresh_block l blk" "lm_TrunkHeight (lmeta l) < 2 ^ 63 - 1"
  shows "\<exists>l' blk' st. ConfirmBlock parse l blk False kvOk = Some (l', blk', st) \<and>
     (if Succ st then
        \<exists>p. blocksTable (ldb l) (elems (ib_PreHash blk)) = Some p \<and>
          (\<exists>b. blocksTable (ldb l') (elems (ib_Blockid blk)) = Some b \<and> ib_Height b = ib_Height p + 1 \<and> ib_PreHash b = ib_PreHash blk) \<and>
          (\<forall>k. k \<noteq> elems (ib_Blockid blk) \<longrightarrow> map_option core_block (blocksTable (ldb l') k) = map_option core_block (blocksTable (ldb l) k)) \<and>
          lmeta l' = (if ib_Height p + 1 > lm_TrunkHeight (lmeta l)
            then (lmeta l)\<lparr>TipBlockid := ib_Blockid blk, lm_TrunkHeight := ib_Height p + 1\<rparr> else lmeta l)
      else ldb l' = ldb l \<and> lmeta l' = lmeta l)"
proof (cases "blocksTable (ldb l) (elems (ib_PreHash blk))")
  case None
  obtain c st where r: "ConfirmBlock parse l blk False kvOk = Some (l\<lparr>blkHeaderCache := c\<rparr>, blk\<lparr>ib_Transactions := []\<rparr>, st)" "\<not> Succ st"
    using ConfirmBlock_orphan [OF _ None] trunk_run_wf [OF assms(1)] by metis
  show ?thesis by (intro exI [of _ "l\<lparr>blkHeaderCache := c\<rparr>"] exI [of _ "blk\<lparr>ib_Transactions := []\<rparr>"] exI [of _ st]) (simp add: r)
next
  case (Some p)
  have wf: "ledger_wf l" using trunk_run_wf [OF assms(1)] by simp
  then have "ib_Height p \<le> lm_TrunkHeight (lmeta l)" using block_treeD(4) [OF ledger_wfD(2) Some] by blast
  then have top: "ib_Height p = lm_TrunkHeight (lmeta l) \<longleftrightarrow> ib_Height p + 1 > lm_TrunkHeight (lmeta l)" by linarith
  obtain l' blk' st where r: "ConfirmBlock parse l blk False kvOk = Some (l', blk', st)"
      and e: "if Succ st then kvOk \<and> confirmed l p blk l' else ldb l' = ldb l \<and> lmeta l' = lmeta l"
    by (rule ConfirmBlock_step [OF wf assms(3,2) Some])
  show ?thesis
    by (intro exI [of _ l'] exI [of _ blk'] exI [of _ st]) (use r e top Some in \<open>auto simp: confirmed_def Let_def\<close>)
qed

theorem confirm_whole_or_nothing_witness:
  "\<exists>l' blk' st. ConfirmBlock chain_parse chain_abc (chain_block ''d'' ''c'' [chain_tx ''t1'' False]) False True = Some (l', blk', st) \<and> Succ st \<and>
     lmeta l' = (lmeta chain_abc)\<lparr>TipBlockid := Some ''d'', lm_TrunkHeight := 3\<rparr>"
proof -
  define d where "d = chain_block ''d'' ''c'' [chain_tx ''t1'' False]"
  have a: "fresh_block chain_abc d" "case ConfirmBlock chain_parse chain_abc d False True of Some (l, b, st) \<Rightarrow> Succ st | None \<Rightarrow> False"
    unfolding d_def by code_simp+
  have i: "ib_PreHash d = Some ''c''" "ib_Blockid d = Some ''d''" by (simp_all add: d_def chain_block_def)
  obtain c where c: "blocksTable (ldb chain_abc) ''c'' = Some c" "ib_Height c = 2" by (rule chain_viewE [OF chain_abc_at(4)])
  have "lm_TrunkHeight (lmeta chain_abc) < 2 ^ 63 - 1" by (simp add: chain_abc_at(5))
  from confirm_whole_or_nothing [OF chain_abc_run a(1) this, of True] a(2) c i show ?thesis
    unfolding d_def [symmetric] by (auto simp: chain_abc_at(5) split: if_splits)
qed



text \<open>
  C32. When the state machine walks to a block of such a ledger and reports success, its last block is that block.
\<close>

theorem walk_reaches_its_block:
  assumes "trunk_run parse l" "led_paths env = ledger_paths l" "Walk env dest prune st = (st', Inr undone)"
  shows "elems (latestBlockid st') = elems dest"
  using Walk_arrives [OF conjunct1 [OF trunk_run_wf [OF assms(1)]] assms(2,3)] .


definition chain_env :: "(transaction list, unit) ledger_env" where
  "chain_env = (demo_env [])\<lparr>led_paths := ledger_paths chain_abc,
     led_block := (\<lambda>i. case queryBlock (ldb chain_abc) i True of Inr b \<Rightarrow> Some (state_block b) | Inl e \<Rightarrow> None)\<rparr>"

definition chain_state :: "transaction list state" where
  "chain_state = demo_state\<lparr>latestBlockid := Some ''c''\<rparr>"

theorem walk_reaches_its_block_witness:
  "(case Walk chain_env (Some ''a'') False chain_state of (st', Inr undone) \<Rightarrow> elems (latestBlockid st') = ''a'' | _ \<Rightarrow> False)"
proof -
  have w: "case Walk chain_env (Some ''a'') False chain_state of (st', Inr undone) \<Rightarrow> True | _ \<Rightarrow> False" by code_simp
  have "led_paths chain_env = ledger_paths chain_abc" by (simp add: chain_env_def)
  from walk_reaches_its_block [OF chain_abc_run this, of "Some ''a''" False chain_state] w show ?thesis
    by (auto split: prod.splits sum.splits)
qed


section \<open>A refused block leaves its mark\<close>

text \<open>Blocks are confirmed one after the other, refused or not.\<close>

fun feedBlocks :: "ledger \<Rightarrow> internal_block list \<Rightarrow> (bool list \<times> ledger) option" where
  "feedBlocks l [] = Some ([], l)"
| "feedBlocks l (b # bs) =
     (case ConfirmBlock chain_parse l b False True of
        None \<Rightarrow> None
      | Some (l', b', st) \<Rightarrow> map_option (\<lambda>(oks, l''). (Succ st # oks, l'')) (feedBlocks l' bs))"



section \<open>Cutting back\<close>



definition truncateTo :: "ledger \<Rightarrow> string \<Rightarrow> ledger option" where
  "truncateTo l k = (case Truncate l (Some k) True of Some (l', None) \<Rightarrow> Some l' | _ \<Rightarrow> None)"

text \<open>
  Cutting back forgets a branch that ends at the height of the target: it is no longer listed as a branch. A second cut
  leaves its block in the store, above the tip, where no later cut and no later confirmation finds it.
\<close>

theorem truncate_forgets_a_branch:
  "case confirmBlocks chain_r [block_a, block_b, block_c, chain_block ''e'' ''a'' [chain_tx ''t5'' True]] of None \<Rightarrow> False | Some l \<Rightarrow>
     (case truncateTo l ''b'' of None \<Rightarrow> False | Some l1 \<Rightarrow>
        map fst (branchTable (ldb l1)) = [''b''] \<and> map_option ib_Height (blocksTable (ldb l1) ''a'') = Some 1 \<and>
        (case truncateTo l1 ''r'' of None \<Rightarrow> False | Some l2 \<Rightarrow>
           lm_TrunkHeight (lmeta l2) = 0 \<and> blocksTable (ldb l2) ''b'' = None \<and> map_option ib_Height (blocksTable (ldb l2) ''a'') = Some 1 \<and>
           map fst (branchTable (ldb l2)) = [''r'']))"
  by code_simp

section \<open>Pruning\<close>

text \<open>
  C35. The change of branches that the pruning command makes never ends, whenever the block it is to go to is not an ancestor of
  the one it comes from: its second loop goes on with the block that it has just handled.
\<close>

theorem prune_never_ends:
  assumes "trunk_run parse l0" "newLedger parse (ldb l0) bs ts False None = Inr l" "ExistBlock l old" "ExistBlock l new"
    and "\<forall>us. \<not> way (ldb l) (elems old) us (elems new)"
  shows "HandleFork l old new batch = None"
proof -
  have wf: "ledger_wf l" using reopen_wf [OF conjunct1 [OF trunk_run_wf [OF assms(1)]] refl assms(2)] by simp
  have m: "metaTable (ldb l0) = Some (lmeta l0)" using ledger_wfD(1) trunk_run_wf [OF assms(1)] by blast
  have "blocks_cached l" by (rule newLedger_cached [OF m assms(2)])
  then show ?thesis using HandleFork_never [OF wf _ assms(3,4)] assms(5) by blast
qed

theorem prune_never_ends_witness:
  "case newLedger chain_parse (ldb chain_abc) 4 0 False None of
     Inr l \<Rightarrow> ExistBlock l (Some ''c'') \<and> ExistBlock l (Some ''a'') \<and> HandleFork l (Some ''c'') (Some ''a'') [] = None | Inl e \<Rightarrow> False"
proof (cases "newLedger chain_parse (ldb chain_abc) 4 0 False None")
  case (Inl e)
  have "case newLedger chain_parse (ldb chain_abc) 4 0 False None of Inr l \<Rightarrow> True | Inl e \<Rightarrow> False" by code_simp
  then show ?thesis unfolding Inl sum.case .
next
  case (Inr l)
  have wf: "ledger_wf chain_abc" using trunk_run_wf [OF chain_abc_run] by simp
  have l: "ledger_wf l" "ldb l = ldb chain_abc" using reopen_wf [OF wf refl Inr] by simp_all
  have e: "ExistBlock l (Some ''c'')" "ExistBlock l (Some ''a'')"
    using chain_view_Exist [OF chain_abc_at(4)] chain_view_Exist [OF chain_abc_at(2)] l(2) by (simp_all add: ExistBlock_def)
  have "\<forall>us. \<not> way (ldb l) (elems (Some ''c'')) us (elems (Some ''a''))" using chain_abc_apart l(2) by simp
  from prune_never_ends [OF chain_abc_run Inr e this] e show ?thesis unfolding Inr sum.case by blast
qed

end
