(* ===== verification/XposSchedule.thy ===== *)
theory XposSchedule
  imports Kernel Quorum
begin

text \<open>
  The schedule of elected proposers (\<^verbatim>\<open>consensus/xpos/schedule.go\<close>, \<^verbatim>\<open>common.go\<close>): which proposer may make a
  block at which time, and who the proposers are. Times are nanoseconds since 1970, intervals milliseconds. Integers wrap
  around as 64-bit integers do; a sum of products is wrapped once, which is the same as wrapping every step.
\<close>

section \<open>Configuration and ledger\<close>

record xpos_schedule =
  xs_address :: string
  period :: int
  blockNum :: int
  proposerNum :: int
  alternateInterval :: int
  termInterval :: int
  initTimestamp :: int
  enableChainedBFT :: bool
  validators :: "string slice"
  initValidators :: "string slice"
  curTerm :: int
  miner :: string
  startHeight :: int
  consensusName :: string
  consensusVersion :: int
  bindContractBucket :: string

text \<open>
  What the consensus reads of a block. Its storage is built from fields of the block
  (\<open>GetConsensusStorage\<close> in \<^verbatim>\<open>state/block_agent.go\<close>), which does not carry \<open>CurBlockNum\<close>.
\<close>

record block_header =
  bh_Blockid :: bytes
  bh_PreHash :: bytes
  bh_Height :: int
  bh_Timestamp :: int
  bh_Proposer :: string
  bh_TargetBits :: int
  bh_Justify :: "old_quorum_cert option"
  bh_CurTerm :: int

definition GetConsensusStorage :: "block_header \<Rightarrow> consensus_storage" where
  "GetConsensusStorage b = \<lparr>Justify = bh_Justify b, CurTerm = bh_CurTerm b, CurBlockNum = 0, TargetBits = bh_TargetBits b\<rparr>"

text \<open>
  The ledger behind its interface. A snapshot reads the value of a key as it was after a block; \<open>None\<close> inside is a key
  without value, \<open>None\<close> outside an error.
\<close>

record ledger_rely =
  QueryBlockHeader :: "bytes \<Rightarrow> block_header option"
  QueryBlockHeaderByHeight :: "int \<Rightarrow> block_header option"
  QueryTipBlockHeader :: block_header
  CreateSnapshot :: "bytes \<Rightarrow> (string \<Rightarrow> string \<Rightarrow> payload option option) option"

datatype xpos_error =
    ErrInvalidProposer | ErrTimeoutBlock | ErrHeightTooLow | ErrValueNotFound | ErrSchedule | XErrLedger | XErrJson | XErrSmr

text \<open>\<open>XPanic\<close> is a division by zero or an index out of range.\<close>

datatype 'a xres = XOk 'a | XErr xpos_error | XPanic

primrec xbind :: "'a xres \<Rightarrow> ('a \<Rightarrow> 'b xres) \<Rightarrow> 'b xres" where
  "xbind (XOk a) f = f a"
| "xbind (XErr e) f = XErr e"
| "xbind XPanic f = XPanic"

definition xindex :: "'a slice \<Rightarrow> int \<Rightarrow> 'a xres" where
  "xindex xs i = (if 0 \<le> i \<and> i < int (length (elems xs)) then XOk (elems xs ! nat i) else XPanic)"

section \<open>Slots\<close>

definition Millisecond :: int where "Millisecond = 1000000"

definition minerScheduling :: "xpos_schedule \<Rightarrow> int \<Rightarrow> (int \<times> int \<times> int) xres" where
  "minerScheduling s timestamp =
     (if timestamp < initTimestamp s then XOk (0, 0, 0)
      else
        let T = timestamp sdiv Millisecond; initT = initTimestamp s sdiv Millisecond;
            termTime = i64 (termInterval s + (blockNum s - 1) * proposerNum s * period s + (proposerNum s - 1) * alternateInterval s)
        in if termTime = 0 then XPanic
           else
             let term = i64 (i64 (T - initT) sdiv termTime + 1);
                 termBegin = i64 (initT + (term - 1) * termTime + termInterval s - alternateInterval s)
             in if termBegin \<ge> T then XOk (term, 0, - 1)
                else
                  let posTime = i64 (alternateInterval s + period s * (blockNum s - 1))
                  in if posTime = 0 then XPanic
                     else
                       let pos = i64 (i64 (T - termBegin) sdiv posTime);
                           proposerBegin = i64 (termBegin + pos * posTime + alternateInterval s - period s)
                       in if proposerBegin \<ge> T then XOk (term, pos, - 1)
                          else if period s = 0 then XPanic
                          else XOk (term, pos, i64 (i64 (T - proposerBegin) sdiv period s)))"

definition calAddTime :: "xpos_schedule \<Rightarrow> int \<Rightarrow> int \<Rightarrow> int \<Rightarrow> int xres" where
  "calAddTime s now round tipHeight =
     xbind (minerScheduling s now) (\<lambda>(term, nowPos, nowBlockPos).
       if round \<le> tipHeight then XOk 0
       else if nowPos = i64 (proposerNum s - 1) \<and> nowBlockPos = i64 (blockNum s - 1) then XOk (i64 (termInterval s * Millisecond))
       else if nowBlockPos = i64 (blockNum s - 1) then XOk (i64 (alternateInterval s * Millisecond))
       else XOk (i64 (period s * Millisecond)))"

section \<open>Proposers\<close>

record term_ballots =
  tb_Address :: string
  Ballots :: int

text \<open>\<open>Less\<close>: more ballots come first, and among equals the greater address.\<close>

definition tbLess :: "term_ballots \<Rightarrow> term_ballots \<Rightarrow> bool" where
  "tbLess a b = (if Ballots b = Ballots a then tb_Address b < tb_Address a else Ballots b < Ballots a)"

text \<open>\<open>sort.Stable\<close>.\<close>

fun insertStable :: "('a \<Rightarrow> 'a \<Rightarrow> bool) \<Rightarrow> 'a \<Rightarrow> 'a list \<Rightarrow> 'a list" where
  "insertStable lt x [] = [x]"
| "insertStable lt x (y # ys) = (if lt y x then y # insertStable lt x ys else x # y # ys)"

definition sort_Stable :: "('a \<Rightarrow> 'a \<Rightarrow> bool) \<Rightarrow> 'a list \<Rightarrow> 'a list" where
  "sort_Stable lt xs = foldr (insertStable lt) xs []"

definition getSnapshotKey :: "ledger_rely \<Rightarrow> int \<Rightarrow> string \<Rightarrow> string \<Rightarrow> payload option xres" where
  "getSnapshotKey ledger height bucket key =
     (if height \<le> 0 then XErr ErrHeightTooLow
      else case QueryBlockHeaderByHeight ledger height of
        None \<Rightarrow> XErr XErrLedger
      | Some blk \<Rightarrow>
          (case CreateSnapshot ledger (bh_Blockid blk) of
             None \<Rightarrow> XErr XErrLedger
           | Some reader \<Rightarrow> (case reader bucket key of None \<Rightarrow> XErr XErrLedger | Some v \<Rightarrow> XOk v)))"

definition nominateKey :: string where "nominateKey = ''nominate''"
definition voteKeyPrefix :: string where "voteKeyPrefix = ''vote_''"
definition revokeKey :: string where "revokeKey = ''revoke''"

definition xposKey :: "string \<Rightarrow> int \<Rightarrow> string \<Rightarrow> string" where
  "xposKey name n key = name @ ''_'' @ dec_string n @ ''_'' @ key"

text \<open>The loop over the candidates, which the code visits in any order.\<close>

fun candidateBallots :: "xpos_schedule \<Rightarrow> ledger_rely \<Rightarrow> int \<Rightarrow> string list \<Rightarrow> term_ballots list \<Rightarrow> term_ballots list xres" where
  "candidateBallots s ledger height [] acc = XOk acc"
| "candidateBallots s ledger height (candidate # cs) acc =
     xbind (getSnapshotKey ledger height (bindContractBucket s)
              (xposKey (consensusName s) (consensusVersion s) (voteKeyPrefix @ candidate)))
       (\<lambda>res. case res of
          None \<Rightarrow> candidateBallots s ledger height cs acc
        | Some (VoteJson votes) \<Rightarrow>
            (let ballots = i64 (\<Sum>(from, n)\<leftarrow>votes. n)
             in if ballots \<le> 0 then candidateBallots s ledger height cs acc
                else candidateBallots s ledger height cs (acc @ [\<lparr>tb_Address = candidate, Ballots = ballots\<rparr>]))
        | Some _ \<Rightarrow> XErr XErrJson)"

definition calTopKNominator :: "xpos_schedule \<Rightarrow> ledger_rely \<Rightarrow> int \<Rightarrow> string slice xres" where
  "calTopKNominator s ledger height =
     (if height < i64 (startHeight s + 3) then XOk (initValidators s)
      else
        xbind (getSnapshotKey ledger (i64 (height - 3)) (bindContractBucket s)
                 (xposKey (consensusName s) (consensusVersion s) nominateKey))
          (\<lambda>res. case res of
             None \<Rightarrow> XOk (initValidators s)
           | Some (NominateJson nominateValue) \<Rightarrow>
               xbind (candidateBallots s ledger (i64 (height - 3)) (map fst nominateValue) [])
                 (\<lambda>sli. if int (length sli) < proposerNum s then XOk (initValidators s)
                         else XOk (collected (take (nat (proposerNum s)) (map tb_Address (sort_Stable tbLess sli)))))
           | Some _ \<Rightarrow> XErr XErrJson))"

text \<open>Reading the clock is an argument: \<open>now\<close> is the first reading of a call, \<open>later\<close> the second.\<close>

definition CalculateProposers :: "xpos_schedule \<Rightarrow> ledger_rely \<Rightarrow> int \<Rightarrow> int \<Rightarrow> int \<Rightarrow> string slice xres" where
  "CalculateProposers s ledger now later height =
     (if height < i64 (startHeight s + 3) then XOk (initValidators s)
      else
        xbind (calAddTime s now height (bh_Height (QueryTipBlockHeader ledger))) (\<lambda>addTime.
          xbind (minerScheduling s (i64 (later + addTime))) (\<lambda>(inputTerm, pos, blockPos).
            if curTerm s = inputTerm then XOk (validators s) else calTopKNominator s ledger height)))"

definition getTerm :: "ledger_rely \<Rightarrow> int \<Rightarrow> int xres" where
  "getTerm ledger height =
     (case QueryBlockHeaderByHeight ledger height of
        None \<Rightarrow> XErr XErrLedger
      | Some b \<Rightarrow> XOk (CurTerm (GetConsensusStorage b)))"

text \<open>The search; \<open>None\<close> is a search that does not end.\<close>

partial_function (option) binarySearch :: "ledger_rely \<Rightarrow> int \<Rightarrow> int \<Rightarrow> int \<Rightarrow> int xres option" where
  "binarySearch ledger lo hi term =
     (if lo < hi then
        let mid = i64 (lo + i64 (hi - lo) sdiv 2)
        in case getTerm ledger mid of
             XOk midTerm \<Rightarrow>
               (case getTerm ledger (i64 (mid + 1)) of
                  XOk nextMidTerm \<Rightarrow>
                    if midTerm < term \<and> nextMidTerm = term then Some (XOk mid)
                    else if midTerm < term then binarySearch ledger (i64 (mid + 1)) hi term
                    else binarySearch ledger lo mid term
                | XErr e \<Rightarrow> Some (XErr e)
                | XPanic \<Rightarrow> Some XPanic)
           | XErr e \<Rightarrow> Some (XErr e)
           | XPanic \<Rightarrow> Some XPanic
      else Some (XOk lo))"

definition calHisValidators :: "xpos_schedule \<Rightarrow> ledger_rely \<Rightarrow> int \<Rightarrow> string slice xres option" where
  "calHisValidators s ledger height =
     (case QueryBlockHeaderByHeight ledger height of
        None \<Rightarrow> Some (XErr XErrLedger)
      | Some blk \<Rightarrow>
          (case minerScheduling s (bh_Timestamp blk) of
             XOk (term, pos, blockPos) \<Rightarrow>
               (let internal = i64 (pos * blockNum s + blockPos); first = i64 (bh_Height blk - internal - 1);
                    first' = (if first \<le> startHeight s then startHeight s else first)
                in map_option (\<lambda>r. xbind r (calTopKNominator s ledger)) (binarySearch ledger first' (bh_Height blk) term))
           | XErr e \<Rightarrow> Some (XErr e)
           | XPanic \<Rightarrow> Some XPanic))"

definition CalOldProposers :: "xpos_schedule \<Rightarrow> ledger_rely \<Rightarrow> int \<Rightarrow> int \<Rightarrow> consensus_storage option \<Rightarrow> string slice xres option" where
  "CalOldProposers s ledger height timestamp storage =
     (let tipHeight = bh_Height (QueryTipBlockHeader ledger)
      in if height < i64 (startHeight s + 3) then Some (XOk (initValidators s))
         else if tipHeight > height then calHisValidators s ledger height
         else
           case getTerm ledger tipHeight of
             XOk tipTerm \<Rightarrow>
               (case minerScheduling s timestamp of
                  XOk (inputTerm, pos, blockPos) \<Rightarrow>
                    if tipTerm = inputTerm then calHisValidators s ledger tipHeight
                    else
                      let targetHeight = (case storage of
                            None \<Rightarrow> tipHeight
                          | Some justify \<Rightarrow> if enableChainedBFT s \<and> TargetBits justify \<noteq> 0 then TargetBits justify else tipHeight)
                      in Some (calTopKNominator s ledger targetHeight)
                | XErr e \<Rightarrow> Some (XErr e)
                | XPanic \<Rightarrow> Some XPanic)
           | XErr e \<Rightarrow> Some (XErr e)
           | XPanic \<Rightarrow> Some XPanic)"

text \<open>An error becomes \<open>nil\<close>.\<close>

definition GetValidators :: "xpos_schedule \<Rightarrow> ledger_rely \<Rightarrow> int \<Rightarrow> int \<Rightarrow> int \<Rightarrow> string slice xres option" where
  "GetValidators s ledger now later round =
     (let noError = (\<lambda>r. case r of XOk v \<Rightarrow> XOk v | XErr e \<Rightarrow> XOk None | XPanic \<Rightarrow> XPanic)
      in if round < i64 (startHeight s + 3) then Some (XOk (initValidators s))
         else case QueryBlockHeaderByHeight ledger round of
           None \<Rightarrow> Some (noError (CalculateProposers s ledger now later round))
         | Some blk \<Rightarrow>
             map_option noError (CalOldProposers s ledger round (bh_Timestamp blk) (Some (GetConsensusStorage blk))))"

definition GetLeader :: "xpos_schedule \<Rightarrow> ledger_rely \<Rightarrow> int \<Rightarrow> int \<Rightarrow> int \<Rightarrow> int \<Rightarrow> int \<Rightarrow> string xres option" where
  "GetLeader s ledger now1 now2 now3 now4 round =
     (case QueryBlockHeaderByHeight ledger round of
        Some b \<Rightarrow> Some (XOk (bh_Proposer b))
      | None \<Rightarrow>
          map_option
            (\<lambda>r. xbind r (\<lambda>proposers.
               if proposers = None then XOk []
               else
                 xbind (calAddTime s now3 round (bh_Height (QueryTipBlockHeader ledger))) (\<lambda>addTime.
                   xbind (minerScheduling s (i64 (now4 + addTime))) (\<lambda>(term, pos, blockPos).
                     if pos \<ge> proposerNum s then XOk [] else xindex proposers pos))))
            (GetValidators s ledger now1 now2 round))"

definition AddressEqual :: "string slice \<Rightarrow> string slice \<Rightarrow> bool" where
  "AddressEqual a b \<longleftrightarrow> elems a = elems b"

definition UpdateProposers :: "xpos_schedule \<Rightarrow> ledger_rely \<Rightarrow> int \<Rightarrow> int \<Rightarrow> int \<Rightarrow> (xpos_schedule \<times> bool) xres" where
  "UpdateProposers s ledger now later height =
     (if height < i64 (startHeight s + 3) then XOk (s, False)
      else case CalculateProposers s ledger now later height of
        XOk nextProposers \<Rightarrow>
          if elems nextProposers = [] then XOk (s, False)
          else if \<not> AddressEqual nextProposers (validators s) then XOk (s\<lparr>validators := nextProposers\<rparr>, True)
          else XOk (s, False)
      | XErr e \<Rightarrow> XOk (s, False)
      | XPanic \<Rightarrow> XPanic)"

end
