(* ===== verification/XposProofs.thy ===== *)
theory XposProofs
  imports XposSchedule "HOL-Library.Multiset"
begin

text \<open>
  The schedule divides the time into terms, the terms into turns of the proposers and the turns into the times of
  single blocks; every proposer gets its turn in every term. The search for the height at which a term began ends and
  finds it, and the choice of the proposers does not depend on the order in which a node visits the candidates.
\<close>

section \<open>Slots\<close>

text \<open>The length of a term and of a turn, and a configuration for which nothing overflows.\<close>

definition termLen :: "xpos_schedule \<Rightarrow> int" where
  "termLen s = termInterval s + (blockNum s - 1) * proposerNum s * period s + (proposerNum s - 1) * alternateInterval s"

definition posLen :: "xpos_schedule \<Rightarrow> int" where
  "posLen s = alternateInterval s + period s * (blockNum s - 1)"

definition well_configured :: "xpos_schedule \<Rightarrow> bool" where
  "well_configured s \<longleftrightarrow> 0 < period s \<and> period s \<le> alternateInterval s \<and> alternateInterval s \<le> termInterval s \<and>
     0 < blockNum s \<and> 0 < proposerNum s \<and> 0 \<le> initTimestamp s \<and> termLen s < 2 ^ 62"

text \<open>The time at which the turn of a proposer begins, in milliseconds.\<close>

definition turnBegin :: "xpos_schedule \<Rightarrow> int \<Rightarrow> int \<Rightarrow> int" where
  "turnBegin s term pos = initTimestamp s div Millisecond + (term - 1) * termLen s + termInterval s - alternateInterval s + pos * posLen s"

lemma termLen_posLen: "termLen s = termInterval s - alternateInterval s + proposerNum s * posLen s"
  by (simp add: termLen_def posLen_def algebra_simps)

lemma well_configured_lengths:
  assumes "well_configured s"
  shows "0 < posLen s" "posLen s \<le> termLen s" "0 < termLen s" "termInterval s \<le> termLen s" "0 \<le> termInterval s - alternateInterval s"
    "posLen s = alternateInterval s - period s + blockNum s * period s"
proof -
  have c: "0 < period s" "period s \<le> alternateInterval s" "alternateInterval s \<le> termInterval s" "0 < blockNum s" "0 < proposerNum s"
    using assms by (simp_all add: well_configured_def)
  have "0 \<le> period s * (blockNum s - 1)" using c by simp
  then show pos: "0 < posLen s" unfolding posLen_def using c by linarith
  have "posLen s \<le> proposerNum s * posLen s" using c pos by simp
  then show "posLen s \<le> termLen s" unfolding termLen_posLen using c by linarith
  with pos show "0 < termLen s" by simp
  show "0 \<le> termInterval s - alternateInterval s" using c by simp
  have "0 \<le> (blockNum s - 1) * proposerNum s * period s" "0 \<le> (proposerNum s - 1) * alternateInterval s" using c by simp_all
  then show "termInterval s \<le> termLen s" unfolding termLen_def by linarith
  show "posLen s = alternateInterval s - period s + blockNum s * period s" by (simp add: posLen_def algebra_simps)
qed

text \<open>The slot of a time in milliseconds, without wrap-around.\<close>

definition slot :: "xpos_schedule \<Rightarrow> int \<Rightarrow> int \<times> int \<times> int" where
  "slot s T =
     (let term = (T - initTimestamp s div Millisecond) div termLen s + 1; pos = (T - turnBegin s term 0) div posLen s;
          proposerBegin = turnBegin s term pos + alternateInterval s - period s
      in if turnBegin s term 0 \<ge> T then (term, 0, - 1)
         else if proposerBegin \<ge> T then (term, pos, - 1)
         else (term, pos, (T - proposerBegin) div period s))"

lemma sdiv_nonneg: "0 \<le> a \<Longrightarrow> 0 < (b :: int) \<Longrightarrow> a sdiv b = a div b"
  by (simp add: signed_divide_int_def sgn_if)

lemma div_times_le: "0 < (b :: int) \<Longrightarrow> 0 \<le> a \<Longrightarrow> 0 \<le> (a div b) * b \<and> (a div b) * b \<le> a"
  by (simp add: pos_imp_zdiv_nonneg_iff mult.commute [of _ b]) (metis minus_mod_eq_mult_div diff_le_eq le_add_same_cancel1 pos_mod_sign)

lemma div_le_self: "0 < (b :: int) \<Longrightarrow> 0 \<le> a \<Longrightarrow> 0 \<le> a div b \<and> a div b \<le> a"
  by (simp add: pos_imp_zdiv_nonneg_iff int_div_less_self zdiv_mono2 [of a 1 b, simplified])

lemma i64_bounded: "- (2 ^ 63) \<le> x \<Longrightarrow> x < 2 ^ 63 \<Longrightarrow> i64 x = x"
  by (rule i64_id) (simp add: in_i64_def)

lemma minerScheduling_slot:
  assumes "well_configured s" "initTimestamp s \<le> ts" "ts < 2 ^ 63"
  shows "minerScheduling s ts = XOk (slot s (ts div Millisecond))"
proof -
  note len = well_configured_lengths [OF assms(1)]
  have c: "0 < period s" "0 \<le> initTimestamp s" "termLen s < 2 ^ 62" "period s \<le> alternateInterval s" "alternateInterval s \<le> termInterval s"
    using assms(1) by (simp_all add: well_configured_def)
  have pw: "(2 :: int) ^ 44 + 2 ^ 62 < 2 ^ 63" by simp
  define T where "T = ts div Millisecond"
  define I where "I = initTimestamp s div Millisecond"
  define tm where "tm = (T - I) div termLen s + 1"
  define tb where "tb = turnBegin s tm 0"
  define pos where "pos = (T - tb) div posLen s"
  define pb where "pb = tb + pos * posLen s + alternateInterval s - period s"
  have T: "0 \<le> I" "I \<le> T" "T < 2 ^ 44"
    using assms(2,3) c(2) by (simp_all add: T_def I_def Millisecond_def zdiv_mono1 pos_imp_zdiv_nonneg_iff)
  have "ts sdiv Millisecond = T" "initTimestamp s sdiv Millisecond = I"
    using assms(2) c(2) by (simp_all add: sdiv_nonneg T_def I_def Millisecond_def)
  moreover have "i64 (termLen s) = termLen s" using len(3) c(3) by (intro i64_bounded) simp_all
  moreover have d: "i64 (T - I) = T - I" using T by (intro i64_bounded) simp_all
  moreover have q: "0 \<le> (T - I) div termLen s \<and> (T - I) div termLen s \<le> T - I" "0 \<le> (tm - 1) * termLen s \<and> (tm - 1) * termLen s \<le> T - I"
    using div_le_self [OF len(3)] div_times_le [OF len(3)] T by (simp_all add: tm_def)
  then have "i64 ((T - I) div termLen s + 1) = tm" using T by (subst i64_bounded) (simp_all add: tm_def)
  moreover have tb_eq: "tb = I + (tm - 1) * termLen s + termInterval s - alternateInterval s" by (simp add: tb_def turnBegin_def I_def)
  have tb: "0 \<le> tb" "tb < 2 ^ 63" using q(2) T len(3-5) c pw unfolding tb_eq by linarith+
  then have "i64 (I + (tm - 1) * termLen s + termInterval s - alternateInterval s) = tb" unfolding tb_eq by (intro i64_bounded) simp_all
  moreover have "i64 (posLen s) = posLen s" using len(1,2) c(3) by (intro i64_bounded) simp_all
  moreover have "i64 (i64 (T - tb) sdiv posLen s) = pos \<and> i64 pb = pb \<and> (pb < T \<longrightarrow> i64 (i64 (T - pb) sdiv period s) = (T - pb) div period s)" if "tb < T"
  proof -
    have p: "0 \<le> pos \<and> pos \<le> T - tb" "0 \<le> pos * posLen s \<and> pos * posLen s \<le> T - tb"
      using div_le_self [OF len(1)] div_times_le [OF len(1)] that by (simp_all add: pos_def)
    have "i64 (T - tb) = T - tb" using that T tb by (intro i64_bounded) simp_all
    then have "i64 (i64 (T - tb) sdiv posLen s) = pos"
      using p(1) that tb T len(1) by (simp add: sdiv_nonneg pos_def [symmetric]) (intro i64_bounded, simp_all)
    moreover have pb: "0 \<le> pb" "pb < 2 ^ 63" using p(2) tb(1) T c len(3,4) pw unfolding pb_def by linarith+
    moreover have "i64 (i64 (T - pb) sdiv period s) = (T - pb) div period s" if "pb < T"
    proof -
      have "i64 (T - pb) = T - pb" using that T pb by (intro i64_bounded) simp_all
      then show ?thesis using div_le_self [OF c(1), of "T - pb"] that T pb by (simp add: sdiv_nonneg c(1)) (intro i64_bounded, simp_all)
    qed
    ultimately show ?thesis by (simp add: i64_bounded)
  qed
  moreover have "slot s T = (if tb \<ge> T then (tm, 0, - 1) else if pb \<ge> T then (tm, pos, - 1) else (tm, pos, (T - pb) div period s))"
    by (simp add: slot_def Let_def tb_def pb_def pos_def tm_def I_def turnBegin_def)
  ultimately show ?thesis
    using assms(2) len(1,3) c(1) T
    by (simp add: minerScheduling_def Let_def termLen_def [symmetric] posLen_def [symmetric] sdiv_nonneg T_def [symmetric] pb_def [symmetric])
qed

lemma turnBegin_pos: "turnBegin s tm pos = turnBegin s tm 0 + pos * posLen s"
  by (simp add: turnBegin_def)

lemma slot_range:
  assumes "well_configured s" "initTimestamp s div Millisecond \<le> T" "slot s T = (tm, pos, bp)"
  shows "1 \<le> tm" "0 \<le> pos" "pos < proposerNum s" "- 1 \<le> bp" "bp < blockNum s"
    "0 \<le> bp \<Longrightarrow> turnBegin s tm pos + alternateInterval s - period s < T \<and>
       turnBegin s tm pos + alternateInterval s - period s + bp * period s \<le> T \<and>
       T < turnBegin s tm pos + alternateInterval s - period s + (bp + 1) * period s"
proof -
  note len = well_configured_lengths [OF assms(1)]
  have c: "0 < period s" "0 < blockNum s" "0 < proposerNum s" "period s \<le> alternateInterval s" using assms(1) by (simp_all add: well_configured_def)
  define I where "I = initTimestamp s div Millisecond"
  define r where "r = (T - I) mod termLen s"
  define t where "t = (T - I) div termLen s + 1"
  define p where "p = (T - turnBegin s t 0) div posLen s"
  define q where "q = (T - turnBegin s t 0) mod posLen s"
  define pb where "pb = turnBegin s t p + alternateInterval s - period s"
  have r: "0 \<le> r" "r < termLen s" "T - I = (t - 1) * termLen s + r"
    using len(3) by (simp_all add: r_def t_def)
  have tb: "T - turnBegin s t 0 = r - (termInterval s - alternateInterval s)" using r(3) by (simp add: turnBegin_def I_def)
  have t1: "1 \<le> t" using assms(2) len(3) by (simp add: t_def I_def pos_imp_zdiv_nonneg_iff)
  have q: "0 \<le> q" "q < posLen s" "T - turnBegin s t 0 = p * posLen s + q" using len(1) by (simp_all add: q_def p_def)
  have pn: "0 \<le> p" "p < proposerNum s" if "turnBegin s t 0 < T"
  proof -
    show "0 \<le> p" using that len(1) by (simp add: p_def pos_imp_zdiv_nonneg_iff)
    have "T - turnBegin s t 0 < proposerNum s * posLen s" using tb r(2) by (simp add: termLen_posLen)
    then have "p * posLen s < proposerNum s * posLen s" using q by linarith
    then show "p < proposerNum s" using len(1) by simp
  qed
  have pb: "T - pb = q - (alternateInterval s - period s)" using q(3) by (simp add: pb_def turnBegin_pos [of s t p])
  have bn: "0 \<le> (T - pb) div period s" "(T - pb) div period s < blockNum s" if "pb < T"
  proof -
    show "0 \<le> (T - pb) div period s" using that c(1) by (simp add: pos_imp_zdiv_nonneg_iff)
    have "T - pb < blockNum s * period s" using pb q(2) len(6) by simp
    moreover have "T - pb = (T - pb) div period s * period s + (T - pb) mod period s" "0 \<le> (T - pb) mod period s" using c(1) by simp_all
    ultimately have "(T - pb) div period s * period s < blockNum s * period s" by linarith
    then show "(T - pb) div period s < blockNum s" using c(1) by simp
  qed
  have sl: "slot s T = (if turnBegin s t 0 \<ge> T then (t, 0, - 1) else if pb \<ge> T then (t, p, - 1) else (t, p, (T - pb) div period s))"
    by (simp add: slot_def Let_def t_def I_def p_def pb_def)
  show "1 \<le> tm" "0 \<le> pos" "pos < proposerNum s" "- 1 \<le> bp" "bp < blockNum s"
    using assms(3) t1 pn bn c(2,3) unfolding sl by (auto split: if_splits)
  assume "0 \<le> bp"
  then have eqs: "tm = t" "pos = p" "bp = (T - pb) div period s" "pb < T" using assms(3) unfolding sl by (auto split: if_splits)
  have "T - pb = bp * period s + (T - pb) mod period s" "0 \<le> (T - pb) mod period s" "(T - pb) mod period s < period s"
    using c(1) by (simp_all add: eqs(3))
  then have "pb + bp * period s \<le> T \<and> T < pb + (bp + 1) * period s" by (simp add: algebra_simps)
  with eqs show "turnBegin s tm pos + alternateInterval s - period s < T \<and>
       turnBegin s tm pos + alternateInterval s - period s + bp * period s \<le> T \<and>
       T < turnBegin s tm pos + alternateInterval s - period s + (bp + 1) * period s" by (simp add: pb_def)
qed

lemma slot_of_time:
  assumes "well_configured s" "1 \<le> tm" "0 \<le> pos" "pos < proposerNum s" "0 \<le> bp" "bp < blockNum s"
    and "turnBegin s tm pos + alternateInterval s - period s < T"
    and "turnBegin s tm pos + alternateInterval s - period s + bp * period s \<le> T"
    and "T < turnBegin s tm pos + alternateInterval s - period s + (bp + 1) * period s"
  shows "slot s T = (tm, pos, bp)" "initTimestamp s div Millisecond \<le> T"
proof -
  note len = well_configured_lengths [OF assms(1)]
  have c: "0 < period s" "0 < blockNum s" "0 < proposerNum s" "period s \<le> alternateInterval s" using assms(1) by (simp_all add: well_configured_def)
  define I where "I = initTimestamp s div Millisecond"
  define pb where "pb = turnBegin s tm pos + alternateInterval s - period s"
  define y where "y = T - pb - bp * period s"
  have y: "0 \<le> y" "y < period s" using assms(8,9) by (simp_all add: y_def pb_def algebra_simps)
  have "bp * period s + period s \<le> blockNum s * period s"
    using mult_right_mono [of "bp + 1" "blockNum s" "period s"] assms(6) c(1) by (simp add: algebra_simps)
  then have inpos: "T - turnBegin s tm pos < posLen s" "0 \<le> T - turnBegin s tm pos"
    using y assms(5,7) c len(6) by (simp_all add: y_def pb_def)
  have "pos * posLen s + posLen s \<le> proposerNum s * posLen s"
    using mult_right_mono [of "pos + 1" "proposerNum s" "posLen s"] assms(4) len(1) by (simp add: algebra_simps)
  moreover have "0 \<le> pos * posLen s" using assms(3) len(1) by simp
  ultimately have interm: "T - turnBegin s tm 0 < proposerNum s * posLen s" "0 \<le> T - turnBegin s tm 0"
    using inpos by (simp_all add: turnBegin_pos [of s tm pos])
  have t: "(T - I) div termLen s = tm - 1"
  proof (rule int_div_pos_eq)
    show "T - I = termLen s * (tm - 1) + (T - turnBegin s tm 0 + (termInterval s - alternateInterval s))" by (simp add: turnBegin_def I_def algebra_simps)
    show "0 \<le> T - turnBegin s tm 0 + (termInterval s - alternateInterval s)" using interm len(5) by simp
    show "T - turnBegin s tm 0 + (termInterval s - alternateInterval s) < termLen s" using interm by (simp add: termLen_posLen)
  qed
  have p: "(T - turnBegin s tm 0) div posLen s = pos"
    by (rule int_div_pos_eq [of _ _ _ "T - turnBegin s tm pos"]) (use inpos in \<open>simp_all add: turnBegin_pos [of s tm pos] mult.commute\<close>)
  have b: "(T - pb) div period s = bp"
    by (rule int_div_pos_eq [of _ _ _ y]) (use y in \<open>simp_all add: y_def mult.commute\<close>)
  have before: "turnBegin s tm 0 < T" "pb < T"
    using assms(7) c(4) \<open>0 \<le> pos * posLen s\<close> by (simp_all add: pb_def turnBegin_pos [of s tm pos])
  show "slot s T = (tm, pos, bp)" using t p b before by (simp add: slot_def Let_def I_def [symmetric] pb_def [symmetric])
  have "0 \<le> (tm - 1) * termLen s" using assms(2) len(3) by simp
  then show "initTimestamp s div Millisecond \<le> T" using before(1) len(5) by (simp add: turnBegin_def)
qed


text \<open>
  C38. With the intervals ordered as the comment of the schedule asks, every time from the start of the chain on has a slot:
  a term from 1 on, a proposer below the number of proposers, and either no block (-1) or a block below the number of
  blocks of a turn, whose time lies in the interval of that block in that turn. No index is out of range, nothing overflows
  and nothing is divided by zero.
\<close>

theorem minerScheduling_bounds:
  assumes "well_configured s" "initTimestamp s \<le> ts" "ts < 2 ^ 63"
  shows "\<exists>tm pos bp. minerScheduling s ts = XOk (tm, pos, bp) \<and> 1 \<le> tm \<and> 0 \<le> pos \<and> pos < proposerNum s \<and> - 1 \<le> bp \<and> bp < blockNum s \<and>
     (0 \<le> bp \<longrightarrow>
        turnBegin s tm pos + alternateInterval s - period s + bp * period s \<le> ts div Millisecond \<and>
        ts div Millisecond < turnBegin s tm pos + alternateInterval s - period s + (bp + 1) * period s)"
proof -
  obtain tm pos bp where sl: "slot s (ts div Millisecond) = (tm, pos, bp)" by (metis prod_cases3)
  have "initTimestamp s div Millisecond \<le> ts div Millisecond" using assms(2) by (simp add: Millisecond_def zdiv_mono1)
  note range = slot_range [OF assms(1) this sl]
  show ?thesis using minerScheduling_slot [OF assms] range sl by (intro exI [of _ tm] exI [of _ pos] exI [of _ bp]) simp
qed

text \<open>A schedule of three proposers with two blocks each.\<close>

definition demo_schedule :: xpos_schedule where
  "demo_schedule = \<lparr>xs_address = ''b'', period = 3000, blockNum = 2, proposerNum = 3, alternateInterval = 3000, termInterval = 6000,
     initTimestamp = 1559021720000000000, enableChainedBFT = False, validators = Some [''a'', ''b'', ''c''],
     initValidators = Some [''a'', ''b'', ''c''], curTerm = 1, miner = ''a'', startHeight = 1, consensusName = ''pos'',
     consensusVersion = 0, bindContractBucket = ''$pos''\<rparr>"

lemma demo_schedule_ok: "well_configured demo_schedule" by (simp add: well_configured_def demo_schedule_def termLen_def)

theorem minerScheduling_bounds_witness:
  "\<exists>tm pos bp. minerScheduling demo_schedule 1559021735500000000 = XOk (tm, pos, bp) \<and> pos < 3 \<and> bp < 2"
  using minerScheduling_bounds [OF demo_schedule_ok, of 1559021735500000000] by (auto simp: demo_schedule_def)

lemma slot_term_start:
  assumes "well_configured s" "slot s T = (tm, pos, bp)"
  shows "initTimestamp s div Millisecond + (tm - 1) * termLen s \<le> T" "T < initTimestamp s div Millisecond + tm * termLen s"
proof -
  note len = well_configured_lengths [OF assms(1)]
  have "tm = (T - initTimestamp s div Millisecond) div termLen s + 1" using assms(2) by (auto simp: slot_def Let_def split: if_splits)
  then have "T - initTimestamp s div Millisecond = (tm - 1) * termLen s + (T - initTimestamp s div Millisecond) mod termLen s" by simp
  moreover have "(tm - 1) * termLen s = tm * termLen s - termLen s" by (simp add: algebra_simps)
  ultimately show "initTimestamp s div Millisecond + (tm - 1) * termLen s \<le> T" "T < initTimestamp s div Millisecond + tm * termLen s"
    using pos_mod_sign [OF len(3), of "T - initTimestamp s div Millisecond"] pos_mod_bound [OF len(3), of "T - initTimestamp s div Millisecond"] by linarith+
qed

text \<open>
  C36. No proposer is passed over. From any time on, in the term that follows, every proposer has a time for every block of
  its turn, and that time comes within the length of two terms.
\<close>

theorem every_proposer_gets_its_turn:
  assumes "well_configured s" "1 < period s" "initTimestamp s \<le> ts" "ts + 2 * termLen s * Millisecond < 2 ^ 63"
    and "0 \<le> pos" "pos < proposerNum s" "0 \<le> bp" "bp < blockNum s"
  shows "\<exists>tm p b ts'. minerScheduling s ts = XOk (tm, p, b) \<and> minerScheduling s ts' = XOk (tm + 1, pos, bp) \<and>
     ts < ts' \<and> ts' < ts + 2 * termLen s * Millisecond"
proof -
  note len = well_configured_lengths [OF assms(1)]
  define T where "T = ts div Millisecond"
  define I where "I = initTimestamp s div Millisecond"
  obtain tm p b where sl: "slot s T = (tm, p, b)" by (metis prod_cases3)
  have I: "I \<le> T" using assms(3) by (simp add: T_def I_def Millisecond_def zdiv_mono1)
  note range = slot_range [OF assms(1) I [unfolded I_def] sl]
  have start: "I + (tm - 1) * termLen s \<le> T" "T < I + tm * termLen s" using slot_term_start [OF assms(1) sl] by (simp_all add: I_def)
  define T' where "T' = turnBegin s (tm + 1) pos + alternateInterval s - period s + (bp + 1) * period s - 1"
  have bp0: "0 \<le> bp * period s" using assms(2,7) by simp
  have sl': "slot s T' = (tm + 1, pos, bp)" "I \<le> T'"
    using slot_of_time [OF assms(1), of "tm + 1" pos bp T'] range(1) assms(2,5-8) bp0 by (simp_all add: T'_def I_def algebra_simps)
  have e: "(tm - 1) * termLen s = tm * termLen s - termLen s" "(tm + 1) * termLen s = tm * termLen s + termLen s" by (simp_all add: algebra_simps)
  have end': "I + tm * termLen s \<le> T'" "T' < I + (tm + 1) * termLen s"
    using slot_term_start [OF assms(1) sl'(1)] by (simp_all add: I_def)
  have lt: "T + 1 \<le> T'" "T' \<le> T + 2 * termLen s - 1" using end' start unfolding e by simp_all
  have ts: "T * Millisecond \<le> ts" "ts < (T + 1) * Millisecond" by (simp_all add: T_def Millisecond_def)
  have "(T + 1) * Millisecond \<le> T' * Millisecond" "T' * Millisecond \<le> (T + 2 * termLen s - 1) * Millisecond"
    using lt by (intro mult_right_mono; simp add: Millisecond_def)+
  moreover have "(T + 2 * termLen s - 1) * Millisecond = T * Millisecond + 2 * termLen s * Millisecond - Millisecond" by (simp add: algebra_simps)
  ultimately have between: "ts < T' * Millisecond" "T' * Millisecond < ts + 2 * termLen s * Millisecond"
    using ts by (simp_all add: Millisecond_def)
  have here: "minerScheduling s ts = XOk (tm, p, b)"
    using minerScheduling_slot [OF assms(1,3)] assms(4) between sl by (simp add: T_def)
  have "minerScheduling s (T' * Millisecond) = XOk (tm + 1, pos, bp)"
    using minerScheduling_slot [OF assms(1), of "T' * Millisecond"] assms(3,4) between sl' by (simp add: Millisecond_def)
  with here between show ?thesis by blast
qed

theorem every_proposer_gets_its_turn_witness:
  "\<exists>tm p b ts'. minerScheduling demo_schedule 1559021735500000000 = XOk (tm, p, b) \<and> minerScheduling demo_schedule ts' = XOk (tm + 1, 2, 1)"
  using every_proposer_gets_its_turn [OF demo_schedule_ok, of 1559021735500000000 2 1]
  by (auto simp: demo_schedule_def termLen_def Millisecond_def)


section \<open>Where a term began\<close>

lemma binarySearch_finds:
  assumes "0 \<le> lo" "lo \<le> hi" "hi < 2 ^ 62"
    and terms: "\<And>h. lo \<le> h \<Longrightarrow> h \<le> hi \<Longrightarrow> getTerm ledger h = XOk (t h)"
    and mono: "\<And>h h'. lo \<le> h \<Longrightarrow> h \<le> h' \<Longrightarrow> h' \<le> hi \<Longrightarrow> t h \<le> t h'"
    and last: "t hi = tm"
  shows "\<exists>h. binarySearch ledger lo hi tm = Some (XOk h) \<and> lo \<le> h \<and> h \<le> hi \<and>
     (t lo = tm \<longrightarrow> h = lo) \<and> (t lo < tm \<longrightarrow> h < hi \<and> t h < tm \<and> t (h + 1) = tm)"
  using assms
proof (induction "nat (hi - lo)" arbitrary: lo hi rule: less_induct)
  case less
  note mono' = less.prems(5) and terms' = less.prems(4)
  have lohi: "t lo \<le> tm" using mono' [of lo hi] less.prems(2,6) by simp
  show ?case
  proof (cases "lo < hi")
    case False
    then show ?thesis using less.prems(2,6) by (subst binarySearch.simps) simp
  next
    case True
    define mid where "mid = lo + (hi - lo) div 2"
    have mid: "lo \<le> mid" "mid < hi" using True by (simp_all add: mid_def)
    have wrap: "i64 (lo + i64 (hi - lo) sdiv 2) = mid" "i64 (mid + 1) = mid + 1"
      using less.prems(1,3) True mid by (simp_all add: i64_bounded sdiv_nonneg mid_def [symmetric])
    have got: "getTerm ledger mid = XOk (t mid)" "getTerm ledger (mid + 1) = XOk (t (mid + 1))" using terms' mid by simp_all
    have step: "binarySearch ledger lo hi tm =
        (if t mid < tm \<and> t (mid + 1) = tm then Some (XOk mid)
         else if t mid < tm then binarySearch ledger (mid + 1) hi tm else binarySearch ledger lo mid tm)"
      using True by (subst binarySearch.simps) (simp add: Let_def wrap got)
    have le: "t lo \<le> t mid" "t (mid + 1) \<le> tm" "t mid \<le> tm" 
      using mono' [of lo mid] mono' [of "mid + 1" hi] mono' [of mid hi] mid less.prems(6) by simp_all
    consider (found) "t mid < tm" "t (mid + 1) = tm" | (right) "t mid < tm" "t (mid + 1) < tm" | (left) "t mid = tm" using le by linarith
    then show ?thesis
    proof cases
      case found
      then show ?thesis using step mid le by auto
    next
      case right
      have "\<exists>h. binarySearch ledger (mid + 1) hi tm = Some (XOk h) \<and> mid + 1 \<le> h \<and> h \<le> hi \<and>
          (t (mid + 1) = tm \<longrightarrow> h = mid + 1) \<and> (t (mid + 1) < tm \<longrightarrow> h < hi \<and> t h < tm \<and> t (h + 1) = tm)"
        by (rule less.hyps) (use less.prems(1,3,6) mid terms' mono' in auto)
      then show ?thesis using step right le mid by auto
    next
      case left
      have "\<exists>h. binarySearch ledger lo mid tm = Some (XOk h) \<and> lo \<le> h \<and> h \<le> mid \<and>
          (t lo = tm \<longrightarrow> h = lo) \<and> (t lo < tm \<longrightarrow> h < mid \<and> t h < tm \<and> t (h + 1) = tm)"
        by (rule less.hyps) (use less.prems(1,3,6) mid terms' mono' left in auto)
      then show ?thesis using step left mid by auto
    qed
  qed
qed


text \<open>
  A chain whose blocks carry the term of their time, are made in a slot, and one after the other in later slots.
\<close>

definition slotIndex :: "xpos_schedule \<Rightarrow> block_header \<Rightarrow> int" where
  "slotIndex s b = (case minerScheduling s (bh_Timestamp b) of XOk (tm, pos, bp) \<Rightarrow> pos * blockNum s + bp | _ \<Rightarrow> 0)"

definition in_slot :: "xpos_schedule \<Rightarrow> block_header \<Rightarrow> bool" where
  "in_slot s b = (case minerScheduling s (bh_Timestamp b) of
     XOk (tm, pos, bp) \<Rightarrow> tm = bh_CurTerm b \<and> 0 \<le> pos \<and> pos < proposerNum s \<and> 0 \<le> bp \<and> bp < blockNum s | _ \<Rightarrow> False)"

definition later_slot :: "xpos_schedule \<Rightarrow> block_header \<Rightarrow> block_header \<Rightarrow> bool" where
  "later_slot s a b \<longleftrightarrow> bh_CurTerm a < bh_CurTerm b \<or> bh_CurTerm a = bh_CurTerm b \<and> slotIndex s a < slotIndex s b"

definition regular_chain :: "xpos_schedule \<Rightarrow> (int \<Rightarrow> block_header) \<Rightarrow> int \<Rightarrow> bool" where
  "regular_chain s blk tip \<longleftrightarrow> (\<forall>h \<in> {startHeight s..tip}. bh_Height (blk h) = h \<and> in_slot s (blk h) \<and>
     (h < tip \<longrightarrow> later_slot s (blk h) (blk (h + 1))))"

lemma slots_fit:
  assumes "well_configured s" "0 \<le> pos" "pos < proposerNum s" "0 \<le> bp" "bp < blockNum s"
  shows "0 \<le> pos * blockNum s + bp" "pos * blockNum s + bp < 2 ^ 62"
proof -
  have c: "0 < period s" "period s \<le> alternateInterval s" "alternateInterval s \<le> termInterval s" "0 < blockNum s" "0 < proposerNum s" "termLen s < 2 ^ 62"
    using assms(1) by (simp_all add: well_configured_def)
  show "0 \<le> pos * blockNum s + bp" using assms by simp
  have "(pos + 1) * blockNum s \<le> proposerNum s * blockNum s" using assms(3) c(4) by (intro mult_right_mono) simp_all
  then have lt: "pos * blockNum s + bp < proposerNum s * blockNum s" using assms(5) by (simp add: algebra_simps)
  define A B where "A = (blockNum s - 1) * proposerNum s * period s" and "B = (proposerNum s - 1) * alternateInterval s"
  have "(blockNum s - 1) * proposerNum s * 1 \<le> A" unfolding A_def using c by (intro mult_left_mono) simp_all
  then have A: "proposerNum s * blockNum s - proposerNum s \<le> A" by (simp add: algebra_simps)
  have "(proposerNum s - 1) * 1 \<le> B" unfolding B_def using c by (intro mult_left_mono) simp_all
  then have "proposerNum s - 1 \<le> B" by simp
  moreover have "termInterval s + A + B < 2 ^ 62" using c(6) by (simp add: termLen_def A_def B_def)
  ultimately show "pos * blockNum s + bp < 2 ^ 62" using c(1-3) A lt by simp
qed

lemma regular_mono:
  assumes "regular_chain s blk tip" "startHeight s \<le> h" "h \<le> h'" "h' \<le> tip"
  shows "bh_CurTerm (blk h) \<le> bh_CurTerm (blk h') \<and> (bh_CurTerm (blk h) = bh_CurTerm (blk h') \<longrightarrow> slotIndex s (blk h) + (h' - h) \<le> slotIndex s (blk h'))"
  using assms(3,4)
proof (induction h' rule: int_ge_induct)
  case base
  then show ?case by simp
next
  case (step i)
  then have "later_slot s (blk i) (blk (i + 1))" using assms(1,2) by (simp add: regular_chain_def)
  then show ?case using step by (auto simp: later_slot_def)
qed

text \<open>The height from which the search starts is before the term, or the first height of this consensus.\<close>

lemma search_start:
  assumes "well_configured s" "regular_chain s blk tip" "startHeight s < h" "h \<le> tip" "0 \<le> startHeight s" "tip < 2 ^ 62"
    and "minerScheduling s (bh_Timestamp (blk h)) = XOk (tm, pos, bp)"
  defines "first \<equiv> i64 (h - i64 (pos * blockNum s + bp) - 1)"
  defines "lo \<equiv> (if first \<le> startHeight s then startHeight s else first)"
  shows "tm = bh_CurTerm (blk h)" "startHeight s \<le> lo" "lo \<le> h" "lo = startHeight s \<or> bh_CurTerm (blk lo) < tm"
proof -
  have inslot: "in_slot s (blk h)" using assms(2-4) by (simp add: regular_chain_def)
  have slot: "tm = bh_CurTerm (blk h)" "0 \<le> pos" "pos < proposerNum s" "0 \<le> bp" "bp < blockNum s"
    using inslot assms(7) by (simp_all add: in_slot_def)
  show "tm = bh_CurTerm (blk h)" by (rule slot(1))
  define n where "n = pos * blockNum s + bp"
  have n: "0 \<le> n" "n < 2 ^ 62" unfolding n_def using slots_fit [OF assms(1) slot(2-5)] by simp_all
  have first: "first = h - n - 1" using n assms(3-6) by (simp add: first_def i64_bounded n_def [symmetric])
  show lo_le: "startHeight s \<le> lo" "lo \<le> h" using assms(3) n first by (simp_all add: lo_def)
  show "lo = startHeight s \<or> bh_CurTerm (blk lo) < tm"
  proof (cases "first \<le> startHeight s")
    case False
    then have f: "lo = h - n - 1" by (simp add: lo_def first)
    have "in_slot s (blk lo)" using assms(2,4) lo_le by (simp add: regular_chain_def)
    then have "0 \<le> slotIndex s (blk lo)" using slots_fit(1) [OF assms(1)] by (auto simp: in_slot_def slotIndex_def split: xres.splits)
    moreover have "slotIndex s (blk h) = n" using assms(7) by (simp add: slotIndex_def n_def)
    ultimately show ?thesis using regular_mono [OF assms(2) lo_le assms(4)] f slot(1) by auto
  qed (simp add: lo_def)
qed


lemma calHisValidators_term:
  assumes "well_configured s" "regular_chain s blk tip" "startHeight s < h" "h \<le> tip" "0 \<le> startHeight s" "tip < 2 ^ 62"
    and ledger: "\<And>h. startHeight s \<le> h \<Longrightarrow> h \<le> tip \<Longrightarrow> QueryBlockHeaderByHeight ledger h = Some (blk h)"
  defines "t \<equiv> \<lambda>h. bh_CurTerm (blk h)"
  shows "\<exists>h0. calHisValidators s ledger h = Some (calTopKNominator s ledger h0) \<and> startHeight s \<le> h0 \<and> h0 \<le> h \<and>
     (t (startHeight s) = t h \<longrightarrow> h0 = startHeight s) \<and>
     (t (startHeight s) < t h \<longrightarrow> h0 < h \<and> t h0 < t h \<and> t (h0 + 1) = t h)"
proof -
  have b: "in_slot s (blk h)" "bh_Height (blk h) = h" using assms(2-4) by (simp_all add: regular_chain_def)
  then obtain tm pos bp where ms: "minerScheduling s (bh_Timestamp (blk h)) = XOk (tm, pos, bp)"
    by (auto simp: in_slot_def split: xres.splits)
  define first where "first = i64 (h - i64 (pos * blockNum s + bp) - 1)"
  define lo where "lo = (if first \<le> startHeight s then startHeight s else first)"
  note lo = search_start [OF assms(1-6) ms, folded first_def, folded lo_def]
  have le: "t h1 \<le> t h2" if "startHeight s \<le> h1" "h1 \<le> h2" "h2 \<le> h" for h1 h2
    using regular_mono [OF assms(2) that(1,2)] that(3) assms(4) by (simp add: t_def)
  have "\<exists>h0. binarySearch ledger lo h tm = Some (XOk h0) \<and> lo \<le> h0 \<and> h0 \<le> h \<and>
     (t lo = tm \<longrightarrow> h0 = lo) \<and> (t lo < tm \<longrightarrow> h0 < h \<and> t h0 < tm \<and> t (h0 + 1) = tm)"
  proof (rule binarySearch_finds)
    show "0 \<le> lo" "lo \<le> h" "h < 2 ^ 62" "t h = tm" using lo assms(4-6) by (simp_all add: t_def)
    show "getTerm ledger k = XOk (t k)" if "lo \<le> k" "k \<le> h" for k
      using ledger [of k] that lo(2) assms(4) by (simp add: getTerm_def GetConsensusStorage_def t_def)
    show "t k \<le> t k'" if "lo \<le> k" "k \<le> k'" "k' \<le> h" for k k' using le that lo(2) by simp
  qed
  then obtain h0 where h0: "binarySearch ledger lo h tm = Some (XOk h0)" "lo \<le> h0" "h0 \<le> h"
      "t lo = tm \<longrightarrow> h0 = lo" "t lo < tm \<longrightarrow> h0 < h \<and> t h0 < tm \<and> t (h0 + 1) = tm" by blast
  have "calHisValidators s ledger h = Some (calTopKNominator s ledger h0)"
    using ledger [of h] assms(3,4) ms h0(1) b(2) 
    by (cases "first \<le> startHeight s") (simp_all add: calHisValidators_def Let_def first_def [symmetric] lo_def)
  moreover have "t (startHeight s) \<le> t lo" "t lo \<le> t h" using le [of "startHeight s" lo] le [of lo h] lo by simp_all
  ultimately show ?thesis using h0 lo by (intro exI [of _ h0]) (auto simp: t_def)
qed



text \<open>Two blocks in the first term and two in the second; the ledger holds no election.\<close>

definition demo_block :: "int \<Rightarrow> block_header" where
  "demo_block h = \<lparr>bh_Blockid = Some (dec_string h), bh_PreHash = Some (dec_string (h - 1)), bh_Height = h,
     bh_Timestamp = 1559021720000000000 + (if h = 1 then 4000000000 else if h = 2 then 7000000000 else if h = 3 then 25000000000 else 28000000000),
     bh_Proposer = ''a'', bh_TargetBits = 0, bh_Justify = None, bh_CurTerm = (if h \<le> 2 then 1 else 2)\<rparr>"

definition demo_rely :: ledger_rely where
  "demo_rely = \<lparr>QueryBlockHeader = (\<lambda>blockid. None), QueryBlockHeaderByHeight = (\<lambda>h. if 1 \<le> h \<and> h \<le> 4 then Some (demo_block h) else None),
     QueryTipBlockHeader = demo_block 4, CreateSnapshot = (\<lambda>blockid. Some (\<lambda>bucket key. Some None))\<rparr>"

lemma demo_chain_regular: "regular_chain demo_schedule demo_block 4"
proof -
  have s: "startHeight demo_schedule = 1" by (simp add: demo_schedule_def)
  have r: "{1..4 :: int} = {1, 2, 3, 4}" by auto
  have slots: "in_slot demo_schedule (demo_block 1)" "in_slot demo_schedule (demo_block 2)" "in_slot demo_schedule (demo_block 3)"
    "in_slot demo_schedule (demo_block 4)" by code_simp+
  have later: "later_slot demo_schedule (demo_block 1) (demo_block 2)" "later_slot demo_schedule (demo_block 2) (demo_block 3)"
    "later_slot demo_schedule (demo_block 3) (demo_block 4)" by code_simp+
  have "bh_Height (demo_block h) = h" for h by (simp add: demo_block_def)
  with slots later show ?thesis unfolding regular_chain_def s r by simp
qed



section \<open>Election\<close>

lemma tbLess_irrefl: "\<not> tbLess a a" by (simp add: tbLess_def)

lemma tbLess_trans: "tbLess a b \<Longrightarrow> tbLess b c \<Longrightarrow> tbLess a c" by (auto simp: tbLess_def split: if_splits)

lemma tbLess_asym: "tbLess a b \<Longrightarrow> \<not> tbLess b a" using tbLess_trans tbLess_irrefl by blast

lemma tbLess_linear: "a = b \<or> tbLess a b \<or> tbLess b (a :: term_ballots)"
  by (cases a; cases b) (auto simp: tbLess_def)

text \<open>Ranked: no element comes after one that it beats.\<close>

definition ranked :: "term_ballots list \<Rightarrow> bool" where
  "ranked = sorted_wrt (\<lambda>a b. tbLess a b \<or> a = b)"

lemma mset_insertStable [simp]: "mset (insertStable lt x xs) = add_mset x (mset xs)"
  by (induction xs) auto

lemma mset_sort_Stable [simp]: "mset (sort_Stable lt xs) = mset xs"
  unfolding sort_Stable_def by (induction xs) auto

lemma set_insertStable [simp]: "set (insertStable lt x xs) = insert x (set xs)"
  by (induction xs) auto

lemma ranked_insertStable: "ranked xs \<Longrightarrow> ranked (insertStable tbLess x xs)"
proof (induction xs)
  case (Cons y ys)
  then show ?case using tbLess_linear [of x y] tbLess_trans [of x y] by (auto simp: ranked_def)
qed (simp add: ranked_def)

lemma ranked_sort: "ranked (sort_Stable tbLess xs)"
  unfolding sort_Stable_def by (induction xs) (simp_all add: ranked_insertStable, simp add: ranked_def)

lemma ranked_unique: "ranked xs \<Longrightarrow> ranked ys \<Longrightarrow> mset xs = mset ys \<Longrightarrow> xs = ys"
proof (induction xs arbitrary: ys)
  case (Cons x xs)
  then obtain y ys' where ys: "ys = y # ys'" by (cases ys) auto
  have "x \<in> set ys" "y \<in> set (x # xs)" using Cons.prems(3) ys by (metis list.set_intros(1) set_mset_mset)+
  then have "x = y" using Cons.prems(1,2) tbLess_asym by (auto simp: ranked_def ys)
  then show ?case using Cons by (simp add: ys ranked_def)
qed simp


text \<open>The ballots of a candidate as the contract stored them; a candidate nobody voted for has none.\<close>

definition ballots_of :: "xpos_schedule \<Rightarrow> ledger_rely \<Rightarrow> int \<Rightarrow> string \<Rightarrow> int xres" where
  "ballots_of s ledger height c =
     xbind (getSnapshotKey ledger height (bindContractBucket s) (xposKey (consensusName s) (consensusVersion s) (voteKeyPrefix @ c)))
       (\<lambda>res. case res of None \<Rightarrow> XOk 0 | Some (VoteJson votes) \<Rightarrow> XOk (i64 (\<Sum>(from, n)\<leftarrow>votes. n)) | Some _ \<Rightarrow> XErr XErrJson)"

definition withBallots :: "(string \<Rightarrow> int) \<Rightarrow> string list \<Rightarrow> term_ballots list" where
  "withBallots bal cs = map (\<lambda>c. \<lparr>tb_Address = c, Ballots = bal c\<rparr>) (filter (\<lambda>c. 0 < bal c) cs)"

lemma candidateBallots_step:
  "candidateBallots s ledger height (c # cs) acc =
     xbind (ballots_of s ledger height c)
       (\<lambda>n. candidateBallots s ledger height cs (if n \<le> 0 then acc else acc @ [\<lparr>tb_Address = c, Ballots = n\<rparr>]))"
  by (cases "getSnapshotKey ledger height (bindContractBucket s) (xposKey (consensusName s) (consensusVersion s) (voteKeyPrefix @ c))")
    (simp_all add: ballots_of_def Let_def split: option.split payload.split)

lemma candidateBallots_withBallots:
  "(\<And>c. c \<in> set cs \<Longrightarrow> ballots_of s ledger height c = XOk (bal c)) \<Longrightarrow>
   candidateBallots s ledger height cs acc = XOk (acc @ withBallots bal cs)"
  by (induction cs arbitrary: acc) (simp_all add: candidateBallots_step withBallots_def del: candidateBallots.simps(2))

lemma candidateBallots_read:
  "candidateBallots s ledger height cs acc = XOk r \<Longrightarrow> c \<in> set cs \<Longrightarrow> \<exists>n. ballots_of s ledger height c = XOk n"
proof (induction cs arbitrary: acc)
  case (Cons d ds)
  then show ?case by (cases "ballots_of s ledger height d") (auto simp: candidateBallots_step simp del: candidateBallots.simps(2))
qed simp

lemma calTopKNominator_nominated:
  assumes "i64 (startHeight s + 3) \<le> height"
    and "getSnapshotKey ledger (i64 (height - 3)) (bindContractBucket s) (xposKey (consensusName s) (consensusVersion s) nominateKey) =
      XOk (Some (NominateJson nv))"
  shows "calTopKNominator s ledger height =
     xbind (candidateBallots s ledger (i64 (height - 3)) (map fst nv) [])
       (\<lambda>sli. if int (length sli) < proposerNum s then XOk (initValidators s)
              else XOk (collected (take (nat (proposerNum s)) (map tb_Address (sort_Stable tbLess sli)))))"
  using assms by (simp add: calTopKNominator_def)

text \<open>
  C39. The election gives the seats to the candidates with the most ballots. When the nominations and all ballots can be read
  and at least as many candidates as seats have ballots, exactly as many proposers as seats are elected, nobody twice, each of
  them nominated and with ballots, and whoever is not elected has fewer ballots than everyone elected, or as many and a
  smaller address.
\<close>

theorem election_takes_the_best:
  assumes "i64 (startHeight s + 3) \<le> height"
    and "getSnapshotKey ledger (i64 (height - 3)) (bindContractBucket s) (xposKey (consensusName s) (consensusVersion s) nominateKey) =
      XOk (Some (NominateJson nv))"
    and "distinct (map fst nv)"
    and "\<And>c. c \<in> fst ` set nv \<Longrightarrow> ballots_of s ledger (i64 (height - 3)) c = XOk (bal c)"
    and "0 < proposerNum s" "proposerNum s \<le> int (card {c \<in> fst ` set nv. 0 < bal c})"
  shows "\<exists>v. calTopKNominator s ledger height = XOk (Some v) \<and> int (length v) = proposerNum s \<and> distinct v \<and>
     set v \<subseteq> {c \<in> fst ` set nv. 0 < bal c} \<and>
     (\<forall>e c. e \<in> set v \<and> c \<in> fst ` set nv \<and> 0 < bal c \<and> c \<notin> set v \<longrightarrow> bal c < bal e \<or> bal c = bal e \<and> c < e)"
proof -
  define q where "q = withBallots bal (map fst nv)"
  define r where "r = sort_Stable tbLess q"
  define k where "k = nat (proposerNum s)"
  have addr: "map tb_Address q = filter (\<lambda>c. 0 < bal c) (map fst nv)" by (simp add: q_def withBallots_def comp_def)
  have len: "int (length q) = int (card {c \<in> fst ` set nv. 0 < bal c})"
    using distinct_card [of "map tb_Address q"] assms(3) unfolding addr by (simp add: q_def withBallots_def)
  have r: "ranked r" "mset r = mset q" by (simp_all add: r_def ranked_sort)
  then have sets: "set r = set q" "length r = length q" "mset (map tb_Address r) = mset (map tb_Address q)" using mset_eq_setD mset_eq_length by (blast, blast, simp)
  have dist: "distinct (map tb_Address r)" using mset_eq_imp_distinct_iff [OF sets(3)] assms(3) unfolding addr by simp
  have "candidateBallots s ledger (i64 (height - 3)) (map fst nv) [] = XOk q"
    using candidateBallots_withBallots [of "map fst nv" s ledger "i64 (height - 3)" bal "[]"] assms(4) by (simp add: q_def)
  moreover have k: "0 < k" "k \<le> length r" using assms(5,6) len sets(2) by (simp_all add: k_def)
  ultimately have "calTopKNominator s ledger height = XOk (Some (map tb_Address (take k r)))"
    using calTopKNominator_nominated [OF assms(1,2)] assms(6) len by (auto simp: r_def [symmetric] k_def [symmetric] collected_def take_map)
  moreover have "length (map tb_Address (take k r)) = k" using k by simp
  moreover have "distinct (map tb_Address (take k r))" using dist distinct_take [of "map tb_Address r" k] by (simp add: take_map)
  moreover have inq: "tb_Address x \<in> {c \<in> fst ` set nv. 0 < bal c} \<and> Ballots x = bal (tb_Address x)" if "x \<in> set r" for x
    using that [unfolded sets(1)] by (force simp: q_def withBallots_def)
  then have "set (map tb_Address (take k r)) \<subseteq> {c \<in> fst ` set nv. 0 < bal c}" using in_set_takeD [of _ k r] by fastforce
  moreover have "bal c < bal e \<or> bal c = bal e \<and> c < e"
    if e: "e \<in> set (map tb_Address (take k r))" and c: "c \<in> fst ` set nv" "0 < bal c" "c \<notin> set (map tb_Address (take k r))" for e c
  proof -
    obtain x where x: "x \<in> set (take k r)" "e = tb_Address x" using e by auto
    have "c \<in> set (map tb_Address q)" unfolding addr using c(1,2) by auto
    then obtain y where y: "y \<in> set r" "c = tb_Address y" using sets(1) by auto
    have "y \<in> set (drop k r)" using y c(3) set_append [of "take k r" "drop k r"] by auto
    moreover have "ranked (take k r @ drop k r)" using r(1) by simp
    ultimately have "tbLess x y \<or> x = y" using x(1) by (simp only: ranked_def sorted_wrt_append)
    moreover have "x \<noteq> y" using x y c(3) by auto
    ultimately show ?thesis using inq [OF y(1)] inq [OF in_set_takeD [OF x(1)]] x(2) y(2) by (auto simp: tbLess_def split: if_splits)
  qed
  ultimately show ?thesis using assms(5) by (intro exI [of _ "map tb_Address (take k r)"]) (simp add: k_def)
qed


lemma election_order_free:
  assumes "i64 (startHeight s + 3) \<le> height"
    and "getSnapshotKey ledger (i64 (height - 3)) (bindContractBucket s) (xposKey (consensusName s) (consensusVersion s) nominateKey) =
      XOk (Some (NominateJson nv))"
    and "getSnapshotKey ledger' (i64 (height - 3)) (bindContractBucket s) (xposKey (consensusName s) (consensusVersion s) nominateKey) =
      XOk (Some (NominateJson nv'))"
    and "mset nv = mset nv'"
    and same: "\<And>c. c \<in> fst ` set nv \<Longrightarrow> ballots_of s ledger (i64 (height - 3)) c = ballots_of s ledger' (i64 (height - 3)) c"
    and ok: "calTopKNominator s ledger height = XOk v"
  shows "calTopKNominator s ledger' height = XOk v"
proof -
  let ?h = "i64 (height - 3)"
  have sets: "set (map fst nv) = set (map fst nv')" using mset_eq_setD [OF assms(4)] by simp
  obtain r where r: "candidateBallots s ledger ?h (map fst nv) [] = XOk r"
    using ok unfolding calTopKNominator_nominated [OF assms(1,2)] by (cases "candidateBallots s ledger ?h (map fst nv) []") auto
  define bal where "bal = (\<lambda>c. case ballots_of s ledger ?h c of XOk n \<Rightarrow> n | _ \<Rightarrow> 0)"
  have read: "ballots_of s ledger ?h c = XOk (bal c)" if "c \<in> set (map fst nv)" for c
    using candidateBallots_read [OF r that] by (auto simp: bal_def)
  have "candidateBallots s ledger ?h (map fst nv) [] = XOk (withBallots bal (map fst nv))"
    using candidateBallots_withBallots [of "map fst nv" s ledger ?h bal "[]"] read by simp
  moreover have there: "candidateBallots s ledger' ?h (map fst nv') [] = XOk (withBallots bal (map fst nv'))"
    using candidateBallots_withBallots [of "map fst nv'" s ledger' ?h bal "[]"] read same sets by simp
  have perm: "mset (withBallots bal (map fst nv)) = mset (withBallots bal (map fst nv'))"
    using assms(4) by (simp add: withBallots_def)
  have "sort_Stable tbLess (withBallots bal (map fst nv)) = sort_Stable tbLess (withBallots bal (map fst nv'))"
    by (intro ranked_unique ranked_sort) (simp add: perm)
  moreover have "length (withBallots bal (map fst nv)) = length (withBallots bal (map fst nv'))" by (rule mset_eq_length [OF perm])
  ultimately show ?thesis using ok there unfolding calTopKNominator_nominated [OF assms(1,2)] calTopKNominator_nominated [OF assms(1,3)]
    by (simp split: if_splits)
qed

text \<open>
  C40. The election does not depend on the order in which a node visits the nominations: two nodes that read the same
  nominations in different orders, and the same ballots, elect the same proposers in the same order, or both fail.
\<close>

theorem election_deterministic:
  assumes "i64 (startHeight s + 3) \<le> height"
    and "getSnapshotKey ledger (i64 (height - 3)) (bindContractBucket s) (xposKey (consensusName s) (consensusVersion s) nominateKey) =
      XOk (Some (NominateJson nv))"
    and "getSnapshotKey ledger' (i64 (height - 3)) (bindContractBucket s) (xposKey (consensusName s) (consensusVersion s) nominateKey) =
      XOk (Some (NominateJson nv'))"
    and "mset nv = mset nv'"
    and "\<And>c. c \<in> fst ` set nv \<Longrightarrow> ballots_of s ledger (i64 (height - 3)) c = ballots_of s ledger' (i64 (height - 3)) c"
  shows "calTopKNominator s ledger height = XOk v \<longleftrightarrow> calTopKNominator s ledger' height = XOk v"
proof
  assume ok: "calTopKNominator s ledger height = XOk v"
  show "calTopKNominator s ledger' height = XOk v" by (rule election_order_free [OF assms(1-4) _ ok]) (rule assms(5))
next
  have "set nv = set nv'" by (rule mset_eq_setD [OF assms(4)])
  then have sym: "ballots_of s ledger' (i64 (height - 3)) c = ballots_of s ledger (i64 (height - 3)) c" if "c \<in> fst ` set nv'" for c
    using assms(5) that by metis
  assume ok: "calTopKNominator s ledger' height = XOk v"
  show "calTopKNominator s ledger height = XOk v" by (rule election_order_free [OF assms(1,3,2) assms(4) [symmetric] _ ok]) (rule sym)
qed

text \<open>Four nominated candidates, in the given order; one of them has no ballots left, two have equally many.\<close>

definition demo_reader :: "(string \<times> (string \<times> int) list) list \<Rightarrow> string \<Rightarrow> string \<Rightarrow> payload option option" where
  "demo_reader nv bucket key = Some (
     if key = ''pos_0_nominate'' then Some (NominateJson nv)
     else map_of [(''pos_0_vote_a'', VoteJson [(''x'', 5), (''y'', 4)]), (''pos_0_vote_b'', VoteJson [(''x'', 12)]),
       (''pos_0_vote_c'', VoteJson [(''y'', 9)]), (''pos_0_vote_d'', VoteJson [(''y'', 0)])] key)"

definition demo_election :: "(string \<times> (string \<times> int) list) list \<Rightarrow> ledger_rely" where
  "demo_election nv = demo_rely\<lparr>CreateSnapshot := (\<lambda>blockid. Some (demo_reader nv))\<rparr>"

definition demo_nominated :: "(string \<times> (string \<times> int) list) list" where
  "demo_nominated = [(''a'', [(''a'', 1)]), (''b'', [(''a'', 1)]), (''c'', [(''a'', 1)]), (''d'', [(''d'', 1)])]"

definition demo_ballots :: "string \<Rightarrow> int" where
  "demo_ballots c = (if c = ''b'' then 12 else if c = ''a'' \<or> c = ''c'' then 9 else 0)"

lemma demo_election_reads:
  "getSnapshotKey (demo_election nv) 1 ''$pos'' (xposKey ''pos'' 0 nominateKey) = XOk (Some (NominateJson nv))"
  "ballots_of demo_schedule (demo_election nv) 1 ''a'' = XOk (demo_ballots ''a'')"
  "ballots_of demo_schedule (demo_election nv) 1 ''b'' = XOk (demo_ballots ''b'')"
  "ballots_of demo_schedule (demo_election nv) 1 ''c'' = XOk (demo_ballots ''c'')"
  "ballots_of demo_schedule (demo_election nv) 1 ''d'' = XOk (demo_ballots ''d'')"
  by code_simp+


lemma demo_ballots_read:
  assumes "c \<in> fst ` set demo_nominated"
  shows "ballots_of demo_schedule (demo_election nv) (i64 (4 - 3)) c = XOk (demo_ballots c)"
proof -
  have "i64 (4 - 3) = 1" by code_simp
  moreover have "c \<in> {''a'', ''b'', ''c'', ''d''}" using assms by (simp add: demo_nominated_def)
  ultimately show ?thesis using demo_election_reads(2-5) by auto
qed

lemma demo_nominations_read:
  "i64 (startHeight demo_schedule + 3) \<le> 4"
  "getSnapshotKey (demo_election nv) (i64 (4 - 3)) (bindContractBucket demo_schedule)
     (xposKey (consensusName demo_schedule) (consensusVersion demo_schedule) nominateKey) = XOk (Some (NominateJson nv))"
proof -
  show "i64 (startHeight demo_schedule + 3) \<le> 4" by code_simp
  have "i64 (4 - 3) = 1" by code_simp
  then show "getSnapshotKey (demo_election nv) (i64 (4 - 3)) (bindContractBucket demo_schedule)
     (xposKey (consensusName demo_schedule) (consensusVersion demo_schedule) nominateKey) = XOk (Some (NominateJson nv))"
    using demo_election_reads(1) by (simp add: demo_schedule_def)
qed

theorem election_takes_the_best_witness:
  "\<exists>v. calTopKNominator demo_schedule (demo_election demo_nominated) 4 = XOk (Some v) \<and> length v = 3 \<and> set v \<subseteq> {''a'', ''b'', ''c''}"
proof -
  have seats: "{c \<in> fst ` set demo_nominated. 0 < demo_ballots c} = {''a'', ''b'', ''c''}" by (auto simp: demo_ballots_def demo_nominated_def)
  have "distinct (map fst demo_nominated)" "0 < proposerNum demo_schedule"
      "proposerNum demo_schedule \<le> int (card {c \<in> fst ` set demo_nominated. 0 < demo_ballots c})"
    unfolding seats by (simp_all add: demo_nominated_def demo_schedule_def)
  from election_takes_the_best [OF demo_nominations_read this(1) demo_ballots_read this(2,3)] show ?thesis
    unfolding seats by (auto simp: demo_schedule_def)
qed

theorem election_deterministic_witness:
  "calTopKNominator demo_schedule (demo_election demo_nominated) 4 = XOk (Some [''b'', ''c'', ''a'']) \<longleftrightarrow>
   calTopKNominator demo_schedule (demo_election (rev demo_nominated)) 4 = XOk (Some [''b'', ''c'', ''a''])"
  by (rule election_deterministic [OF demo_nominations_read demo_nominations_read(2)]) (simp, simp only: demo_ballots_read)

end
