(* ===== verification/Spec2Isabelle.thy ===== *)
theory Spec2Isabelle
  imports Smr Weaknesses LedgerClaims XposProofs
begin

text \<open>
  Core parts of the corechain node: its Byzantine fault tolerant consensus, the sandbox in which
  contracts run, the kernel contracts for governance, the verification of transactions, the state of
  unspent outputs and versioned keys that blocks change, and the ledger that keeps the blocks.

  \<^bold>\<open>The program.\<close> A node keeps a ledger of blocks (\<^verbatim>\<open>src/ledger\<close>): a tree of which
  the longest branch is the trunk. Blocks are agreed on by chained BFT
  (\<^verbatim>\<open>src/consensus/chainbft\<close>): a leader proposes a block together with the certificate of
  an earlier one, the validators vote for it, and a block with three certified descendants is
  final. A transaction runs contracts in a sandbox (\<^verbatim>\<open>src/contract/sandbox\<close>) that records
  what they read and write, so that other nodes can check it. Contracts of the kernel are Go
  methods in a registry (\<^verbatim>\<open>src/contract/kernel\<close>); they and the contracts of users call each
  other through the bridge (\<^verbatim>\<open>src/contract/bridge\<close>). Three kernel contracts implement
  governance (\<^verbatim>\<open>src/contract/proposal\<close>): a token, proposals that are voted on with it, and
  timer tasks that count the votes and carry out what was decided. A transaction is identified by a
  digest of its fields (\<^verbatim>\<open>src/state/txhash\<close>) that its signers sign. Before it enters the state
  it is verified (\<^verbatim>\<open>src/state/state_verify.go\<close>): its signatures, the permissions of the
  accounts it acts for (\<^verbatim>\<open>src/permission\<close>), and that its contract calls write what it says.
  The state (\<^verbatim>\<open>src/state\<close>) is a table of unspent outputs with caches in front of it
  (\<^verbatim>\<open>src/state/utxo\<close>) and a table of versioned keys (\<^verbatim>\<open>src/state/model\<close>) in a
  key-value store (\<^verbatim>\<open>src/storage\<close>). A posted transaction locks its keys, is applied to the state and waits in a
  pool; a block confirms transactions of the pool or applies new ones, pays their fees and moves the tip; a
  node that changes to another branch undoes blocks and applies others.

  \<^bold>\<open>Theories.\<close>
  \<^item> \<open>Prelude\<close>: slices, byte strings, hexadecimal names, 64-bit wrap-around, runs of a step
    relation, and the interfaces \<open>step_invariant\<close>, \<open>monotone_relation\<close> and \<open>monotone_counter\<close>.
  \<^item> \<open>Quorum\<close>: certificates and their stored form (\<^verbatim>\<open>quorum/qccert.go\<close>,
    \<^verbatim>\<open>quorum/qcstorage.go\<close>); the stored form reads back.
  \<^item> \<open>QCTree\<close>: the tree of pending certificates (\<^verbatim>\<open>quorum/qctree.go\<close>); every operation keeps
    the tree linked and its certificate pointers ancestors of each other, insertion can be
    looked up, the view of the highest certificate never falls, and a commit takes the third
    ancestor.
  \<^item> \<open>SafetyRules\<close>: thresholds, votes and proposals (\<^verbatim>\<open>safety_rules.go\<close>, \<^verbatim>\<open>pacemaker.go\<close>,
    \<^verbatim>\<open>crypto.go\<close>); what a certificate that passes is signed by, and the cases in which the
    rules are weaker than their comments.
  \<^item> \<open>Smr\<close>: the handlers of the replicated state machine (\<^verbatim>\<open>smr.go\<close>) as steps on its state;
    invariants of its runs, what a vote presupposes, that no proposal is voted for twice.
  \<^item> \<open>Sandbox\<close>: the cache of a contract run (\<^verbatim>\<open>contract/sandbox\<close>) with its in-memory model,
    iterators, token transfers and flush. It refines a plain key-value state, and its read set
    is enough to replay the run. The balanced tree below it is an interface, \<open>ordered_tree\<close>,
    interpreted on the red-black trees of the library.
  \<^item> \<open>Decimal\<close>, \<open>Base64\<close>: the texts of numbers and byte strings in Go's library.
  \<^item> \<open>Limits\<close>: resource limits and their price in gas.
  \<^item> \<open>Kernel\<close>: registry, contexts, calls between contracts, and user contracts as
    arbitrary programs over the system calls. The interface \<open>call_relation\<close> says when a
    relation between states survives nested calls.
  \<^item> \<open>GovernToken\<close>, \<open>TimerTask\<close>, \<open>Propose\<close>: the three governance contracts.
  \<^item> \<open>Governance\<close>: the three together with user contracts; the recorded supply of tokens is what
    the accounts hold, whatever is called.
  \<^item> \<open>Lifecycle\<close>: a proposal only moves forward, and a run of its contract is not interrupted by
    another one, whatever is called.
  \<^item> \<open>Locks\<close>: counting the votes passes or rejects a proposal by its threshold, and rejection
    gives back exactly what was locked.
  \<^item> \<open>Nesting\<close>: nested calls end, and 21 levels of fuel are enough for every transaction.
  \<^item> \<open>Weaknesses\<close>: a transfer clears the locks of its receiver; a contract named like a bucket
    writes balances.
  \<^item> \<open>Float64\<close>: sums and comparisons of double-precision numbers, for the weights of signers.
  \<^item> \<open>Acl\<close>: names of accounts, access control lists, the permission tree and its evaluation
    (\<^verbatim>\<open>permission/base\<close>, \<^verbatim>\<open>permission/rule\<close>, \<^verbatim>\<open>permission/utils.go\<close>).
  \<^item> \<open>AclProofs\<close>: the evaluation in reverse breadth-first order is a recursive verdict on the tree;
    an identified account is permitted by an inductive specification over lists and signers, unless a
    key stands inside a path, which is the gap the last theorem shows.
  \<^item> \<open>Transaction\<close>, \<open>TxHash\<close>: transactions and their digests. The interface \<open>code\<close> is a
    self-delimiting encoding; interpreted for each part of a transaction it shows that the digest of version 3
    determines what it covers.
  \<^item> \<open>VerifyTx\<close>: the verification of one transaction and of the transactions of a block.
  \<^item> \<open>VerifyProofs\<close>: a verified transaction is authorised in its inputs, writes and calls; and the
    cases in which it is not.
  \<^item> \<open>Kv\<close>: tables of the key-value store, ranges of keys and iterators (\<^verbatim>\<open>storage\<close>).
  \<^item> \<open>LruCache\<close>: the cache of \<^verbatim>\<open>common/cache/lru.go\<close>; it keeps to its capacity and returns what was
    stored last.
  \<^item> \<open>Utxo\<close>: unspent outputs, their caches, the check of a transaction, temporary locks, selection of outputs,
    balances (\<^verbatim>\<open>state/utxo\<close>).
  \<^item> \<open>XModel\<close>: versioned keys (\<^verbatim>\<open>state/model\<close>).
  \<^item> \<open>SpinLock\<close>: the locks of transactions (\<^verbatim>\<open>state/utxo/spin_lock.go\<close>) as threads that interleave between
    any two accesses; without shared locks no two running transactions share a key, with them a reader and a
    writer can meet.
  \<^item> \<open>StateMachine\<close>: posting, playing, undoing and walking (\<^verbatim>\<open>state/state.go\<close>).
  \<^item> \<open>UtxoFacts\<close>, \<open>StateProofs\<close>, \<open>Supply\<close>, \<open>Undo\<close>: what each step does to the amounts of outputs, to
    their sum, to the total and to the caches, composed from single writes to transactions and blocks.
  \<^item> \<open>LedgerRuns\<close>: no run of fitting steps creates or loses tokens besides the awards of blocks; a block that is undone
    leaves the amounts as they were; a block that is rejected leaves outputs behind that can be spent.
  \<^item> \<open>XposSchedule\<close>, \<open>XposProofs\<close>: the schedule of elected proposers (\<^verbatim>\<open>consensus/xpos/schedule.go\<close>):
    slots are in range and every proposer gets its turn, the proposers of a term are the same for all its blocks, and
    the election takes those with the most ballots, in whatever order a node counts.

  \<^item> \<open>Ledger\<close>: opening the ledger, confirming blocks, changing the trunk, queries, cutting back and pruning
    (\<^verbatim>\<open>ledger/ledger.go\<close>, \<^verbatim>\<open>ledger/branch_manage.go\<close>, \<^verbatim>\<open>ledger/genesis.go\<close>). The tables are maps, a batch is a
    list of writes, a loop that may not end is a partial function.
  \<^item> \<open>LedgerTrunk\<close>, \<open>LedgerProofs\<close>: the shape of the ledger (a tree of blocks, a trunk without gaps, a cache of headers that
    agrees with the tables), kept by every confirmation, also while one branch replaces another, and by every run.
  \<^item> \<open>LedgerPaths\<close>: the way between two blocks is found, and the state machine that follows it arrives.
  \<^item> \<open>LedgerPrune\<close>, \<open>LedgerTruncate\<close>: the common ancestor of two blocks is found, the change of branches after it never
    ends; cutting back removes exactly the higher blocks.
  \<^item> \<open>LedgerChain\<close>, \<open>LedgerClaims\<close>: a small chain, the properties of the ledger, and what a refused block and two cuts leave behind.

  \<^bold>\<open>Correspondence.\<close> A Go structure is a record or a datatype, a method a function with the name of
  the method, prefixed by the component where a name occurs twice. State is passed explicitly.
  Errors are values, and a panic is a value of its own. A slice is \<open>None\<close> when it is \<open>nil\<close>. Go's
  \<open>int64\<close> is \<open>int\<close> with the wrap-around written out; \<open>big.Int\<close> is \<open>int\<close>. Signatures,
  hashes, the ledger and the network behind an interface are arguments of the definitions. JSON
  texts are represented by the values they encode. A handler of the state machine is one step; what it sends is
  a list of messages in the state.

  \<^bold>\<open>Bounds.\<close> Nested calls are bounded by fuel: \<open>sys_call n\<close> allows \<open>n\<close> levels. At most ten contracts are
  called at a time, none of them twice except the timer, and a timer that is called by a timer task
  calls nothing; so 21 levels are enough (\<open>Nesting\<close>). The rollback of
  \<open>ResetProposerStatus\<close> has fuel as well, and enough of it is shown to give a result.

  \<^bold>\<open>Not modelled.\<close> Goroutines besides the threads of \<open>SpinLock\<close> (a handler runs to its end), logging, networking
  and disk storage; cryptography; generated message code and the command line. The memory pool is an argument of the state
  machine. Of the ledger, the metrics and the listings; the runs of \<open>LedgerProofs\<close> leave out the change of a
  confirmed transaction by \<open>UpdateBlockChainData\<close> and, after a refused block, continue with a restart, because the theories show
  that without it the cache and the store disagree.
\<close>

end
